(* ===== verification/QC_Prelude.thy ===== *)
theory QC_Prelude
  imports Main "HOL-Library.Word" "HOL-Library.Finite_Map" "HOL-Library.Monad_Syntax"
begin

text \<open>
  Shared vocabulary of the development: the machine integers of the Rust sources, the outcome
  type of a Rust call, the integer operators whose overflow behaviour depends on the build
  profile, decimal rendering of integers, and the list, option and finite-map lemmas that the
  component theories share.

  \<^item> A Rust call that may return \<open>Err\<close> or panic yields a \<open>res\<close>: \<open>Ok\<close>, \<open>Err\<close> or \<open>Panic\<close>.
    A call that can only panic (an \<open>expect\<close>) yields an \<open>option\<close>, where \<open>None\<close> is the panic, and
    \<open>expect\<close> embeds it into \<open>res\<close>.
  \<^item> \<open>and_then m f\<close> is \<open>let x = m?; f(x)\<close>, \<open>map_err\<close> and \<open>ok_or\<close> are the methods of that name.
  \<^item> \<open>HashMap\<close> and \<open>HashSet\<close> are the library's finite maps and finite sets.
\<close>

section \<open>Machine integers\<close>

type_synonym u8 = "8 word"
type_synonym u16 = "16 word"
type_synonym u32 = "32 word"
type_synonym u64 = "64 word"
type_synonym u128 = "128 word"
type_synonym bytes = "u8 list"

section \<open>Outcomes\<close>

datatype ('e, 'a) res = Ok 'a | Err 'e | Panic

fun and_then :: "('e, 'a) res \<Rightarrow> ('a \<Rightarrow> ('e, 'b) res) \<Rightarrow> ('e, 'b) res" where
  "and_then (Ok x) f = f x"
| "and_then (Err e) f = Err e"
| "and_then Panic f = Panic"

fun map_err :: "('e \<Rightarrow> 'f) \<Rightarrow> ('e, 'a) res \<Rightarrow> ('f, 'a) res" where
  "map_err g (Ok x) = Ok x"
| "map_err g (Err e) = Err (g e)"
| "map_err g Panic = Panic"

fun map_ok :: "('a \<Rightarrow> 'b) \<Rightarrow> ('e, 'a) res \<Rightarrow> ('e, 'b) res" where
  "map_ok g (Ok x) = Ok (g x)"
| "map_ok g (Err e) = Err e"
| "map_ok g Panic = Panic"

fun ok_or :: "'e \<Rightarrow> 'a option \<Rightarrow> ('e, 'a) res" where
  "ok_or e None = Err e"
| "ok_or e (Some x) = Ok x"

fun expect :: "'a option \<Rightarrow> ('e, 'a) res" where
  "expect None = Panic"
| "expect (Some x) = Ok x"

fun ensure :: "'e \<Rightarrow> bool \<Rightarrow> ('e, unit) res" where
  "ensure e b = (if b then Ok () else Err e)"

declare ensure.simps [simp del]

fun is_Ok :: "('e, 'a) res \<Rightarrow> bool" where
  "is_Ok (Ok x) = True"
| "is_Ok (Err e) = False"
| "is_Ok Panic = False"

named_theorems res_simps \<open>inversion of a call that returned\<close>

lemma and_then_eq_Ok [res_simps]: "and_then m f = Ok y \<longleftrightarrow> (\<exists>x. m = Ok x \<and> f x = Ok y)"
  by (cases m) auto

lemma and_then_eq_Err: "and_then m f = Err e \<longleftrightarrow> m = Err e \<or> (\<exists>x. m = Ok x \<and> f x = Err e)"
  by (cases m) auto

lemma and_then_eq_Panic: "and_then m f = Panic \<longleftrightarrow> m = Panic \<or> (\<exists>x. m = Ok x \<and> f x = Panic)"
  by (cases m) auto

lemma map_err_eq_Ok [res_simps]: "map_err g m = Ok y \<longleftrightarrow> m = Ok y"
  by (cases m) auto

lemma map_err_eq_Panic [simp]: "map_err g m = Panic \<longleftrightarrow> m = Panic"
  by (cases m) auto

lemma map_err_eq_Err: "map_err g m = Err f \<longleftrightarrow> (\<exists>e. m = Err e \<and> f = g e)"
  by (cases m) auto

lemma map_ok_eq_Ok [res_simps]: "map_ok g m = Ok y \<longleftrightarrow> (\<exists>x. m = Ok x \<and> y = g x)"
  by (cases m) auto

lemma map_ok_eq_Err [simp]: "map_ok g m = Err e \<longleftrightarrow> m = Err e"
  by (cases m) auto

lemma map_ok_eq_Panic [simp]: "map_ok g m = Panic \<longleftrightarrow> m = Panic"
  by (cases m) auto

lemma ok_or_eq_Ok [res_simps]: "ok_or e m = Ok y \<longleftrightarrow> m = Some y"
  by (cases m) auto

lemma ok_or_eq_Err: "ok_or e m = Err f \<longleftrightarrow> m = None \<and> f = e"
  by (cases m) auto

lemma ok_or_neq_Panic [simp]: "ok_or e m \<noteq> Panic" "Panic \<noteq> ok_or e m"
  by (cases m; simp)+

lemma expect_eq_Ok [res_simps]: "expect m = Ok y \<longleftrightarrow> m = Some y"
  by (cases m) auto

lemma expect_neq_Err [simp]: "expect m \<noteq> Err e" "Err e \<noteq> expect m"
  by (cases m; simp)+

lemma expect_eq_Panic [simp]: "expect m = Panic \<longleftrightarrow> m = None"
  by (cases m) auto

lemma ensure_eq_Ok [res_simps]: "ensure e b = Ok u \<longleftrightarrow> b"
  by (auto simp: ensure.simps)

lemma ensure_neq_Panic [simp]: "ensure e b \<noteq> Panic" "Panic \<noteq> ensure e b"
  by (auto simp: ensure.simps)

lemma ensure_True [simp]: "ensure e True = Ok ()"
  by (simp add: ensure.simps)

lemma ensure_False [simp]: "ensure e False = Err e"
  by (simp add: ensure.simps)

lemma ensure_eq_Err: "ensure e b = Err f \<longleftrightarrow> \<not> b \<and> f = e"
  by (auto simp: ensure.simps)

lemma and_then_assoc: "and_then (and_then m f) g = and_then m (\<lambda>x. and_then (f x) g)"
  by (cases m) auto

lemma is_Ok_iff: "is_Ok m \<longleftrightarrow> (\<exists>x. m = Ok x)"
  by (cases m) auto

lemma res_eqI: "(\<And>x. m = Ok x \<longleftrightarrow> n = Ok x) \<Longrightarrow> (\<And>e. m = Err e \<longleftrightarrow> n = Err e) \<Longrightarrow> m = n"
  by (cases m; cases n) auto

lemmas res_inv = and_then_eq_Err and_then_eq_Panic map_err_eq_Err ok_or_eq_Err ensure_eq_Err

section \<open>Integer arithmetic under a build profile\<close>

text \<open>
  Rust's \<open>+\<close> and \<open>-\<close> on machine integers panic on overflow in a build with overflow checks (the
  default of \<open>cargo build\<close>) and wrap in a build without them (the default of
  \<open>cargo build --release\<close>, which the deployment files use; the workspace sets no profile).
  The flag says which build is modelled.
\<close>

definition add_chk :: "bool \<Rightarrow> 'a::len word \<Rightarrow> 'a word \<Rightarrow> 'a word option" where
  "add_chk checks a b = (if checks \<and> 2 ^ LENGTH('a) \<le> unat a + unat b then None else Some (a + b))"

definition sub_chk :: "bool \<Rightarrow> 'a::len word \<Rightarrow> 'a word \<Rightarrow> 'a word option" where
  "sub_chk checks a b = (if checks \<and> a < b then None else Some (a - b))"

definition saturating_add :: "'a::len word \<Rightarrow> 'a word \<Rightarrow> 'a word" where
  "saturating_add a b = (if 2 ^ LENGTH('a) \<le> unat a + unat b then - 1 else a + b)"

definition saturating_sub :: "'a::len word \<Rightarrow> 'a word \<Rightarrow> 'a word" where
  "saturating_sub a b = (if a < b then 0 else a - b)"

lemma unat_add_small: "unat (a + b) = unat a + unat b"
  if "unat a + unat b < 2 ^ LENGTH('a)" for a b :: "'a::len word"
  using that by (simp add: unat_add_lem)

lemma add_chk_unchecked [simp]: "add_chk False a b = Some (a + b)"
  by (simp add: add_chk_def)

lemma sub_chk_unchecked [simp]: "sub_chk False a b = Some (a - b)"
  by (simp add: sub_chk_def)

lemma add_chk_checked: "add_chk True a b = Some c \<Longrightarrow> unat c = unat a + unat b"
  by (auto simp: add_chk_def unat_add_small split: if_splits)

lemma add_chk_SomeD: "add_chk oc a b = Some c \<Longrightarrow> c = a + b"
  by (simp add: add_chk_def split: if_splits)

lemma add_chk_exact:
  "unat a + unat b < 2 ^ LENGTH('a) \<Longrightarrow> add_chk oc a b = Some (a + b)" for a b :: "'a::len word"
  by (simp add: add_chk_def)

lemma sub_chk_SomeD: "sub_chk oc a b = Some c \<Longrightarrow> c = a - b"
  by (simp add: sub_chk_def split: if_splits)

lemma sub_chk_exact: "b \<le> a \<Longrightarrow> sub_chk oc a b = Some (a - b)"
  by (simp add: sub_chk_def not_less [symmetric])

lemma saturating_add_exact:
  "unat a + unat b < 2 ^ LENGTH('a) \<Longrightarrow> saturating_add a b = a + b" for a b :: "'a::len word"
  by (simp add: saturating_add_def)

section \<open>Decimal rendering\<close>

text \<open>The \<open>Display\<close> of an unsigned integer.\<close>

fun show_nat :: "nat \<Rightarrow> string" where
  "show_nat n =
     (if n < 10 then [char_of (48 + n)] else show_nat (n div 10) @ [char_of (48 + n mod 10)])"

declare show_nat.simps [simp del]

lemma show_nat_not_empty: "show_nat n \<noteq> []"
  by (subst show_nat.simps) simp

section \<open>Fallible loops\<close>

text \<open>
  A \<open>for\<close> loop whose body may return early with \<open>?\<close>: \<open>fold_res f xs s\<close> threads the loop state
  \<open>s\<close> through \<open>f\<close>, stopping at the first failure.
\<close>

fun fold_res :: "('a \<Rightarrow> 's \<Rightarrow> ('e, 's) res) \<Rightarrow> 'a list \<Rightarrow> 's \<Rightarrow> ('e, 's) res" where
  "fold_res f [] s = Ok s"
| "fold_res f (x # xs) s = and_then (f x s) (fold_res f xs)"

lemma fold_res_append:
  "fold_res f (xs @ ys) s = and_then (fold_res f xs s) (fold_res f ys)"
proof (induction xs arbitrary: s)
  case Nil
  then show ?case by simp
next
  case (Cons x xs)
  then show ?case by (cases "f x s") auto
qed

lemma fold_res_single: "fold_res f [x] = f x"
proof
  fix s
  show "fold_res f [x] s = f x s" by (cases "f x s") auto
qed

lemma fold_res_invariant:
  assumes "\<And>x s t. x \<in> set xs \<Longrightarrow> I s \<Longrightarrow> f x s = Ok t \<Longrightarrow> I t"
    and "fold_res f xs s = Ok t" and "I s"
  shows "I t"
  using assms
proof (induction xs arbitrary: s)
  case Nil
  then show ?case by simp
next
  case (Cons x xs)
  from Cons.prems(2) obtain u where u: "f x s = Ok u" "fold_res f xs u = Ok t"
    by (auto simp: res_simps)
  have "I u" using Cons.prems(1)[of x s u] Cons.prems(3) u(1) by simp
  then show ?case using Cons.IH [of u] Cons.prems(1) u(2) by auto
qed

lemma fold_res_visits:
  assumes "\<And>x s t. x \<in> set xs \<Longrightarrow> I s \<Longrightarrow> f x s = Ok t \<Longrightarrow> I t"
    and "fold_res f xs s = Ok t" and "I s" and "y \<in> set xs"
  shows "\<exists>u v. I u \<and> f y u = Ok v"
  using assms
proof (induction xs arbitrary: s)
  case Nil
  then show ?case by simp
next
  case (Cons x xs)
  from Cons.prems(2) obtain u where u: "f x s = Ok u" "fold_res f xs u = Ok t"
    by (auto simp: res_simps)
  show ?case
  proof (cases "y = x")
    case True
    with u(1) Cons.prems(3) show ?thesis by blast
  next
    case False
    have "I u" using Cons.prems(1)[of x s u] Cons.prems(3) u(1) by simp
    moreover have "I b" if "a \<in> set xs" "I s" "f a s = Ok b" for a s b
      using Cons.prems(1) that by (meson list.set_intros(2))
    moreover have "y \<in> set xs" using False Cons.prems(4) by simp
    ultimately show ?thesis using Cons.IH [OF _ u(2)] by blast
  qed
qed

lemma fold_res_no_panic:
  assumes "\<And>x s. x \<in> set xs \<Longrightarrow> f x s \<noteq> Panic"
  shows "fold_res f xs s \<noteq> Panic"
  using assms by (induction xs arbitrary: s) (auto simp: and_then_eq_Panic)

text \<open>The panics-only variant, and mapping a panicking function over a list in order.\<close>

fun map_option_list :: "('a \<Rightarrow> 'b option) \<Rightarrow> 'a list \<Rightarrow> 'b list option" where
  "map_option_list f [] = Some []"
| "map_option_list f (x # xs) = do {
     y \<leftarrow> f x;
     ys \<leftarrow> map_option_list f xs;
     Some (y # ys)
   }"

lemma map_option_list_eq_Some:
  "map_option_list f xs = Some ys \<longleftrightarrow> length xs = length ys \<and> (\<forall>i < length xs. f (xs ! i) = Some (ys ! i))"
proof (induction xs arbitrary: ys)
  case Nil
  then show ?case by auto
next
  case (Cons x xs)
  show ?case
  proof (cases ys)
    case Nil
    then show ?thesis by (simp add: bind_eq_Some_conv)
  next
    case (Cons y ys')
    then have "map_option_list f (x # xs) = Some ys \<longleftrightarrow> f x = Some y \<and> map_option_list f xs = Some ys'"
      by (auto simp: bind_eq_Some_conv)
    also have "\<dots> \<longleftrightarrow> length (x # xs) = length ys \<and> (\<forall>i < length (x # xs). f ((x # xs) ! i) = Some (ys ! i))"
      unfolding Cons.IH Cons by (simp add: All_less_Suc2) blast
    finally show ?thesis .
  qed
qed

lemma map_option_list_map: "(\<And>x. x \<in> set xs \<Longrightarrow> f x = Some (g x)) \<Longrightarrow> map_option_list f xs = Some (map g xs)"
  by (induction xs) auto

lemma map_option_list_None: "map_option_list f xs = None \<longleftrightarrow> (\<exists>x\<in>set xs. f x = None)"
  by (induction xs) (auto simp: bind_eq_None_conv)

lemma map_option_list_append:
  "map_option_list f (xs @ ys) = do { a \<leftarrow> map_option_list f xs; b \<leftarrow> map_option_list f ys; Some (a @ b) }"
  by (induction xs) (auto simp: Option.bind_assoc split: Option.bind_splits)

text \<open>\<open>slice::get\<close>.\<close>

definition list_get :: "'a list \<Rightarrow> nat \<Rightarrow> 'a option" where
  "list_get xs i = (if i < length xs then Some (xs ! i) else None)"

lemma list_get_eq_Some: "list_get xs i = Some x \<longleftrightarrow> i < length xs \<and> xs ! i = x"
  by (auto simp: list_get_def)

lemma list_get_eq_None [simp]: "list_get xs i = None \<longleftrightarrow> length xs \<le> i"
  by (auto simp: list_get_def)

lemma list_get_Nil [simp]: "list_get [] i = None"
  by simp

section \<open>Finite maps\<close>

text \<open>\<open>HashMap::get(..).copied().unwrap_or_default()\<close> on integer values.\<close>

definition fm_get_or_0 :: "('k, 'v::zero) fmap \<Rightarrow> 'k \<Rightarrow> 'v" where
  "fm_get_or_0 m k = (case fmlookup m k of None \<Rightarrow> 0 | Some v \<Rightarrow> v)"

lemma fm_get_or_0_empty [simp]: "fm_get_or_0 fmempty k = 0"
  by (simp add: fm_get_or_0_def)

lemma fm_get_or_0_upd [simp]:
  "fm_get_or_0 (fmupd a v m) k = (if a = k then v else fm_get_or_0 m k)"
  by (simp add: fm_get_or_0_def)

lemma fm_get_or_0_drop [simp]:
  "fm_get_or_0 (fmdrop a m) k = (if a = k then 0 else fm_get_or_0 m k)"
  by (simp add: fm_get_or_0_def)

text \<open>The sum of a measure over the entries of a finite map.\<close>

definition fm_sum :: "('k \<Rightarrow> 'v \<Rightarrow> nat) \<Rightarrow> ('k, 'v) fmap \<Rightarrow> nat" where
  "fm_sum w m = (\<Sum>k\<in>fset (fmdom m). w k (the (fmlookup m k)))"

lemma fm_sum_empty [simp]: "fm_sum w fmempty = 0"
  by (simp add: fm_sum_def)

lemma fm_sum_drop:
  "fm_sum w m = (case fmlookup m k of None \<Rightarrow> 0 | Some v \<Rightarrow> w k v) + fm_sum w (fmdrop k m)"
proof (cases "fmlookup m k")
  case None
  then have "k |\<notin>| fmdom m" by (rule fmdom_notI)
  then have "fmdrop k m = m" by (rule fmdrop_idle)
  with None show ?thesis by simp
next
  case (Some v)
  then have k: "k \<in> fset (fmdom m)" by (rule fmdomI)
  have "fm_sum w m = w k v + (\<Sum>j\<in>fset (fmdom m) - {k}. w j (the (fmlookup m j)))"
    unfolding fm_sum_def using k Some by (subst sum.remove [of _ k]) auto
  also have "(\<Sum>j\<in>fset (fmdom m) - {k}. w j (the (fmlookup m j))) = fm_sum w (fmdrop k m)"
    unfolding fm_sum_def by (rule sum.cong) auto
  finally show ?thesis using Some by simp
qed

lemma fm_sum_upd: "fm_sum w (fmupd k v m) = w k v + fm_sum w (fmdrop k m)"
  by (subst fm_sum_drop [where k = k]) (simp add: fmdrop_fmupd_same)

lemma fm_sum_drop_le: "fm_sum w (fmdrop k m) \<le> fm_sum w m"
  by (subst (2) fm_sum_drop [where k = k]) simp

lemma fm_sum_upd_le: "fm_sum w (fmupd k v m) \<le> w k v + fm_sum w m"
  using fm_sum_drop_le [of w k m] by (simp add: fm_sum_upd)

lemma fm_sum_upd_new: "fmlookup m k = None \<Longrightarrow> fm_sum w (fmupd k v m) = w k v + fm_sum w m"
  by (simp add: fm_sum_upd fmdrop_idle fmdom_notI)

end
