(* ===== verification/QC_Bytes.thy ===== *)
theory QC_Bytes
  imports QC_Prelude "HOL-Library.List_Lexorder"
begin

text \<open>
  Byte strings: the little-endian integer encodings of the standard library (\<open>to_le_bytes\<close>,
  \<open>from_le_bytes\<close>), the array type \<open>[u8; 32]\<close> with its lexicographic order, ASCII literals, and
  the interface of the consensus encoders. The interface is the locale \<open>prefix_code\<close>: an encoder
  that may panic, none of whose outputs is a proper prefix of another one. Its clients (the
  transaction, script and state-root encodings) are built by concatenation, and each of them is
  again interpreted as a prefix code by the theory that defines it.
\<close>

section \<open>Little-endian integers\<close>

fun le_digits :: "nat \<Rightarrow> nat \<Rightarrow> bytes" where
  "le_digits 0 n = []"
| "le_digits (Suc k) n = of_nat (n mod 256) # le_digits k (n div 256)"

definition to_le_bytes :: "'a::len word \<Rightarrow> bytes" where
  "to_le_bytes w = le_digits (LENGTH('a) div 8) (unat w)"

fun le_value :: "bytes \<Rightarrow> nat" where
  "le_value [] = 0"
| "le_value (b # bs) = unat b + 256 * le_value bs"

definition from_le_bytes :: "bytes \<Rightarrow> 'a::len word" where
  "from_le_bytes bs = of_nat (le_value bs)"

lemma le_digits_numeral [simp]:
  "le_digits (numeral k) n = of_nat (n mod 256) # le_digits (pred_numeral k) (n div 256)"
  by (simp only: numeral_eq_Suc [of k] le_digits.simps)

lemma length_le_digits [simp]: "length (le_digits k n) = k"
  by (induction k arbitrary: n) auto

lemma le_value_le_digits: "le_value (le_digits k n) = n mod 256 ^ k"
proof (induction k arbitrary: n)
  case 0
  then show ?case by simp
next
  case (Suc k)
  have "unat (of_nat (n mod 256) :: u8) = n mod 256"
    by (simp add: unat_of_nat)
  then show ?case
    by (simp add: Suc.IH mod_mult2_eq)
qed

lemma u8_bound: "unat (b :: u8) < 256"
  by (rule order_less_le_trans [OF unsigned_less]) simp

lemma pow_256: "(256 :: nat) ^ k = 2 ^ (8 * k)"
  by (simp add: power_mult)

lemma le_value_bound: "le_value bs < 256 ^ length bs"
proof (induction bs)
  case Nil
  then show ?case by simp
next
  case (Cons b bs)
  from Cons u8_bound [of b] show ?case by simp
qed

lemma le_digits_le_value: "le_digits (length bs) (le_value bs) = bs"
proof (induction bs)
  case Nil
  then show ?case by simp
next
  case (Cons b bs)
  note b = u8_bound [of b]
  then have "(unat b + 256 * le_value bs) div 256 = le_value bs" by simp
  moreover have "of_nat ((unat b + 256 * le_value bs) mod 256) = b"
    using b by simp
  ultimately show ?case using Cons by simp
qed

lemma length_to_le_bytes [simp]: "length (to_le_bytes (w :: 'a::len word)) = LENGTH('a) div 8"
  by (simp add: to_le_bytes_def)

lemma from_to_le_bytes [simp]:
  "from_le_bytes (to_le_bytes w) = w" if "8 dvd LENGTH('a)" for w :: "'a::len word"
proof -
  have "(256 :: nat) ^ (LENGTH('a) div 8) = 2 ^ LENGTH('a)"
    using that by (simp add: pow_256)
  then show ?thesis
    by (simp add: from_le_bytes_def to_le_bytes_def le_value_le_digits unsigned_less)
qed

lemma to_from_le_bytes:
  "to_le_bytes (from_le_bytes bs :: 'a::len word) = bs" if "8 * length bs = LENGTH('a)"
proof -
  have "le_value bs < 2 ^ LENGTH('a)"
    using le_value_bound [of bs] by (simp add: pow_256 that)
  then have "unat (of_nat (le_value bs) :: 'a word) = le_value bs"
    by (simp add: unat_of_nat)
  moreover have "LENGTH('a) div 8 = length bs" using that by linarith
  ultimately show ?thesis
    by (simp add: to_le_bytes_def from_le_bytes_def le_digits_le_value)
qed

lemma inj_to_le_bytes: "8 dvd LENGTH('a) \<Longrightarrow> inj (to_le_bytes :: 'a::len word \<Rightarrow> bytes)"
  by (rule inj_on_inverseI [where g = from_le_bytes]) simp

text \<open>An ASCII byte literal \<open>b"..."\<close>.\<close>

definition ascii :: "string \<Rightarrow> bytes" where
  "ascii s = map of_char s"

lemma length_ascii [simp]: "length (ascii s) = length s"
  by (simp add: ascii_def)

section \<open>The array type of 32 bytes\<close>

typedef hash256 = "{bs :: bytes. length bs = 32}"
  morphisms hash_slice Abs_hash256
  by (rule exI [of _ "replicate 32 0"]) simp

setup_lifting type_definition_hash256

lemma length_hash_slice [simp]: "length (hash_slice h) = 32"
  using hash_slice [of h] by simp

lemma hash_slice_inject_iff [simp]: "hash_slice a = hash_slice b \<longleftrightarrow> a = b"
  by (rule hash_slice_inject)

text \<open>\<open>[b; 32]\<close>, and \<open>try_into\<close> from a slice.\<close>

lift_definition hash_fill :: "u8 \<Rightarrow> hash256" is "\<lambda>b :: u8. replicate 32 b"
  by simp

definition hash_of_slice :: "bytes \<Rightarrow> hash256 option" where
  "hash_of_slice bs = (if length bs = 32 then Some (Abs_hash256 bs) else None)"

lemma hash_slice_fill [simp]: "hash_slice (hash_fill b) = replicate 32 b"
  by transfer simp

lemma hash_fill_eq_iff [simp]: "hash_fill a = hash_fill b \<longleftrightarrow> a = b"
  by transfer simp

lemma hash_of_slice_eq_Some: "hash_of_slice bs = Some h \<longleftrightarrow> hash_slice h = bs"
  by (auto simp: hash_of_slice_def Abs_hash256_inverse hash_slice_inverse)

instantiation hash256 :: equal
begin

definition equal_hash256 :: "hash256 \<Rightarrow> hash256 \<Rightarrow> bool" where
  "equal_hash256 a b \<longleftrightarrow> hash_slice a = hash_slice b"

instance
  by standard (simp add: equal_hash256_def)

end

text \<open>\<open>Ord\<close> for arrays is lexicographic.\<close>

instantiation hash256 :: linorder
begin

definition less_eq_hash256 :: "hash256 \<Rightarrow> hash256 \<Rightarrow> bool" where
  "a \<le> b \<longleftrightarrow> hash_slice a \<le> hash_slice b"

definition less_hash256 :: "hash256 \<Rightarrow> hash256 \<Rightarrow> bool" where
  "a < b \<longleftrightarrow> hash_slice a < hash_slice b"

instance
proof
  fix a b c :: hash256
  show "a < b \<longleftrightarrow> a \<le> b \<and> \<not> b \<le> a"
    by (simp add: less_eq_hash256_def less_hash256_def less_le_not_le)
  show "a \<le> a"
    by (simp add: less_eq_hash256_def)
  show "a \<le> b \<Longrightarrow> b \<le> c \<Longrightarrow> a \<le> c"
    unfolding less_eq_hash256_def by (rule order_trans)
  show "a \<le> b \<Longrightarrow> b \<le> a \<Longrightarrow> a = b"
    by (simp add: less_eq_hash256_def)
  show "a \<le> b \<or> b \<le> a"
    unfolding less_eq_hash256_def by (rule linear)
qed

end

section \<open>The interface of an encoder\<close>

text \<open>
  \<open>None\<close> is the panic of \<open>encode_len\<close> on a length that does not fit into \<open>u32\<close>.
\<close>

locale prefix_code =
  fixes enc :: "'a \<Rightarrow> bytes option"
  assumes prefix_free:
    "enc x = Some a \<Longrightarrow> enc y = Some b \<Longrightarrow> a @ r = b @ s \<Longrightarrow> x = y \<and> r = s"
begin

lemma code_injective: "enc x = Some a \<Longrightarrow> enc y = Some a \<Longrightarrow> x = y"
  using prefix_free [of x a y a "[]" "[]"] by blast

lemma code_cancel:
  "enc x = Some a \<Longrightarrow> enc y = Some b \<Longrightarrow> a @ r = b @ s \<longleftrightarrow> x = y \<and> r = s"
  by (rule iffI, erule (2) prefix_free) auto

lemma code_list_free:
  assumes "map_option_list enc xs = Some as" and "map_option_list enc ys = Some bs"
    and "length xs = length ys" and "concat as @ r = concat bs @ s"
  shows "xs = ys \<and> r = s"
  using assms(3,1,2,4)
proof (induction xs ys arbitrary: as bs rule: list_induct2)
  case Nil
  then show ?case by simp
next
  case (Cons x xs y ys)
  from Cons.prems obtain a as' b bs' where ab: "enc x = Some a" "map_option_list enc xs = Some as'"
    "as = a # as'" "enc y = Some b" "map_option_list enc ys = Some bs'" "bs = b # bs'"
    by (auto simp: bind_eq_Some_conv)
  with Cons.prems(3) have "a @ (concat as' @ r) = b @ (concat bs' @ s)" by simp
  from prefix_free [OF ab(1,4) this] have "x = y" "concat as' @ r = concat bs' @ s" by auto
  with Cons.IH [OF ab(2,5)] show ?case by simp
qed

lemma code_stream_free:
  assumes "map_option_list enc xs = Some as" and "map_option_list enc ys = Some bs"
    and "\<And>x. enc x \<noteq> Some []" and "concat as = concat bs"
  shows "xs = ys"
  using assms(1,2,4)
proof (induction xs arbitrary: as ys bs)
  case Nil
  then have "concat bs = []" by simp
  with Nil.prems(2) assms(3) show ?case by (cases ys) (auto simp: bind_eq_Some_conv)
next
  case (Cons x xs)
  from Cons.prems(1) obtain a as' where a: "enc x = Some a" "map_option_list enc xs = Some as'" "as = a # as'"
    by (auto simp: bind_eq_Some_conv)
  with assms(3) [of x] have "concat as \<noteq> []" by auto
  with Cons.prems(2,3) obtain y ys' b bs' where b: "ys = y # ys'" "enc y = Some b"
    "map_option_list enc ys' = Some bs'" "bs = b # bs'"
    by (cases ys) (auto simp: bind_eq_Some_conv)
  from Cons.prems(3) have "a @ concat as' = b @ concat bs'" by (simp add: a(3) b(4))
  from prefix_free [OF a(1) b(2) this] Cons.IH [OF a(2) b(3)] show ?case by (simp add: b(1))
qed

end

text \<open>An encoder of fixed width, which never panics.\<close>

locale fixed_code =
  fixes fenc :: "'a \<Rightarrow> bytes" and width :: nat
  assumes fixed_width: "length (fenc x) = width"
    and fixed_inj: "fenc x = fenc y \<Longrightarrow> x = y"
begin

lemma fixed_cancel: "fenc x @ r = fenc y @ s \<longleftrightarrow> x = y \<and> r = s"
proof
  assume eq: "fenc x @ r = fenc y @ s"
  then have "fenc x = fenc y" "r = s"
    by (simp_all add: append_eq_append_conv fixed_width)
  then show "x = y \<and> r = s" by (simp add: fixed_inj)
qed simp

lemma fixed_list_free:
  "length xs = length ys \<Longrightarrow> concat (map fenc xs) @ r = concat (map fenc ys) @ s \<Longrightarrow> xs = ys \<and> r = s"
  by (induction xs ys arbitrary: r s rule: list_induct2) (auto simp: fixed_cancel)

lemma length_fixed_list: "length (concat (map fenc xs)) = width * length xs"
  by (induction xs) (simp_all add: fixed_width)

lemma fixed_list_injective:
  assumes "0 < width" and "concat (map fenc xs) = concat (map fenc ys)"
  shows "xs = ys"
proof -
  have "width * length xs = width * length ys"
    using arg_cong [OF assms(2), of length] by (simp only: length_fixed_list)
  with assms(1) have "length xs = length ys" by simp
  with fixed_list_free [of xs ys "[]" "[]"] assms(2) show ?thesis by simp
qed

end

sublocale fixed_code \<subseteq> as_prefix: prefix_code "\<lambda>x. Some (fenc x)"
  by unfold_locales (auto simp: fixed_cancel)

interpretation byte_le: fixed_code "\<lambda>b :: u8. [b]" 1
  by unfold_locales auto

interpretation u16_le: fixed_code "to_le_bytes :: u16 \<Rightarrow> bytes" 2
  by unfold_locales (auto dest: injD [OF inj_to_le_bytes, rotated])

interpretation u32_le: fixed_code "to_le_bytes :: u32 \<Rightarrow> bytes" 4
  by unfold_locales (auto dest: injD [OF inj_to_le_bytes, rotated])

interpretation u64_le: fixed_code "to_le_bytes :: u64 \<Rightarrow> bytes" 8
  by unfold_locales (auto dest: injD [OF inj_to_le_bytes, rotated])

interpretation u128_le: fixed_code "to_le_bytes :: u128 \<Rightarrow> bytes" 16
  by unfold_locales (auto dest: injD [OF inj_to_le_bytes, rotated])

interpretation hash_code: fixed_code hash_slice 32
  by unfold_locales auto

lemmas byte_cancel = byte_le.fixed_cancel [simplified]
lemmas le_cancel = u16_le.fixed_cancel u32_le.fixed_cancel u64_le.fixed_cancel
  u128_le.fixed_cancel hash_code.fixed_cancel

section \<open>Vectors behind a u32 length\<close>

text \<open>
  \<open>encode_len\<close> of \<open>qcoin-types\<close> and \<open>qcoin-script\<close> (two private copies of the same function)
  panics when the length does not fit.
\<close>

definition encode_len :: "nat \<Rightarrow> bytes option" where
  "encode_len n = (if n < 2 ^ 32 then Some (to_le_bytes (of_nat n :: u32)) else None)"

interpretation len_code: prefix_code encode_len
proof
  fix m n a b and r s :: bytes
  assume a: "encode_len m = Some a" and b: "encode_len n = Some b" and eq: "a @ r = b @ s"
  from a have m: "m < 2 ^ 32" "a = to_le_bytes (of_nat m :: u32)"
    by (auto simp: encode_len_def split: if_splits)
  from b have n: "n < 2 ^ 32" "b = to_le_bytes (of_nat n :: u32)"
    by (auto simp: encode_len_def split: if_splits)
  from eq have w: "(of_nat m :: u32) = of_nat n" "r = s"
    unfolding m(2) n(2) le_cancel by auto
  from arg_cong [OF w(1), of unat] have "m = n"
    using m(1) n(1) by (simp add: unat_of_nat)
  with w(2) show "m = n \<and> r = s" by simp
qed

text \<open>A length followed by the elements, as \<open>encode_len(xs.len(), out); for x in xs ...\<close>.\<close>

definition encode_vec :: "('a \<Rightarrow> bytes option) \<Rightarrow> 'a list \<Rightarrow> bytes option" where
  "encode_vec enc xs = do {
     n \<leftarrow> encode_len (length xs);
     bs \<leftarrow> map_option_list enc xs;
     Some (n @ concat bs)
   }"

context prefix_code begin

lemma vec_free:
  assumes "encode_vec enc xs = Some a" and "encode_vec enc ys = Some b" and "a @ r = b @ s"
  shows "xs = ys \<and> r = s"
proof -
  from assms(1) obtain m as where a: "encode_len (length xs) = Some m"
    "map_option_list enc xs = Some as" "a = m @ concat as"
    by (auto simp: encode_vec_def bind_eq_Some_conv)
  from assms(2) obtain n bs where b: "encode_len (length ys) = Some n"
    "map_option_list enc ys = Some bs" "b = n @ concat bs"
    by (auto simp: encode_vec_def bind_eq_Some_conv)
  from assms(3) a(3) b(3) have "m @ (concat as @ r) = n @ (concat bs @ s)" by simp
  from len_code.prefix_free [OF a(1) b(1) this]
  have "length xs = length ys" "concat as @ r = concat bs @ s" by auto
  then show ?thesis by (rule code_list_free [OF a(2) b(2)])
qed

end

lemma encode_len_total: "n < 2 ^ 32 \<Longrightarrow> encode_len n = Some (to_le_bytes (of_nat n :: u32))"
  by (simp add: encode_len_def)

lemma encode_len_eq_None: "encode_len n = None \<longleftrightarrow> 2 ^ 32 \<le> n"
  by (simp add: encode_len_def not_less)

lemma encode_vec_eq_None:
  "encode_vec enc xs = None \<longleftrightarrow> 2 ^ 32 \<le> length xs \<or> (\<exists>x\<in>set xs. enc x = None)"
  by (auto simp: encode_vec_def bind_eq_None_conv encode_len_eq_None map_option_list_None)

end
