(* ===== verification/QC_Crypto.thy ===== *)
theory QC_Crypto
  imports QC_Bytes
begin

text \<open>
  \<open>qcoin-crypto\<close>: scheme identifiers, keys and signatures with their length-prefixed byte form,
  the two signature schemes and the scheme registry.

  The crates \<open>pqcrypto_dilithium\<close> and \<open>pqcrypto_falcon\<close> are not part of the repository: a
  \<open>pq_lib\<close> holds the functions of such a crate that the code calls (sizes, key generation and
  signing with their randomness as an argument, the checks of its \<open>from_bytes\<close> constructors,
  verification), and a \<open>platform\<close> holds one for each crate, the function \<open>blake3::hash\<close> and the
  overflow-check flag of the build profile. \<open>pq_lib_correct\<close> states what the crates document.

  The trait \<open>PqSignatureScheme\<close> is the record \<open>pq_scheme\<close>, its contract the locale
  \<open>signature_scheme_contract\<close>, interpreted on \<open>Dilithium2Scheme\<close> and \<open>Falcon512Scheme\<close>; the trait
  \<open>PqSchemeRegistry\<close> is the lookup function \<open>registry_get\<close>.
\<close>

section \<open>External code\<close>

record pq_lib =
  pl_public_key_bytes :: nat
  pl_secret_key_bytes :: nat
  pl_signature_bytes :: nat
  pl_keypair :: "nat \<Rightarrow> bytes \<times> bytes"
  pl_public_key_ok :: "bytes \<Rightarrow> bool"
  pl_secret_key_ok :: "bytes \<Rightarrow> bool"
  pl_signature_ok :: "bytes \<Rightarrow> bool"
  pl_detached_sign :: "nat \<Rightarrow> bytes \<Rightarrow> bytes \<Rightarrow> bytes"
  pl_verify_detached :: "bytes \<Rightarrow> bytes \<Rightarrow> bytes \<Rightarrow> bool"

record platform =
  pf_dilithium2 :: pq_lib
  pf_falcon512 :: pq_lib
  pf_blake3 :: "bytes \<Rightarrow> hash256"
  pf_overflow_checks :: bool

text \<open>
  What the signature crates document: constant sizes that fit 32 bits, key pairs and signatures of
  those sizes that the constructors accept, and signatures that verify under the matching key.
\<close>

definition pq_sizes_fit :: "pq_lib \<Rightarrow> bool" where
  "pq_sizes_fit l \<longleftrightarrow> pl_public_key_bytes l < 2 ^ 32 \<and> pl_secret_key_bytes l < 2 ^ 32
     \<and> pl_signature_bytes l < 2 ^ 32"

definition pq_lib_correct :: "pq_lib \<Rightarrow> bool" where
  "pq_lib_correct l \<longleftrightarrow> pq_sizes_fit l \<and>
     (\<forall>seed pk sk. pl_keypair l seed = (pk, sk) \<longrightarrow>
        length pk = pl_public_key_bytes l \<and> length sk = pl_secret_key_bytes l \<and>
        pl_public_key_ok l pk \<and> pl_secret_key_ok l sk \<and>
        (\<forall>rnd msg. length (pl_detached_sign l rnd msg sk) \<le> pl_signature_bytes l \<and>
           pl_signature_ok l (pl_detached_sign l rnd msg sk) \<and>
           pl_verify_detached l (pl_detached_sign l rnd msg sk) msg pk))"

section \<open>Scheme identifiers and errors\<close>

datatype signature_scheme_id = Dilithium2 | Falcon512 | Unknown u16

datatype crypto_error =
    WrongScheme
  | InvalidPublicKey
  | InvalidSecretKey
  | InvalidSignature
  | UnsupportedScheme signature_scheme_id

definition DILITHIUM2_ID :: u16 where "DILITHIUM2_ID = 1"

definition FALCON512_ID :: u16 where "FALCON512_ID = 2"

definition scheme_from_u16 :: "u16 \<Rightarrow> signature_scheme_id" where
  "scheme_from_u16 n =
     (if n = DILITHIUM2_ID then Dilithium2 else if n = FALCON512_ID then Falcon512 else Unknown n)"

fun scheme_to_u16 :: "signature_scheme_id \<Rightarrow> u16" where
  "scheme_to_u16 Dilithium2 = DILITHIUM2_ID"
| "scheme_to_u16 Falcon512 = FALCON512_ID"
| "scheme_to_u16 (Unknown n) = n"

fun scheme_display :: "signature_scheme_id \<Rightarrow> string" where
  "scheme_display Dilithium2 = ''dilithium2''"
| "scheme_display Falcon512 = ''falcon512''"
| "scheme_display (Unknown n) = ''unknown-'' @ show_nat (unat n)"

fun crypto_error_display :: "crypto_error \<Rightarrow> string" where
  "crypto_error_display WrongScheme = ''signature scheme mismatch''"
| "crypto_error_display InvalidPublicKey = ''invalid public key''"
| "crypto_error_display InvalidSecretKey = ''invalid secret key''"
| "crypto_error_display InvalidSignature = ''invalid signature''"
| "crypto_error_display (UnsupportedScheme s) = ''unsupported scheme '' @ scheme_display s"

lemma scheme_to_from_u16 [simp]: "scheme_to_u16 (scheme_from_u16 n) = n"
  by (simp add: scheme_from_u16_def)

lemma scheme_from_to_u16: "scheme_from_u16 (scheme_to_u16 s) = s \<longleftrightarrow> s \<notin> {Unknown 1, Unknown 2}"
  by (cases s) (auto simp: scheme_from_u16_def DILITHIUM2_ID_def FALCON512_ID_def)

section \<open>Keys and signatures\<close>

record public_key =
  pk_scheme :: signature_scheme_id
  pk_bytes :: bytes

record private_key =
  sk_scheme :: signature_scheme_id
  sk_bytes :: bytes

record signature =
  sig_scheme :: signature_scheme_id
  sig_bytes :: bytes

fun public_key_size :: "platform \<Rightarrow> signature_scheme_id \<Rightarrow> nat option" where
  "public_key_size pf Dilithium2 = Some (pl_public_key_bytes (pf_dilithium2 pf))"
| "public_key_size pf Falcon512 = Some (pl_public_key_bytes (pf_falcon512 pf))"
| "public_key_size pf (Unknown _) = None"

fun secret_key_size :: "platform \<Rightarrow> signature_scheme_id \<Rightarrow> nat option" where
  "secret_key_size pf Dilithium2 = Some (pl_secret_key_bytes (pf_dilithium2 pf))"
| "secret_key_size pf Falcon512 = Some (pl_secret_key_bytes (pf_falcon512 pf))"
| "secret_key_size pf (Unknown _) = None"

fun signature_size :: "platform \<Rightarrow> signature_scheme_id \<Rightarrow> nat option" where
  "signature_size pf Dilithium2 = Some (pl_signature_bytes (pf_dilithium2 pf))"
| "signature_size pf Falcon512 = Some (pl_signature_bytes (pf_falcon512 pf))"
| "signature_size pf (Unknown _) = None"

definition validate_key_size ::
  "(signature_scheme_id \<Rightarrow> nat option) \<Rightarrow> signature_scheme_id \<Rightarrow> nat \<Rightarrow> bool \<Rightarrow> crypto_error
     \<Rightarrow> (crypto_error, unit) res" where
  "validate_key_size size_fn scheme len allow_shorter mismatch_error =
     (case size_fn scheme of
        Some expected \<Rightarrow>
          if (\<not> allow_shorter \<and> expected = len) \<or> (allow_shorter \<and> len \<le> expected) then Ok ()
          else Err mismatch_error
      | None \<Rightarrow> Err (UnsupportedScheme scheme))"

definition encode_with_scheme ::
  "signature_scheme_id \<Rightarrow> (signature_scheme_id \<Rightarrow> nat option) \<Rightarrow> bytes \<Rightarrow> bool \<Rightarrow> crypto_error
     \<Rightarrow> (crypto_error, bytes) res" where
  "encode_with_scheme scheme size_fn bs allow_shorter mismatch_error =
     and_then (validate_key_size size_fn scheme (length bs) allow_shorter mismatch_error) (\<lambda>_.
       Ok (to_le_bytes (scheme_to_u16 scheme) @ to_le_bytes (of_nat (length bs) :: u32) @ bs))"

definition decode_with_scheme ::
  "bytes \<Rightarrow> crypto_error \<Rightarrow> (crypto_error, signature_scheme_id \<times> bytes) res" where
  "decode_with_scheme encoded mismatch_error =
     (if length encoded < 2 + 4 then Err mismatch_error
      else
        let scheme = scheme_from_u16 (from_le_bytes (take 2 encoded));
            len = unat (from_le_bytes (take 4 (drop 2 encoded)) :: u32)
        in if length encoded \<noteq> 2 + 4 + len then Err mismatch_error
           else Ok (scheme, drop (2 + 4) encoded))"

definition public_key_new ::
  "platform \<Rightarrow> signature_scheme_id \<Rightarrow> bytes \<Rightarrow> (crypto_error, public_key) res" where
  "public_key_new pf scheme bs =
     and_then (validate_key_size (public_key_size pf) scheme (length bs) False InvalidPublicKey)
       (\<lambda>_. Ok \<lparr>pk_scheme = scheme, pk_bytes = bs\<rparr>)"

definition public_key_to_bytes :: "platform \<Rightarrow> public_key \<Rightarrow> (crypto_error, bytes) res" where
  "public_key_to_bytes pf k =
     encode_with_scheme (pk_scheme k) (public_key_size pf) (pk_bytes k) False InvalidPublicKey"

definition public_key_from_bytes :: "platform \<Rightarrow> bytes \<Rightarrow> (crypto_error, public_key) res" where
  "public_key_from_bytes pf encoded =
     and_then (decode_with_scheme encoded InvalidPublicKey) (\<lambda>(scheme, payload).
     and_then (validate_key_size (public_key_size pf) scheme (length payload) False InvalidPublicKey)
       (\<lambda>_. Ok \<lparr>pk_scheme = scheme, pk_bytes = payload\<rparr>))"

definition private_key_new ::
  "platform \<Rightarrow> signature_scheme_id \<Rightarrow> bytes \<Rightarrow> (crypto_error, private_key) res" where
  "private_key_new pf scheme bs =
     and_then (validate_key_size (secret_key_size pf) scheme (length bs) False InvalidSecretKey)
       (\<lambda>_. Ok \<lparr>sk_scheme = scheme, sk_bytes = bs\<rparr>)"

definition private_key_to_bytes :: "platform \<Rightarrow> private_key \<Rightarrow> (crypto_error, bytes) res" where
  "private_key_to_bytes pf k =
     encode_with_scheme (sk_scheme k) (secret_key_size pf) (sk_bytes k) False InvalidSecretKey"

definition private_key_from_bytes :: "platform \<Rightarrow> bytes \<Rightarrow> (crypto_error, private_key) res" where
  "private_key_from_bytes pf encoded =
     and_then (decode_with_scheme encoded InvalidSecretKey) (\<lambda>(scheme, payload).
     and_then (validate_key_size (secret_key_size pf) scheme (length payload) False InvalidSecretKey)
       (\<lambda>_. Ok \<lparr>sk_scheme = scheme, sk_bytes = payload\<rparr>))"

definition signature_new ::
  "platform \<Rightarrow> signature_scheme_id \<Rightarrow> bytes \<Rightarrow> (crypto_error, signature) res" where
  "signature_new pf scheme bs =
     and_then (validate_key_size (signature_size pf) scheme (length bs) True InvalidSignature)
       (\<lambda>_. Ok \<lparr>sig_scheme = scheme, sig_bytes = bs\<rparr>)"

definition signature_to_bytes :: "platform \<Rightarrow> signature \<Rightarrow> (crypto_error, bytes) res" where
  "signature_to_bytes pf s =
     encode_with_scheme (sig_scheme s) (signature_size pf) (sig_bytes s) True InvalidSignature"

definition signature_from_bytes :: "platform \<Rightarrow> bytes \<Rightarrow> (crypto_error, signature) res" where
  "signature_from_bytes pf encoded =
     and_then (decode_with_scheme encoded InvalidSignature) (\<lambda>(scheme, payload).
     and_then (validate_key_size (signature_size pf) scheme (length payload) True InvalidSignature)
       (\<lambda>_. Ok \<lparr>sig_scheme = scheme, sig_bytes = payload\<rparr>))"

subsection \<open>Serde\<close>

text \<open>
  The manual \<open>Serialize\<close> and \<open>Deserialize\<close> implementations. Errors become serde errors with the
  \<open>Display\<close> text. \<open>visit_bytes\<close> and \<open>visit_byte_buf\<close> decode a byte string; \<open>visit_seq\<close> first drains
  a sequence of elements, each of which may fail to parse as \<open>u8\<close> (the JSON path).
\<close>

definition public_key_serialize :: "platform \<Rightarrow> public_key \<Rightarrow> (string, bytes) res" where
  "public_key_serialize pf k = map_err crypto_error_display (public_key_to_bytes pf k)"

definition private_key_serialize :: "platform \<Rightarrow> private_key \<Rightarrow> (string, bytes) res" where
  "private_key_serialize pf k = map_err crypto_error_display (private_key_to_bytes pf k)"

definition signature_serialize :: "platform \<Rightarrow> signature \<Rightarrow> (string, bytes) res" where
  "signature_serialize pf s = map_err crypto_error_display (signature_to_bytes pf s)"

fun drain_seq :: "(string, u8) res list \<Rightarrow> bytes \<Rightarrow> (string, bytes) res" where
  "drain_seq [] acc = Ok acc"
| "drain_seq (x # xs) acc = and_then x (\<lambda>b. drain_seq xs (acc @ [b]))"

definition public_key_visit_bytes :: "platform \<Rightarrow> bytes \<Rightarrow> (string, public_key) res" where
  "public_key_visit_bytes pf v = map_err crypto_error_display (public_key_from_bytes pf v)"

definition public_key_visit_seq :: "platform \<Rightarrow> (string, u8) res list \<Rightarrow> (string, public_key) res" where
  "public_key_visit_seq pf seq =
     and_then (drain_seq seq []) (\<lambda>bs. map_err crypto_error_display (public_key_from_bytes pf bs))"

definition private_key_visit_bytes :: "platform \<Rightarrow> bytes \<Rightarrow> (string, private_key) res" where
  "private_key_visit_bytes pf v = map_err crypto_error_display (private_key_from_bytes pf v)"

definition private_key_visit_seq :: "platform \<Rightarrow> (string, u8) res list \<Rightarrow> (string, private_key) res" where
  "private_key_visit_seq pf seq =
     and_then (drain_seq seq []) (\<lambda>bs. map_err crypto_error_display (private_key_from_bytes pf bs))"

definition signature_visit_bytes :: "platform \<Rightarrow> bytes \<Rightarrow> (string, signature) res" where
  "signature_visit_bytes pf v = map_err crypto_error_display (signature_from_bytes pf v)"

definition signature_visit_seq :: "platform \<Rightarrow> (string, u8) res list \<Rightarrow> (string, signature) res" where
  "signature_visit_seq pf seq =
     and_then (drain_seq seq []) (\<lambda>bs. map_err crypto_error_display (signature_from_bytes pf bs))"

section \<open>Signature schemes\<close>

record pq_scheme =
  ps_id :: signature_scheme_id
  ps_keygen :: "nat \<Rightarrow> (crypto_error, public_key \<times> private_key) res"
  ps_sign :: "nat \<Rightarrow> private_key \<Rightarrow> bytes \<Rightarrow> (crypto_error, signature) res"
  ps_verify :: "public_key \<Rightarrow> bytes \<Rightarrow> signature \<Rightarrow> (crypto_error, unit) res"

definition dilithium2_keygen :: "platform \<Rightarrow> nat \<Rightarrow> (crypto_error, public_key \<times> private_key) res" where
  "dilithium2_keygen pf seed =
     (case pl_keypair (pf_dilithium2 pf) seed of (pk, sk) \<Rightarrow>
        and_then (public_key_new pf Dilithium2 pk) (\<lambda>pk'.
        and_then (private_key_new pf Dilithium2 sk) (\<lambda>sk'. Ok (pk', sk'))))"

definition dilithium2_sign ::
  "platform \<Rightarrow> nat \<Rightarrow> private_key \<Rightarrow> bytes \<Rightarrow> (crypto_error, signature) res" where
  "dilithium2_sign pf rnd sk msg =
     (if sk_scheme sk \<noteq> Dilithium2 then Err WrongScheme
      else if \<not> pl_secret_key_ok (pf_dilithium2 pf) (sk_bytes sk) then Err InvalidSecretKey
      else signature_new pf Dilithium2 (pl_detached_sign (pf_dilithium2 pf) rnd msg (sk_bytes sk)))"

definition dilithium2_verify ::
  "platform \<Rightarrow> public_key \<Rightarrow> bytes \<Rightarrow> signature \<Rightarrow> (crypto_error, unit) res" where
  "dilithium2_verify pf pk msg s =
     (if pk_scheme pk \<noteq> Dilithium2 \<or> sig_scheme s \<noteq> Dilithium2 then Err WrongScheme
      else if \<not> pl_public_key_ok (pf_dilithium2 pf) (pk_bytes pk) then Err InvalidPublicKey
      else if \<not> pl_signature_ok (pf_dilithium2 pf) (sig_bytes s) then Err InvalidSignature
      else if pl_verify_detached (pf_dilithium2 pf) (sig_bytes s) msg (pk_bytes pk) then Ok ()
      else Err InvalidSignature)"

definition dilithium2_scheme :: "platform \<Rightarrow> pq_scheme" where
  "dilithium2_scheme pf =
     \<lparr>ps_id = Dilithium2, ps_keygen = dilithium2_keygen pf, ps_sign = dilithium2_sign pf,
      ps_verify = dilithium2_verify pf\<rparr>"

definition falcon512_keygen :: "platform \<Rightarrow> nat \<Rightarrow> (crypto_error, public_key \<times> private_key) res" where
  "falcon512_keygen pf seed =
     (case pl_keypair (pf_falcon512 pf) seed of (pk, sk) \<Rightarrow>
        and_then (public_key_new pf Falcon512 pk) (\<lambda>pk'.
        and_then (private_key_new pf Falcon512 sk) (\<lambda>sk'. Ok (pk', sk'))))"

definition falcon512_sign ::
  "platform \<Rightarrow> nat \<Rightarrow> private_key \<Rightarrow> bytes \<Rightarrow> (crypto_error, signature) res" where
  "falcon512_sign pf rnd sk msg =
     (if sk_scheme sk \<noteq> Falcon512 then Err WrongScheme
      else if \<not> pl_secret_key_ok (pf_falcon512 pf) (sk_bytes sk) then Err InvalidSecretKey
      else signature_new pf Falcon512 (pl_detached_sign (pf_falcon512 pf) rnd msg (sk_bytes sk)))"

definition falcon512_verify ::
  "platform \<Rightarrow> public_key \<Rightarrow> bytes \<Rightarrow> signature \<Rightarrow> (crypto_error, unit) res" where
  "falcon512_verify pf pk msg s =
     (if pk_scheme pk \<noteq> Falcon512 \<or> sig_scheme s \<noteq> Falcon512 then Err WrongScheme
      else if \<not> pl_public_key_ok (pf_falcon512 pf) (pk_bytes pk) then Err InvalidPublicKey
      else if \<not> pl_signature_ok (pf_falcon512 pf) (sig_bytes s) then Err InvalidSignature
      else if pl_verify_detached (pf_falcon512 pf) (sig_bytes s) msg (pk_bytes pk) then Ok ()
      else Err InvalidSignature)"

definition falcon512_scheme :: "platform \<Rightarrow> pq_scheme" where
  "falcon512_scheme pf =
     \<lparr>ps_id = Falcon512, ps_keygen = falcon512_keygen pf, ps_sign = falcon512_sign pf,
      ps_verify = falcon512_verify pf\<rparr>"

section \<open>The registry\<close>

type_synonym in_memory_registry = "(signature_scheme_id, pq_scheme) fmap"

definition registry_new :: in_memory_registry where
  "registry_new = fmempty"

definition registry_with_scheme :: "in_memory_registry \<Rightarrow> pq_scheme \<Rightarrow> in_memory_registry" where
  "registry_with_scheme r s = fmupd (ps_id s) s r"

definition registry_add_scheme :: "pq_scheme \<Rightarrow> in_memory_registry \<Rightarrow> in_memory_registry" where
  "registry_add_scheme s r = fmupd (ps_id s) s r"

definition registry_get :: "in_memory_registry \<Rightarrow> signature_scheme_id \<Rightarrow> pq_scheme option" where
  "registry_get r i = fmlookup r i"

definition default_registry :: "platform \<Rightarrow> in_memory_registry" where
  "default_registry pf =
     registry_with_scheme (registry_with_scheme registry_new (dilithium2_scheme pf)) (falcon512_scheme pf)"


section \<open>The byte form of keys and signatures\<close>

lemma validate_key_size_eq_Ok:
  "validate_key_size f sch n shorter e = Ok u \<longleftrightarrow>
     (\<exists>m. f sch = Some m \<and> (if shorter then n \<le> m else n = m))"
  by (auto simp: validate_key_size_def split: option.splits if_splits)

lemma validate_key_size_neq_Panic [simp]: "validate_key_size f sch n shorter e \<noteq> Panic"
  by (auto simp: validate_key_size_def split: option.splits)

lemma encode_with_scheme_eq_Ok:
  "encode_with_scheme sch f bs shorter e = Ok out \<longleftrightarrow>
     validate_key_size f sch (length bs) shorter e = Ok () \<and>
     out = to_le_bytes (scheme_to_u16 sch) @ to_le_bytes (of_nat (length bs) :: u32) @ bs"
  by (auto simp: encode_with_scheme_def res_simps)

lemma decode_with_scheme_eq_Ok:
  "decode_with_scheme out e = Ok (sch, bs) \<longleftrightarrow>
     (\<exists>n. out = to_le_bytes n @ to_le_bytes (of_nat (length bs) :: u32) @ bs
        \<and> sch = scheme_from_u16 n \<and> length bs < 2 ^ 32)" (is "?l \<longleftrightarrow> ?r")
proof
  assume ?l
  define n :: u16 where "n = from_le_bytes (take 2 out)"
  define m :: u32 where "m = from_le_bytes (take 4 (drop 2 out))"
  from \<open>?l\<close> have len: "length out = 6 + unat m" and sch: "sch = scheme_from_u16 n"
    and bs: "bs = drop 6 out"
    unfolding decode_with_scheme_def Let_def n_def [symmetric] m_def [symmetric]
    by (auto split: if_splits)
  have "take 2 out = to_le_bytes n"
    unfolding n_def by (rule to_from_le_bytes [symmetric]) (simp add: len)
  moreover have "take 4 (drop 2 out) = to_le_bytes m"
    unfolding m_def by (rule to_from_le_bytes [symmetric]) (simp add: len)
  moreover have "out = take 2 out @ take 4 (drop 2 out) @ drop 6 out"
    using append_take_drop_id [of 2 out] append_take_drop_id [of 4 "drop 2 out"] by simp
  moreover have "m = of_nat (length bs)" "length bs < 2 ^ 32"
    using len bs unsigned_less [of m] by auto
  ultimately show ?r using sch bs by metis
next
  assume ?r
  then obtain n where out: "out = to_le_bytes n @ to_le_bytes (of_nat (length bs) :: u32) @ bs"
    and "sch = scheme_from_u16 n" and "length bs < 2 ^ 32" by blast
  then show ?l
    by (simp add: decode_with_scheme_def unat_of_nat)
qed

lemma known_scheme_canonical: "f sch = Some n \<Longrightarrow> f \<in> {public_key_size pf, secret_key_size pf, signature_size pf}
    \<Longrightarrow> scheme_from_u16 (scheme_to_u16 sch) = sch"
  by (cases sch) (auto simp: scheme_from_u16_def DILITHIUM2_ID_def FALCON512_ID_def)

lemma decode_encode_with_scheme:
  assumes "f \<in> {public_key_size pf, secret_key_size pf, signature_size pf}"
    and "\<And>n. f sch = Some n \<Longrightarrow> n < 2 ^ 32"
  shows "encode_with_scheme sch f bs shorter e = Ok out \<longleftrightarrow>
    decode_with_scheme out e' = Ok (sch, bs) \<and> validate_key_size f sch (length bs) shorter e = Ok ()"
proof (cases "validate_key_size f sch (length bs) shorter e = Ok ()")
  case True
  then obtain m where m: "f sch = Some m" "length bs \<le> m"
    by (auto simp: validate_key_size_eq_Ok split: if_splits)
  then have "length bs < 2 ^ 32" "scheme_from_u16 (scheme_to_u16 sch) = sch"
    using assms(2) known_scheme_canonical [OF m(1) assms(1)] by (auto intro: order_le_less_trans)
  with True show ?thesis
    by (auto simp: encode_with_scheme_eq_Ok decode_with_scheme_eq_Ok)
next
  case False
  then show ?thesis by (auto simp: encode_with_scheme_eq_Ok)
qed

definition pq_sizes_ok :: "platform \<Rightarrow> bool" where
  "pq_sizes_ok pf \<longleftrightarrow> pq_sizes_fit (pf_dilithium2 pf) \<and> pq_sizes_fit (pf_falcon512 pf)"

lemma size_bounds:
  assumes "pq_sizes_ok pf"
  shows "public_key_size pf sch = Some n \<Longrightarrow> n < 2 ^ 32"
    and "secret_key_size pf sch = Some n \<Longrightarrow> n < 2 ^ 32"
    and "signature_size pf sch = Some n \<Longrightarrow> n < 2 ^ 32"
  using assms by (cases sch; auto simp: pq_sizes_ok_def pq_sizes_fit_def)+

lemma drain_seq_bytes [simp]: "drain_seq (map Ok bs) acc = Ok (acc @ bs)"
  by (induction bs arbitrary: acc) auto

lemma visit_seq_bytes:
  "public_key_visit_seq pf (map Ok bs) = public_key_visit_bytes pf bs"
  "private_key_visit_seq pf (map Ok bs) = private_key_visit_bytes pf bs"
  "signature_visit_seq pf (map Ok bs) = signature_visit_bytes pf bs"
  by (simp_all add: public_key_visit_seq_def public_key_visit_bytes_def private_key_visit_seq_def
      private_key_visit_bytes_def signature_visit_seq_def signature_visit_bytes_def)

section \<open>A concrete platform\<close>

text \<open>
  A platform that satisfies the hypotheses of the development, used by the witnesses: keys of one
  byte, the signature of any message is the secret key, and the digest of a byte string is
  determined by its length.
\<close>

definition sample_lib :: pq_lib where
  "sample_lib = \<lparr>pl_public_key_bytes = 1, pl_secret_key_bytes = 1, pl_signature_bytes = 1,
     pl_keypair = (\<lambda>seed. ([of_nat seed], [of_nat seed])),
     pl_public_key_ok = (\<lambda>bs. length bs = 1), pl_secret_key_ok = (\<lambda>bs. length bs = 1),
     pl_signature_ok = (\<lambda>bs. length bs \<le> 1),
     pl_detached_sign = (\<lambda>rnd msg sk. sk),
     pl_verify_detached = (\<lambda>sig msg pk. sig = pk)\<rparr>"

definition sample_platform :: "bool \<Rightarrow> platform" where
  "sample_platform oc = \<lparr>pf_dilithium2 = sample_lib, pf_falcon512 = sample_lib,
     pf_blake3 = (\<lambda>bs. hash_fill (of_nat (length bs))), pf_overflow_checks = oc\<rparr>"

lemma sample_lib_correct: "pq_lib_correct sample_lib"
  by (simp add: pq_lib_correct_def pq_sizes_fit_def sample_lib_def)

lemma sample_platform_simps [simp]:
  "pf_dilithium2 (sample_platform oc) = sample_lib"
  "pf_falcon512 (sample_platform oc) = sample_lib"
  "pf_blake3 (sample_platform oc) bs = hash_fill (of_nat (length bs))"
  "pf_overflow_checks (sample_platform oc) = oc"
  by (simp_all add: sample_platform_def)

lemma sample_sizes_ok [simp]: "pq_sizes_ok (sample_platform oc)"
  using sample_lib_correct by (simp add: pq_sizes_ok_def pq_lib_correct_def)

section \<open>The contract of a signature scheme\<close>

text \<open>
  What the clients of \<open>PqSignatureScheme\<close> (script evaluation and block validation) rely on. The
  last law needs the documented behaviour of the scheme's crate.
\<close>

locale signature_scheme_contract =
  fixes sch :: pq_scheme and lib :: pq_lib
  assumes keygen_scheme: "ps_keygen sch seed = Ok (pk, sk) \<Longrightarrow> pk_scheme pk = ps_id sch \<and> sk_scheme sk = ps_id sch"
    and sign_scheme: "ps_sign sch rnd sk msg = Ok s \<Longrightarrow> sk_scheme sk = ps_id sch \<and> sig_scheme s = ps_id sch"
    and sign_wrong_scheme: "sk_scheme sk \<noteq> ps_id sch \<Longrightarrow> ps_sign sch rnd sk msg = Err WrongScheme"
    and verify_wrong_scheme:
      "pk_scheme pk \<noteq> ps_id sch \<or> sig_scheme s \<noteq> ps_id sch \<Longrightarrow> ps_verify sch pk msg s = Err WrongScheme"
    and verify_no_panic: "ps_verify sch pk msg s \<noteq> Panic"
    and sign_no_panic: "ps_sign sch rnd sk msg \<noteq> Panic"
    and keygen_total: "pq_lib_correct lib \<Longrightarrow> \<exists>pk sk. ps_keygen sch seed = Ok (pk, sk)"
    and sign_verifies: "pq_lib_correct lib \<Longrightarrow> ps_keygen sch seed = Ok (pk, sk)
      \<Longrightarrow> \<exists>s. ps_sign sch rnd sk msg = Ok s \<and> ps_verify sch pk msg s = Ok ()"
begin

lemma verify_Ok_scheme: "ps_verify sch pk msg s = Ok u \<Longrightarrow> pk_scheme pk = ps_id sch \<and> sig_scheme s = ps_id sch"
  using verify_wrong_scheme [of pk s msg] by auto

lemma verify_cases:
  obtains "ps_verify sch pk msg s = Ok ()" | e where "ps_verify sch pk msg s = Err e"
  using verify_no_panic [of pk msg s] by (cases "ps_verify sch pk msg s") auto

lemma fresh_keys_sign:
  assumes "pq_lib_correct lib"
  obtains pk sk s where "ps_keygen sch seed = Ok (pk, sk)" "ps_sign sch rnd sk msg = Ok s"
    "ps_verify sch pk msg s = Ok ()"
  using keygen_total [OF assms] sign_verifies [OF assms] by meson

end

lemmas crypto_new_defs = public_key_new_def private_key_new_def signature_new_def

interpretation dilithium: signature_scheme_contract "dilithium2_scheme pf" "pf_dilithium2 pf" for pf
proof
  fix seed rnd pk sk msg s
  show "ps_keygen (dilithium2_scheme pf) seed = Ok (pk, sk) \<Longrightarrow>
      pk_scheme pk = ps_id (dilithium2_scheme pf) \<and> sk_scheme sk = ps_id (dilithium2_scheme pf)"
    by (auto simp: dilithium2_scheme_def dilithium2_keygen_def crypto_new_defs res_simps split: prod.splits)
  show "ps_sign (dilithium2_scheme pf) rnd sk msg = Ok s \<Longrightarrow>
      sk_scheme sk = ps_id (dilithium2_scheme pf) \<and> sig_scheme s = ps_id (dilithium2_scheme pf)"
    by (auto simp: dilithium2_scheme_def dilithium2_sign_def crypto_new_defs res_simps split: if_splits)
  show "ps_verify (dilithium2_scheme pf) pk msg s \<noteq> Panic"
    by (simp add: dilithium2_scheme_def dilithium2_verify_def)
  show "ps_sign (dilithium2_scheme pf) rnd sk msg \<noteq> Panic"
    by (simp add: dilithium2_scheme_def dilithium2_sign_def crypto_new_defs and_then_eq_Panic)
  assume lib: "pq_lib_correct (pf_dilithium2 pf)"
  show "\<exists>pk sk. ps_keygen (dilithium2_scheme pf) seed = Ok (pk, sk)"
    using lib by (auto simp: dilithium2_scheme_def dilithium2_keygen_def crypto_new_defs res_simps
        pq_lib_correct_def validate_key_size_eq_Ok split: prod.splits)
  assume "ps_keygen (dilithium2_scheme pf) seed = Ok (pk, sk)"
  with lib show "\<exists>s. ps_sign (dilithium2_scheme pf) rnd sk msg = Ok s \<and>
      ps_verify (dilithium2_scheme pf) pk msg s = Ok ()"
    by (auto simp: dilithium2_scheme_def dilithium2_keygen_def dilithium2_sign_def dilithium2_verify_def
        crypto_new_defs res_simps pq_lib_correct_def validate_key_size_eq_Ok split: prod.splits)
qed (auto simp: dilithium2_scheme_def dilithium2_sign_def dilithium2_verify_def)

interpretation falcon: signature_scheme_contract "falcon512_scheme pf" "pf_falcon512 pf" for pf
proof
  fix seed rnd pk sk msg s
  show "ps_keygen (falcon512_scheme pf) seed = Ok (pk, sk) \<Longrightarrow>
      pk_scheme pk = ps_id (falcon512_scheme pf) \<and> sk_scheme sk = ps_id (falcon512_scheme pf)"
    by (auto simp: falcon512_scheme_def falcon512_keygen_def crypto_new_defs res_simps split: prod.splits)
  show "ps_sign (falcon512_scheme pf) rnd sk msg = Ok s \<Longrightarrow>
      sk_scheme sk = ps_id (falcon512_scheme pf) \<and> sig_scheme s = ps_id (falcon512_scheme pf)"
    by (auto simp: falcon512_scheme_def falcon512_sign_def crypto_new_defs res_simps split: if_splits)
  show "ps_verify (falcon512_scheme pf) pk msg s \<noteq> Panic"
    by (simp add: falcon512_scheme_def falcon512_verify_def)
  show "ps_sign (falcon512_scheme pf) rnd sk msg \<noteq> Panic"
    by (simp add: falcon512_scheme_def falcon512_sign_def crypto_new_defs and_then_eq_Panic)
  assume lib: "pq_lib_correct (pf_falcon512 pf)"
  show "\<exists>pk sk. ps_keygen (falcon512_scheme pf) seed = Ok (pk, sk)"
    using lib by (auto simp: falcon512_scheme_def falcon512_keygen_def crypto_new_defs res_simps
        pq_lib_correct_def validate_key_size_eq_Ok split: prod.splits)
  assume "ps_keygen (falcon512_scheme pf) seed = Ok (pk, sk)"
  with lib show "\<exists>s. ps_sign (falcon512_scheme pf) rnd sk msg = Ok s \<and>
      ps_verify (falcon512_scheme pf) pk msg s = Ok ()"
    by (auto simp: falcon512_scheme_def falcon512_keygen_def falcon512_sign_def falcon512_verify_def
        crypto_new_defs res_simps pq_lib_correct_def validate_key_size_eq_Ok split: prod.splits)
qed (auto simp: falcon512_scheme_def falcon512_sign_def falcon512_verify_def)

text \<open>The default registry offers exactly the two schemes, each under its own identifier.\<close>

lemma default_registry_get:
  "registry_get (default_registry pf) i =
     (case i of Dilithium2 \<Rightarrow> Some (dilithium2_scheme pf) | Falcon512 \<Rightarrow> Some (falcon512_scheme pf)
      | Unknown _ \<Rightarrow> None)"
  by (cases i) (auto simp: registry_get_def default_registry_def registry_with_scheme_def registry_new_def
      dilithium2_scheme_def falcon512_scheme_def)

lemma default_registry_cases:
  assumes "registry_get (default_registry pf) i = Some sch"
  obtains "i = Dilithium2" "sch = dilithium2_scheme pf" | "i = Falcon512" "sch = falcon512_scheme pf"
  using assms by (cases i) (auto simp: default_registry_get)

lemma default_registry_id: "registry_get (default_registry pf) i = Some sch \<Longrightarrow> ps_id sch = i"
  by (erule default_registry_cases) (simp_all add: dilithium2_scheme_def falcon512_scheme_def)

lemma default_registry_signs:
  assumes "registry_get (default_registry pf) i = Some sch" and "pq_lib_correct (pf_dilithium2 pf)"
    and "pq_lib_correct (pf_falcon512 pf)" and "ps_keygen sch seed = Ok (pk, sk)"
  shows "\<exists>s. ps_sign sch rnd sk msg = Ok s \<and> sig_scheme s = i \<and> ps_verify sch pk msg s = Ok ()"
  using assms(1)
proof (cases rule: default_registry_cases)
  case 1
  obtain s where "ps_sign sch rnd sk msg = Ok s" "ps_verify sch pk msg s = Ok ()"
    using dilithium.sign_verifies [OF assms(2) assms(4) [unfolded 1(2)]] 1(2) by blast
  then show ?thesis using dilithium.sign_scheme [of pf rnd sk msg s] default_registry_id [OF assms(1)] 1(2) by auto
next
  case 2
  obtain s where "ps_sign sch rnd sk msg = Ok s" "ps_verify sch pk msg s = Ok ()"
    using falcon.sign_verifies [OF assms(3) assms(4) [unfolded 2(2)]] 2(2) by blast
  then show ?thesis using falcon.sign_scheme [of pf rnd sk msg s] default_registry_id [OF assms(1)] 2(2) by auto
qed

lemma default_registry_verify_no_panic:
  "registry_get (default_registry pf) i = Some sch \<Longrightarrow> ps_verify sch pk msg s \<noteq> Panic"
  by (erule default_registry_cases) (simp_all add: dilithium.verify_no_panic falcon.verify_no_panic)

lemma default_registry_verify_scheme:
  "registry_get (default_registry pf) i = Some sch \<Longrightarrow> ps_verify sch pk msg s = Ok u
     \<Longrightarrow> pk_scheme pk = i \<and> sig_scheme s = i"
  by (frule default_registry_id, erule default_registry_cases)
    (use dilithium.verify_Ok_scheme falcon.verify_Ok_scheme in \<open>metis+\<close>)

lemma from_bytes_iff_to_bytes:
  assumes "pq_sizes_ok pf"
  shows "(public_key_from_bytes pf out = Ok k \<longleftrightarrow> public_key_to_bytes pf k = Ok out) \<and>
         (private_key_from_bytes pf out = Ok sk \<longleftrightarrow> private_key_to_bytes pf sk = Ok out) \<and>
         (signature_from_bytes pf out = Ok s \<longleftrightarrow> signature_to_bytes pf s = Ok out)"
proof (intro conjI)
  show "public_key_from_bytes pf out = Ok k \<longleftrightarrow> public_key_to_bytes pf k = Ok out"
    using decode_encode_with_scheme [of "public_key_size pf" pf "pk_scheme k", OF _ size_bounds(1) [OF assms]]
    by (cases k) (auto simp: public_key_from_bytes_def public_key_to_bytes_def res_simps split: prod.splits)
  show "private_key_from_bytes pf out = Ok sk \<longleftrightarrow> private_key_to_bytes pf sk = Ok out"
    using decode_encode_with_scheme [of "secret_key_size pf" pf "sk_scheme sk", OF _ size_bounds(2) [OF assms]]
    by (cases sk) (auto simp: private_key_from_bytes_def private_key_to_bytes_def res_simps split: prod.splits)
  show "signature_from_bytes pf out = Ok s \<longleftrightarrow> signature_to_bytes pf s = Ok out"
    using decode_encode_with_scheme [of "signature_size pf" pf "sig_scheme s", OF _ size_bounds(3) [OF assms]]
    by (cases s) (auto simp: signature_from_bytes_def signature_to_bytes_def res_simps split: prod.splits)
qed

section \<open>Properties\<close>

text \<open>The byte form of keys and signatures is canonical: decoding accepts a byte string with a
  given result exactly if encoding that result yields the byte string, for public keys, private
  keys and signatures.\<close>

theorem key_bytes_canonical:
  assumes "pq_sizes_ok pf"
  shows "(public_key_from_bytes pf out = Ok k \<longleftrightarrow> public_key_to_bytes pf k = Ok out) \<and>
         (private_key_from_bytes pf out = Ok sk \<longleftrightarrow> private_key_to_bytes pf sk = Ok out) \<and>
         (signature_from_bytes pf out = Ok s \<longleftrightarrow> signature_to_bytes pf s = Ok out)"
  by (rule from_bytes_iff_to_bytes [OF assms])

theorem key_bytes_canonical_witness:
  "public_key_from_bytes (sample_platform True) [1, 0, 1, 0, 0, 0, 7] = Ok \<lparr>pk_scheme = Dilithium2, pk_bytes = [7]\<rparr>"
proof -
  have "public_key_to_bytes (sample_platform True) \<lparr>pk_scheme = Dilithium2, pk_bytes = [7]\<rparr>
      = Ok [1, 0, 1, 0, 0, 0, 7]"
    by (simp add: public_key_to_bytes_def encode_with_scheme_def validate_key_size_def sample_lib_def
        DILITHIUM2_ID_def to_le_bytes_def)
  then show ?thesis
    using key_bytes_canonical [OF sample_sizes_ok, of True "[1, 0, 1, 0, 0, 0, 7]"
        "\<lparr>pk_scheme = Dilithium2, pk_bytes = [7]\<rparr>"] by blast
qed

text \<open>Serde round trip: what \<open>Serialize\<close> produces is read back by \<open>visit_bytes\<close> and, as a sequence
  of byte elements (the JSON form), by \<open>visit_seq\<close>; a sequence with an unreadable element is rejected
  with that element's error.\<close>

theorem serde_roundtrip:
  assumes "pq_sizes_ok pf" and "public_key_serialize pf k = Ok pkb" and "signature_serialize pf s = Ok sb"
  shows "public_key_visit_bytes pf pkb = Ok k \<and> public_key_visit_seq pf (map Ok pkb) = Ok k \<and>
         signature_visit_bytes pf sb = Ok s \<and> signature_visit_seq pf (map Ok sb) = Ok s \<and>
         public_key_visit_seq pf (map Ok pkb @ Err e # rest) = Err e"
proof -
  have drain: "drain_seq (map Ok bs @ Err e # rest) acc = Err e" for bs acc
    by (induction bs arbitrary: acc) auto
  from assms from_bytes_iff_to_bytes [OF assms(1)] show ?thesis
    unfolding visit_seq_bytes
    by (simp add: public_key_serialize_def signature_serialize_def public_key_visit_bytes_def
        signature_visit_bytes_def res_simps public_key_visit_seq_def drain)
qed

theorem serde_roundtrip_witness:
  "public_key_visit_seq (sample_platform True) (map Ok [1, 0, 1, 0, 0, 0, 7]) = Ok \<lparr>pk_scheme = Dilithium2, pk_bytes = [7]\<rparr>"
proof -
  have pk: "public_key_serialize (sample_platform True) \<lparr>pk_scheme = Dilithium2, pk_bytes = [7]\<rparr>
      = Ok [1, 0, 1, 0, 0, 0, 7]"
    by (simp add: public_key_serialize_def public_key_to_bytes_def encode_with_scheme_def
        validate_key_size_def sample_lib_def DILITHIUM2_ID_def to_le_bytes_def)
  have sg: "signature_serialize (sample_platform True) \<lparr>sig_scheme = Falcon512, sig_bytes = []\<rparr>
      = Ok [2, 0, 0, 0, 0, 0]"
    by (simp add: signature_serialize_def signature_to_bytes_def encode_with_scheme_def
        validate_key_size_def sample_lib_def FALCON512_ID_def to_le_bytes_def)
  from serde_roundtrip [OF sample_sizes_ok pk sg] show ?thesis by blast
qed

text \<open>Every registered scheme signs and verifies: for the scheme the default registry returns for an
  identifier, key generation succeeds, signing with the generated key succeeds and the signature
  verifies under the generated public key; keys and signature carry the identifier.\<close>

theorem registry_sign_verify:
  assumes "registry_get (default_registry pf) i = Some sch"
    and "pq_lib_correct (pf_dilithium2 pf)" and "pq_lib_correct (pf_falcon512 pf)"
  shows "\<exists>pk sk s. ps_keygen sch seed = Ok (pk, sk) \<and> ps_sign sch rnd sk msg = Ok s \<and>
    ps_verify sch pk msg s = Ok () \<and> pk_scheme pk = i \<and> sk_scheme sk = i \<and> sig_scheme s = i"
  using assms(1)
proof (cases rule: default_registry_cases)
  case 1
  obtain pk sk s where "ps_keygen (dilithium2_scheme pf) seed = Ok (pk, sk)"
    "ps_sign (dilithium2_scheme pf) rnd sk msg = Ok s" "ps_verify (dilithium2_scheme pf) pk msg s = Ok ()"
    by (rule dilithium.fresh_keys_sign [OF assms(2)])
  with 1 show ?thesis
    using dilithium.keygen_scheme dilithium.sign_scheme default_registry_id [OF assms(1)] by metis
next
  case 2
  obtain pk sk s where "ps_keygen (falcon512_scheme pf) seed = Ok (pk, sk)"
    "ps_sign (falcon512_scheme pf) rnd sk msg = Ok s" "ps_verify (falcon512_scheme pf) pk msg s = Ok ()"
    by (rule falcon.fresh_keys_sign [OF assms(3)])
  with 2 show ?thesis
    using falcon.keygen_scheme falcon.sign_scheme default_registry_id [OF assms(1)] by metis
qed

theorem registry_sign_verify_witness:
  "\<exists>pk sk s. ps_keygen (falcon512_scheme (sample_platform True)) 5 = Ok (pk, sk)
     \<and> ps_sign (falcon512_scheme (sample_platform True)) 0 sk [1, 2] = Ok s
     \<and> ps_verify (falcon512_scheme (sample_platform True)) pk [1, 2] s = Ok ()"
proof -
  have "registry_get (default_registry (sample_platform True)) Falcon512 = Some (falcon512_scheme (sample_platform True))"
    by (simp add: default_registry_get)
  from registry_sign_verify [OF this, of 5 0 "[1, 2]"] sample_lib_correct show ?thesis
    by simp metis
qed

text \<open>A scheme refuses foreign keys and signatures: with the scheme registered under an identifier,
  signing with a key of another scheme, and verifying when the key or the signature belongs to
  another scheme, both end in \<open>WrongScheme\<close>.\<close>

theorem registry_wrong_scheme:
  assumes "registry_get (default_registry pf) i = Some sch"
  shows "(sk_scheme sk \<noteq> i \<longrightarrow> ps_sign sch rnd sk msg = Err WrongScheme) \<and>
         (pk_scheme pk \<noteq> i \<or> sig_scheme s \<noteq> i \<longrightarrow> ps_verify sch pk msg s = Err WrongScheme)"
  using assms default_registry_id [OF assms]
  by (cases rule: default_registry_cases)
    (auto simp: dilithium.sign_wrong_scheme dilithium.verify_wrong_scheme
      falcon.sign_wrong_scheme falcon.verify_wrong_scheme)

theorem registry_wrong_scheme_witness:
  "ps_verify (dilithium2_scheme (sample_platform True)) \<lparr>pk_scheme = Dilithium2, pk_bytes = [1]\<rparr> [9]
     \<lparr>sig_scheme = Falcon512, sig_bytes = [1]\<rparr> = Err WrongScheme"
proof -
  have "registry_get (default_registry (sample_platform True)) Dilithium2 = Some (dilithium2_scheme (sample_platform True))"
    by (simp add: default_registry_get)
  from registry_wrong_scheme [OF this, where pk = "\<lparr>pk_scheme = Dilithium2, pk_bytes = [1]\<rparr>"
      and s = "\<lparr>sig_scheme = Falcon512, sig_bytes = [1]\<rparr>"] show ?thesis by simp
qed

text \<open>The values the library's constructors make, from parts, from bytes and through serde, and those that key
  generation and signing give.\<close>

inductive built_public_key :: "platform \<Rightarrow> public_key \<Rightarrow> bool" for pf where
  "public_key_new pf i bs = Ok k \<Longrightarrow> built_public_key pf k"
| "public_key_from_bytes pf bs = Ok k \<Longrightarrow> built_public_key pf k"
| "public_key_visit_bytes pf bs = Ok k \<Longrightarrow> built_public_key pf k"
| "public_key_visit_seq pf xs = Ok k \<Longrightarrow> built_public_key pf k"
| "registry_get (default_registry pf) i = Some sch \<Longrightarrow> ps_keygen sch seed = Ok (k, sk) \<Longrightarrow> built_public_key pf k"

inductive built_private_key :: "platform \<Rightarrow> private_key \<Rightarrow> bool" for pf where
  "private_key_new pf i bs = Ok k \<Longrightarrow> built_private_key pf k"
| "private_key_from_bytes pf bs = Ok k \<Longrightarrow> built_private_key pf k"
| "private_key_visit_bytes pf bs = Ok k \<Longrightarrow> built_private_key pf k"
| "private_key_visit_seq pf xs = Ok k \<Longrightarrow> built_private_key pf k"
| "registry_get (default_registry pf) i = Some sch \<Longrightarrow> ps_keygen sch seed = Ok (pk, k) \<Longrightarrow> built_private_key pf k"

inductive built_signature :: "platform \<Rightarrow> signature \<Rightarrow> bool" for pf where
  "signature_new pf i bs = Ok s \<Longrightarrow> built_signature pf s"
| "signature_from_bytes pf bs = Ok s \<Longrightarrow> built_signature pf s"
| "signature_visit_bytes pf bs = Ok s \<Longrightarrow> built_signature pf s"
| "signature_visit_seq pf xs = Ok s \<Longrightarrow> built_signature pf s"
| "registry_get (default_registry pf) i = Some sch \<Longrightarrow> ps_sign sch rnd sk msg = Ok s \<Longrightarrow> built_signature pf s"

lemmas crypto_constructors = public_key_new_def public_key_from_bytes_def public_key_visit_bytes_def public_key_visit_seq_def
  private_key_new_def private_key_from_bytes_def private_key_visit_bytes_def private_key_visit_seq_def
  signature_new_def signature_from_bytes_def signature_visit_bytes_def signature_visit_seq_def

lemmas scheme_operations = dilithium2_scheme_def dilithium2_keygen_def dilithium2_sign_def
  falcon512_scheme_def falcon512_keygen_def falcon512_sign_def

lemma keygen_sized:
  assumes "registry_get (default_registry pf) i = Some sch" and "ps_keygen sch seed = Ok (pk, sk)"
  shows "public_key_size pf (pk_scheme pk) = Some (length (pk_bytes pk))"
    and "secret_key_size pf (sk_scheme sk) = Some (length (sk_bytes sk))"
  using assms(1) by (cases rule: default_registry_cases; insert assms(2);
    auto simp: scheme_operations crypto_constructors res_simps validate_key_size_eq_Ok split: prod.splits)+

lemma sign_sized:
  assumes "registry_get (default_registry pf) i = Some sch" and "ps_sign sch rnd sk msg = Ok s"
  shows "\<exists>n. signature_size pf (sig_scheme s) = Some n \<and> length (sig_bytes s) \<le> n"
  using assms(1) by (cases rule: default_registry_cases; insert assms(2);
    auto simp: scheme_operations crypto_constructors res_simps validate_key_size_eq_Ok split: if_splits)

lemma built_public_key_iff:
  "built_public_key pf k \<longleftrightarrow> public_key_size pf (pk_scheme k) = Some (length (pk_bytes k))"
proof
  assume "built_public_key pf k"
  then show "public_key_size pf (pk_scheme k) = Some (length (pk_bytes k))"
    by (cases rule: built_public_key.cases)
      (auto simp: crypto_constructors scheme_operations res_simps validate_key_size_eq_Ok split: prod.splits
        dest: keygen_sized)
next
  assume "public_key_size pf (pk_scheme k) = Some (length (pk_bytes k))"
  then have "public_key_new pf (pk_scheme k) (pk_bytes k) = Ok k"
    by (auto simp: public_key_new_def res_simps validate_key_size_eq_Ok)
  then show "built_public_key pf k" by (rule built_public_key.intros)
qed

lemma built_private_key_iff:
  "built_private_key pf k \<longleftrightarrow> secret_key_size pf (sk_scheme k) = Some (length (sk_bytes k))"
proof
  assume "built_private_key pf k"
  then show "secret_key_size pf (sk_scheme k) = Some (length (sk_bytes k))"
    by (cases rule: built_private_key.cases)
      (auto simp: crypto_constructors scheme_operations res_simps validate_key_size_eq_Ok split: prod.splits
        dest: keygen_sized)
next
  assume "secret_key_size pf (sk_scheme k) = Some (length (sk_bytes k))"
  then have "private_key_new pf (sk_scheme k) (sk_bytes k) = Ok k"
    by (auto simp: private_key_new_def res_simps validate_key_size_eq_Ok)
  then show "built_private_key pf k" by (rule built_private_key.intros)
qed

lemma built_signature_iff:
  "built_signature pf s \<longleftrightarrow> (\<exists>n. signature_size pf (sig_scheme s) = Some n \<and> length (sig_bytes s) \<le> n)"
proof
  assume "built_signature pf s"
  then show "\<exists>n. signature_size pf (sig_scheme s) = Some n \<and> length (sig_bytes s) \<le> n"
    by (cases rule: built_signature.cases)
      (auto simp: crypto_constructors scheme_operations res_simps validate_key_size_eq_Ok split: prod.splits if_splits
        dest: sign_sized)
next
  assume "\<exists>n. signature_size pf (sig_scheme s) = Some n \<and> length (sig_bytes s) \<le> n"
  then have "signature_new pf (sig_scheme s) (sig_bytes s) = Ok s"
    by (auto simp: signature_new_def res_simps validate_key_size_eq_Ok)
  then show "built_signature pf s" by (rule built_signature.intros)
qed

text \<open>C39. Keys and signatures are well typed: whatever way the library makes one (from parts, from bytes, through
  serde, by key generation or by signing), its scheme is a known one and its length is the one of that
  scheme, at most that for a signature; these are all such values; and exactly these serialize.\<close>

theorem keys_well_typed:
  "(built_public_key pf k \<longleftrightarrow> public_key_size pf (pk_scheme k) = Some (length (pk_bytes k))) \<and>
   (built_private_key pf sk \<longleftrightarrow> secret_key_size pf (sk_scheme sk) = Some (length (sk_bytes sk))) \<and>
   (built_signature pf s \<longleftrightarrow> (\<exists>n. signature_size pf (sig_scheme s) = Some n \<and> length (sig_bytes s) \<le> n)) \<and>
   (is_Ok (public_key_serialize pf k) \<longleftrightarrow> built_public_key pf k) \<and>
   (is_Ok (private_key_serialize pf sk) \<longleftrightarrow> built_private_key pf sk) \<and>
   (is_Ok (signature_serialize pf s) \<longleftrightarrow> built_signature pf s)"
  unfolding built_public_key_iff built_private_key_iff built_signature_iff
  by (auto simp: is_Ok_iff public_key_serialize_def private_key_serialize_def signature_serialize_def res_simps
      public_key_to_bytes_def private_key_to_bytes_def signature_to_bytes_def encode_with_scheme_eq_Ok validate_key_size_eq_Ok)

end
