(* ===== verification/QC_Types.thy ===== *)
theory QC_Types
  imports QC_Crypto
begin

text \<open>
  \<open>qcoin-types\<close>: blocks, transactions, outputs and assets, the consensus encoders of
  \<open>consensus_codec\<close>, and the identifiers computed from them (\<open>tx_id\<close>, \<open>sighash\<close>,
  \<open>derive_asset_id\<close>). Every encoder is interpreted as a \<open>prefix_code\<close> or \<open>fixed_code\<close>, so equal
  preimages mean equal data. An encoder that contains \<open>encode_len\<close> yields an \<open>option\<close>, \<open>None\<close>
  being its panic.
\<close>

section \<open>Data\<close>

record block_header =
  bh_parent_hash :: hash256
  bh_state_root :: hash256
  bh_tx_root :: hash256
  bh_height :: u64
  bh_timestamp :: u64

datatype asset_kind = Fungible | NonFungible | SemiFungible

datatype asset_id = AssetId (asset_id_hash: hash256)

record asset_definition =
  ad_issuer_script_hash :: hash256
  ad_metadata_root :: hash256
  ad_max_supply :: "u128 option"
  ad_decimals :: u8
  ad_kind :: asset_kind

record asset_amount =
  aa_asset_id :: asset_id
  aa_amount :: u128

record tx_output =
  out_owner_script_hash :: hash256
  out_assets :: "asset_amount list"
  out_metadata_hash :: "hash256 option"

record transaction_input =
  ti_tx_id :: hash256
  ti_index :: u32

datatype transaction_kind =
    Transfer
  | CreateAsset asset_definition u128

record transaction_core =
  tc_kind :: transaction_kind
  tc_inputs :: "transaction_input list"
  tc_outputs :: "tx_output list"

record transaction_witness =
  tw_inputs :: "bytes list"

record transaction =
  tx_core :: transaction_core
  tx_witness :: transaction_witness

record block =
  b_header :: block_header
  b_transactions :: "transaction list"
  b_proposer_public_key :: public_key
  b_signature :: signature

datatype sighash_flags = SighashFlags u32

text \<open>\<open>Default\<close> of the witness and of the flags.\<close>

definition default_transaction_witness :: transaction_witness where
  "default_transaction_witness = \<lparr>tw_inputs = []\<rparr>"

definition default_sighash_flags :: sighash_flags where
  "default_sighash_flags = SighashFlags 0"

text \<open>Asset identifiers are ordered by their bytes (\<open>state_root\<close> sorts by \<open>a.0\<close>).\<close>

instantiation asset_id :: linorder
begin

definition less_eq_asset_id :: "asset_id \<Rightarrow> asset_id \<Rightarrow> bool" where
  "a \<le> b \<longleftrightarrow> asset_id_hash a \<le> asset_id_hash b"

definition less_asset_id :: "asset_id \<Rightarrow> asset_id \<Rightarrow> bool" where
  "a < b \<longleftrightarrow> asset_id_hash a < asset_id_hash b"

instance
  by standard (auto simp: less_eq_asset_id_def less_asset_id_def asset_id.expand)

end

section \<open>The reserved native asset\<close>

lift_definition qcoin_asset_id_bytes :: hash256 is
  "(replicate 32 (0 :: u8))[0 := of_char CHR ''l'', 1 := of_char CHR ''o'', 2 := of_char CHR ''a'',
     3 := of_char CHR ''d'', 4 := of_char CHR ''n'', 5 := of_char CHR ''g'', 6 := of_char CHR ''o'']"
  by simp

definition QCOIN_ASSET_ID :: asset_id where
  "QCOIN_ASSET_ID = AssetId qcoin_asset_id_bytes"

definition is_qcoin_asset_id :: "asset_id \<Rightarrow> bool" where
  "is_qcoin_asset_id a \<longleftrightarrow> asset_id_hash a = asset_id_hash QCOIN_ASSET_ID"

lemma is_qcoin_asset_id_iff: "is_qcoin_asset_id a \<longleftrightarrow> a = QCOIN_ASSET_ID"
  by (auto simp: is_qcoin_asset_id_def asset_id.expand)

section \<open>The consensus encoders\<close>

definition encode_hash :: "hash256 \<Rightarrow> bytes" where
  "encode_hash h = hash_slice h"

definition encode_transaction_input :: "transaction_input \<Rightarrow> bytes" where
  "encode_transaction_input i = encode_hash (ti_tx_id i) @ to_le_bytes (ti_index i)"

definition encode_asset_amount :: "asset_amount \<Rightarrow> bytes" where
  "encode_asset_amount a = encode_hash (asset_id_hash (aa_asset_id a)) @ to_le_bytes (aa_amount a)"

fun asset_kind_tag :: "asset_kind \<Rightarrow> u8" where
  "asset_kind_tag Fungible = 0"
| "asset_kind_tag NonFungible = 1"
| "asset_kind_tag SemiFungible = 2"

definition encode_asset_definition :: "asset_definition \<Rightarrow> bytes" where
  "encode_asset_definition d =
     encode_hash (ad_issuer_script_hash d)
     @ [asset_kind_tag (ad_kind d)]
     @ encode_hash (ad_metadata_root d)
     @ (case ad_max_supply d of Some m \<Rightarrow> 1 # to_le_bytes m | None \<Rightarrow> [0])
     @ [ad_decimals d]"

definition encode_output :: "tx_output \<Rightarrow> bytes option" where
  "encode_output out = do {
     assets \<leftarrow> encode_vec (\<lambda>a. Some (encode_asset_amount a)) (out_assets out);
     Some (encode_hash (out_owner_script_hash out) @ assets
       @ (case out_metadata_hash out of Some h \<Rightarrow> 1 # encode_hash h | None \<Rightarrow> [0]))
   }"

fun transaction_kind_tag :: "transaction_kind \<Rightarrow> u8" where
  "transaction_kind_tag Transfer = 0"
| "transaction_kind_tag (CreateAsset _ _) = 1"

fun encode_kind_payload :: "transaction_kind \<Rightarrow> bytes" where
  "encode_kind_payload Transfer = []"
| "encode_kind_payload (CreateAsset d supply) = encode_asset_definition d @ to_le_bytes supply"

definition encode_tx_core :: "transaction_core \<Rightarrow> bytes option" where
  "encode_tx_core c = do {
     inputs \<leftarrow> encode_vec (\<lambda>i. Some (encode_transaction_input i)) (tc_inputs c);
     outputs \<leftarrow> encode_vec encode_output (tc_outputs c);
     Some (transaction_kind_tag (tc_kind c) # inputs @ outputs @ encode_kind_payload (tc_kind c))
   }"

definition encode_block_header :: "block_header \<Rightarrow> bytes" where
  "encode_block_header h =
     encode_hash (bh_parent_hash h) @ encode_hash (bh_state_root h) @ encode_hash (bh_tx_root h)
     @ to_le_bytes (bh_height h) @ to_le_bytes (bh_timestamp h)"

section \<open>Identifiers\<close>

definition asset_id_preimage :: "asset_definition \<Rightarrow> u32 \<Rightarrow> bytes" where
  "asset_id_preimage d chain_id =
     ascii ''QCOIN_ASSET_ID_V1'' @ to_le_bytes chain_id @ encode_asset_definition d"

definition derive_asset_id :: "platform \<Rightarrow> asset_definition \<Rightarrow> u32 \<Rightarrow> asset_id" where
  "derive_asset_id pf d chain_id = AssetId (pf_blake3 pf (asset_id_preimage d chain_id))"

definition core_tx_id :: "platform \<Rightarrow> transaction_core \<Rightarrow> hash256 option" where
  "core_tx_id pf c = map_option (pf_blake3 pf) (encode_tx_core c)"

definition tx_id :: "platform \<Rightarrow> transaction \<Rightarrow> hash256 option" where
  "tx_id pf tx = core_tx_id pf (tx_core tx)"

definition sighash_preimage ::
  "transaction \<Rightarrow> nat \<Rightarrow> tx_output \<Rightarrow> hash256 \<Rightarrow> u32 \<Rightarrow> sighash_flags \<Rightarrow> bytes option" where
  "sighash_preimage tx input_index prev_output script_hash chain_id flags = do {
     core \<leftarrow> encode_tx_core (tx_core tx);
     prev \<leftarrow> encode_output prev_output;
     Some (ascii ''QCOIN_SIGHASH_V1'' @ to_le_bytes chain_id @ core @ prev
       @ to_le_bytes (of_nat input_index :: u64) @ hash_slice script_hash
       @ (case flags of SighashFlags f \<Rightarrow> to_le_bytes f))
   }"

definition sighash ::
  "platform \<Rightarrow> transaction \<Rightarrow> nat \<Rightarrow> tx_output \<Rightarrow> hash256 \<Rightarrow> u32 \<Rightarrow> sighash_flags \<Rightarrow> hash256 option" where
  "sighash pf tx input_index prev_output script_hash chain_id flags =
     map_option (pf_blake3 pf) (sighash_preimage tx input_index prev_output script_hash chain_id flags)"

definition create_asset_transaction ::
  "platform \<Rightarrow> hash256 \<Rightarrow> asset_kind \<Rightarrow> hash256 \<Rightarrow> u128 option \<Rightarrow> u8 \<Rightarrow> u128 \<Rightarrow> hash256 \<Rightarrow> u32
     \<Rightarrow> asset_definition \<times> transaction" where
  "create_asset_transaction pf issuer_script_hash kind metadata_root max_supply decimals
       initial_supply destination_script_hash chain_id =
     (let definit = \<lparr>ad_issuer_script_hash = issuer_script_hash, ad_metadata_root = metadata_root,
            ad_max_supply = max_supply, ad_decimals = decimals, ad_kind = kind\<rparr>;
          new_id = derive_asset_id pf definit chain_id
      in (definit,
          \<lparr>tx_core = \<lparr>tc_kind = CreateAsset definit initial_supply, tc_inputs = [],
             tc_outputs = [\<lparr>out_owner_script_hash = destination_script_hash,
               out_assets = [\<lparr>aa_asset_id = new_id, aa_amount = initial_supply\<rparr>],
               out_metadata_hash = None\<rparr>]\<rparr>,
           tx_witness = default_transaction_witness\<rparr>))"

section \<open>The encoders as codes\<close>

lemma encode_hash_cancel [simp]: "encode_hash a @ r = encode_hash b @ s \<longleftrightarrow> a = b \<and> r = s"
  unfolding encode_hash_def by (rule hash_code.fixed_cancel)

lemma length_encode_hash [simp]: "length (encode_hash h) = 32"
  by (simp add: encode_hash_def)

interpretation tx_input_code: fixed_code encode_transaction_input 36
proof
  show "encode_transaction_input x = encode_transaction_input y \<Longrightarrow> x = y" for x y
    using le_cancel(2) [of "ti_index x" "[]" "ti_index y" "[]"]
    by (auto simp: encode_transaction_input_def intro!: transaction_input.equality)
qed (simp add: encode_transaction_input_def)

interpretation asset_amount_code: fixed_code encode_asset_amount 48
proof
  show "encode_asset_amount x = encode_asset_amount y \<Longrightarrow> x = y" for x y
    using le_cancel(4) [of "aa_amount x" "[]" "aa_amount y" "[]"]
    by (auto simp: encode_asset_amount_def asset_id.expand intro!: asset_amount.equality)
qed (simp add: encode_asset_amount_def)

interpretation header_code: fixed_code encode_block_header 112
proof
  show "encode_block_header x = encode_block_header y \<Longrightarrow> x = y" for x y
    using le_cancel(3) [of "bh_timestamp x" "[]" "bh_timestamp y" "[]"]
    by (auto simp: encode_block_header_def le_cancel intro!: block_header.equality)
qed (simp add: encode_block_header_def)

lemma asset_kind_tag_eq_iff [simp]: "asset_kind_tag a = asset_kind_tag b \<longleftrightarrow> a = b"
  by (cases a; cases b) auto

interpretation asset_definition_code: prefix_code "\<lambda>d. Some (encode_asset_definition d)"
proof
  fix x y :: asset_definition and a b r s
  assume "Some (encode_asset_definition x) = Some a" "Some (encode_asset_definition y) = Some b" "a @ r = b @ s"
  then have "encode_asset_definition x @ r = encode_asset_definition y @ s" by simp
  then show "x = y \<and> r = s"
    by (auto simp: encode_asset_definition_def le_cancel intro!: asset_definition.equality split: option.splits)
qed

lemma metadata_cancel:
  "(case m of Some h \<Rightarrow> 1 # encode_hash h | None \<Rightarrow> [0 :: u8]) @ r =
   (case n of Some h \<Rightarrow> 1 # encode_hash h | None \<Rightarrow> [0]) @ s \<longleftrightarrow> m = n \<and> r = s"
  by (auto split: option.splits)

interpretation output_code: prefix_code encode_output
proof
  fix x y :: tx_output and a b r s
  assume "encode_output x = Some a" "encode_output y = Some b" and eq: "a @ r = b @ s"
  then obtain u v where
    u: "encode_vec (\<lambda>a. Some (encode_asset_amount a)) (out_assets x) = Some u" and
    v: "encode_vec (\<lambda>a. Some (encode_asset_amount a)) (out_assets y) = Some v" and
    a: "a = encode_hash (out_owner_script_hash x) @ u
       @ (case out_metadata_hash x of Some h \<Rightarrow> 1 # encode_hash h | None \<Rightarrow> [0])" and
    b: "b = encode_hash (out_owner_script_hash y) @ v
       @ (case out_metadata_hash y of Some h \<Rightarrow> 1 # encode_hash h | None \<Rightarrow> [0])"
    by (auto simp: encode_output_def bind_eq_Some_conv)
  from eq have "out_owner_script_hash x = out_owner_script_hash y" and
    rest: "u @ (case out_metadata_hash x of Some h \<Rightarrow> 1 # encode_hash h | None \<Rightarrow> [0]) @ r
       = v @ (case out_metadata_hash y of Some h \<Rightarrow> 1 # encode_hash h | None \<Rightarrow> [0]) @ s"
    unfolding a b by simp_all
  moreover from asset_amount_code.as_prefix.vec_free [OF u v rest]
  have "out_assets x = out_assets y" "out_metadata_hash x = out_metadata_hash y \<and> r = s"
    unfolding metadata_cancel by simp_all
  ultimately show "x = y \<and> r = s" by (auto intro!: tx_output.equality)
qed

lemma kind_payload_cancel:
  "transaction_kind_tag k = transaction_kind_tag l \<Longrightarrow>
   encode_kind_payload k @ r = encode_kind_payload l @ s \<Longrightarrow> k = l \<and> r = s"
  by (cases k; cases l)
    (auto dest!: asset_definition_code.prefix_free [OF refl refl] simp: le_cancel)

interpretation tx_core_code: prefix_code encode_tx_core
proof
  fix x y :: transaction_core and a b r s
  assume "encode_tx_core x = Some a" "encode_tx_core y = Some b" and eq: "a @ r = b @ s"
  then obtain i j u v where
    i: "encode_vec (\<lambda>i. Some (encode_transaction_input i)) (tc_inputs x) = Some i" and
    j: "encode_vec (\<lambda>i. Some (encode_transaction_input i)) (tc_inputs y) = Some j" and
    u: "encode_vec encode_output (tc_outputs x) = Some u" and
    v: "encode_vec encode_output (tc_outputs y) = Some v" and
    a: "a = transaction_kind_tag (tc_kind x) # i @ u @ encode_kind_payload (tc_kind x)" and
    b: "b = transaction_kind_tag (tc_kind y) # j @ v @ encode_kind_payload (tc_kind y)"
    by (auto simp: encode_tx_core_def bind_eq_Some_conv)
  from eq have tag: "transaction_kind_tag (tc_kind x) = transaction_kind_tag (tc_kind y)" and
    "i @ (u @ encode_kind_payload (tc_kind x) @ r) = j @ (v @ encode_kind_payload (tc_kind y) @ s)"
    unfolding a b by simp_all
  from tx_input_code.as_prefix.vec_free [OF i j this(2)]
  have inputs: "tc_inputs x = tc_inputs y" and
    "u @ (encode_kind_payload (tc_kind x) @ r) = v @ (encode_kind_payload (tc_kind y) @ s)" by simp_all
  from output_code.vec_free [OF u v this(2)]
  have outputs: "tc_outputs x = tc_outputs y" and
    "encode_kind_payload (tc_kind x) @ r = encode_kind_payload (tc_kind y) @ s" by simp_all
  with kind_payload_cancel [OF tag] have "tc_kind x = tc_kind y \<and> r = s" by blast
  with inputs outputs show "x = y \<and> r = s" by (auto intro!: transaction_core.equality)
qed

text \<open>When the encoders do not panic.\<close>

definition output_fits :: "tx_output \<Rightarrow> bool" where
  "output_fits out \<longleftrightarrow> length (out_assets out) < 2 ^ 32"

definition core_fits :: "transaction_core \<Rightarrow> bool" where
  "core_fits c \<longleftrightarrow> length (tc_inputs c) < 2 ^ 32 \<and> length (tc_outputs c) < 2 ^ 32
     \<and> (\<forall>out\<in>set (tc_outputs c). output_fits out)"

lemma encode_output_eq_None: "encode_output out = None \<longleftrightarrow> \<not> output_fits out"
  by (auto simp: encode_output_def bind_eq_None_conv encode_vec_eq_None output_fits_def)

lemma encode_tx_core_eq_None: "encode_tx_core c = None \<longleftrightarrow> \<not> core_fits c"
  by (auto simp: encode_tx_core_def bind_eq_None_conv encode_vec_eq_None core_fits_def
      encode_output_eq_None not_less)

lemma tx_id_eq_None: "tx_id pf tx = None \<longleftrightarrow> \<not> core_fits (tx_core tx)"
  by (simp add: tx_id_def core_tx_id_def encode_tx_core_eq_None)

lemma sighash_eq_None:
  "sighash pf tx i out h c f = None \<longleftrightarrow> \<not> core_fits (tx_core tx) \<or> \<not> output_fits out"
  by (simp add: sighash_def sighash_preimage_def bind_eq_None_conv encode_tx_core_eq_None
      encode_output_eq_None)


section \<open>Sample values\<close>

text \<open>A small output, transaction core and asset, used by the witnesses.\<close>

definition sample_output :: tx_output where
  "sample_output = \<lparr>out_owner_script_hash = hash_fill 7,
     out_assets = [\<lparr>aa_asset_id = AssetId (hash_fill 1), aa_amount = 5\<rparr>], out_metadata_hash = None\<rparr>"

definition sample_core :: transaction_core where
  "sample_core = \<lparr>tc_kind = Transfer, tc_inputs = [\<lparr>ti_tx_id = hash_fill 3, ti_index = 0\<rparr>],
     tc_outputs = [sample_output]\<rparr>"

definition sample_asset :: asset_definition where
  "sample_asset = \<lparr>ad_issuer_script_hash = hash_fill 7, ad_metadata_root = hash_fill 0,
     ad_max_supply = Some 100, ad_decimals = 2, ad_kind = Fungible\<rparr>"

lemma sample_output_fits: "output_fits sample_output"
  by (simp add: output_fits_def sample_output_def)

lemma sample_core_fits: "core_fits sample_core"
  by (simp add: core_fits_def sample_core_def sample_output_fits)

section \<open>Properties\<close>

text \<open>C38. No two values share a consensus encoding: block headers, asset definitions, outputs and
  transaction cores with equal encodings are equal, also when arbitrary bytes follow.\<close>

theorem consensus_encoders_injective:
  "(encode_block_header h @ r = encode_block_header h' @ r' \<longleftrightarrow> h = h' \<and> r = r') \<and>
   (encode_asset_definition d @ r = encode_asset_definition d' @ r' \<longleftrightarrow> d = d' \<and> r = r') \<and>
   (encode_output out = Some x \<and> encode_output out' = Some x' \<longrightarrow>
      (x @ r = x' @ r' \<longleftrightarrow> out = out' \<and> r = r')) \<and>
   (encode_tx_core c = Some y \<and> encode_tx_core c' = Some y' \<longrightarrow>
      (y @ r = y' @ r' \<longleftrightarrow> c = c' \<and> r = r'))"
proof (intro conjI impI; (elim conjE)?)
  show "encode_block_header h @ r = encode_block_header h' @ r' \<longleftrightarrow> h = h' \<and> r = r'"
    by (rule header_code.fixed_cancel)
  show "encode_asset_definition d @ r = encode_asset_definition d' @ r' \<longleftrightarrow> d = d' \<and> r = r'"
    by (rule asset_definition_code.code_cancel [OF refl refl])
  show "x @ r = x' @ r' \<longleftrightarrow> out = out' \<and> r = r'"
    if "encode_output out = Some x" "encode_output out' = Some x'"
    using that by (rule output_code.code_cancel)
  show "y @ r = y' @ r' \<longleftrightarrow> c = c' \<and> r = r'"
    if "encode_tx_core c = Some y" "encode_tx_core c' = Some y'"
    using that by (rule tx_core_code.code_cancel)
qed

theorem consensus_encoders_injective_witness:
  "encode_tx_core sample_core \<noteq> encode_tx_core (sample_core\<lparr>tc_outputs := []\<rparr>)"
proof -
  obtain y where y: "encode_tx_core sample_core = Some y"
    by (cases "encode_tx_core sample_core") (simp_all add: encode_tx_core_eq_None sample_core_fits)
  have "sample_core \<noteq> sample_core\<lparr>tc_outputs := []\<rparr>"
    by (simp add: sample_core_def)
  with y consensus_encoders_injective [where c = sample_core and y = y
    and c' = "sample_core\<lparr>tc_outputs := []\<rparr>" and y' = y and r = "[]" and r' = "[]"]
  show ?thesis by metis
qed

text \<open>A transaction id commits to the transaction core and to nothing else: two transactions with the
  same id have the same core, unless their encodings are a collision of the hash function; the
  witness data does not enter the id.\<close>

theorem tx_id_commits_to_core:
  assumes "tx_id pf t = Some h" and "tx_id pf u = Some h"
  shows "(tx_core t = tx_core u \<or>
      (\<exists>a b. encode_tx_core (tx_core t) = Some a \<and> encode_tx_core (tx_core u) = Some b \<and>
         a \<noteq> b \<and> pf_blake3 pf a = pf_blake3 pf b)) \<and>
    tx_id pf (t\<lparr>tx_witness := w\<rparr>) = Some h"
proof -
  obtain a b where ab: "encode_tx_core (tx_core t) = Some a" "encode_tx_core (tx_core u) = Some b"
    "pf_blake3 pf a = h" "pf_blake3 pf b = h"
    using assms by (auto simp: tx_id_def core_tx_id_def)
  have "tx_core t = tx_core u" if "a = b"
    using tx_core_code.code_injective [of "tx_core t" a "tx_core u"] ab that by simp
  moreover have "tx_id pf (t\<lparr>tx_witness := w\<rparr>) = Some h"
    using assms(1) by (simp add: tx_id_def)
  ultimately show ?thesis using ab by metis
qed

theorem tx_id_commits_to_core_witness:
  "tx_id (sample_platform False) \<lparr>tx_core = sample_core, tx_witness = \<lparr>tw_inputs = [[1, 2]]\<rparr>\<rparr>
     = tx_id (sample_platform False) \<lparr>tx_core = sample_core, tx_witness = \<lparr>tw_inputs = []\<rparr>\<rparr>"
proof -
  let ?t = "\<lparr>tx_core = sample_core, tx_witness = \<lparr>tw_inputs = []\<rparr>\<rparr>"
  obtain h where "tx_id (sample_platform False) ?t = Some h"
    by (cases "tx_id (sample_platform False) ?t") (simp_all add: tx_id_eq_None sample_core_fits)
  with tx_id_commits_to_core [OF this this, of "\<lparr>tw_inputs = [[1, 2]]\<rparr>"] show ?thesis by simp
qed

text \<open>A signature hash commits to everything a signer relies on: if two signature hashes agree, and
  the hash function has no collision on the two preimages, then the transaction cores, the spent
  outputs, the script hashes, the chain ids, the flags and (as 64-bit integers) the input indices
  agree.\<close>

theorem sighash_commits:
  assumes "sighash_preimage t i out sh chain fl = Some a" and "sighash_preimage u j out' sh' chain' fl' = Some b"
    and "pf_blake3 pf a = pf_blake3 pf b \<Longrightarrow> a = b"
    and "sighash pf t i out sh chain fl = sighash pf u j out' sh' chain' fl'"
  shows "tx_core t = tx_core u \<and> out = out' \<and> sh = sh' \<and> chain = chain' \<and> fl = fl' \<and>
    (of_nat i :: u64) = of_nat j"
proof -
  have "a = b" using assms by (simp add: sighash_def)
  obtain c p where c: "encode_tx_core (tx_core t) = Some c" "encode_output out = Some p"
    "a = ascii ''QCOIN_SIGHASH_V1'' @ to_le_bytes chain @ c @ p
       @ to_le_bytes (of_nat i :: u64) @ hash_slice sh @ (case fl of SighashFlags f \<Rightarrow> to_le_bytes f)"
    using assms(1) by (auto simp: sighash_preimage_def bind_eq_Some_conv)
  obtain d q where d: "encode_tx_core (tx_core u) = Some d" "encode_output out' = Some q"
    "b = ascii ''QCOIN_SIGHASH_V1'' @ to_le_bytes chain' @ d @ q
       @ to_le_bytes (of_nat j :: u64) @ hash_slice sh' @ (case fl' of SighashFlags f \<Rightarrow> to_le_bytes f)"
    using assms(2) by (auto simp: sighash_preimage_def bind_eq_Some_conv)
  from \<open>a = b\<close> show ?thesis
    unfolding c(3) d(3)
    using le_cancel(2) [of _ "[]" _ "[]"]
    by (simp add: le_cancel tx_core_code.code_cancel [OF c(1) d(1)] output_code.code_cancel [OF c(2) d(2)]
        split: sighash_flags.splits)
qed

theorem sighash_commits_witness:
  "sighash (sample_platform False) \<lparr>tx_core = sample_core, tx_witness = \<lparr>tw_inputs = []\<rparr>\<rparr> 0 sample_output
      (hash_fill 7) 0 default_sighash_flags
   = sighash (sample_platform False) \<lparr>tx_core = sample_core, tx_witness = \<lparr>tw_inputs = [[1]]\<rparr>\<rparr> 0 sample_output
      (hash_fill 7) 0 default_sighash_flags \<and> sample_core = sample_core"
proof -
  let ?t = "\<lparr>tx_core = sample_core, tx_witness = \<lparr>tw_inputs = []\<rparr>\<rparr>"
  let ?u = "\<lparr>tx_core = sample_core, tx_witness = \<lparr>tw_inputs = [[1]]\<rparr>\<rparr>"
  have eq: "sighash_preimage ?t 0 sample_output (hash_fill 7) 0 default_sighash_flags
    = sighash_preimage ?u 0 sample_output (hash_fill 7) 0 default_sighash_flags"
    by (simp add: sighash_preimage_def)
  obtain a where a: "sighash_preimage ?t 0 sample_output (hash_fill 7) 0 default_sighash_flags = Some a"
    using sighash_eq_None [of "sample_platform False" ?t 0 sample_output "hash_fill 7" 0 default_sighash_flags]
    by (auto simp: sighash_def sample_core_fits sample_output_fits)
  have s: "sighash (sample_platform False) ?t 0 sample_output (hash_fill 7) 0 default_sighash_flags
    = sighash (sample_platform False) ?u 0 sample_output (hash_fill 7) 0 default_sighash_flags"
    by (simp only: sighash_def eq)
  from sighash_commits [OF a a [unfolded eq], of "sample_platform False"] s show ?thesis by auto
qed

text \<open>The three hash preimages of the transaction layer live in disjoint domains: an asset-id
  preimage, a signature-hash preimage and an encoded transaction core are never the same bytes.\<close>

theorem preimage_domains_disjoint:
  "sighash_preimage t i out sh chain fl \<noteq> Some (asset_id_preimage d chain') \<and>
   encode_tx_core c \<noteq> Some (asset_id_preimage d chain') \<and>
   \<not> (\<exists>a. encode_tx_core c = Some a \<and> sighash_preimage t i out sh chain fl = Some a)"
proof -
  have asset: "\<exists>r. asset_id_preimage d chain' = 81 # 67 # 79 # 73 # 78 # 95 # 65 # r"
    by (simp add: asset_id_preimage_def ascii_def)
  have sig: "\<exists>r. a = 81 # 67 # 79 # 73 # 78 # 95 # 83 # r" if "sighash_preimage t i out sh chain fl = Some a" for a
    using that by (auto simp: sighash_preimage_def bind_eq_Some_conv ascii_def)
  have core: "\<exists>r. a = 0 # r \<or> a = 1 # r" if "encode_tx_core c = Some a" for a
    using that by (cases "tc_kind c") (auto simp: encode_tx_core_def bind_eq_Some_conv)
  have "a \<noteq> asset_id_preimage d chain'" if "sighash_preimage t i out sh chain fl = Some a" for a
    using asset sig [OF that] by auto
  moreover have "a \<noteq> asset_id_preimage d chain'" if "encode_tx_core c = Some a" for a
    using asset core [OF that] by auto
  moreover have "a \<noteq> b" if "encode_tx_core c = Some a" "sighash_preimage t i out sh chain fl = Some b" for a b
    using sig [OF that(2)] core [OF that(1)] by auto
  ultimately show ?thesis by blast
qed

text \<open>An asset id commits to the definition and the chain: assets derived for two definitions and
  chains coincide only if definition and chain id do, unless the preimages are a hash collision.\<close>

theorem asset_id_commits:
  assumes "derive_asset_id pf d chain = derive_asset_id pf d' chain'"
  shows "d = d' \<and> chain = chain' \<or>
    asset_id_preimage d chain \<noteq> asset_id_preimage d' chain' \<and>
    pf_blake3 pf (asset_id_preimage d chain) = pf_blake3 pf (asset_id_preimage d' chain')"
proof (cases "asset_id_preimage d chain = asset_id_preimage d' chain'")
  case True
  then show ?thesis
    using asset_definition_code.code_injective [of d _ d']
    by (simp add: asset_id_preimage_def le_cancel)
next
  case False
  with assms show ?thesis by (simp add: derive_asset_id_def)
qed

theorem asset_id_commits_witness:
  "sample_asset = sample_asset \<and> (3 :: u32) = 3 \<or>
   asset_id_preimage sample_asset 3 \<noteq> asset_id_preimage sample_asset 3 \<and>
   pf_blake3 (sample_platform False) (asset_id_preimage sample_asset 3)
     = pf_blake3 (sample_platform False) (asset_id_preimage sample_asset 3)"
  by (rule asset_id_commits [OF refl])

text \<open>The encoders panic exactly on vectors whose length does not fit 32 bits: a transaction has an id
  if and only if its inputs, its outputs and the assets of each output number fewer than 2^32, and a
  signature hash additionally needs the spent output to fit.\<close>

theorem tx_id_total_iff_fits:
  "((\<exists>h. tx_id pf tx = Some h) \<longleftrightarrow> core_fits (tx_core tx)) \<and>
   ((\<exists>h. sighash pf tx i out sh chain fl = Some h) \<longleftrightarrow> core_fits (tx_core tx) \<and> output_fits out)"
  using tx_id_eq_None [of pf tx] sighash_eq_None [of pf tx i out sh chain fl] by auto

end
