(* ===== verification/QC_Text.thy ===== *)
theory QC_Text
  imports QC_Types "HOL-Library.Sublist"
begin

text \<open>
  The text helpers of \<open>qcoin-node/src/main.rs\<close>: hexadecimal, trimming, normalised lists of strings,
  the produce mode, and the keypair file. A Rust string is modelled as the list of its UTF-8 bytes (a HOL character is a byte), so
  \<open>len()\<close> and \<open>as_bytes()\<close> are what the source sees; \<open>trim\<close> strips the UTF-8 encodings of the
  characters with the Unicode property White_Space.
\<close>

unbundle bit_operations_syntax

section \<open>Strings of the standard library\<close>

text \<open>The UTF-8 encodings of the white space characters.\<close>

definition white_space_numbers :: "nat list list" where
  "white_space_numbers =
     [[0x09], [0x0A], [0x0B], [0x0C], [0x0D], [0x20], [0xC2, 0x85], [0xC2, 0xA0], [0xE1, 0x9A, 0x80],
      [0xE2, 0x80, 0x80], [0xE2, 0x80, 0x81], [0xE2, 0x80, 0x82], [0xE2, 0x80, 0x83], [0xE2, 0x80, 0x84],
      [0xE2, 0x80, 0x85], [0xE2, 0x80, 0x86], [0xE2, 0x80, 0x87], [0xE2, 0x80, 0x88], [0xE2, 0x80, 0x89],
      [0xE2, 0x80, 0x8A], [0xE2, 0x80, 0xA8], [0xE2, 0x80, 0xA9], [0xE2, 0x80, 0xAF], [0xE2, 0x81, 0x9F],
      [0xE3, 0x80, 0x80]]"

definition white_space_codes :: "string list" where
  "white_space_codes = map (map char_of) white_space_numbers"

text \<open>Removing codes from the front of a byte string, as long as one is there.\<close>

function strip_front :: "string list \<Rightarrow> string \<Rightarrow> string" where
  "strip_front codes s =
     (case find (\<lambda>w. w \<noteq> [] \<and> prefix w s) codes of
        None \<Rightarrow> s
      | Some w \<Rightarrow> strip_front codes (drop (length w) s))"
  by pat_completeness auto
termination
proof (relation "measure (\<lambda>(codes, s). length s)")
  fix codes :: "string list" and s w :: string
  assume "find (\<lambda>w. w \<noteq> [] \<and> prefix w s) codes = Some w"
  then have "w \<noteq> []" "prefix w s" by (auto simp: find_Some_iff)
  then show "((codes, drop (length w) s), codes, s) \<in> measure (\<lambda>(codes, s). length s)"
    by (auto simp: prefix_def)
qed simp

declare strip_front.simps [simp del]

definition str_trim :: "string \<Rightarrow> string" where
  "str_trim s = rev (strip_front (map rev white_space_codes) (rev (strip_front white_space_codes s)))"

text \<open>\<open>as_bytes\<close>, and the characters of a byte string.\<close>

definition str_bytes :: "string \<Rightarrow> bytes" where
  "str_bytes s = map of_char s"

definition bytes_str :: "bytes \<Rightarrow> string" where
  "bytes_str bs = map (\<lambda>b. char_of (unat b)) bs"

definition to_ascii_lowercase :: "string \<Rightarrow> string" where
  "to_ascii_lowercase s = bytes_str (map (\<lambda>b. if 0x41 \<le> b \<and> b \<le> 0x5A then b + 0x20 else b) (str_bytes s))"

text \<open>\<open>byte as char\<close>, displayed: the code points from 128 on take two bytes.\<close>

definition display_byte_as_char :: "u8 \<Rightarrow> string" where
  "display_byte_as_char b =
     bytes_str (if b < 0x80 then [b] else [0xC0 + of_nat (unat b div 64), 0x80 + of_nat (unat b mod 64)])"

lemma str_bytes_bytes_str [simp]: "str_bytes (bytes_str bs) = bs"
proof -
  have "of_char (char_of (unat b) :: char) = b" for b :: u8
  proof -
    have "of_char (char_of (unat b) :: char) = (of_nat (of_char (char_of (unat b) :: char)) :: u8)"
      by (simp only: of_nat_of_char)
    also have "\<dots> = of_nat (unat b mod 256)" by (simp only: of_char_of)
    also have "\<dots> = b" using u8_bound [of b] by simp
    finally show ?thesis .
  qed
  then show ?thesis by (simp add: str_bytes_def bytes_str_def comp_def)
qed

lemma length_str_bytes [simp]: "length (str_bytes s) = length s"
  by (simp add: str_bytes_def)

section \<open>Hexadecimal\<close>

definition hex_digit :: "nat \<Rightarrow> u8" where
  "hex_digit n = (if n < 10 then 0x30 + of_nat n else 0x61 + of_nat (n - 10))"

definition to_hex :: "bytes \<Rightarrow> string" where
  "to_hex bs = bytes_str (concat (map (\<lambda>b. [hex_digit (unat b div 16), hex_digit (unat b mod 16)]) bs))"

definition decode_hex_nibble :: "u8 \<Rightarrow> (string, u8) res" where
  "decode_hex_nibble b =
     (if 0x30 \<le> b \<and> b \<le> 0x39 then Ok (b - 0x30)
      else if 0x61 \<le> b \<and> b \<le> 0x66 then Ok (b - 0x61 + 10)
      else if 0x41 \<le> b \<and> b \<le> 0x46 then Ok (b - 0x41 + 10)
      else Err (''invalid hex character '' @ [CHR 0x27] @ display_byte_as_char b @ [CHR 0x27]))"

text \<open>The loop reads \<open>bytes[i + 1]\<close>, which would panic at the end of a string of odd length.\<close>

fun hex_pairs :: "bytes \<Rightarrow> (string, bytes) res" where
  "hex_pairs [] = Ok []"
| "hex_pairs [x] = and_then (decode_hex_nibble x) (\<lambda>hi. Panic)"
| "hex_pairs (x # y # rest) =
     and_then (decode_hex_nibble x) (\<lambda>hi.
     and_then (decode_hex_nibble y) (\<lambda>lo.
     and_then (hex_pairs rest) (\<lambda>out. Ok ((push_bit 4 hi OR lo) # out))))"

definition from_hex :: "string \<Rightarrow> (string, bytes) res" where
  "from_hex hex =
     (let clean = str_trim hex
      in if length clean mod 2 \<noteq> 0 then Err ''hex string has odd length'' else hex_pairs (str_bytes clean))"

section \<open>Lists of configuration strings\<close>

definition push_unique :: "string \<Rightarrow> string list \<Rightarrow> string list" where
  "push_unique s merged = (if s = [] \<or> list_ex (\<lambda>existing. existing = s) merged then merged else merged @ [s])"

definition merge_unique_strings :: "string list \<Rightarrow> string list \<Rightarrow> string list" where
  "merge_unique_strings primary extra = fold (\<lambda>v. push_unique (str_trim v)) (primary @ extra) []"

definition normalize_hex_strings :: "string list \<Rightarrow> string list" where
  "normalize_hex_strings values = fold (\<lambda>v. push_unique (to_ascii_lowercase (str_trim v))) values []"

definition merge_unique_hex_strings :: "string list \<Rightarrow> string list \<Rightarrow> string list" where
  "merge_unique_hex_strings primary extra = normalize_hex_strings (primary @ extra)"

fun resolve_produce_mode :: "bool option \<Rightarrow> bool \<Rightarrow> bool \<Rightarrow> bool \<Rightarrow> bool" where
  "resolve_produce_mode (Some explicit) has_manifest node_is_validator validators_empty = explicit"
| "resolve_produce_mode None has_manifest node_is_validator validators_empty =
     (if node_is_validator then True else \<not> has_manifest \<and> validators_empty)"

fun parse_validators :: "platform \<Rightarrow> string list \<Rightarrow> signature_scheme_id \<Rightarrow> (string, public_key list) res" where
  "parse_validators pf [] scheme = Ok []"
| "parse_validators pf (hex # hexes) scheme =
     and_then (from_hex hex) (\<lambda>raw.
     and_then (map_err crypto_error_display (public_key_new pf scheme raw)) (\<lambda>key.
     and_then (parse_validators pf hexes scheme) (\<lambda>keys. Ok (key # keys))))"

section \<open>The keypair file\<close>

record keypair_output =
  kp_scheme :: string
  kp_public_key_hex :: string
  kp_private_key_hex :: string

definition keypair_output_of :: "public_key \<Rightarrow> private_key \<Rightarrow> keypair_output" where
  "keypair_output_of pk sk = \<lparr>kp_scheme = scheme_display (pk_scheme pk), kp_public_key_hex = to_hex (pk_bytes pk),
     kp_private_key_hex = to_hex (sk_bytes sk)\<rparr>"

text \<open>\<open>load_keypair_from_json\<close> after parsing the JSON text.\<close>

definition keys_of_keypair_output ::
  "platform \<Rightarrow> keypair_output \<Rightarrow> signature_scheme_id \<Rightarrow> (string, public_key \<times> private_key) res" where
  "keys_of_keypair_output pf parsed expected_scheme =
     and_then
       (let name = to_ascii_lowercase (kp_scheme parsed)
        in if name = ''dilithium2'' then Ok Dilithium2
           else if name = ''falcon512'' then Ok Falcon512
           else Err (''unsupported scheme '' @ [CHR 0x27] @ kp_scheme parsed @ [CHR 0x27] @ '' in keypair JSON'')) (\<lambda>parsed_scheme.
     if parsed_scheme \<noteq> expected_scheme then
       Err (''scheme mismatch: expected '' @ scheme_display expected_scheme @ '', file has '' @ scheme_display parsed_scheme)
     else
       and_then (from_hex (kp_public_key_hex parsed)) (\<lambda>pkb.
       and_then (map_err crypto_error_display (public_key_new pf parsed_scheme pkb)) (\<lambda>public_key.
       and_then (from_hex (kp_private_key_hex parsed)) (\<lambda>skb.
       and_then (map_err crypto_error_display (private_key_new pf parsed_scheme skb)) (\<lambda>private_key.
       Ok (public_key, private_key))))))"

section \<open>Trimming\<close>

lemma strip_front_id: "s = [] \<or> (\<forall>w\<in>set codes. w \<noteq> [] \<longrightarrow> hd w \<noteq> hd s) \<Longrightarrow> strip_front codes s = s"
proof -
  assume s: "s = [] \<or> (\<forall>w\<in>set codes. w \<noteq> [] \<longrightarrow> hd w \<noteq> hd s)"
  have "find (\<lambda>w. w \<noteq> [] \<and> prefix w s) codes = None"
    using s by (auto simp: find_None_iff prefix_def)
  then show ?thesis by (subst strip_front.simps) simp
qed

definition is_hex_char :: "char \<Rightarrow> bool" where
  "is_hex_char c \<longleftrightarrow> (let n = of_char c :: nat in 48 \<le> n \<and> n \<le> 57 \<or> 97 \<le> n \<and> n \<le> 102)"

lemma white_space_ends:
  "ns \<in> set white_space_numbers \<Longrightarrow> ns \<noteq> [] \<and> (hd ns \<le> 32 \<or> 128 \<le> hd ns \<and> hd ns < 256)
     \<and> (last ns \<le> 32 \<or> 128 \<le> last ns \<and> last ns < 256)"
  unfolding white_space_numbers_def by auto

lemma not_hex_char: "k \<le> 32 \<or> 128 \<le> k \<and> k < 256 \<Longrightarrow> \<not> is_hex_char (char_of (k :: nat))"
  by (auto simp: is_hex_char_def Let_def)

lemma strip_hex:
  assumes "\<forall>c\<in>set s. is_hex_char c"
  shows "str_trim s = s"
proof -
  have front: "\<not> is_hex_char (hd w)" if "w \<in> set white_space_codes" for w
    using that white_space_ends not_hex_char by (auto simp: white_space_codes_def hd_map)
  have rear: "\<not> is_hex_char (hd w)" if "w \<in> set (map rev white_space_codes)" for w
    using that white_space_ends not_hex_char by (auto simp: white_space_codes_def hd_rev last_map)
  have "strip_front white_space_codes s = s"
    using front assms by (intro strip_front_id) (metis list.set_sel(1))
  moreover have "strip_front (map rev white_space_codes) (rev s) = rev s"
    using rear assms by (intro strip_front_id) (metis list.set_sel(1) set_rev)
  ultimately show ?thesis by (simp add: str_trim_def)
qed

section \<open>Hexadecimal digits\<close>

lemma unat_hex_digit: "n < 16 \<Longrightarrow> unat (hex_digit n) = (if n < 10 then 48 + n else 87 + n)"
  by (auto simp: hex_digit_def unat_word_ariths unat_of_nat)

lemma decode_hex_digit: "n < 16 \<Longrightarrow> decode_hex_nibble (hex_digit n) = Ok (of_nat n)"
  by (auto simp: decode_hex_nibble_def word_le_nat_alt unat_hex_digit) (auto simp: hex_digit_def of_nat_diff)

lemma hex_digit_char: "n < 16 \<Longrightarrow> is_hex_char (char_of (unat (hex_digit n)))"
  by (simp add: is_hex_char_def Let_def unat_hex_digit)

lemma join_nibbles: "push_bit 4 (of_nat (unat b div 16)) OR of_nat (unat b mod 16) = b" for b :: u8
proof -
  have "of_nat (unat b div 16) = drop_bit 4 b"
    using u8_bound [of b]
    by (simp add: word_unat_eq_iff unat_of_nat drop_bit_eq_div unat_div)
  moreover have "of_nat (unat b mod 16) = take_bit 4 b"
    using u8_bound [of b]
    by (simp add: word_unat_eq_iff unat_of_nat take_bit_eq_mod unat_mod)
  moreover have "push_bit 4 (drop_bit 4 b) OR take_bit 4 b = b"
    by (rule bit_eqI) (auto simp: bit_or_iff bit_push_bit_iff bit_drop_bit_eq bit_take_bit_iff)
  ultimately show ?thesis by simp
qed

lemma hex_pairs_digits:
  "hex_pairs (concat (map (\<lambda>b. [hex_digit (unat b div 16), hex_digit (unat b mod 16)]) bs)) = Ok bs"
proof (induction bs)
  case (Cons b bs)
  have "unat b div 16 < 16" using u8_bound [of b] by simp
  with Cons show ?case by (simp add: decode_hex_digit join_nibbles)
qed simp

lemma to_hex_chars: "\<forall>c\<in>set (to_hex bs). is_hex_char c"
proof -
  have "unat b div 16 < 16" for b :: u8 using u8_bound [of b] by simp
  then show ?thesis by (auto simp: to_hex_def bytes_str_def hex_digit_char)
qed

lemma length_to_hex: "length (to_hex bs) = 2 * length bs"
  by (simp add: to_hex_def bytes_str_def) (induction bs; simp)

lemma from_to_hex: "from_hex (to_hex bs) = Ok bs"
  by (simp add: from_hex_def strip_hex [OF to_hex_chars] length_to_hex) (simp add: to_hex_def hex_pairs_digits)

lemma hex_pairs_no_panic: "even (length s) \<Longrightarrow> hex_pairs s \<noteq> Panic"
proof (induction s rule: hex_pairs.induct)
  case (3 x y rest)
  have "decode_hex_nibble b \<noteq> Panic" for b by (simp add: decode_hex_nibble_def)
  with 3 show ?case
    by (cases "decode_hex_nibble x"; cases "decode_hex_nibble y") (auto simp: and_then_eq_Panic)
qed auto

lemma decode_hex_nibble_neq_Panic [simp]: "decode_hex_nibble b \<noteq> Panic"
  by (simp add: decode_hex_nibble_def)

lemma from_hex_no_panic: "from_hex s \<noteq> Panic"
  using hex_pairs_no_panic [of "str_bytes (str_trim s)"] by (auto simp: from_hex_def Let_def even_iff_mod_2_eq_zero)

section \<open>Normalised lists\<close>

lemma fold_push_unique:
  "distinct acc \<Longrightarrow> [] \<notin> set acc \<Longrightarrow>
     distinct (fold (\<lambda>v. push_unique (f v)) vs acc) \<and>
     set (fold (\<lambda>v. push_unique (f v)) vs acc) = set acc \<union> (f ` set vs - {[]})"
proof (induction vs arbitrary: acc)
  case (Cons v vs)
  have "distinct (push_unique (f v) acc)" "[] \<notin> set (push_unique (f v) acc)"
    "set (push_unique (f v) acc) = set acc \<union> ({f v} - {[]})"
    using Cons.prems by (auto simp: push_unique_def list_ex_iff)
  with Cons.IH [of "push_unique (f v) acc"] show ?case by auto
qed auto

section \<open>Properties\<close>

text \<open>Hexadecimal round trip: decoding what \<open>to_hex\<close> prints gives the bytes back, whose text is twice
  as long; and decoding any string returns, with an error for odd lengths and for other characters: the
  access to the second digit never runs past the end.\<close>

theorem hex_roundtrip:
  "from_hex (to_hex bs) = Ok bs \<and> length (to_hex bs) = 2 * length bs \<and> from_hex s \<noteq> Panic"
  using from_to_hex length_to_hex from_hex_no_panic by simp

text \<open>A keypair file gives back the keys it was written from, for every key pair of the sizes its
  scheme prescribes; a file of another scheme is refused.\<close>

theorem keypair_roundtrip:
  assumes "public_key_new pf scheme pkb = Ok pk" and "private_key_new pf scheme skb = Ok sk" and "\<forall>n. scheme \<noteq> Unknown n"
  shows "keys_of_keypair_output pf (keypair_output_of pk sk) scheme = Ok (pk, sk) \<and>
    (expected \<noteq> scheme \<longrightarrow> (\<exists>e. keys_of_keypair_output pf (keypair_output_of pk sk) expected = Err e))"
proof -
  have low: "to_ascii_lowercase ''dilithium2'' = ''dilithium2''" "to_ascii_lowercase ''falcon512'' = ''falcon512''"
    by (simp_all add: to_ascii_lowercase_def bytes_str_def str_bytes_def char_of_eq_iff)
  have keys: "pk = \<lparr>pk_scheme = scheme, pk_bytes = pkb\<rparr>" "sk = \<lparr>sk_scheme = scheme, sk_bytes = skb\<rparr>"
    using assms(1,2) by (auto simp: crypto_new_defs res_simps)
  show ?thesis
    using assms by (cases scheme) (auto simp: keys_of_keypair_output_def keypair_output_of_def keys low from_to_hex)
qed

theorem keypair_roundtrip_witness:
  "keys_of_keypair_output (sample_platform True)
     (keypair_output_of \<lparr>pk_scheme = Dilithium2, pk_bytes = [171]\<rparr> \<lparr>sk_scheme = Dilithium2, sk_bytes = [5]\<rparr>) Dilithium2
   = Ok (\<lparr>pk_scheme = Dilithium2, pk_bytes = [171]\<rparr>, \<lparr>sk_scheme = Dilithium2, sk_bytes = [5]\<rparr>)"
proof -
  have "public_key_new (sample_platform True) Dilithium2 [171] = Ok \<lparr>pk_scheme = Dilithium2, pk_bytes = [171]\<rparr>"
    "private_key_new (sample_platform True) Dilithium2 [5] = Ok \<lparr>sk_scheme = Dilithium2, sk_bytes = [5]\<rparr>"
    by (simp_all add: crypto_new_defs validate_key_size_def sample_lib_def)
  from keypair_roundtrip [OF this] show ?thesis by simp
qed

text \<open>Normalised lists of keys have no duplicates and hold exactly the trimmed, lower-cased, non-empty
  entries of the input.\<close>

theorem normalized_hex_strings:
  "distinct (normalize_hex_strings vs) \<and>
   set (normalize_hex_strings vs) = (\<lambda>v. to_ascii_lowercase (str_trim v)) ` set vs - {[]} \<and>
   merge_unique_hex_strings vs ws = normalize_hex_strings (vs @ ws)"
  using fold_push_unique [of "[]" "\<lambda>v. to_ascii_lowercase (str_trim v)" vs]
  by (simp add: normalize_hex_strings_def merge_unique_hex_strings_def)

end
