(* ===== verification/QC_Script.thy ===== *)
theory QC_Script
  imports QC_Types
begin

text \<open>
  \<open>qcoin-script\<close>: opcodes and scripts with their consensus encoding, the gas meter, the bounded
  stack, and \<open>DeterministicScriptEngine::eval\<close>. The trait \<open>ScriptHost\<close> is a record of its two
  methods. One definition models each opcode arm; \<open>exec_op\<close> dispatches, \<open>eval_step\<close> charges gas
  first, and \<open>eval\<close> is the loop over the script.

  A Rust vector holds at most \<open>isize::MAX\<close> elements, so \<open>len() as u64\<close> is exact; lengths and the
  \<open>usize\<close> fields are natural numbers.
\<close>

section \<open>Data\<close>

datatype op_code =
    CheckSig
  | CheckMultiSig (multisig_threshold: u8) (multisig_total: u8)
  | CheckTimeLock
  | CheckRelativeTimeLock
  | CheckHashLock
  | PushBytes bytes
  | Nop

datatype script = Script (script_ops: "op_code list")

record script_context =
  ctx_tx :: transaction
  ctx_input_index :: nat
  ctx_current_height :: "u64 option"
  ctx_chain_id :: u32
  ctx_script_hash :: hash256

datatype script_error =
    Evaluation string
  | OutOfGas
  | StackUnderflow
  | StackOverflow
  | ScriptTooLarge

record vm_config =
  vm_max_gas :: u64
  vm_max_stack_items :: nat
  vm_max_push_bytes :: nat
  vm_max_script_len :: nat

definition DEFAULT_MAX_GAS :: u64 where "DEFAULT_MAX_GAS = 50000"

definition DEFAULT_MAX_STACK_ITEMS :: nat where "DEFAULT_MAX_STACK_ITEMS = 1024"

definition DEFAULT_MAX_PUSH_BYTES :: nat where "DEFAULT_MAX_PUSH_BYTES = 4 * 1024"

definition DEFAULT_MAX_SCRIPT_LEN :: nat where "DEFAULT_MAX_SCRIPT_LEN = 2048"

definition default_vm_config :: vm_config where
  "default_vm_config = \<lparr>vm_max_gas = DEFAULT_MAX_GAS, vm_max_stack_items = DEFAULT_MAX_STACK_ITEMS,
     vm_max_push_bytes = DEFAULT_MAX_PUSH_BYTES, vm_max_script_len = DEFAULT_MAX_SCRIPT_LEN\<rparr>"

record script_result =
  sr_gas_consumed :: u64

record resolved_input =
  ri_output :: tx_output
  ri_created_height :: "u64 option"

record script_host =
  sh_current_height :: "u64 option"
  sh_input_utxo :: "transaction_input \<Rightarrow> resolved_input option"

type_synonym script_engine =
  "script \<Rightarrow> script_context \<Rightarrow> script_host \<Rightarrow> (script_error, script_result) res"

section \<open>The encoding of scripts\<close>

fun encode_op :: "op_code \<Rightarrow> bytes option" where
  "encode_op CheckSig = Some [0]"
| "encode_op (CheckMultiSig threshold total_n) = Some [1, threshold, total_n]"
| "encode_op CheckTimeLock = Some [2]"
| "encode_op CheckRelativeTimeLock = Some [3]"
| "encode_op CheckHashLock = Some [4]"
| "encode_op (PushBytes data) = do {
     n \<leftarrow> encode_len (length data);
     Some (5 # n @ data)
   }"
| "encode_op Nop = Some [6]"

definition encode_script :: "script \<Rightarrow> bytes option" where
  "encode_script s = encode_vec encode_op (script_ops s)"

section \<open>Gas\<close>

record gas_meter =
  gm_remaining :: u64
  gm_limit :: u64

definition gas_new :: "u64 \<Rightarrow> gas_meter" where
  "gas_new limit = \<lparr>gm_remaining = limit, gm_limit = limit\<rparr>"

definition gas_consume :: "u64 \<Rightarrow> gas_meter \<Rightarrow> (script_error, gas_meter) res" where
  "gas_consume amount g =
     (if gm_remaining g < amount then Err OutOfGas
      else Ok (g\<lparr>gm_remaining := gm_remaining g - amount\<rparr>))"

definition gas_used :: "gas_meter \<Rightarrow> u64" where
  "gas_used g = gm_limit g - gm_remaining g"

definition BASE_COST :: u64 where "BASE_COST = 10"

definition SIG_COST :: u64 where "SIG_COST = 5000"

definition HASH_COST :: u64 where "HASH_COST = 250"

fun gas_cost :: "op_code \<Rightarrow> nat \<Rightarrow> (script_error, u64) res" where
  "gas_cost Nop max_push_bytes = Ok 1"
| "gas_cost (PushBytes data) max_push_bytes =
     (if max_push_bytes < length data then Err (Evaluation ''push exceeds byte limit'')
      else Ok (BASE_COST + of_nat (length data)))"
| "gas_cost CheckSig max_push_bytes = Ok SIG_COST"
| "gas_cost (CheckMultiSig threshold total_n) max_push_bytes = Ok (SIG_COST * max (ucast threshold) 1)"
| "gas_cost CheckTimeLock max_push_bytes = Ok BASE_COST"
| "gas_cost CheckRelativeTimeLock max_push_bytes = Ok BASE_COST"
| "gas_cost CheckHashLock max_push_bytes = Ok HASH_COST"

section \<open>The stack\<close>

text \<open>The items are the Rust vector, so the top of the stack is the last element.\<close>

record vm_stack =
  st_items :: "bytes list"
  st_max_items :: nat

definition stack_new :: "nat \<Rightarrow> vm_stack" where
  "stack_new max_items = \<lparr>st_items = [], st_max_items = max_items\<rparr>"

definition stack_push :: "bytes \<Rightarrow> vm_stack \<Rightarrow> (script_error, vm_stack) res" where
  "stack_push v st =
     (if st_max_items st \<le> length (st_items st) then Err StackOverflow
      else Ok (st\<lparr>st_items := st_items st @ [v]\<rparr>))"

definition stack_pop :: "vm_stack \<Rightarrow> (script_error, bytes \<times> vm_stack) res" where
  "stack_pop st =
     (if st_items st = [] then Err StackUnderflow
      else Ok (last (st_items st), st\<lparr>st_items := butlast (st_items st)\<rparr>))"

section \<open>Opcodes\<close>

text \<open>The message a signature must cover: the spent output is looked up through the host.\<close>

definition input_sighash :: "platform \<Rightarrow> script_context \<Rightarrow> script_host \<Rightarrow> (script_error, hash256) res" where
  "input_sighash pf ctx host =
     and_then (ok_or (Evaluation ''input index out of bounds'')
       (list_get (tc_inputs (tx_core (ctx_tx ctx))) (ctx_input_index ctx))) (\<lambda>inp.
     and_then (ok_or (Evaluation ''host could not resolve input'') (sh_input_utxo host inp)) (\<lambda>prev_output.
     expect (sighash pf (ctx_tx ctx) (ctx_input_index ctx) (ri_output prev_output)
       (ctx_script_hash ctx) (ctx_chain_id ctx) default_sighash_flags)))"

definition parse_public_key :: "platform \<Rightarrow> bytes \<Rightarrow> (script_error, public_key) res" where
  "parse_public_key pf bs =
     map_err (\<lambda>err. Evaluation (''invalid public key: '' @ crypto_error_display err)) (public_key_from_bytes pf bs)"

definition parse_signature :: "platform \<Rightarrow> bytes \<Rightarrow> (script_error, signature) res" where
  "parse_signature pf bs =
     map_err (\<lambda>err. Evaluation (''invalid signature: '' @ crypto_error_display err)) (signature_from_bytes pf bs)"

definition verify_input_signature ::
  "platform \<Rightarrow> script_context \<Rightarrow> script_host \<Rightarrow> string \<Rightarrow> public_key \<Rightarrow> signature \<Rightarrow> (script_error, unit) res" where
  "verify_input_signature pf ctx host what pk s =
     and_then (ok_or (Evaluation ''signature scheme not registered'')
       (registry_get (default_registry pf) (pk_scheme pk))) (\<lambda>sch.
     and_then (input_sighash pf ctx host) (\<lambda>h.
     map_err (\<lambda>err. Evaluation (what @ '' verification failed: '' @ crypto_error_display err))
       (ps_verify sch pk (hash_slice h) s)))"

definition exec_check_sig ::
  "platform \<Rightarrow> script_context \<Rightarrow> script_host \<Rightarrow> vm_stack \<Rightarrow> (script_error, vm_stack) res" where
  "exec_check_sig pf ctx host st =
     and_then (stack_pop st) (\<lambda>(signature_bytes, st).
     and_then (stack_pop st) (\<lambda>(public_key_bytes, st).
     and_then (parse_public_key pf public_key_bytes) (\<lambda>public_key.
     and_then (parse_signature pf signature_bytes) (\<lambda>sig.
     and_then (verify_input_signature pf ctx host ''signature'' public_key sig) (\<lambda>_. Ok st)))))"

text \<open>The two popping loops of \<open>CheckMultiSig\<close>; each item is parsed before the next one is popped.\<close>

fun pop_parsed :: "(bytes \<Rightarrow> (script_error, 'a) res) \<Rightarrow> nat \<Rightarrow> vm_stack \<Rightarrow> (script_error, 'a list \<times> vm_stack) res" where
  "pop_parsed parse 0 st = Ok ([], st)"
| "pop_parsed parse (Suc n) st =
     and_then (stack_pop st) (\<lambda>(bs, st).
     and_then (parse bs) (\<lambda>x.
     and_then (pop_parsed parse n st) (\<lambda>(xs, st). Ok (x # xs, st))))"

fun verify_signatures ::
  "platform \<Rightarrow> script_context \<Rightarrow> script_host \<Rightarrow> public_key list \<Rightarrow> signature list \<Rightarrow> nat
     \<Rightarrow> (script_error, unit) res" where
  "verify_signatures pf ctx host pubkeys [] idx = Ok ()"
| "verify_signatures pf ctx host pubkeys (sig # sigs) idx =
     and_then (ok_or (Evaluation ''multisig stack did not contain enough public keys'')
       (list_get pubkeys idx)) (\<lambda>public_key.
     and_then (verify_input_signature pf ctx host ''multisig'' public_key sig) (\<lambda>_.
     verify_signatures pf ctx host pubkeys sigs (Suc idx)))"

definition exec_check_multi_sig ::
  "platform \<Rightarrow> script_context \<Rightarrow> script_host \<Rightarrow> u8 \<Rightarrow> u8 \<Rightarrow> vm_stack \<Rightarrow> (script_error, vm_stack) res" where
  "exec_check_multi_sig pf ctx host threshold total_n st =
     (let threshold = unat threshold; total_n = unat total_n
      in if threshold = 0 \<or> total_n = 0 \<or> total_n < threshold then Err (Evaluation ''invalid multisig threshold'')
         else
           and_then (pop_parsed (parse_signature pf) threshold st) (\<lambda>(signatures, st).
           and_then (pop_parsed (parse_public_key pf) total_n st) (\<lambda>(pubkeys, st).
           and_then (verify_signatures pf ctx host pubkeys signatures 0) (\<lambda>_. Ok st))))"

definition current_height_of :: "script_context \<Rightarrow> script_host \<Rightarrow> (script_error, u64) res" where
  "current_height_of ctx host =
     ok_or (Evaluation ''current height unavailable for timelock'')
       (case sh_current_height host of Some h \<Rightarrow> Some h | None \<Rightarrow> ctx_current_height ctx)"

definition exec_check_time_lock :: "script_context \<Rightarrow> script_host \<Rightarrow> vm_stack \<Rightarrow> (script_error, vm_stack) res" where
  "exec_check_time_lock ctx host st =
     and_then (stack_pop st) (\<lambda>(required, st).
     if length required \<noteq> 8 then Err (Evaluation ''timelock expects 8-byte height'')
     else
       and_then (current_height_of ctx host) (\<lambda>current_height.
       if current_height < from_le_bytes required then Err (Evaluation ''absolute timelock not satisfied'')
       else Ok st))"

definition exec_check_relative_time_lock ::
  "platform \<Rightarrow> script_context \<Rightarrow> script_host \<Rightarrow> vm_stack \<Rightarrow> (script_error, vm_stack) res" where
  "exec_check_relative_time_lock pf ctx host st =
     and_then (stack_pop st) (\<lambda>(relative, st).
     if length relative \<noteq> 8 then Err (Evaluation ''relative timelock expects 8-byte height'')
     else
       and_then (ok_or (Evaluation ''input index out of bounds'')
         (list_get (tc_inputs (tx_core (ctx_tx ctx))) (ctx_input_index ctx))) (\<lambda>inp.
       and_then (ok_or (Evaluation ''host could not resolve input for relative timelock'')
         (sh_input_utxo host inp)) (\<lambda>resolved.
       and_then (ok_or (Evaluation ''input creation height unavailable'') (ri_created_height resolved))
         (\<lambda>created_height.
       and_then (current_height_of ctx host) (\<lambda>current_height.
       and_then (expect (add_chk (pf_overflow_checks pf) created_height (from_le_bytes relative))) (\<lambda>unlock.
       if current_height < unlock then Err (Evaluation ''relative timelock not satisfied'') else Ok st))))))"

definition exec_check_hash_lock :: "platform \<Rightarrow> vm_stack \<Rightarrow> (script_error, vm_stack) res" where
  "exec_check_hash_lock pf st =
     and_then (stack_pop st) (\<lambda>(preimage, st).
     and_then (stack_pop st) (\<lambda>(expected_hash, st).
     if length expected_hash \<noteq> 32 then Err (Evaluation ''hashlock expects 32-byte hash'')
     else if expected_hash \<noteq> hash_slice (pf_blake3 pf preimage) then
       Err (Evaluation ''hashlock preimage mismatch'')
     else Ok st))"

fun exec_op ::
  "platform \<Rightarrow> vm_config \<Rightarrow> script_context \<Rightarrow> script_host \<Rightarrow> op_code \<Rightarrow> vm_stack \<Rightarrow> (script_error, vm_stack) res" where
  "exec_op pf cfg ctx host (PushBytes data) st =
     (if vm_max_push_bytes cfg < length data then Err (Evaluation ''push exceeds byte limit'')
      else stack_push data st)"
| "exec_op pf cfg ctx host Nop st = Ok st"
| "exec_op pf cfg ctx host CheckSig st = exec_check_sig pf ctx host st"
| "exec_op pf cfg ctx host (CheckMultiSig threshold total_n) st =
     exec_check_multi_sig pf ctx host threshold total_n st"
| "exec_op pf cfg ctx host CheckTimeLock st = exec_check_time_lock ctx host st"
| "exec_op pf cfg ctx host CheckRelativeTimeLock st = exec_check_relative_time_lock pf ctx host st"
| "exec_op pf cfg ctx host CheckHashLock st = exec_check_hash_lock pf st"

definition eval_step ::
  "platform \<Rightarrow> vm_config \<Rightarrow> script_context \<Rightarrow> script_host \<Rightarrow> op_code \<Rightarrow> gas_meter \<times> vm_stack
     \<Rightarrow> (script_error, gas_meter \<times> vm_stack) res" where
  "eval_step pf cfg ctx host op = (\<lambda>(gas, st).
     and_then (gas_cost op (vm_max_push_bytes cfg)) (\<lambda>op_cost.
     and_then (gas_consume op_cost gas) (\<lambda>gas.
     and_then (exec_op pf cfg ctx host op st) (\<lambda>st. Ok (gas, st)))))"

definition eval :: "platform \<Rightarrow> vm_config \<Rightarrow> script_engine" where
  "eval pf cfg s ctx host =
     (if vm_max_script_len cfg < length (script_ops s) then Err ScriptTooLarge
      else
        and_then (fold_res (eval_step pf cfg ctx host) (script_ops s)
          (gas_new (vm_max_gas cfg), stack_new (vm_max_stack_items cfg))) (\<lambda>(gas, st).
        Ok \<lparr>sr_gas_consumed = gas_used gas\<rparr>))"


section \<open>The encoding is a code\<close>

lemma encode_op_tag_split:
  "encode_op x = Some a \<Longrightarrow> encode_op y = Some b \<Longrightarrow> a @ r = b @ s \<Longrightarrow> x = y \<and> r = s"
proof (cases x)
  case (PushBytes d)
  assume x: "encode_op x = Some a" and y: "encode_op y = Some b" and eq: "a @ r = b @ s"
  from x PushBytes obtain m where m: "encode_len (length d) = Some m" "a = 5 # m @ d"
    by (auto simp: bind_eq_Some_conv)
  from y eq m(2) obtain e n where e: "y = PushBytes e" "encode_len (length e) = Some n" "b = 5 # n @ e"
    by (cases y) (auto simp: bind_eq_Some_conv)
  from eq have "m @ (d @ r) = n @ (e @ s)" unfolding m(2) e(3) by simp
  from len_code.prefix_free [OF m(1) e(2) this] PushBytes e(1) show ?thesis by auto
qed (cases y; auto simp: bind_eq_Some_conv)+

interpretation op_coding: prefix_code encode_op
  by unfold_locales (rule encode_op_tag_split)

interpretation script_coding: prefix_code encode_script
proof
  show "x = y \<and> r = s" if "encode_script x = Some a" "encode_script y = Some b" "a @ r = b @ s" for x y a b r s
    using op_coding.vec_free [of "script_ops x" a "script_ops y" b r s] that
    by (auto simp: encode_script_def script.expand)
qed

section \<open>Stack and gas\<close>

named_theorems vm_defs \<open>definitions of the virtual machine's primitive steps\<close>

declare stack_push_def [vm_defs] stack_pop_def [vm_defs] gas_consume_def [vm_defs] stack_new_def [vm_defs]
  gas_new_def [vm_defs] gas_used_def [vm_defs]

lemma stack_pop_eq_Ok:
  "stack_pop st = Ok (v, st') \<longleftrightarrow> st_items st = st_items st' @ [v] \<and> st_max_items st' = st_max_items st"
proof
  assume "st_items st = st_items st' @ [v] \<and> st_max_items st' = st_max_items st"
  then show "stack_pop st = Ok (v, st')"
    by (auto simp: stack_pop_def intro!: vm_stack.equality)
qed (auto simp: stack_pop_def split: if_splits)

lemma stack_pop_snoc:
  "st_items st = items @ [v] \<Longrightarrow> stack_pop st = Ok (v, st\<lparr>st_items := items\<rparr>)"
  by (simp add: stack_pop_def)

lemma stack_pop_neq_Panic [simp]: "stack_pop st \<noteq> Panic"
  by (simp add: stack_pop_def)

lemma stack_push_eq_Ok:
  "stack_push v st = Ok st' \<longleftrightarrow>
     length (st_items st) < st_max_items st \<and> st' = st\<lparr>st_items := st_items st @ [v]\<rparr>"
  by (auto simp: stack_push_def)

lemma gas_consume_eq_Ok:
  "gas_consume c g = Ok g' \<longleftrightarrow> c \<le> gm_remaining g \<and> g' = g\<lparr>gm_remaining := gm_remaining g - c\<rparr>"
  by (auto simp: gas_consume_def not_less)

lemma gas_consume_neq_Panic [simp]: "gas_consume c g \<noteq> Panic"
  by (simp add: gas_consume_def)

text \<open>The cost of an opcode as a number, independent of any width.\<close>

fun op_gas :: "op_code \<Rightarrow> nat" where
  "op_gas Nop = 1"
| "op_gas (PushBytes data) = 10 + length data"
| "op_gas CheckSig = 5000"
| "op_gas (CheckMultiSig threshold total_n) = 5000 * max (unat threshold) 1"
| "op_gas CheckTimeLock = 10"
| "op_gas CheckRelativeTimeLock = 10"
| "op_gas CheckHashLock = 250"

lemma multisig_gas_exact: "unat (SIG_COST * max (ucast (t :: u8)) 1) = 5000 * max (unat t) 1"
proof -
  have t: "unat t < 256" by (rule u8_bound)
  have u: "unat (max (ucast t) 1 :: u64) = max (unat t) 1"
    using t by (simp add: max_def word_le_nat_alt unsigned_ucast_eq take_bit_eq_mod)
  have "unat (5000 :: u64) * unat (max (ucast t) 1 :: u64) < 2 ^ LENGTH(64)"
    unfolding u using t by simp
  then show ?thesis
    unfolding SIG_COST_def by (subst unat_mult_lem [THEN iffD1]) (simp_all add: u)
qed

lemma gas_cost_exact:
  assumes "gas_cost op m = Ok c" and "m < 2 ^ 63"
  shows "unat c = op_gas op"
proof (cases op)
  case (PushBytes d)
  with assms have "length d < 2 ^ 63" and c: "c = 10 + of_nat (length d)"
    by (auto simp: BASE_COST_def split: if_splits)
  then have "unat (of_nat (length d) :: u64) = length d" by (simp add: unat_of_nat)
  with \<open>length d < 2 ^ 63\<close> PushBytes c show ?thesis
    by (simp add: unat_add_small)
qed (use assms in \<open>auto simp: BASE_COST_def SIG_COST_def HASH_COST_def multisig_gas_exact [unfolded SIG_COST_def]\<close>)

lemma gas_cost_neq_Panic [simp]: "gas_cost op m \<noteq> Panic"
  by (cases op) auto

lemma eval_step_eq_Ok:
  "eval_step pf cfg ctx host op (g, st) = Ok (g', st') \<longleftrightarrow>
     (\<exists>c. gas_cost op (vm_max_push_bytes cfg) = Ok c \<and> c \<le> gm_remaining g \<and>
        g' = g\<lparr>gm_remaining := gm_remaining g - c\<rparr> \<and> exec_op pf cfg ctx host op st = Ok st')"
  by (auto simp: eval_step_def res_simps gas_consume_eq_Ok)

lemma run_gas:
  assumes "fold_res (eval_step pf cfg ctx host) ops (g, st) = Ok (g', st')" and "vm_max_push_bytes cfg < 2 ^ 63"
  shows "gm_limit g' = gm_limit g \<and> unat (gm_remaining g') + sum_list (map op_gas ops) = unat (gm_remaining g)"
  using assms(1)
proof (induction ops arbitrary: g st)
  case Nil
  then show ?case by simp
next
  case (Cons op ops)
  from Cons.prems obtain g1 st1 c where c: "gas_cost op (vm_max_push_bytes cfg) = Ok c" "c \<le> gm_remaining g"
    "g1 = g\<lparr>gm_remaining := gm_remaining g - c\<rparr>"
    and rest: "fold_res (eval_step pf cfg ctx host) ops (g1, st1) = Ok (g', st')"
    by (auto simp: res_simps eval_step_eq_Ok)
  have "unat (gm_remaining g - c) = unat (gm_remaining g) - op_gas op" "op_gas op \<le> unat (gm_remaining g)"
    using gas_cost_exact [OF c(1) assms(2)] c(2) by (auto simp: unat_sub word_le_nat_alt)
  with Cons.IH [OF rest] c(3) show ?case by auto
qed

section \<open>Panic freedom\<close>

text \<open>
  The contract of a script engine towards the ledger: evaluation of a transaction whose vectors fit
  their length prefixes, against a host whose outputs fit, returns.
\<close>

definition host_fits :: "script_host \<Rightarrow> bool" where
  "host_fits host \<longleftrightarrow> (\<forall>inp r. sh_input_utxo host inp = Some r \<longrightarrow> output_fits (ri_output r))"

locale total_script_engine =
  fixes eng :: script_engine
  assumes engine_returns:
    "core_fits (tx_core (ctx_tx ctx)) \<Longrightarrow> host_fits host \<Longrightarrow> eng s ctx host \<noteq> Panic"
begin

lemma engine_cases:
  assumes "core_fits (tx_core (ctx_tx ctx))" and "host_fits host"
  obtains r where "eng s ctx host = Ok r" | e where "eng s ctx host = Err e"
  using engine_returns [OF assms, of s] by (cases "eng s ctx host") auto

end

lemma decode_with_scheme_neq_Panic [simp]: "decode_with_scheme bs e \<noteq> Panic"
  unfolding decode_with_scheme_def Let_def by (metis res.distinct(4,6))

lemma from_bytes_neq_Panic [simp]:
  "public_key_from_bytes pf bs \<noteq> Panic" "signature_from_bytes pf bs \<noteq> Panic"
  by (auto simp: public_key_from_bytes_def signature_from_bytes_def and_then_eq_Panic)

lemma parse_neq_Panic [simp]: "parse_public_key pf bs \<noteq> Panic" "parse_signature pf bs \<noteq> Panic"
  by (simp_all add: parse_public_key_def parse_signature_def)

lemma verify_input_signature_neq_Panic:
  assumes "core_fits (tx_core (ctx_tx ctx))" and "host_fits host"
  shows "verify_input_signature pf ctx host what pk s \<noteq> Panic"
proof -
  have "input_sighash pf ctx host \<noteq> Panic"
    using assms by (auto simp: input_sighash_def and_then_eq_Panic sighash_eq_None host_fits_def ok_or_eq_Ok)
  then show ?thesis
    by (auto simp: verify_input_signature_def and_then_eq_Panic ok_or_eq_Ok default_registry_verify_no_panic)
qed

lemma pop_parsed_neq_Panic: "(\<And>bs. parse bs \<noteq> Panic) \<Longrightarrow> pop_parsed parse n st \<noteq> Panic"
  by (induction n arbitrary: st) (auto simp: and_then_eq_Panic)

lemma verify_signatures_neq_Panic:
  assumes "core_fits (tx_core (ctx_tx ctx))" and "host_fits host"
  shows "verify_signatures pf ctx host pks sigs i \<noteq> Panic"
  by (induction sigs arbitrary: i) (auto simp: and_then_eq_Panic verify_input_signature_neq_Panic [OF assms])

lemma current_height_of_neq_Panic [simp]: "current_height_of ctx host \<noteq> Panic"
  by (simp add: current_height_of_def)

lemma exec_op_neq_Panic:
  assumes "core_fits (tx_core (ctx_tx ctx))" and "host_fits host" and "\<not> pf_overflow_checks pf"
  shows "exec_op pf cfg ctx host op st \<noteq> Panic"
  using assms verify_input_signature_neq_Panic [OF assms(1,2)] verify_signatures_neq_Panic [OF assms(1,2)]
  by (cases op)
    (auto simp: stack_push_def exec_check_sig_def exec_check_multi_sig_def Let_def exec_check_time_lock_def
      exec_check_relative_time_lock_def exec_check_hash_lock_def and_then_eq_Panic pop_parsed_neq_Panic)

lemma eval_neq_Panic:
  assumes "core_fits (tx_core (ctx_tx ctx))" and "host_fits host" and "\<not> pf_overflow_checks pf"
  shows "eval pf cfg s ctx host \<noteq> Panic"
proof -
  have "fold_res (eval_step pf cfg ctx host) ops init \<noteq> Panic" for ops init
    by (rule fold_res_no_panic)
      (auto simp: eval_step_def and_then_eq_Panic exec_op_neq_Panic [OF assms])
  then show ?thesis by (auto simp: eval_def and_then_eq_Panic)
qed

interpretation release_engine: total_script_engine "eval (pf\<lparr>pf_overflow_checks := False\<rparr>) cfg" for pf cfg
  by unfold_locales (rule eval_neq_Panic; simp)


section \<open>What a run does to the stack\<close>

text \<open>Every opcode other than a push leaves a prefix of the stack.\<close>

lemma stack_pop_items: "stack_pop st = Ok (v, st') \<Longrightarrow> set (st_items st') \<subseteq> set (st_items st) \<and>
    length (st_items st') \<le> length (st_items st) \<and> st_max_items st' = st_max_items st \<and> v \<in> set (st_items st)"
  by (auto simp: stack_pop_eq_Ok)

lemma pop_parsed_items:
  "pop_parsed parse n st = Ok (xs, st') \<Longrightarrow> set (st_items st') \<subseteq> set (st_items st) \<and>
     length (st_items st') \<le> length (st_items st) \<and> st_max_items st' = st_max_items st \<and> length xs = n \<and>
     (\<forall>x\<in>set xs. \<exists>bs\<in>set (st_items st). parse bs = Ok x)"
proof (induction n arbitrary: st xs)
  case 0
  then show ?case by simp
next
  case (Suc n)
  then obtain v st1 x ys where 1: "stack_pop st = Ok (v, st1)" "parse v = Ok x"
    "pop_parsed parse n st1 = Ok (ys, st')" "xs = x # ys"
    by (auto simp: res_simps)
  from stack_pop_items [OF 1(1)] Suc.IH [OF 1(3)] 1(2,4) show ?case by force
qed

lemma exec_op_items:
  assumes "exec_op pf cfg ctx host op st = Ok st'"
  shows "st_max_items st' = st_max_items st \<and>
    set (st_items st') \<subseteq> set (st_items st) \<union> {d. op = PushBytes d \<and> length d \<le> vm_max_push_bytes cfg} \<and>
    (length (st_items st) \<le> st_max_items st \<longrightarrow> length (st_items st') \<le> st_max_items st)"
proof (cases op)
  case CheckSig
  with assms show ?thesis
    by (fastforce simp: exec_check_sig_def res_simps dest: stack_pop_items)
next
  case (CheckMultiSig t n)
  with assms show ?thesis
    by (fastforce simp: exec_check_multi_sig_def Let_def res_simps dest: pop_parsed_items split: if_splits)
next
  case CheckTimeLock
  with assms show ?thesis
    by (fastforce simp: exec_check_time_lock_def res_simps dest: stack_pop_items split: if_splits)
next
  case CheckRelativeTimeLock
  with assms show ?thesis
    by (fastforce simp: exec_check_relative_time_lock_def res_simps dest: stack_pop_items split: if_splits)
next
  case CheckHashLock
  with assms show ?thesis
    by (fastforce simp: exec_check_hash_lock_def res_simps dest: stack_pop_items split: if_splits)
qed (use assms in \<open>auto simp: stack_push_eq_Ok split: if_splits\<close>)

text \<open>The machine invariant of a run of the script \<open>ops\<close>.\<close>

definition vm_inv :: "vm_config \<Rightarrow> op_code list \<Rightarrow> gas_meter \<times> vm_stack \<Rightarrow> bool" where
  "vm_inv cfg ops = (\<lambda>(g, st). st_max_items st = vm_max_stack_items cfg \<and>
     length (st_items st) \<le> vm_max_stack_items cfg \<and>
     (\<forall>d\<in>set (st_items st). PushBytes d \<in> set ops \<and> length d \<le> vm_max_push_bytes cfg))"

lemma vm_inv_init: "vm_inv cfg ops (gas_new (vm_max_gas cfg), stack_new (vm_max_stack_items cfg))"
  by (simp add: vm_inv_def stack_new_def)

lemma vm_inv_step:
  assumes "op \<in> set ops" and "vm_inv cfg ops s" and "eval_step pf cfg ctx host op s = Ok t"
  shows "vm_inv cfg ops t"
proof -
  obtain g st g' st' where st: "s = (g, st)" "t = (g', st')" by (cases s; cases t)
  then have "exec_op pf cfg ctx host op st = Ok st'"
    using assms(3) by (auto simp: eval_step_eq_Ok)
  from exec_op_items [OF this] assms(1,2) show ?thesis
    unfolding st by (fastforce simp: vm_inv_def)
qed

lemma eval_eq_Ok:
  "eval pf cfg s ctx host = Ok r \<longleftrightarrow> length (script_ops s) \<le> vm_max_script_len cfg \<and>
     (\<exists>g st. fold_res (eval_step pf cfg ctx host) (script_ops s)
        (gas_new (vm_max_gas cfg), stack_new (vm_max_stack_items cfg)) = Ok (g, st) \<and>
        r = \<lparr>sr_gas_consumed = gas_used g\<rparr>)"
  by (auto simp: eval_def res_simps)

text \<open>Every opcode of a script that evaluates has been executed in a state with the invariant.\<close>

lemma eval_executes:
  assumes "eval pf cfg s ctx host = Ok r" and "op \<in> set (script_ops s)"
  obtains g st st' where "vm_inv cfg (script_ops s) (g, st)" "exec_op pf cfg ctx host op st = Ok st'"
proof -
  from assms(1) obtain t where run: "fold_res (eval_step pf cfg ctx host) (script_ops s)
      (gas_new (vm_max_gas cfg), stack_new (vm_max_stack_items cfg)) = Ok t"
    by (auto simp: eval_eq_Ok)
  have "\<exists>u v. vm_inv cfg (script_ops s) u \<and> eval_step pf cfg ctx host op u = Ok v"
    by (rule fold_res_visits [where I = "vm_inv cfg (script_ops s)", OF _ run vm_inv_init assms(2)]) (rule vm_inv_step)
  then show ?thesis using that by (auto simp: eval_step_eq_Ok)
qed

lemma verify_input_signature_eq_Ok:
  "verify_input_signature pf ctx host what pk s = Ok u \<longleftrightarrow>
     (\<exists>sch h. registry_get (default_registry pf) (pk_scheme pk) = Some sch \<and>
        input_sighash pf ctx host = Ok h \<and> ps_verify sch pk (hash_slice h) s = Ok ())"
  by (auto simp: verify_input_signature_def res_simps)

text \<open>A key and a signature that verify the message of the current input.\<close>

definition signed_by :: "platform \<Rightarrow> script_context \<Rightarrow> script_host \<Rightarrow> public_key \<Rightarrow> signature \<Rightarrow> bool" where
  "signed_by pf ctx host pk s \<longleftrightarrow> is_Ok (verify_input_signature pf ctx host [] pk s)"

lemma signed_by_iff:
  "signed_by pf ctx host pk s \<longleftrightarrow>
     (\<exists>sch h. registry_get (default_registry pf) (pk_scheme pk) = Some sch \<and>
        input_sighash pf ctx host = Ok h \<and> ps_verify sch pk (hash_slice h) s = Ok ())"
  by (auto simp: signed_by_def is_Ok_iff verify_input_signature_eq_Ok)

lemma verify_signatures_eq_Ok:
  "verify_signatures pf ctx host pks sigs i = Ok u \<longleftrightarrow>
     i + length sigs \<le> length pks \<and> (\<forall>j < length sigs. signed_by pf ctx host (pks ! (i + j)) (sigs ! j)) \<or>
     sigs = []"
proof (induction sigs arbitrary: i)
  case Nil
  then show ?case by simp
next
  case (Cons s sigs)
  have "verify_signatures pf ctx host pks (s # sigs) i = Ok u \<longleftrightarrow>
      i < length pks \<and> signed_by pf ctx host (pks ! i) s \<and> verify_signatures pf ctx host pks sigs (Suc i) = Ok u"
    by (auto simp: res_simps list_get_eq_Some signed_by_iff verify_input_signature_eq_Ok)
  also have "\<dots> \<longleftrightarrow> i + length (s # sigs) \<le> length pks \<and>
      (\<forall>j < length (s # sigs). signed_by pf ctx host (pks ! (i + j)) ((s # sigs) ! j))"
    unfolding Cons.IH by (cases "sigs = []") (auto simp: All_less_Suc2)
  finally show ?case by simp
qed

text \<open>The two popping loops take the top items, the last one first.\<close>

lemma pop_parsed_eq_Ok:
  "pop_parsed parse n st = Ok (xs, st') \<longleftrightarrow>
     (\<exists>bss. st_items st = st_items st' @ rev bss \<and> st_max_items st' = st_max_items st \<and> length bss = n \<and>
        length xs = n \<and> (\<forall>i < n. parse (bss ! i) = Ok (xs ! i)))"
proof (induction n arbitrary: st xs)
  case 0
  then show ?case by (auto intro: vm_stack.equality)
next
  case (Suc n)
  have "pop_parsed parse (Suc n) st = Ok (xs, st') \<longleftrightarrow>
      (\<exists>v st1 x ys. st_items st = st_items st1 @ [v] \<and> st_max_items st1 = st_max_items st \<and>
        parse v = Ok x \<and> pop_parsed parse n st1 = Ok (ys, st') \<and> xs = x # ys)"
    by (fastforce simp: res_simps stack_pop_eq_Ok)
  also have "\<dots> \<longleftrightarrow> (\<exists>v bss x ys. st_items st = st_items st' @ rev bss @ [v] \<and> st_max_items st' = st_max_items st \<and>
        parse v = Ok x \<and> length bss = n \<and> length ys = n \<and> (\<forall>i < n. parse (bss ! i) = Ok (ys ! i)) \<and> xs = x # ys)"
    (is "?L \<longleftrightarrow> ?R")
  proof
    assume ?R
    then obtain v bss x ys where "st_items st = st_items st' @ rev bss @ [v]" "st_max_items st' = st_max_items st"
      "parse v = Ok x" "length bss = n" "length ys = n" "\<forall>i < n. parse (bss ! i) = Ok (ys ! i)" "xs = x # ys"
      by blast
    then show ?L unfolding Suc.IH
      by (intro exI [of _ v] exI [of _ "st\<lparr>st_items := st_items st' @ rev bss\<rparr>"]) auto
  qed (auto simp: Suc.IH)
  also have "\<dots> \<longleftrightarrow> (\<exists>bss. st_items st = st_items st' @ rev bss \<and> st_max_items st' = st_max_items st \<and>
        length bss = Suc n \<and> length xs = Suc n \<and> (\<forall>i < Suc n. parse (bss ! i) = Ok (xs ! i)))"
    (is "?L \<longleftrightarrow> ?R")
  proof
    assume ?L
    then obtain v bss x ys where "st_items st = st_items st' @ rev bss @ [v]" "st_max_items st' = st_max_items st"
      "parse v = Ok x" "length bss = n" "length ys = n" "\<forall>i < n. parse (bss ! i) = Ok (ys ! i)" "xs = x # ys"
      by blast
    then show ?R by (intro exI [of _ "v # bss"]) (auto simp: All_less_Suc2)
  next
    assume ?R
    then obtain bs' where b: "st_items st = st_items st' @ rev bs'" "st_max_items st' = st_max_items st"
      "length bs' = Suc n" "length xs = Suc n" "\<forall>i < Suc n. parse (bs' ! i) = Ok (xs ! i)"
      by blast
    obtain v bss x ys where vx: "bs' = v # bss" "xs = x # ys"
      using b(3,4) by (metis length_Suc_conv)
    show ?L
      by (rule exI [of _ v], rule exI [of _ bss], rule exI [of _ x], rule exI [of _ ys])
        (use b in \<open>simp add: vx All_less_Suc2\<close>)
  qed
  finally show ?case .
qed

text \<open>\<open>CheckMultiSig\<close> as a relation between stacks.\<close>

lemma check_multi_sig_eq_Ok:
  "exec_check_multi_sig pf ctx host t n st = Ok st' \<longleftrightarrow>
     0 < unat t \<and> unat t \<le> unat n \<and> st_max_items st' = st_max_items st \<and>
     (\<exists>sbs kbs sigs keys. st_items st = st_items st' @ rev kbs @ rev sbs \<and>
        length sbs = unat t \<and> length sigs = unat t \<and> length kbs = unat n \<and> length keys = unat n \<and>
        (\<forall>i < unat t. parse_signature pf (sbs ! i) = Ok (sigs ! i)) \<and>
        (\<forall>i < unat n. parse_public_key pf (kbs ! i) = Ok (keys ! i)) \<and>
        (\<forall>i < unat t. signed_by pf ctx host (keys ! i) (sigs ! i)))" (is "?L \<longleftrightarrow> ?R")
proof
  assume ?L
  then have guard: "0 < unat t" "unat t \<le> unat n"
    by (auto simp: exec_check_multi_sig_def Let_def simp del: unat_gt_0 split: if_splits)
  with \<open>?L\<close> obtain sigs st1 keys where
    "pop_parsed (parse_signature pf) (unat t) st = Ok (sigs, st1)"
    "pop_parsed (parse_public_key pf) (unat n) st1 = Ok (keys, st')"
    and verify: "verify_signatures pf ctx host keys sigs 0 = Ok ()"
    by (auto simp: exec_check_multi_sig_def Let_def res_simps split: if_splits)
  then obtain sbs kbs where
    "st_items st = st_items st1 @ rev sbs" "st_max_items st1 = st_max_items st" "length sbs = unat t"
    "length sigs = unat t" "\<forall>i < unat t. parse_signature pf (sbs ! i) = Ok (sigs ! i)"
    "st_items st1 = st_items st' @ rev kbs" "st_max_items st' = st_max_items st1" "length kbs = unat n"
    "length keys = unat n" "\<forall>i < unat n. parse_public_key pf (kbs ! i) = Ok (keys ! i)"
    unfolding pop_parsed_eq_Ok by blast
  with guard verify show ?R
    by (intro conjI exI [of _ sbs] exI [of _ kbs] exI [of _ sigs] exI [of _ keys])
      (auto simp: verify_signatures_eq_Ok)
next
  assume r: ?R
  then obtain sbs kbs sigs keys where s: "st_items st = st_items st' @ rev kbs @ rev sbs"
    "length sbs = unat t" "length sigs = unat t" "length kbs = unat n" "length keys = unat n"
    "\<forall>i < unat t. parse_signature pf (sbs ! i) = Ok (sigs ! i)"
    "\<forall>i < unat n. parse_public_key pf (kbs ! i) = Ok (keys ! i)"
    "\<forall>i < unat t. signed_by pf ctx host (keys ! i) (sigs ! i)" by blast
  let ?st1 = "st\<lparr>st_items := st_items st' @ rev kbs\<rparr>"
  have "pop_parsed (parse_signature pf) (unat t) st = Ok (sigs, ?st1)"
    unfolding pop_parsed_eq_Ok using s by (intro exI [of _ sbs]) auto
  moreover have "pop_parsed (parse_public_key pf) (unat n) ?st1 = Ok (keys, st')"
    unfolding pop_parsed_eq_Ok using s r by (intro exI [of _ kbs]) auto
  moreover have "verify_signatures pf ctx host keys sigs 0 = Ok ()"
    using s r by (auto simp: verify_signatures_eq_Ok)
  ultimately show ?L
    using r by (auto simp: exec_check_multi_sig_def Let_def simp del: unat_gt_0)
qed

section \<open>Samples\<close>

definition sample_ctx :: script_context where
  "sample_ctx = \<lparr>ctx_tx = \<lparr>tx_core = sample_core, tx_witness = default_transaction_witness\<rparr>,
     ctx_input_index = 0, ctx_current_height = Some 9, ctx_chain_id = 0, ctx_script_hash = hash_fill 7\<rparr>"

definition sample_host :: "u64 \<Rightarrow> u64 \<Rightarrow> script_host" where
  "sample_host height created = \<lparr>sh_current_height = Some height,
     sh_input_utxo = (\<lambda>inp. Some \<lparr>ri_output = sample_output, ri_created_height = Some created\<rparr>)\<rparr>"

lemma sample_input_sighash: "\<exists>h. input_sighash (sample_platform oc) sample_ctx (sample_host n c) = Ok h"
  using sighash_eq_None [of "sample_platform oc" "ctx_tx sample_ctx" 0 sample_output "hash_fill 7" 0 default_sighash_flags]
  by (auto simp: input_sighash_def res_simps sample_ctx_def sample_host_def list_get_def sample_core_fits
      sample_output_fits) (simp_all add: sample_core_def)

lemma sample_signed_by:
  "signed_by (sample_platform oc) sample_ctx (sample_host n c)
     \<lparr>pk_scheme = Dilithium2, pk_bytes = k\<rparr> \<lparr>sig_scheme = Dilithium2, sig_bytes = b\<rparr> \<longleftrightarrow> length k = 1 \<and> b = k"
  using sample_input_sighash [of oc n c]
  by (auto simp: signed_by_iff default_registry_get dilithium2_scheme_def dilithium2_verify_def sample_lib_def
      res_simps)

lemma sample_parse:
  "parse_public_key (sample_platform oc) [1, 0, 1, 0, 0, 0, b] = Ok \<lparr>pk_scheme = Dilithium2, pk_bytes = [b]\<rparr>"
  "parse_signature (sample_platform oc) [1, 0, 1, 0, 0, 0, b] = Ok \<lparr>sig_scheme = Dilithium2, sig_bytes = [b]\<rparr>"
  by (simp_all add: parse_public_key_def parse_signature_def public_key_from_bytes_def signature_from_bytes_def
      decode_with_scheme_def Let_def from_le_bytes_def scheme_from_u16_def DILITHIUM2_ID_def
      public_key_new_def signature_new_def validate_key_size_def sample_lib_def)

section \<open>Properties\<close>

lemmas default_limits = default_vm_config_def DEFAULT_MAX_GAS_def DEFAULT_MAX_STACK_ITEMS_def
  DEFAULT_MAX_PUSH_BYTES_def DEFAULT_MAX_SCRIPT_LEN_def BASE_COST_def SIG_COST_def HASH_COST_def

text \<open>A script that pushes one 8-byte height and then runs a lock opcode.\<close>

lemma eval_height_lock:
  assumes "op \<in> {CheckTimeLock, CheckRelativeTimeLock}"
  shows "eval pf default_vm_config (Script [PushBytes (to_le_bytes (n :: u64)), op]) ctx host =
    and_then (exec_op pf default_vm_config ctx host op \<lparr>st_items = [to_le_bytes n], st_max_items = 1024\<rparr>)
      (\<lambda>_. Ok \<lparr>sr_gas_consumed = 28\<rparr>)"
  using assms
  by (cases "exec_op pf default_vm_config ctx host op \<lparr>st_items = [to_le_bytes n], st_max_items = 1024\<rparr>")
    (auto simp: eval_def eval_step_def default_limits vm_defs)

text \<open>C26. Gas accounting is exact: a script that evaluates is within the length limit, reports as gas the
  sum of the opcode costs computed over the natural numbers (no width is ever exceeded), and that sum
  is within the gas limit.\<close>

theorem eval_gas_exact:
  assumes "eval pf cfg s ctx host = Ok r" and "vm_max_push_bytes cfg < 2 ^ 63"
  shows "unat (sr_gas_consumed r) = sum_list (map op_gas (script_ops s)) \<and>
    sum_list (map op_gas (script_ops s)) \<le> unat (vm_max_gas cfg) \<and>
    length (script_ops s) \<le> vm_max_script_len cfg"
proof -
  from assms(1) obtain g st where run: "fold_res (eval_step pf cfg ctx host) (script_ops s)
      (gas_new (vm_max_gas cfg), stack_new (vm_max_stack_items cfg)) = Ok (g, st)"
    and r: "r = \<lparr>sr_gas_consumed = gas_used g\<rparr>" and len: "length (script_ops s) \<le> vm_max_script_len cfg"
    by (auto simp: eval_eq_Ok)
  have lim: "gm_limit g = vm_max_gas cfg"
    and sum: "unat (gm_remaining g) + sum_list (map op_gas (script_ops s)) = unat (vm_max_gas cfg)"
    using run_gas [OF run assms(2)] by (simp_all add: gas_new_def)
  from sum have "gm_remaining g \<le> vm_max_gas cfg" by (simp add: word_le_nat_alt)
  then have "unat (sr_gas_consumed r) = unat (vm_max_gas cfg) - unat (gm_remaining g)"
    by (simp add: r gas_used_def lim unat_sub word_le_nat_alt)
  with sum len show ?thesis by simp
qed

theorem eval_gas_exact_witness:
  "unat (sr_gas_consumed \<lparr>sr_gas_consumed = 13\<rparr>) = sum_list (map op_gas [PushBytes [1, 2], Nop]) \<and>
    sum_list (map op_gas [PushBytes [1, 2], Nop]) \<le> unat (vm_max_gas default_vm_config) \<and>
    length [PushBytes [1, 2], Nop] \<le> vm_max_script_len default_vm_config"
proof -
  have "eval (sample_platform True) default_vm_config (Script [PushBytes [1, 2], Nop]) sample_ctx (sample_host 0 0)
      = Ok \<lparr>sr_gas_consumed = 13\<rparr>"
    by (simp add: eval_def eval_step_def default_vm_config_def DEFAULT_MAX_GAS_def DEFAULT_MAX_STACK_ITEMS_def
        DEFAULT_MAX_PUSH_BYTES_def DEFAULT_MAX_SCRIPT_LEN_def vm_defs BASE_COST_def)
  from eval_gas_exact [OF this] show ?thesis
    by (simp add: default_vm_config_def DEFAULT_MAX_PUSH_BYTES_def)
qed

text \<open>Evaluation always returns: in a release build, a transaction whose vectors fit their length
  prefixes, evaluated against a host whose outputs fit, gives a result or an error for every script and
  every limits configuration; no opcode panics.\<close>

theorem eval_returns:
  assumes "core_fits (tx_core (ctx_tx ctx))" and "host_fits host"
  shows "(\<exists>r. eval (pf\<lparr>pf_overflow_checks := False\<rparr>) cfg s ctx host = Ok r) \<or>
    (\<exists>e. eval (pf\<lparr>pf_overflow_checks := False\<rparr>) cfg s ctx host = Err e)"
  using release_engine.engine_cases [OF assms] by metis

theorem eval_returns_witness:
  "(\<exists>r. eval ((sample_platform True)\<lparr>pf_overflow_checks := False\<rparr>) default_vm_config (Script [CheckSig])
      sample_ctx (sample_host 0 0) = Ok r) \<or>
   (\<exists>e. eval ((sample_platform True)\<lparr>pf_overflow_checks := False\<rparr>) default_vm_config (Script [CheckSig])
      sample_ctx (sample_host 0 0) = Err e)"
  by (rule eval_returns)
    (auto simp: sample_ctx_def sample_core_fits host_fits_def sample_host_def sample_output_fits)

text \<open>The stack stays within its limits: after any part of a script, the stack holds at most
  \<open>max_stack_items\<close> items, and each of them is the operand of a push in that part and within
  \<open>max_push_bytes\<close>.\<close>

theorem vm_stack_bounded:
  assumes "fold_res (eval_step pf cfg ctx host) ops (gas_new (vm_max_gas cfg), stack_new (vm_max_stack_items cfg))
    = Ok (g, st)"
  shows "length (st_items st) \<le> vm_max_stack_items cfg \<and>
    (\<forall>d \<in> set (st_items st). PushBytes d \<in> set ops \<and> length d \<le> vm_max_push_bytes cfg)"
proof -
  have "vm_inv cfg ops (g, st)"
    by (rule fold_res_invariant [where I = "vm_inv cfg ops", OF _ assms vm_inv_init]) (rule vm_inv_step)
  then show ?thesis by (auto simp: vm_inv_def)
qed

theorem vm_stack_bounded_witness:
  "length [[3 :: u8]] \<le> vm_max_stack_items default_vm_config \<and>
    PushBytes [3] \<in> set [PushBytes [3], Nop] \<and> length [3 :: u8] \<le> vm_max_push_bytes default_vm_config"
proof -
  have "fold_res (eval_step (sample_platform True) default_vm_config sample_ctx (sample_host 0 0)) [PushBytes [3], Nop]
      (gas_new (vm_max_gas default_vm_config), stack_new (vm_max_stack_items default_vm_config))
    = Ok (\<lparr>gm_remaining = 49988, gm_limit = 50000\<rparr>, \<lparr>st_items = [[3]], st_max_items = 1024\<rparr>)"
    by (simp add: eval_step_def default_vm_config_def DEFAULT_MAX_GAS_def DEFAULT_MAX_STACK_ITEMS_def
        DEFAULT_MAX_PUSH_BYTES_def DEFAULT_MAX_SCRIPT_LEN_def vm_defs BASE_COST_def)
  from vm_stack_bounded [OF this] show ?thesis by simp
qed

text \<open>C25. Signature checks cannot be bypassed: a script containing \<open>CheckSig\<close> that evaluates pushes a
  key and a signature such that the signature verifies, under a registered scheme that both name, the
  signature hash of the transaction and of the output the host resolves for the current input.\<close>

theorem check_sig_sound:
  assumes "eval pf cfg s ctx host = Ok r" and "CheckSig \<in> set (script_ops s)"
  shows "\<exists>kb sb pk sig sch h. PushBytes kb \<in> set (script_ops s) \<and> PushBytes sb \<in> set (script_ops s) \<and>
    public_key_from_bytes pf kb = Ok pk \<and> signature_from_bytes pf sb = Ok sig \<and>
    registry_get (default_registry pf) (pk_scheme pk) = Some sch \<and> sig_scheme sig = pk_scheme pk \<and>
    input_sighash pf ctx host = Ok h \<and> ps_verify sch pk (hash_slice h) sig = Ok ()"
proof -
  from assms obtain g st st' where inv: "vm_inv cfg (script_ops s) (g, st)"
    and run: "exec_op pf cfg ctx host CheckSig st = Ok st'"
    by (rule eval_executes)
  from run obtain sb st1 kb pk sig where pops: "stack_pop st = Ok (sb, st1)" "stack_pop st1 = Ok (kb, st')"
    and parse: "public_key_from_bytes pf kb = Ok pk" "signature_from_bytes pf sb = Ok sig"
    and ver: "verify_input_signature pf ctx host ''signature'' pk sig = Ok ()"
    by (auto simp: exec_check_sig_def res_simps parse_public_key_def parse_signature_def)
  have "PushBytes kb \<in> set (script_ops s)" "PushBytes sb \<in> set (script_ops s)"
    using pops inv by (auto simp: stack_pop_eq_Ok vm_inv_def)
  with parse ver default_registry_verify_scheme show ?thesis
    unfolding verify_input_signature_eq_Ok by meson
qed

theorem check_sig_sound_witness:
  "\<exists>kb sb pk sig sch h. PushBytes kb \<in> {PushBytes [1, 0, 1, 0, 0, 0, 4]} \<and> PushBytes sb \<in> {PushBytes [1, 0, 1, 0, 0, 0, 4]} \<and>
    public_key_from_bytes (sample_platform True) kb = Ok pk \<and> signature_from_bytes (sample_platform True) sb = Ok sig \<and>
    registry_get (default_registry (sample_platform True)) (pk_scheme pk) = Some sch \<and> sig_scheme sig = pk_scheme pk \<and>
    input_sighash (sample_platform True) sample_ctx (sample_host 0 0) = Ok h \<and> ps_verify sch pk (hash_slice h) sig = Ok ()"
proof -
  have "verify_input_signature (sample_platform True) sample_ctx (sample_host 0 0) what
      \<lparr>pk_scheme = Dilithium2, pk_bytes = [4]\<rparr> \<lparr>sig_scheme = Dilithium2, sig_bytes = [4]\<rparr> = Ok ()" for what
    using sample_signed_by [of True 0 0 "[4]" "[4]"] unfolding signed_by_iff verify_input_signature_eq_Ok by simp
  then have "eval (sample_platform True) default_vm_config
      (Script [PushBytes [1, 0, 1, 0, 0, 0, 4], PushBytes [1, 0, 1, 0, 0, 0, 4], CheckSig]) sample_ctx (sample_host 0 0)
      = Ok \<lparr>sr_gas_consumed = 5034\<rparr>"
    by (simp add: eval_def eval_step_def default_vm_config_def DEFAULT_MAX_GAS_def DEFAULT_MAX_STACK_ITEMS_def
        DEFAULT_MAX_PUSH_BYTES_def DEFAULT_MAX_SCRIPT_LEN_def vm_defs BASE_COST_def SIG_COST_def exec_check_sig_def
        sample_parse)
  from check_sig_sound [OF this] show ?thesis by simp
qed

text \<open>C27. The exact meaning of \<open>CheckMultiSig t n\<close>: it succeeds exactly if 1 <= t <= n, the top t items
  are signatures and the n items under them are public keys, and for every i < t the i-th popped
  signature verifies under the i-th popped key; the rest of the stack is left.\<close>

theorem multisig_exact:
  "exec_op pf cfg ctx host (CheckMultiSig t n) st = Ok st' \<longleftrightarrow>
     0 < unat t \<and> unat t \<le> unat n \<and> st_max_items st' = st_max_items st \<and>
     (\<exists>sbs kbs sigs keys. st_items st = st_items st' @ rev kbs @ rev sbs \<and>
        length sbs = unat t \<and> length sigs = unat t \<and> length kbs = unat n \<and> length keys = unat n \<and>
        map (parse_signature pf) sbs = map Ok sigs \<and> map (parse_public_key pf) kbs = map Ok keys \<and>
        list_all2 (signed_by pf ctx host) (take (unat t) keys) sigs)"
  unfolding exec_op.simps check_multi_sig_eq_Ok
  by (simp add: list_eq_iff_nth_eq list_all2_conv_all_nth cong: conj_cong)

text \<open>A 1-of-2 multisignature is not symmetric in its keys: a signature that verifies only under the
  second popped key is refused although one of the two keys signed, and accepted when the same two
  keys are pushed in the opposite order.\<close>

theorem multisig_key_order_matters:
  assumes "parse_public_key pf kb0 = Ok k0" and "parse_public_key pf kb1 = Ok k1"
    and "parse_signature pf sb = Ok sig"
    and "signed_by pf ctx host k1 sig" and "\<not> signed_by pf ctx host k0 sig"
  shows "\<not> is_Ok (exec_op pf cfg ctx host (CheckMultiSig 1 2) \<lparr>st_items = [kb1, kb0, sb], st_max_items = m\<rparr>) \<and>
    exec_op pf cfg ctx host (CheckMultiSig 1 2) \<lparr>st_items = [kb0, kb1, sb], st_max_items = m\<rparr>
      = Ok \<lparr>st_items = [], st_max_items = m\<rparr>"
proof -
  have sign: "is_Ok (verify_input_signature pf ctx host what k sig) \<longleftrightarrow> signed_by pf ctx host k sig" for what k
    by (auto simp: signed_by_iff is_Ok_iff verify_input_signature_eq_Ok)
  have "verify_input_signature pf ctx host what k1 sig = Ok ()" for what
    using assms(4) sign [of what k1] by (auto simp: is_Ok_iff)
  moreover have "\<not> is_Ok (verify_input_signature pf ctx host what k0 sig)" for what
    using assms(5) sign [of what k0] by simp
  moreover have "unat (1 :: u8) = Suc 0" "unat (2 :: u8) = Suc (Suc 0)" by simp_all
  ultimately show ?thesis
    using assms(1-3)
    by (simp only: exec_op.simps exec_check_multi_sig_def Let_def)
      (simp add: stack_pop_def list_get_def is_Ok_iff res_simps)
qed

theorem multisig_key_order_matters_witness:
  "exec_op (sample_platform True) default_vm_config sample_ctx (sample_host 0 0) (CheckMultiSig 1 2)
      \<lparr>st_items = [[1, 0, 1, 0, 0, 0, 4], [1, 0, 1, 0, 0, 0, 5], [1, 0, 1, 0, 0, 0, 5]], st_max_items = 9\<rparr>
    = Ok \<lparr>st_items = [], st_max_items = 9\<rparr>"
  using multisig_key_order_matters [OF sample_parse(1) [of True 4] sample_parse(1) [of True 5] sample_parse(2) [of True 5],
      of sample_ctx "sample_host 0 0" default_vm_config 9]
  by (simp add: sample_signed_by)

text \<open>The absolute time lock script, pushing a height and checking it, evaluates exactly from that
  height on: it costs 28 gas, and below the height it fails.\<close>

theorem time_lock_exact:
  assumes "sh_current_height host = Some h"
  shows "eval pf default_vm_config (Script [PushBytes (to_le_bytes (n :: u64)), CheckTimeLock]) ctx host =
    (if n \<le> h then Ok \<lparr>sr_gas_consumed = 28\<rparr> else Err (Evaluation ''absolute timelock not satisfied''))"
  using assms
  by (simp add: eval_height_lock exec_check_time_lock_def stack_pop_def current_height_of_def not_le)

theorem time_lock_exact_witness:
  "eval (sample_platform True) default_vm_config (Script [PushBytes (to_le_bytes (10 :: u64)), CheckTimeLock]) sample_ctx
     (sample_host 9 0) = Err (Evaluation ''absolute timelock not satisfied'')"
  using time_lock_exact [of "sample_host 9 0" 9 "sample_platform True" 10 sample_ctx]
  by (simp add: sample_host_def)

text \<open>The relative time lock script evaluates exactly when the current height has reached creation
  height plus lock, as long as that sum fits 64 bits; if the sum overflows, a build with overflow checks
  panics, and a build without them accepts the input as soon as the current height reaches the wrapped
  sum.\<close>

theorem relative_time_lock_exact:
  assumes "sh_current_height host = Some h"
    and "list_get (tc_inputs (tx_core (ctx_tx ctx))) (ctx_input_index ctx) = Some inp"
    and "sh_input_utxo host inp = Some \<lparr>ri_output = out, ri_created_height = Some c\<rparr>"
  shows "eval pf default_vm_config (Script [PushBytes (to_le_bytes (n :: u64)), CheckRelativeTimeLock]) ctx host =
    (if 2 ^ 64 \<le> unat c + unat n \<and> pf_overflow_checks pf then Panic
     else if (unat c + unat n) mod 2 ^ 64 \<le> unat h then Ok \<lparr>sr_gas_consumed = 28\<rparr>
     else Err (Evaluation ''relative timelock not satisfied''))"
proof -
  have "(unat c + unat n) mod 2 ^ 64 = unat (c + n)" by (simp add: unat_word_ariths)
  then show ?thesis
    using assms
    by (simp add: eval_height_lock exec_check_relative_time_lock_def stack_pop_def current_height_of_def
        add_chk_def word_le_nat_alt word_less_nat_alt)
qed

theorem relative_time_lock_exact_witness:
  "eval (sample_platform False) default_vm_config
     (Script [PushBytes (to_le_bytes (18446744073709551611 :: u64)), CheckRelativeTimeLock]) sample_ctx (sample_host 6 6)
     = Ok \<lparr>sr_gas_consumed = 28\<rparr>"
  using relative_time_lock_exact [of "sample_host 6 6" 6 sample_ctx "\<lparr>ti_tx_id = hash_fill 3, ti_index = 0\<rparr>"
      sample_output 6 "sample_platform False" 18446744073709551611]
  by (simp add: list_get_def) (simp add: sample_host_def sample_ctx_def sample_core_def)

text \<open>The hash lock script, pushing a 32-byte hash and a preimage, evaluates exactly if the preimage
  hashes to it, at a cost of 302 gas plus the preimage's length.\<close>

theorem hash_lock_exact:
  assumes "length preimage \<le> 4096"
  shows "eval pf default_vm_config (Script [PushBytes (hash_slice h), PushBytes preimage, CheckHashLock]) ctx host =
    (if pf_blake3 pf preimage = h then Ok \<lparr>sr_gas_consumed = 302 + of_nat (length preimage)\<rparr>
     else Err (Evaluation ''hashlock preimage mismatch''))"
proof -
  define n where "n = (of_nat (length preimage) :: u64)"
  have n: "n \<le> 4096" using assms by (simp add: n_def word_le_nat_alt unat_of_nat)
  then have "\<not> 49958 < 10 + n" "\<not> 49948 - n < 250" "50000 - (49698 - n) = 302 + n"
    by unat_arith+
  with assms show ?thesis
    by (simp add: eval_def eval_step_def default_limits vm_defs exec_check_hash_lock_def n_def [symmetric]
        hash_slice_inject_iff eq_commute [of h])
qed

theorem hash_lock_exact_witness:
  "eval (sample_platform True) default_vm_config
     (Script [PushBytes (hash_slice (hash_fill 2)), PushBytes [8, 9], CheckHashLock]) sample_ctx (sample_host 0 0)
     = Ok \<lparr>sr_gas_consumed = 304\<rparr>"
  using hash_lock_exact [of "[8, 9]" "sample_platform True" "hash_fill 2" sample_ctx "sample_host 0 0"] by simp

text \<open>The script encoding, whose hash is the address of an output, is injective, also when arbitrary
  bytes follow, and total on the scripts the virtual machine accepts: a script within the default
  limits on opcodes and on operands has an encoding.\<close>

theorem script_encoding_injective:
  "(encode_script s = Some a \<and> encode_script t = Some b \<longrightarrow> (a @ x = b @ y \<longleftrightarrow> s = t \<and> x = y)) \<and>
   (length (script_ops s) \<le> 2048 \<and> (\<forall>d. PushBytes d \<in> set (script_ops s) \<longrightarrow> length d \<le> 4096)
     \<longrightarrow> encode_script s \<noteq> None)"
proof (intro conjI impI)
  assume "encode_script s = Some a \<and> encode_script t = Some b"
  then show "a @ x = b @ y \<longleftrightarrow> s = t \<and> x = y"
    using script_coding.code_cancel by blast
next
  assume fits: "length (script_ops s) \<le> 2048 \<and> (\<forall>d. PushBytes d \<in> set (script_ops s) \<longrightarrow> length d \<le> 4096)"
  have "encode_op op \<noteq> None" if "op \<in> set (script_ops s)" for op
    using fits that by (cases op) (auto simp: bind_eq_None_conv encode_len_eq_None)
  with fits show "encode_script s \<noteq> None"
    by (auto simp: encode_script_def encode_vec_eq_None)
qed

theorem script_encoding_injective_witness:
  "([0, 0, 0, 0] @ [] = [1, 0, 0, 0, 6] @ [] \<longleftrightarrow> Script [] = Script [Nop] \<and> ([] :: bytes) = []) \<and>
   encode_script (Script [PushBytes [4]]) \<noteq> None"
proof -
  have "encode_script (Script []) = Some [0, 0, 0, 0]" "encode_script (Script [Nop]) = Some [1, 0, 0, 0, 6]"
    by (simp_all add: encode_script_def encode_vec_def encode_len_def to_le_bytes_def)
  with script_encoding_injective [of "Script []" "[0, 0, 0, 0]" "Script [Nop]" "[1, 0, 0, 0, 6]" "[]" "[]"]
    script_encoding_injective [of "Script [PushBytes [4]]" "[]" "Script []" "[]" "[]" "[]"]
  show ?thesis by simp
qed

end
