(* ===== verification/QC_Ledger.thy ===== *)
theory QC_Ledger
  imports QC_Script
begin

text \<open>
  \<open>qcoin-ledger\<close>: the UTXO set and the asset registry, the script host they provide,
  \<open>LedgerState::state_root\<close>, \<open>LedgerState::apply_transaction\<close> and \<open>ChainState::apply_block\<close>.

  \<open>apply_transaction\<close> takes \<open>&mut self\<close> and may fail after it has changed \<open>self\<close>, so its model returns
  the state next to the outcome. \<open>bincode::deserialize\<close> of a witness is the parameter \<open>dw\<close>, the
  generic script engine the parameter \<open>eng\<close>. Iteration over a \<open>HashMap\<close> only decides whether some
  entry fails a test, with one error for all entries, so its order is irrelevant.
\<close>

section \<open>State\<close>

datatype utxo_key = UtxoKey (uk_tx_id: hash256) (uk_index: u32)

text \<open>The order of the keys is the one \<open>state_root\<close> sorts by: transaction id, then index.\<close>

instantiation utxo_key :: linorder
begin

definition less_eq_utxo_key :: "utxo_key \<Rightarrow> utxo_key \<Rightarrow> bool" where
  "a \<le> b \<longleftrightarrow> uk_tx_id a < uk_tx_id b \<or> uk_tx_id a = uk_tx_id b \<and> uk_index a \<le> uk_index b"

definition less_utxo_key :: "utxo_key \<Rightarrow> utxo_key \<Rightarrow> bool" where
  "a < b \<longleftrightarrow> uk_tx_id a < uk_tx_id b \<or> uk_tx_id a = uk_tx_id b \<and> uk_index a < uk_index b"

instance
  by standard (auto simp: less_eq_utxo_key_def less_utxo_key_def intro: utxo_key.expand)

end

record tracked_output =
  tr_output :: tx_output
  tr_created_height :: u64

type_synonym utxo_set = "(utxo_key, tracked_output) fmap"

record ledger_state =
  ls_utxos :: utxo_set
  ls_assets :: "(asset_id, asset_definition) fmap"

record chain_state =
  cs_ledger :: ledger_state
  cs_height :: u64
  cs_tip_hash :: hash256
  cs_state_root :: hash256
  cs_last_timestamp :: u64
  cs_chain_id :: u32

datatype ledger_error =
    MissingInput
  | MissingWitness
  | DoubleSpend
  | ScriptHashMismatch
  | MetadataHashMismatch
  | InvalidWitness
  | ScriptFailed
  | AssetConservationViolation
  | AssetAlreadyExists
  | ReservedNativeAssetId
  | MissingIssuerAuthorization
  | MaxSupplyExceeded
  | LedgerOther string

record input_witness =
  iw_script :: script
  iw_metadata :: "bytes option"

definition default_ledger_state :: ledger_state where
  "default_ledger_state = \<lparr>ls_utxos = fmempty, ls_assets = fmempty\<rparr>"

definition default_chain_state :: chain_state where
  "default_chain_state = \<lparr>cs_ledger = default_ledger_state, cs_height = 0, cs_tip_hash = hash_fill 0,
     cs_state_root = hash_fill 0, cs_last_timestamp = 0, cs_chain_id = 0\<rparr>"

definition input_key :: "transaction_input \<Rightarrow> utxo_key" where
  "input_key inp = UtxoKey (ti_tx_id inp) (ti_index inp)"

definition ledger_script_host :: "utxo_set \<Rightarrow> u64 \<Rightarrow> script_host" where
  "ledger_script_host utxos height = \<lparr>sh_current_height = Some height,
     sh_input_utxo = (\<lambda>inp. map_option
       (\<lambda>tracked. \<lparr>ri_output = tr_output tracked, ri_created_height = Some (tr_created_height tracked)\<rparr>)
       (fmlookup utxos (input_key inp)))\<rparr>"

section \<open>The state root\<close>

definition encode_utxo_entry :: "utxo_key \<times> tracked_output \<Rightarrow> bytes option" where
  "encode_utxo_entry = (\<lambda>(key, tracked). do {
     out \<leftarrow> encode_output (tr_output tracked);
     Some (hash_slice (uk_tx_id key) @ to_le_bytes (uk_index key) @ out @ to_le_bytes (tr_created_height tracked))
   })"

definition encode_asset_entry :: "asset_id \<times> asset_definition \<Rightarrow> bytes" where
  "encode_asset_entry = (\<lambda>(i, d). hash_slice (asset_id_hash i) @ encode_asset_definition d)"

definition state_root_preimage :: "ledger_state \<Rightarrow> bytes option" where
  "state_root_preimage L = do {
     entries \<leftarrow> map_option_list encode_utxo_entry (sorted_list_of_fmap (ls_utxos L));
     Some (concat entries @ concat (map encode_asset_entry (sorted_list_of_fmap (ls_assets L))))
   }"

definition state_root :: "platform \<Rightarrow> ledger_state \<Rightarrow> hash256 option" where
  "state_root pf L = map_option (pf_blake3 pf) (state_root_preimage L)"

section \<open>Applying a transaction\<close>

type_synonym asset_totals = "(hash256, u128) fmap"

definition accumulate_asset :: "bool \<Rightarrow> asset_amount \<Rightarrow> asset_totals \<Rightarrow> asset_totals option" where
  "accumulate_asset checks a totals = do {
     v \<leftarrow> add_chk checks (fm_get_or_0 totals (asset_id_hash (aa_asset_id a))) (aa_amount a);
     Some (fmupd (asset_id_hash (aa_asset_id a)) v totals)
   }"

fun accumulate_assets :: "bool \<Rightarrow> asset_amount list \<Rightarrow> asset_totals \<Rightarrow> asset_totals option" where
  "accumulate_assets checks [] totals = Some totals"
| "accumulate_assets checks (a # as) totals =
     Option.bind (accumulate_asset checks a totals) (accumulate_assets checks as)"

text \<open>The asset a transaction announces: identifier, definition and initial supply.\<close>

fun announced_asset ::
  "platform \<Rightarrow> ledger_state \<Rightarrow> u32 \<Rightarrow> transaction_kind
     \<Rightarrow> (ledger_error, (asset_id \<times> asset_definition \<times> u128) option) res" where
  "announced_asset pf L chain_id Transfer = Ok None"
| "announced_asset pf L chain_id (CreateAsset d initial_supply) =
     (let i = derive_asset_id pf d chain_id
      in if is_qcoin_asset_id i then Err ReservedNativeAssetId
         else if fmlookup (ls_assets L) i \<noteq> None then Err AssetAlreadyExists
         else Ok (Some (i, d, initial_supply)))"

record input_scan =
  sc_seen :: "utxo_key fset"
  sc_consumed :: "utxo_key list"
  sc_totals :: asset_totals
  sc_issuer_authorized :: bool

definition initial_scan :: input_scan where
  "initial_scan = \<lparr>sc_seen = {||}, sc_consumed = [], sc_totals = fmempty, sc_issuer_authorized = False\<rparr>"

definition input_ctx :: "transaction \<Rightarrow> u64 \<Rightarrow> u32 \<Rightarrow> nat \<Rightarrow> tracked_output \<Rightarrow> script_context" where
  "input_ctx tx height chain_id i tracked = \<lparr>ctx_tx = tx, ctx_input_index = i, ctx_current_height = Some height,
     ctx_chain_id = chain_id, ctx_script_hash = out_owner_script_hash (tr_output tracked)\<rparr>"

definition authorizes_issue :: "(asset_id \<times> asset_definition \<times> u128) option \<Rightarrow> tx_output \<Rightarrow> bool" where
  "authorizes_issue created out =
     (case created of None \<Rightarrow> False
      | Some (i, d, supply) \<Rightarrow>
          out_owner_script_hash out = ad_issuer_script_hash d \<or>
          list_ex (\<lambda>a. aa_asset_id a = i) (out_assets out))"

fun metadata_matches :: "platform \<Rightarrow> hash256 option \<Rightarrow> bytes option \<Rightarrow> bool" where
  "metadata_matches pf (Some expected) (Some bs) = (expected = pf_blake3 pf bs)"
| "metadata_matches pf None None = True"
| "metadata_matches pf _ _ = False"

definition scan_input ::
  "platform \<Rightarrow> (bytes \<Rightarrow> input_witness option) \<Rightarrow> script_engine \<Rightarrow> ledger_state \<Rightarrow> transaction \<Rightarrow> u64 \<Rightarrow> u32
     \<Rightarrow> (asset_id \<times> asset_definition \<times> u128) option \<Rightarrow> nat \<times> transaction_input \<Rightarrow> input_scan
     \<Rightarrow> (ledger_error, input_scan) res" where
  "scan_input pf dw eng L tx height chain_id created = (\<lambda>(i, inp) sc.
     and_then (ensure DoubleSpend (input_key inp |\<notin>| sc_seen sc)) (\<lambda>_.
     and_then (ok_or MissingInput (fmlookup (ls_utxos L) (input_key inp))) (\<lambda>tracked.
     and_then (ok_or MissingWitness (list_get (tw_inputs (tx_witness tx)) i)) (\<lambda>witness_bytes.
     and_then (ok_or InvalidWitness (dw witness_bytes)) (\<lambda>witness.
     and_then (expect (encode_script (iw_script witness))) (\<lambda>script_bytes.
     and_then (ensure ScriptHashMismatch
       (pf_blake3 pf script_bytes = out_owner_script_hash (tr_output tracked))) (\<lambda>_.
     and_then (ensure MetadataHashMismatch
       (metadata_matches pf (out_metadata_hash (tr_output tracked)) (iw_metadata witness))) (\<lambda>_.
     and_then (map_err (\<lambda>_. ScriptFailed)
       (eng (iw_script witness) (input_ctx tx height chain_id i tracked)
         (ledger_script_host (ls_utxos L) height))) (\<lambda>_.
     and_then (expect (accumulate_assets (pf_overflow_checks pf) (out_assets (tr_output tracked)) (sc_totals sc)))
       (\<lambda>totals.
     Ok \<lparr>sc_seen = finsert (input_key inp) (sc_seen sc), sc_consumed = sc_consumed sc @ [input_key inp],
       sc_totals = totals,
       sc_issuer_authorized = (sc_issuer_authorized sc \<or> authorizes_issue created (tr_output tracked))\<rparr>))))))))))"

definition scan_inputs ::
  "platform \<Rightarrow> (bytes \<Rightarrow> input_witness option) \<Rightarrow> script_engine \<Rightarrow> ledger_state \<Rightarrow> transaction \<Rightarrow> u64 \<Rightarrow> u32
     \<Rightarrow> (asset_id \<times> asset_definition \<times> u128) option \<Rightarrow> (ledger_error, input_scan) res" where
  "scan_inputs pf dw eng L tx height chain_id created =
     fold_res (scan_input pf dw eng L tx height chain_id created) (List.enumerate 0 (tc_inputs (tx_core tx))) initial_scan"

definition output_totals :: "platform \<Rightarrow> tx_output list \<Rightarrow> asset_totals option" where
  "output_totals pf outs = accumulate_assets (pf_overflow_checks pf) (concat (map out_assets outs)) fmempty"

text \<open>The rules for an announced asset; on success the totals no longer mention it.\<close>

fun check_mint ::
  "(asset_id \<times> asset_definition \<times> u128) option \<Rightarrow> bool \<Rightarrow> asset_totals \<Rightarrow> asset_totals
     \<Rightarrow> (ledger_error, asset_totals \<times> asset_totals) res" where
  "check_mint None authorized ins outs = Ok (ins, outs)"
| "check_mint (Some (i, d, initial_supply)) authorized ins outs =
     (let minted = fm_get_or_0 outs (asset_id_hash i)
      in if minted \<noteq> initial_supply then Err AssetConservationViolation
         else if (case ad_max_supply d of Some m \<Rightarrow> m < minted | None \<Rightarrow> False) then Err MaxSupplyExceeded
         else if fm_get_or_0 ins (asset_id_hash i) \<noteq> 0 then Err AssetConservationViolation
         else if \<not> authorized then Err MissingIssuerAuthorization
         else Ok (fmdrop (asset_id_hash i) ins, fmdrop (asset_id_hash i) outs))"

fun register_asset ::
  "(asset_id \<times> asset_definition \<times> u128) option \<Rightarrow> ledger_state \<Rightarrow> ledger_state" where
  "register_asset None L = L"
| "register_asset (Some (i, d, supply)) L = L\<lparr>ls_assets := fmupd i d (ls_assets L)\<rparr>"

definition conserves :: "asset_totals \<Rightarrow> asset_totals \<Rightarrow> bool" where
  "conserves ins outs \<longleftrightarrow>
     fmpred (\<lambda>i amount. amount = fm_get_or_0 outs i) ins \<and>
     fmpred (\<lambda>i amount. \<not> (fmlookup ins i = None \<and> 0 < amount)) outs"

definition remove_consumed :: "utxo_key list \<Rightarrow> utxo_set \<Rightarrow> utxo_set" where
  "remove_consumed keys utxos = fold fmdrop keys utxos"

definition insert_outputs :: "hash256 \<Rightarrow> u64 \<Rightarrow> tx_output list \<Rightarrow> utxo_set \<Rightarrow> utxo_set" where
  "insert_outputs h height outs utxos =
     fold (\<lambda>(i, out). fmupd (UtxoKey h (of_nat i)) \<lparr>tr_output = out, tr_created_height = height\<rparr>)
       (List.enumerate 0 outs) utxos"

text \<open>Everything up to the registration of the asset leaves the ledger alone.\<close>

definition check_transaction ::
  "platform \<Rightarrow> (bytes \<Rightarrow> input_witness option) \<Rightarrow> script_engine \<Rightarrow> ledger_state \<Rightarrow> transaction \<Rightarrow> u64 \<Rightarrow> u32
     \<Rightarrow> (ledger_error, (asset_id \<times> asset_definition \<times> u128) option \<times> utxo_key list \<times> asset_totals \<times> asset_totals) res" where
  "check_transaction pf dw eng L tx height chain_id =
     and_then (announced_asset pf L chain_id (tc_kind (tx_core tx))) (\<lambda>created.
     and_then (scan_inputs pf dw eng L tx height chain_id created) (\<lambda>sc.
     and_then (expect (output_totals pf (tc_outputs (tx_core tx)))) (\<lambda>outs.
     and_then (check_mint created (sc_issuer_authorized sc) (sc_totals sc) outs) (\<lambda>(ins, outs).
     Ok (created, sc_consumed sc, ins, outs)))))"

definition apply_transaction ::
  "platform \<Rightarrow> (bytes \<Rightarrow> input_witness option) \<Rightarrow> script_engine \<Rightarrow> ledger_state \<Rightarrow> transaction \<Rightarrow> u64 \<Rightarrow> u32
     \<Rightarrow> ledger_state \<times> (ledger_error, unit) res" where
  "apply_transaction pf dw eng L tx height chain_id =
     (case check_transaction pf dw eng L tx height chain_id of
        Err e \<Rightarrow> (L, Err e)
      | Panic \<Rightarrow> (L, Panic)
      | Ok (created, consumed, ins, outs) \<Rightarrow>
          (let L1 = register_asset created L
           in if \<not> conserves ins outs then (L1, Err AssetConservationViolation)
              else
                let L2 = L1\<lparr>ls_utxos := remove_consumed consumed (ls_utxos L1)\<rparr>
                in (case tx_id pf tx of
                      None \<Rightarrow> (L2, Panic)
                    | Some h \<Rightarrow>
                        (L2\<lparr>ls_utxos := insert_outputs h height (tc_outputs (tx_core tx)) (ls_utxos L2)\<rparr>, Ok ()))))"

section \<open>Applying a block\<close>

text \<open>The loop over the transactions stops at the first failure, keeping the ledger reached so far.\<close>

fun apply_transactions ::
  "platform \<Rightarrow> (bytes \<Rightarrow> input_witness option) \<Rightarrow> script_engine \<Rightarrow> transaction list \<Rightarrow> u64 \<Rightarrow> u32 \<Rightarrow> ledger_state
     \<Rightarrow> ledger_state \<times> (ledger_error, unit) res" where
  "apply_transactions pf dw eng [] height chain_id L = (L, Ok ())"
| "apply_transactions pf dw eng (tx # txs) height chain_id L =
     (case apply_transaction pf dw eng L tx height chain_id of
        (L', Ok _) \<Rightarrow> apply_transactions pf dw eng txs height chain_id L'
      | (L', Err e) \<Rightarrow> (L', Err e)
      | (L', Panic) \<Rightarrow> (L', Panic))"

definition header_hash :: "platform \<Rightarrow> block_header \<Rightarrow> hash256" where
  "header_hash pf h = pf_blake3 pf (encode_block_header h)"

definition chain_apply_block ::
  "platform \<Rightarrow> (bytes \<Rightarrow> input_witness option) \<Rightarrow> script_engine \<Rightarrow> chain_state \<Rightarrow> block
     \<Rightarrow> chain_state \<times> (ledger_error, unit) res" where
  "chain_apply_block pf dw eng C b =
     (case apply_transactions pf dw eng (b_transactions b) (bh_height (b_header b)) (cs_chain_id C) (cs_ledger C) of
        (L, Err e) \<Rightarrow> (C\<lparr>cs_ledger := L\<rparr>, Err e)
      | (L, Panic) \<Rightarrow> (C\<lparr>cs_ledger := L\<rparr>, Panic)
      | (L, Ok _) \<Rightarrow>
          (let C1 = C\<lparr>cs_ledger := L, cs_height := bh_height (b_header b), cs_tip_hash := header_hash pf (b_header b)\<rparr>
           in (case state_root pf L of
                 None \<Rightarrow> (C1, Panic)
               | Some root \<Rightarrow>
                   (C1\<lparr>cs_state_root := root, cs_last_timestamp := bh_timestamp (b_header b)\<rparr>, Ok ()))))"

section \<open>Totals\<close>

text \<open>How much of an asset a list of amounts holds, over the natural numbers.\<close>

definition amount_of :: "hash256 \<Rightarrow> asset_amount list \<Rightarrow> nat" where
  "amount_of a xs = (\<Sum>x\<leftarrow>xs. if asset_id_hash (aa_asset_id x) = a then unat (aa_amount x) else 0)"

lemma amount_of_simps [simp]:
  "amount_of a [] = 0"
  "amount_of a (x # xs) = (if asset_id_hash (aa_asset_id x) = a then unat (aa_amount x) else 0) + amount_of a xs"
  "amount_of a (xs @ ys) = amount_of a xs + amount_of a ys"
  by (simp_all add: amount_of_def)

lemma amount_of_concat: "amount_of a (concat xss) = (\<Sum>xs\<leftarrow>xss. amount_of a xs)"
  by (induction xss) auto

lemma accumulate_asset_eq_Some:
  "accumulate_asset oc x t = Some t' \<longleftrightarrow>
     (let a = asset_id_hash (aa_asset_id x); v = fm_get_or_0 t a + aa_amount x
      in t' = fmupd a v t \<and> (oc \<longrightarrow> unat (fm_get_or_0 t a) + unat (aa_amount x) < 2 ^ 128))"
  by (auto simp: accumulate_asset_def add_chk_def Let_def not_le split: if_splits)

lemma accumulate_assets_total:
  "accumulate_assets oc xs t = Some t' \<Longrightarrow> fm_get_or_0 t' a = fm_get_or_0 t a + of_nat (amount_of a xs) \<and>
     (oc \<longrightarrow> unat (fm_get_or_0 t' a) = unat (fm_get_or_0 t a) + amount_of a xs)"
proof (induction xs arbitrary: t)
  case Nil
  then show ?case by simp
next
  case (Cons x xs)
  then obtain t1 where t1: "accumulate_asset oc x t = Some t1" "accumulate_assets oc xs t1 = Some t'"
    by (auto simp: bind_eq_Some_conv)
  from t1(1) show ?case
    using Cons.IH [OF t1(2)] by (auto simp: accumulate_asset_eq_Some Let_def unat_add_small)
qed

lemma accumulate_assets_append:
  "accumulate_assets oc (xs @ ys) t = Option.bind (accumulate_assets oc xs t) (accumulate_assets oc ys)"
  by (induction xs arbitrary: t) (auto split: Option.bind_split)

lemma accumulate_unchecked: "\<exists>t'. accumulate_assets False xs t = Some t'"
  by (induction xs arbitrary: t) (auto simp: accumulate_asset_eq_Some Let_def bind_eq_Some_conv accumulate_asset_def)

lemma conserves_iff: "conserves ins outs \<longleftrightarrow> (\<forall>a. fm_get_or_0 ins a = fm_get_or_0 outs a)"
proof
  assume c: "conserves ins outs"
  have 1: "v = fm_get_or_0 outs a" if "fmlookup ins a = Some v" for a v
    using c that by (simp add: conserves_def fmpred_iff)
  have 2: "v = 0" if "fmlookup outs a = Some v" "fmlookup ins a = None" for a v
    using c that by (fastforce simp: conserves_def fmpred_iff word_gt_0)
  show "\<forall>a. fm_get_or_0 ins a = fm_get_or_0 outs a"
  proof
    fix a
    show "fm_get_or_0 ins a = fm_get_or_0 outs a"
      using 1 [of a] 2 [of a] by (cases "fmlookup ins a"; cases "fmlookup outs a") (auto simp: fm_get_or_0_def)
  qed
next
  assume eq: "\<forall>a. fm_get_or_0 ins a = fm_get_or_0 outs a"
  have 1: "v = fm_get_or_0 outs a" if "fmlookup ins a = Some v" for a v
    using spec [OF eq, of a] that by (simp add: fm_get_or_0_def)
  have 2: "\<not> (fmlookup ins a = None \<and> 0 < v)" if "fmlookup outs a = Some v" for a v
    using spec [OF eq, of a] that by (auto simp: fm_get_or_0_def)
  show "conserves ins outs"
    using 1 2 by (auto simp: conserves_def fmpred_iff)
qed

section \<open>What a scan of the inputs establishes\<close>

text \<open>The owner of the output an input refers to has authorised the spend.\<close>

definition spend_authorized ::
  "platform \<Rightarrow> (bytes \<Rightarrow> input_witness option) \<Rightarrow> script_engine \<Rightarrow> ledger_state \<Rightarrow> transaction \<Rightarrow> u64 \<Rightarrow> u32
     \<Rightarrow> nat \<Rightarrow> transaction_input \<Rightarrow> bool" where
  "spend_authorized pf dw eng L tx height chain_id i inp \<longleftrightarrow>
     (\<exists>tracked w sb r. fmlookup (ls_utxos L) (input_key inp) = Some tracked \<and>
        i < length (tw_inputs (tx_witness tx)) \<and> dw (tw_inputs (tx_witness tx) ! i) = Some w \<and>
        encode_script (iw_script w) = Some sb \<and>
        pf_blake3 pf sb = out_owner_script_hash (tr_output tracked) \<and>
        metadata_matches pf (out_metadata_hash (tr_output tracked)) (iw_metadata w) \<and>
        eng (iw_script w) (input_ctx tx height chain_id i tracked) (ledger_script_host (ls_utxos L) height) = Ok r)"

text \<open>The output an input spends (for inputs that are in the set).\<close>

definition spent_output :: "ledger_state \<Rightarrow> transaction_input \<Rightarrow> tx_output" where
  "spent_output L inp = tr_output (the (fmlookup (ls_utxos L) (input_key inp)))"

definition spent_assets :: "ledger_state \<Rightarrow> transaction \<Rightarrow> asset_amount list" where
  "spent_assets L tx = concat (map (\<lambda>inp. out_assets (spent_output L inp)) (tc_inputs (tx_core tx)))"

definition created_assets :: "transaction \<Rightarrow> asset_amount list" where
  "created_assets tx = concat (map out_assets (tc_outputs (tx_core tx)))"

lemma scan_input_eq_Ok:
  "scan_input pf dw eng L tx height chain_id created (i, inp) sc = Ok sc' \<longleftrightarrow>
     input_key inp |\<notin>| sc_seen sc \<and> spend_authorized pf dw eng L tx height chain_id i inp \<and>
     sc_seen sc' = finsert (input_key inp) (sc_seen sc) \<and> sc_consumed sc' = sc_consumed sc @ [input_key inp] \<and>
     accumulate_assets (pf_overflow_checks pf) (out_assets (spent_output L inp)) (sc_totals sc) = Some (sc_totals sc') \<and>
     sc_issuer_authorized sc' = (sc_issuer_authorized sc \<or> authorizes_issue created (spent_output L inp))"
  (is "?L \<longleftrightarrow> ?R")
proof
  assume ?R
  then obtain tracked w sb r where "fmlookup (ls_utxos L) (input_key inp) = Some tracked"
    "i < length (tw_inputs (tx_witness tx))" "dw (tw_inputs (tx_witness tx) ! i) = Some w"
    "encode_script (iw_script w) = Some sb" "pf_blake3 pf sb = out_owner_script_hash (tr_output tracked)"
    "metadata_matches pf (out_metadata_hash (tr_output tracked)) (iw_metadata w)"
    "eng (iw_script w) (input_ctx tx height chain_id i tracked) (ledger_script_host (ls_utxos L) height) = Ok r"
    unfolding spend_authorized_def by blast
  with \<open>?R\<close> show ?L
    by (auto simp: scan_input_def list_get_def spent_output_def intro: input_scan.equality)
qed (auto simp: scan_input_def res_simps list_get_eq_Some spend_authorized_def spent_output_def)

lemma scan_fold:
  assumes "fold_res (scan_input pf dw eng L tx height chain_id created) (List.enumerate n inps) sc = Ok sc'"
  shows "sc_consumed sc' = sc_consumed sc @ map input_key inps \<and>
    distinct (map input_key inps) \<and> set (map input_key inps) \<inter> fset (sc_seen sc) = {} \<and>
    (\<forall>i < length inps. spend_authorized pf dw eng L tx height chain_id (n + i) (inps ! i)) \<and>
    accumulate_assets (pf_overflow_checks pf) (concat (map (\<lambda>inp. out_assets (spent_output L inp)) inps)) (sc_totals sc)
      = Some (sc_totals sc') \<and>
    sc_issuer_authorized sc' = (sc_issuer_authorized sc \<or> (\<exists>inp\<in>set inps. authorizes_issue created (spent_output L inp)))"
  using assms
proof (induction inps arbitrary: n sc)
  case Nil
  then show ?case by simp
next
  case (Cons inp inps)
  from Cons.prems obtain sc1 where step: "scan_input pf dw eng L tx height chain_id created (n, inp) sc = Ok sc1"
    and rest: "fold_res (scan_input pf dw eng L tx height chain_id created) (List.enumerate (Suc n) inps) sc1 = Ok sc'"
    by (auto simp: res_simps)
  note s = step [unfolded scan_input_eq_Ok]
  from s Cons.IH [OF rest] show ?case
    by (auto simp: All_less_Suc2 accumulate_assets_append)
qed

lemmas scan_defs = scan_inputs_def initial_scan_def

text \<open>The facts a transaction that is applied has passed.\<close>

lemma check_transaction_Ok:
  assumes "check_transaction pf dw eng L tx height chain_id = Ok (created, consumed, ins, outs)"
  obtains it ot where
    "announced_asset pf L chain_id (tc_kind (tx_core tx)) = Ok created"
    "consumed = map input_key (tc_inputs (tx_core tx))" "distinct consumed"
    "\<forall>i < length (tc_inputs (tx_core tx)). spend_authorized pf dw eng L tx height chain_id i (tc_inputs (tx_core tx) ! i)"
    "accumulate_assets (pf_overflow_checks pf) (spent_assets L tx) fmempty = Some it"
    "accumulate_assets (pf_overflow_checks pf) (created_assets tx) fmempty = Some ot"
    "check_mint created (\<exists>inp\<in>set (tc_inputs (tx_core tx)). authorizes_issue created (spent_output L inp)) it ot
       = Ok (ins, outs)"
proof -
  from assms obtain sc ot where a: "announced_asset pf L chain_id (tc_kind (tx_core tx)) = Ok created"
    and sc: "scan_inputs pf dw eng L tx height chain_id created = Ok sc"
    and ot: "output_totals pf (tc_outputs (tx_core tx)) = Some ot"
    and m: "check_mint created (sc_issuer_authorized sc) (sc_totals sc) ot = Ok (ins, outs)"
    and c: "consumed = sc_consumed sc"
    by (auto simp: check_transaction_def res_simps split: prod.splits)
  note f = scan_fold [OF sc [unfolded scan_inputs_def]]
  show ?thesis
    by (rule that [OF a, of "sc_totals sc" ot])
      (use f ot m c in \<open>auto simp: initial_scan_def spent_assets_def created_assets_def output_totals_def\<close>)
qed

lemma apply_transaction_Ok:
  assumes "apply_transaction pf dw eng L tx height chain_id = (L', Ok u)"
  obtains created consumed ins outs h where
    "check_transaction pf dw eng L tx height chain_id = Ok (created, consumed, ins, outs)"
    "conserves ins outs" "tx_id pf tx = Some h"
    "ls_assets L' = ls_assets (register_asset created L)"
    "ls_utxos L' = insert_outputs h height (tc_outputs (tx_core tx)) (remove_consumed consumed (ls_utxos L))"
proof -
  have utxos: "ls_utxos (register_asset created L) = ls_utxos L" for created
    by (cases created) auto
  obtain created consumed ins outs where c: "check_transaction pf dw eng L tx height chain_id = Ok (created, consumed, ins, outs)"
    using assms by (auto simp: apply_transaction_def split: res.splits)
  moreover from c assms have "conserves ins outs"
    by (auto simp: apply_transaction_def Let_def split: if_splits)
  moreover from c assms calculation obtain h where "tx_id pf tx = Some h"
    by (auto simp: apply_transaction_def Let_def split: option.splits)
  moreover from c assms calculation have "ls_assets L' = ls_assets (register_asset created L)"
    "ls_utxos L' = insert_outputs h height (tc_outputs (tx_core tx)) (remove_consumed consumed (ls_utxos L))"
    by (auto simp: apply_transaction_def Let_def utxos)
  ultimately show ?thesis by (rule that)
qed

lemma apply_transaction_Err:
  assumes "apply_transaction pf dw eng L tx height chain_id = (L', Err e)"
  shows "L' = L \<and> check_transaction pf dw eng L tx height chain_id = Err e \<or>
    e = AssetConservationViolation \<and> (\<exists>created consumed ins outs.
      check_transaction pf dw eng L tx height chain_id = Ok (created, consumed, ins, outs) \<and>
      \<not> conserves ins outs \<and> L' = register_asset created L)"
  using assms by (auto simp: apply_transaction_def Let_def split: res.splits if_splits option.splits)

section \<open>The effect on the UTXO set\<close>

lemma fmlookup_remove_consumed: "fmlookup (remove_consumed keys utxos) k = (if k \<in> set keys then None else fmlookup utxos k)"
  unfolding remove_consumed_def by (induction keys arbitrary: utxos) auto

lemma fmlookup_insert_outputs_from:
  assumes "n + length outs \<le> 2 ^ 32"
  shows "fmlookup (fold (\<lambda>(i, out). fmupd (UtxoKey h (of_nat i)) \<lparr>tr_output = out, tr_created_height = height\<rparr>)
      (List.enumerate n outs) utxos) k =
    (if uk_tx_id k = h \<and> n \<le> unat (uk_index k) \<and> unat (uk_index k) < n + length outs
     then Some \<lparr>tr_output = outs ! (unat (uk_index k) - n), tr_created_height = height\<rparr> else fmlookup utxos k)"
  using assms
proof (induction outs arbitrary: n utxos)
  case Nil
  then show ?case by auto
next
  case (Cons out outs)
  from Cons.prems have "n < 2 ^ 32" by simp
  then have n: "UtxoKey h (of_nat n) = k \<longleftrightarrow> uk_tx_id k = h \<and> unat (uk_index k) = n"
    by (cases k) (auto simp: unat_of_nat)
  have "Suc n + length outs \<le> 2 ^ 32" using Cons.prems by simp
  note ih = Cons.IH [OF this]
  show ?case
    by (cases "unat (uk_index k) = n") (auto simp: ih n nth_Cons' Suc_le_eq)
qed

lemma fmlookup_insert_outputs:
  assumes "length outs < 2 ^ 32"
  shows "fmlookup (insert_outputs h height outs utxos) k =
    (if uk_tx_id k = h \<and> unat (uk_index k) < length outs
     then Some \<lparr>tr_output = outs ! unat (uk_index k), tr_created_height = height\<rparr> else fmlookup utxos k)"
  using fmlookup_insert_outputs_from [of 0 outs h height utxos k] assms by (simp add: insert_outputs_def)

section \<open>Supply\<close>

text \<open>The amount of an asset in circulation: the sum over all unspent outputs, as a natural number.\<close>

definition asset_supply :: "hash256 \<Rightarrow> utxo_set \<Rightarrow> nat" where
  "asset_supply a utxos = fm_sum (\<lambda>k tracked. amount_of a (out_assets (tr_output tracked))) utxos"

lemma supply_remove_consumed:
  assumes "distinct keys" and "\<forall>k\<in>set keys. \<exists>t. fmlookup utxos k = Some t"
  shows "asset_supply a utxos = (\<Sum>k\<leftarrow>keys. amount_of a (out_assets (tr_output (the (fmlookup utxos k)))))
    + asset_supply a (remove_consumed keys utxos)"
  using assms
proof (induction keys arbitrary: utxos)
  case Nil
  then show ?case by (simp add: remove_consumed_def)
next
  case (Cons k keys)
  from Cons.prems obtain t where t: "fmlookup utxos k = Some t" by auto
  have rest: "(\<Sum>j\<leftarrow>keys. amount_of a (out_assets (tr_output (the (fmlookup (fmdrop k utxos) j))))) =
      (\<Sum>j\<leftarrow>keys. amount_of a (out_assets (tr_output (the (fmlookup utxos j)))))"
    using Cons.prems(1) by (intro arg_cong [of _ _ sum_list] map_cong) auto
  have "asset_supply a (fmdrop k utxos) =
      (\<Sum>j\<leftarrow>keys. amount_of a (out_assets (tr_output (the (fmlookup utxos j))))) + asset_supply a (remove_consumed (k # keys) utxos)"
  proof -
    have "\<forall>j\<in>set keys. \<exists>t. fmlookup (fmdrop k utxos) j = Some t"
      using Cons.prems by auto
    moreover have "distinct keys" using Cons.prems(1) by simp
    ultimately show ?thesis using Cons.IH [of "fmdrop k utxos"] unfolding rest by (simp add: remove_consumed_def)
  qed
  moreover have "asset_supply a utxos = amount_of a (out_assets (tr_output t)) + asset_supply a (fmdrop k utxos)"
    unfolding asset_supply_def by (subst fm_sum_drop [where k = k]) (simp add: t)
  ultimately show ?case using t by simp
qed

lemma supply_upd_le:
  "asset_supply a (fmupd k t utxos) \<le> amount_of a (out_assets (tr_output t)) + asset_supply a utxos"
  unfolding asset_supply_def by (rule fm_sum_upd_le)

lemma supply_insert_outputs_le:
  "asset_supply a (insert_outputs h height outs utxos) \<le> amount_of a (concat (map out_assets outs)) + asset_supply a utxos"
proof -
  have "asset_supply a (fold (\<lambda>(i, out). fmupd (UtxoKey h (of_nat i)) \<lparr>tr_output = out, tr_created_height = height\<rparr>)
      (List.enumerate n outs) utxos) \<le> amount_of a (concat (map out_assets outs)) + asset_supply a utxos" for n
  proof (induction outs arbitrary: n utxos)
    case Nil
    then show ?case by simp
  next
    case (Cons out outs)
    have "asset_supply a (fmupd (UtxoKey h (of_nat n)) \<lparr>tr_output = out, tr_created_height = height\<rparr> utxos)
        \<le> amount_of a (out_assets out) + asset_supply a utxos"
      using supply_upd_le [of a _ "\<lparr>tr_output = out, tr_created_height = height\<rparr>" utxos] by simp
    with Cons.IH [of "Suc n" "fmupd (UtxoKey h (of_nat n)) \<lparr>tr_output = out, tr_created_height = height\<rparr> utxos"]
    show ?case by simp
  qed
  then show ?thesis by (simp add: insert_outputs_def)
qed

text \<open>The id of a transaction is fresh if no unspent output carries it.\<close>

definition fresh_tx_id :: "hash256 \<Rightarrow> utxo_set \<Rightarrow> bool" where
  "fresh_tx_id h utxos \<longleftrightarrow> fBall (fmdom utxos) (\<lambda>k. uk_tx_id k \<noteq> h)"

lemma fresh_tx_idD: "fresh_tx_id h utxos \<Longrightarrow> uk_tx_id k = h \<Longrightarrow> fmlookup utxos k = None"
  by (auto simp: fresh_tx_id_def fmdom_notD)

lemma fresh_remove_consumed: "fresh_tx_id h utxos \<Longrightarrow> fresh_tx_id h (remove_consumed keys utxos)"
  by (auto simp: fresh_tx_id_def fmlookup_dom_iff fmlookup_remove_consumed split: if_splits)

lemma supply_insert_outputs_fresh:
  assumes "fresh_tx_id h utxos" and "length outs \<le> 2 ^ 32"
  shows "asset_supply a (insert_outputs h height outs utxos) = amount_of a (concat (map out_assets outs)) + asset_supply a utxos"
proof -
  have "asset_supply a (fold (\<lambda>(i, out). fmupd (UtxoKey h (of_nat i)) \<lparr>tr_output = out, tr_created_height = height\<rparr>)
      (List.enumerate n outs) utxos) = amount_of a (concat (map out_assets outs)) + asset_supply a utxos"
    if "\<forall>i. n \<le> i \<and> i < n + length outs \<longrightarrow> fmlookup utxos (UtxoKey h (of_nat i)) = None" "n + length outs \<le> 2 ^ 32" for n
    using that
  proof (induction outs arbitrary: n utxos)
    case Nil
    then show ?case by simp
  next
    case (Cons out outs)
    let ?u = "fmupd (UtxoKey h (of_nat n)) \<lparr>tr_output = out, tr_created_height = height\<rparr> utxos"
    have u: "asset_supply a ?u = amount_of a (out_assets out) + asset_supply a utxos"
      using Cons.prems(1) by (simp add: asset_supply_def fm_sum_upd_new)
    have ne: "(of_nat n :: u32) \<noteq> of_nat i" if "n < i" "i < 2 ^ 32" for i
    proof
      assume "(of_nat n :: u32) = of_nat i"
      then have "unat (of_nat n :: u32) = unat (of_nat i :: u32)" by simp
      with that show False by (simp add: unat_of_nat)
    qed
    have "fmlookup ?u (UtxoKey h (of_nat i)) = None" if "Suc n \<le> i" "i < Suc n + length outs" for i
      using Cons.prems that ne [of i] by auto
    with Cons.IH [of "Suc n" ?u] Cons.prems(2) u show ?case by simp
  qed
  note this [of 0]
  with assms show ?thesis
    by (simp add: insert_outputs_def fresh_tx_idD)
qed

text \<open>What a transaction may mint.\<close>

definition minted :: "platform \<Rightarrow> transaction \<Rightarrow> u32 \<Rightarrow> hash256 \<Rightarrow> nat" where
  "minted pf tx chain_id a =
     (case tc_kind (tx_core tx) of
        Transfer \<Rightarrow> 0
      | CreateAsset d initial_supply \<Rightarrow>
          if a = asset_id_hash (derive_asset_id pf d chain_id) then unat initial_supply else 0)"

text \<open>The totals are exact: with overflow checks always, without them if the sums fit 128 bits.\<close>

definition totals_exact :: "platform \<Rightarrow> ledger_state \<Rightarrow> transaction \<Rightarrow> hash256 \<Rightarrow> bool" where
  "totals_exact pf L tx a \<longleftrightarrow> pf_overflow_checks pf \<or>
     amount_of a (spent_assets L tx) < 2 ^ 128 \<and> amount_of a (created_assets tx) < 2 ^ 128"

lemma accumulate_exact:
  assumes "accumulate_assets oc xs fmempty = Some t" and "oc \<or> amount_of a xs < 2 ^ 128"
  shows "unat (fm_get_or_0 t a) = amount_of a xs"
  using accumulate_assets_total [OF assms(1), of a] assms(2) by (auto simp: unat_of_nat)

lemma announced_asset_eq_Ok:
  "announced_asset pf L chain_id k = Ok created \<longleftrightarrow>
     (case k of Transfer \<Rightarrow> created = None
      | CreateAsset d s \<Rightarrow> created = Some (derive_asset_id pf d chain_id, d, s) \<and>
          derive_asset_id pf d chain_id \<noteq> QCOIN_ASSET_ID \<and>
          fmlookup (ls_assets L) (derive_asset_id pf d chain_id) = None)"
  by (cases k) (auto simp: Let_def is_qcoin_asset_id_iff)

text \<open>The balance equation of an applied transaction.\<close>

lemma applied_balance:
  assumes "apply_transaction pf dw eng L tx height chain_id = (L', Ok u)"
  shows "(of_nat (amount_of a (created_assets tx)) :: u128) = of_nat (amount_of a (spent_assets L tx) + minted pf tx chain_id a)"
    and "totals_exact pf L tx a \<Longrightarrow>
      amount_of a (created_assets tx) = amount_of a (spent_assets L tx) + minted pf tx chain_id a"
proof -
  from assms(1) obtain created consumed ins outs where
    chk: "check_transaction pf dw eng L tx height chain_id = Ok (created, consumed, ins, outs)" and cons: "conserves ins outs"
    by (rule apply_transaction_Ok)
  from chk obtain it ot where
    ann: "announced_asset pf L chain_id (tc_kind (tx_core tx)) = Ok created" and
    it: "accumulate_assets (pf_overflow_checks pf) (spent_assets L tx) fmempty = Some it" and
    ot: "accumulate_assets (pf_overflow_checks pf) (created_assets tx) fmempty = Some ot" and
    mint: "check_mint created (\<exists>inp\<in>set (tc_inputs (tx_core tx)). authorizes_issue created (spent_output L inp)) it ot
       = Ok (ins, outs)"
    by (rule check_transaction_Ok)
  have bal: "fm_get_or_0 ins a = fm_get_or_0 outs a" using cons by (simp add: conserves_iff)
  have sums: "fm_get_or_0 it a = of_nat (amount_of a (spent_assets L tx))" "fm_get_or_0 ot a = of_nat (amount_of a (created_assets tx))"
    using accumulate_assets_total [OF it, of a] accumulate_assets_total [OF ot, of a] by simp_all
  show "(of_nat (amount_of a (created_assets tx)) :: u128) = of_nat (amount_of a (spent_assets L tx) + minted pf tx chain_id a)"
    using ann mint bal sums
    by (cases "tc_kind (tx_core tx)") (auto simp: minted_def announced_asset_eq_Ok Let_def split: if_splits)
  assume "totals_exact pf L tx a"
  then have eq: "unat (fm_get_or_0 it a) = amount_of a (spent_assets L tx)" "unat (fm_get_or_0 ot a) = amount_of a (created_assets tx)"
    using accumulate_exact [OF it, of a] accumulate_exact [OF ot, of a] by (auto simp: totals_exact_def)
  show "amount_of a (created_assets tx) = amount_of a (spent_assets L tx) + minted pf tx chain_id a"
  proof (cases "tc_kind (tx_core tx)")
    case Transfer
    with ann mint bal eq show ?thesis by (simp add: minted_def)
  next
    case (CreateAsset d s)
    with ann mint bal eq show ?thesis
      by (auto simp: minted_def announced_asset_eq_Ok Let_def split: if_splits)
  qed
qed

text \<open>The spent part of the supply, and the rest.\<close>

lemma applied_inputs:
  assumes "apply_transaction pf dw eng L tx height chain_id = (L', Ok u)"
  shows "distinct (map input_key (tc_inputs (tx_core tx))) \<and>
    (\<forall>i < length (tc_inputs (tx_core tx)). spend_authorized pf dw eng L tx height chain_id i (tc_inputs (tx_core tx) ! i)) \<and>
    (\<exists>h. tx_id pf tx = Some h \<and> core_fits (tx_core tx) \<and>
       ls_utxos L' = insert_outputs h height (tc_outputs (tx_core tx))
         (remove_consumed (map input_key (tc_inputs (tx_core tx))) (ls_utxos L)))"
proof -
  from assms obtain created consumed ins outs h where
    chk: "check_transaction pf dw eng L tx height chain_id = Ok (created, consumed, ins, outs)" and
    h: "tx_id pf tx = Some h" and
    u: "ls_utxos L' = insert_outputs h height (tc_outputs (tx_core tx)) (remove_consumed consumed (ls_utxos L))"
    by (rule apply_transaction_Ok)
  have "core_fits (tx_core tx)" using h tx_id_eq_None [of pf tx] by (cases "core_fits (tx_core tx)") auto
  with h u show ?thesis
    by (rule_tac check_transaction_Ok [OF chk]) simp
qed

lemma applied_inputs_exist:
  assumes "apply_transaction pf dw eng L tx height chain_id = (L', Ok u)" and "inp \<in> set (tc_inputs (tx_core tx))"
  shows "\<exists>t. fmlookup (ls_utxos L) (input_key inp) = Some t"
proof -
  obtain i where "i < length (tc_inputs (tx_core tx))" "tc_inputs (tx_core tx) ! i = inp"
    using assms(2) by (auto simp: in_set_conv_nth)
  then show ?thesis using applied_inputs [OF assms(1)] by (auto simp: spend_authorized_def)
qed

lemma spent_supply:
  assumes "apply_transaction pf dw eng L tx height chain_id = (L', Ok u)"
  shows "asset_supply a (ls_utxos L) = amount_of a (spent_assets L tx)
    + asset_supply a (remove_consumed (map input_key (tc_inputs (tx_core tx))) (ls_utxos L))"
proof -
  have "amount_of a (spent_assets L tx) = (\<Sum>k\<leftarrow>map input_key (tc_inputs (tx_core tx)).
      amount_of a (out_assets (tr_output (the (fmlookup (ls_utxos L) k)))))"
    by (simp add: spent_assets_def amount_of_concat spent_output_def comp_def)
  then show ?thesis
    using supply_remove_consumed [of "map input_key (tc_inputs (tx_core tx))" "ls_utxos L" a]
      applied_inputs [OF assms] applied_inputs_exist [OF assms] by simp
qed

text \<open>Supply before and after an applied transaction.\<close>

lemma applied_supply_fresh:
  assumes "apply_transaction pf dw eng L tx height chain_id = (L', Ok u)" and "tx_id pf tx = Some h" and "fresh_tx_id h (ls_utxos L)"
  shows "asset_supply a (ls_utxos L') + amount_of a (spent_assets L tx) = asset_supply a (ls_utxos L) + amount_of a (created_assets tx)"
proof -
  let ?kept = "remove_consumed (map input_key (tc_inputs (tx_core tx))) (ls_utxos L)"
  have h: "core_fits (tx_core tx)" "ls_utxos L' = insert_outputs h height (tc_outputs (tx_core tx)) ?kept"
    using applied_inputs [OF assms(1)] assms(2) by auto
  have "asset_supply a (ls_utxos L') = amount_of a (created_assets tx) + asset_supply a ?kept"
    unfolding h(2) created_assets_def using h(1)
    by (intro supply_insert_outputs_fresh fresh_remove_consumed assms(3)) (simp add: core_fits_def)
  with spent_supply [OF assms(1), of a] show ?thesis by simp
qed

lemma applied_supply_mod:
  assumes "apply_transaction pf dw eng L tx height chain_id = (L', Ok u)"
  shows "\<forall>h. tx_id pf tx = Some h \<and> fresh_tx_id h (ls_utxos L) \<longrightarrow>
    asset_supply a (ls_utxos L') mod 2 ^ 128 = (asset_supply a (ls_utxos L) + minted pf tx chain_id a) mod 2 ^ 128"
proof (intro allI impI)
  fix h assume "tx_id pf tx = Some h \<and> fresh_tx_id h (ls_utxos L)"
  with applied_supply_fresh [OF assms, of h a]
  have "(of_nat (asset_supply a (ls_utxos L') + amount_of a (spent_assets L tx)) :: u128)
      = of_nat (asset_supply a (ls_utxos L)) + of_nat (amount_of a (created_assets tx))" by simp
  with applied_balance(1) [OF assms, of a]
  have "(of_nat (asset_supply a (ls_utxos L')) :: u128) = of_nat (asset_supply a (ls_utxos L) + minted pf tx chain_id a)"
    by (simp add: algebra_simps)
  then show "asset_supply a (ls_utxos L') mod 2 ^ 128 = (asset_supply a (ls_utxos L) + minted pf tx chain_id a) mod 2 ^ 128"
    unfolding word_of_nat_eq_iff take_bit_eq_mod by simp
qed

lemma applied_supply:
  assumes "apply_transaction pf dw eng L tx height chain_id = (L', Ok u)" and "totals_exact pf L tx a"
  shows "asset_supply a (ls_utxos L') \<le> asset_supply a (ls_utxos L) + minted pf tx chain_id a \<and>
    (\<forall>h. tx_id pf tx = Some h \<and> fresh_tx_id h (ls_utxos L) \<longrightarrow>
       asset_supply a (ls_utxos L') = asset_supply a (ls_utxos L) + minted pf tx chain_id a)"
proof -
  let ?kept = "remove_consumed (map input_key (tc_inputs (tx_core tx))) (ls_utxos L)"
  obtain h where h: "tx_id pf tx = Some h"
    "ls_utxos L' = insert_outputs h height (tc_outputs (tx_core tx)) ?kept"
    using applied_inputs [OF assms(1)] by auto
  have "asset_supply a (ls_utxos L') \<le> amount_of a (created_assets tx) + asset_supply a ?kept"
    unfolding h(2) created_assets_def by (rule supply_insert_outputs_le)
  with applied_balance(2) [OF assms] spent_supply [OF assms(1), of a] applied_supply_fresh [OF assms(1) h(1), of a] h(1)
  show ?thesis by auto
qed

lemmas applied_supply_le = applied_supply [THEN conjunct1]

section \<open>Sizes and panics\<close>

text \<open>The outputs of a ledger fit their length prefixes, and so do the witnesses of a transaction. The format of
  bincode spends at least a byte on each element of a vector, so what is decoded is not longer than the
  input it was decoded from.\<close>

definition ledger_fits :: "ledger_state \<Rightarrow> bool" where
  "ledger_fits L \<longleftrightarrow> fmpred (\<lambda>k tracked. output_fits (tr_output tracked)) (ls_utxos L)"

definition witness_fits :: "transaction \<Rightarrow> bool" where
  "witness_fits tx \<longleftrightarrow> (\<forall>w \<in> set (tw_inputs (tx_witness tx)). length w < 2 ^ 32)"

definition decoder_bounded :: "(bytes \<Rightarrow> input_witness option) \<Rightarrow> bool" where
  "decoder_bounded dw \<longleftrightarrow> (\<forall>bs w. dw bs = Some w \<longrightarrow> length (script_ops (iw_script w)) \<le> length bs \<and>
     (\<forall>data. PushBytes data \<in> set (script_ops (iw_script w)) \<longrightarrow> length data \<le> length bs))"

lemma encode_op_eq_None: "encode_op op = None \<longleftrightarrow> (\<exists>data. op = PushBytes data \<and> 2 ^ 32 \<le> length data)"
  by (cases op) (auto simp: bind_eq_None_conv encode_len_eq_None)

lemma decoded_script_encodes:
  assumes "decoder_bounded dw" and "dw bs = Some w" and "length bs < 2 ^ 32"
  shows "encode_script (iw_script w) \<noteq> None"
proof -
  have "length (script_ops (iw_script w)) \<le> length bs"
    "\<forall>data. PushBytes data \<in> set (script_ops (iw_script w)) \<longrightarrow> length data \<le> length bs"
    using assms(1,2) by (auto simp: decoder_bounded_def)
  with assms(3) show ?thesis unfolding encode_script_def encode_vec_eq_None encode_op_eq_None by fastforce
qed

lemma witness_fitsD: "witness_fits tx \<Longrightarrow> list_get (tw_inputs (tx_witness tx)) i = Some w \<Longrightarrow> length w < 2 ^ 32"
  by (auto simp: witness_fits_def list_get_def split: if_splits)

lemma ledger_host_fits: "ledger_fits L \<Longrightarrow> host_fits (ledger_script_host (ls_utxos L) height)"
  by (auto simp: ledger_fits_def host_fits_def ledger_script_host_def fmpred_iff)

lemma apply_preserves_fits:
  assumes "apply_transaction pf dw eng L tx height chain_id = (L', Ok u)" and "ledger_fits L"
  shows "ledger_fits L'"
  using applied_inputs [OF assms(1)] assms(2)
  by (auto simp: ledger_fits_def fmpred_iff fmlookup_insert_outputs fmlookup_remove_consumed core_fits_def
      split: if_splits)

lemma state_root_eq_None: "state_root pf L = None \<longleftrightarrow> \<not> ledger_fits L"
proof -
  have "encode_utxo_entry (k, t) = None \<longleftrightarrow> \<not> output_fits (tr_output t)" for k t
    by (simp add: encode_utxo_entry_def bind_eq_None_conv encode_output_eq_None)
  then have "state_root_preimage L = None \<longleftrightarrow>
      (\<exists>(k, t)\<in>set (sorted_list_of_fmap (ls_utxos L)). \<not> output_fits (tr_output t))"
    by (auto simp: state_root_preimage_def bind_eq_None_conv map_option_list_None)
  also have "\<dots> \<longleftrightarrow> \<not> ledger_fits L"
    by (simp add: ledger_fits_def fmpred_iff sorted_list_of_fmap_def fmlookup_dom_iff)
      (metis fmdomE fmdomI option.sel)
  finally show ?thesis by (simp add: state_root_def)
qed

context total_script_engine begin

lemma scan_returns:
  assumes "core_fits (tx_core tx)" "ledger_fits L" "witness_fits tx" "decoder_bounded dw" "\<not> pf_overflow_checks pf"
  shows "scan_inputs pf dw eng L tx height chain_id created \<noteq> Panic"
proof -
  have "scan_input pf dw eng L tx height chain_id created (i, inp) sc \<noteq> Panic" for i inp sc
    using engine_returns [OF _ ledger_host_fits [OF assms(2)]] assms accumulate_unchecked
    by (auto simp: scan_input_def and_then_eq_Panic ok_or_eq_Ok input_ctx_def
        dest: witness_fitsD decoded_script_encodes)
  then show ?thesis unfolding scan_inputs_def by (intro fold_res_no_panic) auto
qed

lemma apply_returns:
  assumes "core_fits (tx_core tx)" "ledger_fits L" "witness_fits tx" "decoder_bounded dw" "\<not> pf_overflow_checks pf"
  shows "snd (apply_transaction pf dw eng L tx height chain_id) \<noteq> Panic"
proof -
  have "announced_asset pf L chain_id k \<noteq> Panic" for k by (cases k) (auto simp: Let_def)
  moreover have "output_totals pf outs \<noteq> None" for outs
    using accumulate_unchecked assms(5) by (auto simp: output_totals_def)
  moreover have "check_mint created b ins outs \<noteq> Panic" for created b ins outs
    by (cases created) (auto simp: Let_def split: if_splits)
  ultimately have "check_transaction pf dw eng L tx height chain_id \<noteq> Panic"
    using scan_returns [OF assms] by (auto simp: check_transaction_def and_then_eq_Panic)
  moreover have "tx_id pf tx \<noteq> None" using assms(1) by (simp add: tx_id_eq_None)
  ultimately show ?thesis
    by (auto simp: apply_transaction_def Let_def split: res.splits option.splits)
qed

lemma apply_all_return:
  assumes "\<forall>tx\<in>set txs. core_fits (tx_core tx) \<and> witness_fits tx" "ledger_fits L" "decoder_bounded dw" "\<not> pf_overflow_checks pf"
  shows "snd (apply_transactions pf dw eng txs height chain_id L) \<noteq> Panic"
  using assms(1,2)
proof (induction txs arbitrary: L)
  case Nil
  then show ?case by simp
next
  case (Cons tx txs)
  have "snd (apply_transaction pf dw eng L tx height chain_id) \<noteq> Panic"
    using apply_returns [of tx L dw pf] Cons.prems assms(3,4) by simp
  moreover have "snd (apply_transactions pf dw eng txs height chain_id L1) \<noteq> Panic"
    if "apply_transaction pf dw eng L tx height chain_id = (L1, Ok u)" for L1 u
    using Cons.IH [of L1] apply_preserves_fits [OF that] Cons.prems by simp
  ultimately show ?case by (auto split: prod.splits res.splits)
qed

end

section \<open>The state root as a commitment\<close>

interpretation utxo_entry_code: prefix_code encode_utxo_entry
proof
  fix x y :: "utxo_key \<times> tracked_output" and a b r s
  assume "encode_utxo_entry x = Some a" "encode_utxo_entry y = Some b" and eq: "a @ r = b @ s"
  moreover obtain k t l v where xy: "x = (k, t)" "y = (l, v)" by (cases x; cases y)
  ultimately obtain m n where mn: "encode_output (tr_output t) = Some m" "encode_output (tr_output v) = Some n"
    "a = hash_slice (uk_tx_id k) @ to_le_bytes (uk_index k) @ m @ to_le_bytes (tr_created_height t)"
    "b = hash_slice (uk_tx_id l) @ to_le_bytes (uk_index l) @ n @ to_le_bytes (tr_created_height v)"
    by (auto simp: encode_utxo_entry_def bind_eq_Some_conv)
  from eq show "x = y \<and> r = s"
    unfolding mn(3,4) xy
    by (auto simp: hash_code.fixed_cancel le_cancel output_code.code_cancel [OF mn(1,2)] utxo_key.expand
        intro!: tracked_output.equality)
qed

interpretation asset_entry_code: prefix_code "\<lambda>x. Some (encode_asset_entry x)"
proof
  fix x y :: "asset_id \<times> asset_definition" and a b r s
  assume "Some (encode_asset_entry x) = Some a" "Some (encode_asset_entry y) = Some b" "a @ r = b @ s"
  then show "x = y \<and> r = s"
    using asset_definition_code.code_cancel
    by (cases x; cases y) (auto simp: encode_asset_entry_def hash_code.fixed_cancel asset_id.expand)
qed

lemma state_root_preimage_binding:
  assumes "state_root_preimage L = Some p" and "state_root_preimage M = Some p"
    and "fcard (fmdom (ls_utxos L)) = fcard (fmdom (ls_utxos M))"
  shows "L = M"
proof -
  obtain as bs where ab: "map_option_list encode_utxo_entry (sorted_list_of_fmap (ls_utxos L)) = Some as"
    "map_option_list encode_utxo_entry (sorted_list_of_fmap (ls_utxos M)) = Some bs"
    "concat as @ concat (map encode_asset_entry (sorted_list_of_fmap (ls_assets L)))
      = concat bs @ concat (map encode_asset_entry (sorted_list_of_fmap (ls_assets M)))"
    using assms(1,2) by (auto simp: state_root_preimage_def bind_eq_Some_conv)
  have "length (sorted_list_of_fmap m) = fcard (fmdom m)" for m :: utxo_set
    by (simp add: sorted_list_of_fmap_def sorted_list_of_fset.rep_eq fcard.rep_eq)
  then have "length (sorted_list_of_fmap (ls_utxos L)) = length (sorted_list_of_fmap (ls_utxos M))"
    using assms(3) by simp
  from utxo_entry_code.code_list_free [OF ab(1,2) this ab(3)]
  have u: "sorted_list_of_fmap (ls_utxos L) = sorted_list_of_fmap (ls_utxos M)" and
    a: "concat (map encode_asset_entry (sorted_list_of_fmap (ls_assets L)))
      = concat (map encode_asset_entry (sorted_list_of_fmap (ls_assets M)))" by auto
  have "encode_asset_entry x \<noteq> []" for x
    by (cases x) (simp add: encode_asset_entry_def encode_asset_definition_def)
  then have "sorted_list_of_fmap (ls_assets L) = sorted_list_of_fmap (ls_assets M)"
    using asset_entry_code.code_stream_free [OF map_option_list_map map_option_list_map _ a] by blast
  with u have "ls_utxos L = ls_utxos M" "ls_assets L = ls_assets M"
    by (metis fmap_ext map_of_sorted_list)+
  then show ?thesis by (intro ledger_state.equality) auto
qed

section \<open>Sequences of transactions\<close>

text \<open>An invariant of single applications is one of a whole block.\<close>

lemma apply_transactions_invariant:
  assumes "\<And>tx L L' u. tx \<in> set txs \<Longrightarrow> I L \<Longrightarrow> apply_transaction pf dw eng L tx height chain_id = (L', Ok u) \<Longrightarrow> I L'"
    and "apply_transactions pf dw eng txs height chain_id L = (L', Ok v)" and "I L"
  shows "I L'"
  using assms
proof (induction txs arbitrary: L)
  case Nil
  then show ?case by simp
next
  case (Cons tx txs)
  from Cons.prems(2) obtain L1 u where 1: "apply_transaction pf dw eng L tx height chain_id = (L1, Ok u)"
    "apply_transactions pf dw eng txs height chain_id L1 = (L', Ok v)"
    by (auto split: prod.splits res.splits)
  have "I L1" using Cons.prems(1) [OF _ Cons.prems(3) 1(1)] by simp
  then show ?case using Cons.IH [OF _ 1(2)] Cons.prems(1) by (meson list.set_intros(2))
qed

lemma apply_transactions_fits:
  "apply_transactions pf dw eng txs height chain_id L = (L', Ok v) \<Longrightarrow> ledger_fits L \<Longrightarrow> ledger_fits L'"
  by (rule apply_transactions_invariant [where I = ledger_fits]) (auto dest: apply_preserves_fits)

lemma chain_apply_block_eq_Ok:
  "chain_apply_block pf dw eng C b = (C', Ok u) \<longleftrightarrow>
     (\<exists>L root. apply_transactions pf dw eng (b_transactions b) (bh_height (b_header b)) (cs_chain_id C) (cs_ledger C) = (L, Ok ()) \<and>
        state_root pf L = Some root \<and>
        C' = \<lparr>cs_ledger = L, cs_height = bh_height (b_header b), cs_tip_hash = header_hash pf (b_header b),
          cs_state_root = root, cs_last_timestamp = bh_timestamp (b_header b), cs_chain_id = cs_chain_id C\<rparr>)"
  by (cases C) (auto simp: chain_apply_block_def Let_def split: prod.splits res.splits option.splits)

section \<open>Samples\<close>

text \<open>A ledger with one output of 5 units of the native asset, locked by the empty script, a witness
  decoder that always presents that script, and transactions that spend the output.\<close>

definition sample_coin :: "hash256 \<Rightarrow> u128 \<Rightarrow> tx_output" where
  "sample_coin owner n = \<lparr>out_owner_script_hash = owner,
     out_assets = [\<lparr>aa_asset_id = QCOIN_ASSET_ID, aa_amount = n\<rparr>], out_metadata_hash = None\<rparr>"

definition sample_utxos :: utxo_set where
  "sample_utxos = fmupd (UtxoKey (hash_fill 1) 0) \<lparr>tr_output = sample_coin (hash_fill 4) 5, tr_created_height = 0\<rparr> fmempty"

definition sample_ledger :: ledger_state where
  "sample_ledger = \<lparr>ls_utxos = sample_utxos, ls_assets = fmempty\<rparr>"

definition sample_dw :: "bytes \<Rightarrow> input_witness option" where
  "sample_dw bs = Some \<lparr>iw_script = Script [], iw_metadata = None\<rparr>"

definition sample_eng :: "bool \<Rightarrow> script_engine" where
  "sample_eng oc = eval (sample_platform oc) default_vm_config"

definition sample_spend :: "transaction_kind \<Rightarrow> tx_output list \<Rightarrow> transaction" where
  "sample_spend k outs = \<lparr>tx_core = \<lparr>tc_kind = k, tc_inputs = [\<lparr>ti_tx_id = hash_fill 1, ti_index = 0\<rparr>],
     tc_outputs = outs\<rparr>, tx_witness = \<lparr>tw_inputs = [[]]\<rparr>\<rparr>"

lemma sample_spend_sel:
  "tc_kind (tx_core (sample_spend k outs)) = k" "tc_outputs (tx_core (sample_spend k outs)) = outs"
  "tc_inputs (tx_core (sample_spend k outs)) = [\<lparr>ti_tx_id = hash_fill 1, ti_index = 0\<rparr>]"
  "tw_inputs (tx_witness (sample_spend k outs)) = [[]]"
  by (simp_all add: sample_spend_def)

lemma qcoin_neq_fill: "qcoin_asset_id_bytes \<noteq> hash_fill b"
proof
  assume "qcoin_asset_id_bytes = hash_fill b"
  then have "hash_slice qcoin_asset_id_bytes = hash_slice (hash_fill b)" by (rule arg_cong)
  then have "hash_slice qcoin_asset_id_bytes = replicate 32 b" by (rule trans) (rule hash_slice_fill)
  then have "hash_slice qcoin_asset_id_bytes ! 0 = b" "hash_slice qcoin_asset_id_bytes ! 31 = b" by simp_all
  then show False by (simp add: qcoin_asset_id_bytes.rep_eq)
qed

lemma sample_eng_empty: "sample_eng oc (Script []) ctx host = Ok \<lparr>sr_gas_consumed = 0\<rparr>"
  by (simp add: sample_eng_def eval_def default_limits vm_defs)

definition sample_ledger_with :: "u128 \<Rightarrow> ledger_state" where
  "sample_ledger_with n = \<lparr>ls_utxos = fmupd (UtxoKey (hash_fill 1) 0)
     \<lparr>tr_output = sample_coin (hash_fill 4) n, tr_created_height = 0\<rparr> fmempty, ls_assets = fmempty\<rparr>"

lemma sample_ledger_with_5: "sample_ledger_with 5 = sample_ledger"
  by (simp add: sample_ledger_with_def sample_ledger_def sample_utxos_def)

lemma fmupd_eq_iff: "fmupd k a fmempty = fmupd k b fmempty \<longleftrightarrow> a = b"
  by (metis fmupd_lookup option.inject)

lemma sorted_single: "sorted_list_of_fmap (fmupd k v fmempty) = [(k, v)]"
  by (simp add: sorted_list_of_fmap_def sorted_list_of_fset.rep_eq)

lemma sorted_empty: "sorted_list_of_fmap fmempty = []"
  by (simp add: sorted_list_of_fmap_def sorted_list_of_fset.rep_eq)

lemma sample_root: "state_root (sample_platform oc) (sample_ledger_with n) = Some (hash_fill 129)"
  by (simp add: state_root_def state_root_preimage_def sample_ledger_with_def sorted_single encode_utxo_entry_def
      sample_coin_def encode_output_def encode_vec_def encode_len_total encode_asset_amount_def
      sorted_empty)

lemma sample_scan:
  "scan_inputs (sample_platform oc) sample_dw (sample_eng oc) (sample_ledger\<lparr>ls_assets := as\<rparr>) (sample_spend k outs) height chain_id created =
     Ok \<lparr>sc_seen = {|UtxoKey (hash_fill 1) 0|}, sc_consumed = [UtxoKey (hash_fill 1) 0],
       sc_totals = fmupd qcoin_asset_id_bytes 5 fmempty,
       sc_issuer_authorized = authorizes_issue created (sample_coin (hash_fill 4) 5)\<rparr>"
  by (simp add: scan_defs scan_input_def sample_spend_def sample_ledger_def sample_utxos_def sample_dw_def
      input_key_def list_get_def encode_script_def encode_vec_def encode_len_def to_le_bytes_def sample_eng_empty
      sample_coin_def accumulate_asset_def QCOIN_ASSET_ID_def add_chk_def)

lemma sample_ledger_plain: "sample_ledger\<lparr>ls_assets := fmempty\<rparr> = sample_ledger"
  by (simp add: sample_ledger_def)

lemma sample_remove: "remove_consumed [UtxoKey (hash_fill 1) 0] sample_utxos = fmempty"
  by (simp add: remove_consumed_def sample_utxos_def fmdrop_fmupd_same)

lemma sample_tx_id:
  "length outs < 2 ^ 32 \<Longrightarrow> \<forall>out\<in>set outs. output_fits out \<Longrightarrow> \<exists>h. tx_id pf (sample_spend k outs) = Some h"
  using tx_id_eq_None [of pf "sample_spend k outs"] by (auto simp: sample_spend_def core_fits_def)

lemma sample_coin_fits: "output_fits (sample_coin h n)"
  by (simp add: sample_coin_def output_fits_def)

lemma sample_apply:
  assumes "output_totals (sample_platform oc) outs = Some ot" and "conserves (fmupd qcoin_asset_id_bytes 5 fmempty) ot"
    and "length outs < 2 ^ 32" and "\<forall>out\<in>set outs. output_fits out"
  shows "\<exists>h. tx_id (sample_platform oc) (sample_spend Transfer outs) = Some h \<and>
    apply_transaction (sample_platform oc) sample_dw (sample_eng oc) sample_ledger (sample_spend Transfer outs) height chain_id
      = (sample_ledger\<lparr>ls_utxos := insert_outputs h height outs fmempty\<rparr>, Ok ())"
proof -
  obtain h where h: "tx_id (sample_platform oc) (sample_spend Transfer outs) = Some h"
    using sample_tx_id [OF assms(3,4)] by blast
  have "check_transaction (sample_platform oc) sample_dw (sample_eng oc) sample_ledger (sample_spend Transfer outs) height chain_id
      = Ok (None, [UtxoKey (hash_fill 1) 0], fmupd qcoin_asset_id_bytes 5 fmempty, ot)"
    using sample_scan [where as = fmempty] assms(1)
    by (simp add: check_transaction_def sample_ledger_plain sample_spend_def)
  moreover have "ls_utxos sample_ledger = sample_utxos" by (simp add: sample_ledger_def)
  ultimately show ?thesis
    using h assms(2) sample_remove by (simp add: apply_transaction_def Let_def) (simp add: sample_spend_def)
qed

lemma unat_max_u128: "unat (- 1 :: u128) = 2 ^ 128 - 1"
  by (simp only: unsigned_minus_1_eq_mask mask_eq_exp_minus_1) simp

lemma sample_supply: "asset_supply qcoin_asset_id_bytes (ls_utxos sample_ledger) = 5"
  by (simp add: asset_supply_def sample_ledger_def sample_utxos_def fm_sum_upd sample_coin_def QCOIN_ASSET_ID_def)

lemma sample_transfer:
  "\<exists>h. tx_id (sample_platform oc) (sample_spend Transfer [sample_coin owner 5]) = Some h \<and>
    apply_transaction (sample_platform oc) sample_dw (sample_eng oc) sample_ledger
        (sample_spend Transfer [sample_coin owner 5]) height chain_id
      = (sample_ledger\<lparr>ls_utxos := insert_outputs h height [sample_coin owner 5] fmempty\<rparr>, Ok ())"
  by (rule sample_apply)
    (auto simp: output_totals_def sample_coin_def accumulate_asset_def add_chk_def conserves_iff QCOIN_ASSET_ID_def
      output_fits_def)

section \<open>Properties\<close>

text \<open>C1. No inflation: a transaction that is applied raises the supply of an asset by at most what its
  \<open>CreateAsset\<close> announces for that asset, and by exactly that if its id is fresh; in particular a
  transfer never raises any supply. This is so in a build with overflow checks, and without them if the spent
  amounts of the asset and the created ones each sum to less than 2^128. In every build the supply after a
  transaction with a fresh id is that sum up to a multiple of 2^128.\<close>

theorem asset_conservation:
  assumes "apply_transaction pf dw eng L tx height chain_id = (L', Ok u)"
  shows "(pf_overflow_checks pf \<or> amount_of a (spent_assets L tx) < 2 ^ 128 \<and> amount_of a (created_assets tx) < 2 ^ 128 \<longrightarrow>
      asset_supply a (ls_utxos L') \<le> asset_supply a (ls_utxos L) + minted pf tx chain_id a \<and>
      (\<forall>h. tx_id pf tx = Some h \<and> fresh_tx_id h (ls_utxos L) \<longrightarrow>
         asset_supply a (ls_utxos L') = asset_supply a (ls_utxos L) + minted pf tx chain_id a)) \<and>
    (\<forall>h. tx_id pf tx = Some h \<and> fresh_tx_id h (ls_utxos L) \<longrightarrow>
       asset_supply a (ls_utxos L') mod 2 ^ 128 = (asset_supply a (ls_utxos L) + minted pf tx chain_id a) mod 2 ^ 128)"
  using applied_supply [OF assms, of a] applied_supply_mod [OF assms, of a] by (simp add: totals_exact_def)

theorem asset_conservation_witness:
  "\<exists>L'. apply_transaction (sample_platform True) sample_dw (sample_eng True) sample_ledger
        (sample_spend Transfer [sample_coin (hash_fill 9) 5]) 1 0 = (L', Ok ()) \<and>
     asset_supply qcoin_asset_id_bytes (ls_utxos L') \<le> 5"
proof -
  obtain L' where L: "apply_transaction (sample_platform True) sample_dw (sample_eng True) sample_ledger
      (sample_spend Transfer [sample_coin (hash_fill 9) 5]) 1 0 = (L', Ok ())"
    using sample_transfer by blast
  show ?thesis
    using asset_conservation [OF L, of qcoin_asset_id_bytes] L sample_supply
    by (auto simp: minted_def sample_spend_def)
qed

text \<open>Without overflow checks the totals wrap, and a transfer mints: spending an output of 5 units,
  a transaction with outputs of 2^128 - 1 and 6 units is applied, and the supply goes from 5 to
  2^128 + 5. With overflow checks the same transaction panics and the ledger is unchanged.\<close>

theorem release_overflow_mints:
  "(\<exists>L'. apply_transaction (sample_platform False) sample_dw (sample_eng False) sample_ledger
        (sample_spend Transfer [sample_coin (hash_fill 9) (- 1), sample_coin (hash_fill 9) 6]) 1 0 = (L', Ok ()) \<and>
      asset_supply qcoin_asset_id_bytes (ls_utxos sample_ledger) = 5 \<and>
      asset_supply qcoin_asset_id_bytes (ls_utxos L') = 2 ^ 128 + 5) \<and>
   apply_transaction (sample_platform True) sample_dw (sample_eng True) sample_ledger
        (sample_spend Transfer [sample_coin (hash_fill 9) (- 1), sample_coin (hash_fill 9) 6]) 1 0 = (sample_ledger, Panic)"
  (is "?release \<and> ?debug")
proof
  let ?outs = "[sample_coin (hash_fill 9) (- 1), sample_coin (hash_fill 9) 6]"
  have "output_totals (sample_platform False) ?outs
      = Some (fmupd qcoin_asset_id_bytes 5 (fmupd qcoin_asset_id_bytes (- 1) fmempty))"
    by (simp add: output_totals_def sample_coin_def accumulate_asset_def QCOIN_ASSET_ID_def)
  then obtain h where L: "apply_transaction (sample_platform False) sample_dw (sample_eng False) sample_ledger
      (sample_spend Transfer ?outs) 1 0 = (sample_ledger\<lparr>ls_utxos := insert_outputs h 1 ?outs fmempty\<rparr>, Ok ())"
    using sample_apply [of False ?outs _ 1 0] by (auto simp: conserves_iff sample_coin_fits)
  have "asset_supply qcoin_asset_id_bytes (insert_outputs h 1 ?outs fmempty)
      = unat (- 1 :: u128) + unat (6 :: u128)"
    by (subst supply_insert_outputs_fresh)
      (simp_all add: fresh_tx_id_def asset_supply_def sample_coin_def QCOIN_ASSET_ID_def)
  also have "unat (- 1 :: u128) = 2 ^ 128 - 1" by (rule unat_max_u128)
  also have "2 ^ 128 - 1 + unat (6 :: u128) = 2 ^ 128 + 5" by simp
  finally have after: "asset_supply qcoin_asset_id_bytes (insert_outputs h 1 ?outs fmempty) = 2 ^ 128 + 5" .
  have "ls_utxos (sample_ledger\<lparr>ls_utxos := insert_outputs h 1 ?outs fmempty\<rparr>) = insert_outputs h 1 ?outs fmempty"
    by simp
  then have "asset_supply qcoin_asset_id_bytes (ls_utxos (sample_ledger\<lparr>ls_utxos := insert_outputs h 1 ?outs fmempty\<rparr>))
      = 2 ^ 128 + 5"
    using after by (rule ssubst)
  with L sample_supply show ?release by blast
  have "output_totals (sample_platform True) ?outs = None"
    by (simp add: output_totals_def sample_coin_def accumulate_asset_def QCOIN_ASSET_ID_def add_chk_def
        unat_max_u128)
  moreover have "tc_kind (tx_core (sample_spend k os)) = k" "tc_outputs (tx_core (sample_spend k os)) = os" for k os
    by (simp_all add: sample_spend_def)
  ultimately show ?debug
    using sample_scan [where as = fmempty]
    by (simp add: apply_transaction_def check_transaction_def sample_ledger_plain)
qed

text \<open>C2. Spending needs authorisation: in a transaction that is applied the inputs are distinct and
  unspent, and for each of them the witness presents a script whose encoding hashes to the owner of
  the spent output, whose evaluation in the context of that input succeeds, and metadata that match
  the output.\<close>

theorem spends_are_authorized:
  assumes "apply_transaction pf dw eng L tx height chain_id = (L', Ok u)"
    and "i < length (tc_inputs (tx_core tx))"
  shows "distinct (map input_key (tc_inputs (tx_core tx))) \<and>
    (\<exists>tracked w sb r. fmlookup (ls_utxos L) (input_key (tc_inputs (tx_core tx) ! i)) = Some tracked \<and>
      i < length (tw_inputs (tx_witness tx)) \<and> dw (tw_inputs (tx_witness tx) ! i) = Some w \<and>
      encode_script (iw_script w) = Some sb \<and> pf_blake3 pf sb = out_owner_script_hash (tr_output tracked) \<and>
      out_metadata_hash (tr_output tracked) = map_option (pf_blake3 pf) (iw_metadata w) \<and>
      eng (iw_script w) (input_ctx tx height chain_id i tracked) (ledger_script_host (ls_utxos L) height) = Ok r)"
proof -
  have "metadata_matches pf m b \<Longrightarrow> m = map_option (pf_blake3 pf) b" for m b
    by (cases m; cases b) auto
  with applied_inputs [OF assms(1)] assms(2) show ?thesis
    unfolding spend_authorized_def by meson
qed

theorem spends_are_authorized_witness:
  "\<exists>tracked r. fmlookup sample_utxos (UtxoKey (hash_fill 1) 0) = Some tracked \<and>
     sample_eng True (Script []) (input_ctx (sample_spend Transfer [sample_coin (hash_fill 9) 5]) 1 0 0 tracked)
       (ledger_script_host sample_utxos 1) = Ok r"
proof -
  obtain L' where L: "apply_transaction (sample_platform True) sample_dw (sample_eng True) sample_ledger
      (sample_spend Transfer [sample_coin (hash_fill 9) 5]) 1 0 = (L', Ok ())"
    using sample_transfer by blast
  from spends_are_authorized [OF L, of 0] show ?thesis
    by (simp add: sample_dw_def sample_ledger_def input_key_def sample_spend_sel) blast
qed

text \<open>C3. The effect of an applied transaction on the UTXO set, for every key: an output of the
  transaction is found under its id and index, created at the current height; a spent key is gone;
  every other entry is unchanged. So no output can be spent twice.\<close>

theorem applied_utxo_effect:
  assumes "apply_transaction pf dw eng L tx height chain_id = (L', Ok u)"
  shows "\<exists>h. tx_id pf tx = Some h \<and> (\<forall>k. fmlookup (ls_utxos L') k =
    (if uk_tx_id k = h \<and> unat (uk_index k) < length (tc_outputs (tx_core tx))
     then Some \<lparr>tr_output = tc_outputs (tx_core tx) ! unat (uk_index k), tr_created_height = height\<rparr>
     else if k \<in> input_key ` set (tc_inputs (tx_core tx)) then None
     else fmlookup (ls_utxos L) k))"
  using applied_inputs [OF assms]
  by (auto simp: fmlookup_insert_outputs fmlookup_remove_consumed core_fits_def)

theorem applied_utxo_effect_witness:
  "\<exists>h L'. tx_id (sample_platform True) (sample_spend Transfer [sample_coin (hash_fill 9) 5]) = Some h \<and>
    apply_transaction (sample_platform True) sample_dw (sample_eng True) sample_ledger
        (sample_spend Transfer [sample_coin (hash_fill 9) 5]) 1 0 = (L', Ok ()) \<and>
    fmlookup (ls_utxos L') (UtxoKey h 0) = Some \<lparr>tr_output = sample_coin (hash_fill 9) 5, tr_created_height = 1\<rparr>"
proof -
  obtain h L' where h: "tx_id (sample_platform True) (sample_spend Transfer [sample_coin (hash_fill 9) 5]) = Some h"
    and L: "apply_transaction (sample_platform True) sample_dw (sample_eng True) sample_ledger
      (sample_spend Transfer [sample_coin (hash_fill 9) 5]) 1 0 = (L', Ok ())"
    using sample_transfer by blast
  have "tc_outputs (tx_core (sample_spend Transfer [sample_coin (hash_fill 9) 5])) = [sample_coin (hash_fill 9) 5]"
    by (simp add: sample_spend_def)
  with applied_utxo_effect [OF L] h L show ?thesis by auto
qed

text \<open>C33. A transaction that is refused leaves the UTXO set alone, and the whole ledger except in one
  case: a \<open>CreateAsset\<close> that fails the final conservation test has already registered its asset, and
  from then on every creation of the same asset on that ledger is refused as a duplicate, although the
  asset has no supply.\<close>

theorem failed_transaction_effect:
  assumes "apply_transaction pf dw eng L tx height chain_id = (L', Err e)"
  shows "ls_utxos L' = ls_utxos L \<and>
    (L' = L \<or>
     (\<exists>d s. tc_kind (tx_core tx) = CreateAsset d s \<and> e = AssetConservationViolation \<and>
        ls_assets L' = fmupd (derive_asset_id pf d chain_id) d (ls_assets L) \<and>
        (\<forall>tx2 s2 height2. tc_kind (tx_core tx2) = CreateAsset d s2 \<longrightarrow>
           apply_transaction pf dw eng L' tx2 height2 chain_id = (L', Err AssetAlreadyExists))))"
proof (cases "L' = L")
  case False
  with apply_transaction_Err [OF assms] obtain created consumed ins outs where
    e: "e = AssetConservationViolation" and
    chk: "check_transaction pf dw eng L tx height chain_id = Ok (created, consumed, ins, outs)" and
    L': "L' = register_asset created L" by blast
  from chk have ann: "announced_asset pf L chain_id (tc_kind (tx_core tx)) = Ok created"
    by (rule check_transaction_Ok)
  obtain d s where k: "tc_kind (tx_core tx) = CreateAsset d s" and c: "created = Some (derive_asset_id pf d chain_id, d, s)"
    and q: "derive_asset_id pf d chain_id \<noteq> QCOIN_ASSET_ID"
    using ann [unfolded announced_asset_eq_Ok] L' False by (cases "tc_kind (tx_core tx)") auto
  have "apply_transaction pf dw eng L' tx2 h2 chain_id = (L', Err AssetAlreadyExists)"
    if "tc_kind (tx_core tx2) = CreateAsset d s2" for tx2 s2 h2
    using that q by (simp add: L' c apply_transaction_def check_transaction_def Let_def is_qcoin_asset_id_iff)
  then show ?thesis using k e by (auto simp: L' c)
qed simp

theorem failed_transaction_effect_witness:
  "\<exists>L' e. apply_transaction (sample_platform True) sample_dw (sample_eng True) sample_ledger
      (sample_spend (CreateAsset (sample_asset\<lparr>ad_issuer_script_hash := hash_fill 4\<rparr>) 0) []) 1 0 = (L', Err e) \<and>
    ls_assets L' \<noteq> ls_assets sample_ledger \<and> ls_utxos L' = ls_utxos sample_ledger"
proof -
  let ?d = "sample_asset\<lparr>ad_issuer_script_hash := hash_fill 4\<rparr>"
  let ?tx = "sample_spend (CreateAsset ?d 0) []"
  let ?i = "derive_asset_id (sample_platform True) ?d 0"
  have i: "?i \<noteq> QCOIN_ASSET_ID" "asset_id_hash ?i \<noteq> qcoin_asset_id_bytes"
    using qcoin_neq_fill by (auto simp: derive_asset_id_def QCOIN_ASSET_ID_def eq_commute [of "hash_fill _"])
  have "check_transaction (sample_platform True) sample_dw (sample_eng True) sample_ledger ?tx 1 0
      = Ok (Some (?i, ?d, 0), [UtxoKey (hash_fill 1) 0], fmdrop (asset_id_hash ?i) (fmupd qcoin_asset_id_bytes 5 fmempty), fmempty)"
    using sample_scan [where as = fmempty] i
    by (simp add: check_transaction_def sample_ledger_plain sample_spend_sel is_qcoin_asset_id_iff output_totals_def
        authorizes_issue_def sample_coin_def) (simp add: sample_ledger_def sample_asset_def)
  moreover have "\<not> conserves (fmdrop (asset_id_hash ?i) (fmupd qcoin_asset_id_bytes 5 fmempty)) fmempty"
    using i by (auto simp: conserves_iff)
  ultimately have L: "apply_transaction (sample_platform True) sample_dw (sample_eng True) sample_ledger ?tx 1 0
      = (sample_ledger\<lparr>ls_assets := fmupd ?i ?d fmempty\<rparr>, Err AssetConservationViolation)"
    by (simp add: apply_transaction_def) (simp add: sample_ledger_def)
  have "fmlookup (fmupd ?i ?d fmempty) ?i \<noteq> fmlookup fmempty ?i" by simp
  then have "fmupd ?i ?d fmempty \<noteq> fmempty" by metis
  then have "ls_assets (sample_ledger\<lparr>ls_assets := fmupd ?i ?d fmempty\<rparr>) \<noteq> ls_assets sample_ledger"
    by (simp add: sample_ledger_def)
  with L failed_transaction_effect [OF L] show ?thesis by blast
qed

text \<open>C34. What an applied \<open>CreateAsset\<close> has established: the derived id is not the native one and was not
  registered, it is now, and nothing else changed in the registry; the announced supply respects the
  declared maximum; and an input was spent whose owner is the issuer, or which holds the asset. A
  transfer leaves the registry alone.\<close>

theorem asset_creation_sound:
  assumes "apply_transaction pf dw eng L tx height chain_id = (L', Ok u)"
  shows "case tc_kind (tx_core tx) of
      Transfer \<Rightarrow> ls_assets L' = ls_assets L
    | CreateAsset d s \<Rightarrow>
        (let i = derive_asset_id pf d chain_id in
         \<not> is_qcoin_asset_id i \<and> fmlookup (ls_assets L) i = None \<and> ls_assets L' = fmupd i d (ls_assets L) \<and>
         (case ad_max_supply d of None \<Rightarrow> True | Some m \<Rightarrow> s \<le> m) \<and>
         (\<exists>inp \<in> set (tc_inputs (tx_core tx)). out_owner_script_hash (spent_output L inp) = ad_issuer_script_hash d \<or>
            i \<in> aa_asset_id ` set (out_assets (spent_output L inp))))"
proof -
  from assms obtain created consumed ins outs where
    chk: "check_transaction pf dw eng L tx height chain_id = Ok (created, consumed, ins, outs)" and
    as: "ls_assets L' = ls_assets (register_asset created L)"
    by (rule apply_transaction_Ok)
  from chk obtain it ot where
    ann: "announced_asset pf L chain_id (tc_kind (tx_core tx)) = Ok created" and
    mint: "check_mint created (\<exists>inp\<in>set (tc_inputs (tx_core tx)). authorizes_issue created (spent_output L inp)) it ot
       = Ok (ins, outs)"
    by (rule check_transaction_Ok)
  show ?thesis
  proof (cases "tc_kind (tx_core tx)")
    case Transfer
    with ann as show ?thesis by simp
  next
    case (CreateAsset d s)
    with ann have c: "created = Some (derive_asset_id pf d chain_id, d, s)"
      and new: "\<not> is_qcoin_asset_id (derive_asset_id pf d chain_id)" "fmlookup (ls_assets L) (derive_asset_id pf d chain_id) = None"
      unfolding announced_asset_eq_Ok by (auto simp: is_qcoin_asset_id_iff)
    from mint [unfolded c] have "\<not> (case ad_max_supply d of Some m \<Rightarrow> m < s | None \<Rightarrow> False)"
      and auth: "\<exists>inp\<in>set (tc_inputs (tx_core tx)). authorizes_issue created (spent_output L inp)"
      by (auto simp: Let_def c split: if_splits)
    then have "case ad_max_supply d of None \<Rightarrow> True | Some m \<Rightarrow> s \<le> m"
      by (auto split: option.splits)
    moreover have "authorizes_issue created out \<longleftrightarrow> out_owner_script_hash out = ad_issuer_script_hash d \<or>
        derive_asset_id pf d chain_id \<in> aa_asset_id ` set (out_assets out)" for out
      by (force simp: c authorizes_issue_def list_ex_iff)
    ultimately show ?thesis
      using new auth as unfolding CreateAsset c by (simp add: Let_def)
  qed
qed

theorem asset_creation_sound_witness:
  "\<exists>L'. apply_transaction (sample_platform True) sample_dw (sample_eng True) sample_ledger
      (sample_spend Transfer [sample_coin (hash_fill 9) 5]) 1 0 = (L', Ok ()) \<and> ls_assets L' = ls_assets sample_ledger"
proof -
  obtain L' where L: "apply_transaction (sample_platform True) sample_dw (sample_eng True) sample_ledger
      (sample_spend Transfer [sample_coin (hash_fill 9) 5]) 1 0 = (L', Ok ())"
    using sample_transfer by blast
  from asset_creation_sound [OF L] show ?thesis
    using L by (simp add: sample_spend_sel)
qed

text \<open>The transaction that \<open>create_asset_transaction\<close> builds has no inputs, so as it is it can never be
  applied: whatever the ledger, it is refused and leaves it unchanged.\<close>

theorem create_asset_transaction_refused:
  "\<exists>e. apply_transaction pf dw eng L
     (snd (create_asset_transaction pf issuer kind root max_supply decimals initial_supply dest chain_id))
     height chain_id' = (L, e) \<and> e \<noteq> Ok () \<and>
     (chain_id' = chain_id \<and> max_supply = None \<and> fmlookup (ls_assets L) (derive_asset_id pf
        (fst (create_asset_transaction pf issuer kind root max_supply decimals initial_supply dest chain_id)) chain_id) = None \<and>
      derive_asset_id pf (fst (create_asset_transaction pf issuer kind root max_supply decimals initial_supply dest chain_id))
        chain_id \<noteq> QCOIN_ASSET_ID \<longrightarrow> e = Err MissingIssuerAuthorization)"
proof -
  let ?d = "fst (create_asset_transaction pf issuer kind root max_supply decimals initial_supply dest chain_id)"
  let ?tx = "snd (create_asset_transaction pf issuer kind root max_supply decimals initial_supply dest chain_id)"
  have tx: "tc_kind (tx_core ?tx) = CreateAsset ?d initial_supply" "tc_inputs (tx_core ?tx) = []"
    and max: "ad_max_supply ?d = max_supply"
    and outs: "concat (map out_assets (tc_outputs (tx_core ?tx)))
      = [\<lparr>aa_asset_id = derive_asset_id pf ?d chain_id, aa_amount = initial_supply\<rparr>]"
    by (simp_all add: create_asset_transaction_def Let_def)
  have scan: "scan_inputs pf dw eng L ?tx height chain_id' created = Ok initial_scan" for created
    by (simp add: scan_inputs_def tx)
  obtain ot where ot: "output_totals pf (tc_outputs (tx_core ?tx)) = Some ot"
    and amount: "fm_get_or_0 ot (asset_id_hash (derive_asset_id pf ?d chain_id)) = initial_supply"
    using unsigned_less [of initial_supply, where 'a = nat]
    by (auto simp: output_totals_def outs accumulate_asset_def add_chk_def)
  have refused: "check_transaction pf dw eng L ?tx height chain_id' \<noteq> Ok x \<and> check_transaction pf dw eng L ?tx height chain_id' \<noteq> Panic" for x
    by (cases x)
      (auto simp: check_transaction_def tx(1) Let_def scan ot initial_scan_def and_then_eq_Panic res_simps split: if_splits)
  have miss: "check_transaction pf dw eng L ?tx height chain_id' = Err MissingIssuerAuthorization"
    if "chain_id' = chain_id" "max_supply = None" "fmlookup (ls_assets L) (derive_asset_id pf ?d chain_id) = None"
      "derive_asset_id pf ?d chain_id \<noteq> QCOIN_ASSET_ID"
    using that(3,4) amount unfolding check_transaction_def that(1)
    by (simp add: tx(1) Let_def scan [unfolded that(1)] ot initial_scan_def is_qcoin_asset_id_iff max) (simp add: that(2))
  obtain e where e: "check_transaction pf dw eng L ?tx height chain_id' = Err e"
    using refused by (cases "check_transaction pf dw eng L ?tx height chain_id'") blast+
  then have "apply_transaction pf dw eng L ?tx height chain_id' = (L, Err e)"
    by (simp add: apply_transaction_def)
  moreover have "Err e = (Err MissingIssuerAuthorization :: (ledger_error, unit) res)"
    if "chain_id' = chain_id" "max_supply = None" "fmlookup (ls_assets L) (derive_asset_id pf ?d chain_id) = None"
      "derive_asset_id pf ?d chain_id \<noteq> QCOIN_ASSET_ID"
    using miss [OF that] e by simp
  ultimately show ?thesis
    by (intro exI [of _ "Err e"] conjI impI; (elim conjE)?) (assumption, rule res.distinct(2), blast)
qed

theorem create_asset_transaction_refused_witness:
  "\<exists>e. apply_transaction (sample_platform True) sample_dw (sample_eng True) sample_ledger
     (snd (create_asset_transaction (sample_platform True) (hash_fill 4) Fungible (hash_fill 0) None 2 10 (hash_fill 9) 0))
     1 0 = (sample_ledger, e) \<and> e \<noteq> Ok ()"
  using create_asset_transaction_refused [of "sample_platform True" sample_dw "sample_eng True" sample_ledger
      "hash_fill 4" Fungible "hash_fill 0" None 2 10 "hash_fill 9" 0 1 0] by blast

text \<open>C35. The state root commits to the ledger: two ledgers with as many unspent outputs and the same root
  are equal, unless their preimages are a collision of the hash; and the root exists exactly for ledgers
  whose outputs fit their length prefixes, which applying a transaction preserves.\<close>

theorem state_root_commits:
  assumes "state_root pf L = Some root" and "state_root pf M = Some root"
    and "fcard (fmdom (ls_utxos L)) = fcard (fmdom (ls_utxos M))"
  shows "(L = M \<or> (\<exists>a b. state_root_preimage L = Some a \<and> state_root_preimage M = Some b \<and> a \<noteq> b \<and>
      pf_blake3 pf a = pf_blake3 pf b)) \<and>
    (apply_transaction pf dw eng L tx height chain_id = (L', Ok u) \<longrightarrow> (\<exists>root'. state_root pf L' = Some root'))"
proof
  obtain a b where ab: "state_root_preimage L = Some a" "state_root_preimage M = Some b"
    "pf_blake3 pf a = root" "pf_blake3 pf b = root"
    using assms(1,2) by (auto simp: state_root_def)
  show "L = M \<or> (\<exists>a b. state_root_preimage L = Some a \<and> state_root_preimage M = Some b \<and> a \<noteq> b \<and>
      pf_blake3 pf a = pf_blake3 pf b)"
    using ab state_root_preimage_binding [OF ab(1) _ assms(3)] by (cases "a = b") auto
  show "apply_transaction pf dw eng L tx height chain_id = (L', Ok u) \<longrightarrow> (\<exists>root'. state_root pf L' = Some root')"
    using assms(1) apply_preserves_fits state_root_eq_None by (metis option.exhaust option.distinct(1))
qed

theorem state_root_commits_witness:
  "\<exists>a b. state_root_preimage sample_ledger = Some a \<and>
    state_root_preimage (sample_ledger_with 6) = Some b \<and> a \<noteq> b \<and> pf_blake3 (sample_platform True) a = pf_blake3 (sample_platform True) b"
proof -
  have ne: "sample_ledger \<noteq> sample_ledger_with 6"
    by (simp add: sample_ledger_with_def sample_ledger_def sample_utxos_def sample_coin_def fmupd_eq_iff)
  obtain root where r: "state_root (sample_platform True) sample_ledger = Some root"
    "state_root (sample_platform True) (sample_ledger_with 6) = Some root"
    using sample_root [of True 5] sample_root [of True 6] by (simp add: sample_ledger_with_5)
  have "fcard (fmdom (ls_utxos sample_ledger)) = fcard (fmdom (ls_utxos (sample_ledger_with 6)))"
    by (simp add: sample_ledger_with_def sample_ledger_def sample_utxos_def)
  from state_root_commits [OF r this] ne show ?thesis by blast
qed

text \<open>Applying a block: the chain state takes over height and timestamp of the header, the header's
  hash and the root of the new ledger, keeps the chain id; no supply grows by more than the sum of what
  the block's transactions announce, in a build with overflow checks.\<close>

theorem block_application:
  assumes "chain_apply_block pf dw eng C b = (C', Ok u)" and "pf_overflow_checks pf"
  shows "cs_height C' = bh_height (b_header b) \<and> cs_last_timestamp C' = bh_timestamp (b_header b) \<and>
    cs_tip_hash C' = pf_blake3 pf (encode_block_header (b_header b)) \<and>
    state_root pf (cs_ledger C') = Some (cs_state_root C') \<and> cs_chain_id C' = cs_chain_id C \<and>
    asset_supply a (ls_utxos (cs_ledger C')) \<le> asset_supply a (ls_utxos (cs_ledger C))
      + (\<Sum>tx\<leftarrow>b_transactions b. minted pf tx (cs_chain_id C) a)"
proof -
  from assms(1) obtain L root where L: "apply_transactions pf dw eng (b_transactions b) (bh_height (b_header b))
      (cs_chain_id C) (cs_ledger C) = (L, Ok ())" and root: "state_root pf L = Some root"
    and C': "C' = \<lparr>cs_ledger = L, cs_height = bh_height (b_header b), cs_tip_hash = header_hash pf (b_header b),
      cs_state_root = root, cs_last_timestamp = bh_timestamp (b_header b), cs_chain_id = cs_chain_id C\<rparr>"
    by (auto simp: chain_apply_block_eq_Ok)
  have "asset_supply a (ls_utxos M') \<le> asset_supply a (ls_utxos M) + (\<Sum>tx\<leftarrow>txs. minted pf tx ch a)"
    if "apply_transactions pf dw eng txs h ch M = (M', Ok ())" for txs h ch M M'
    using that
  proof (induction txs arbitrary: M)
    case Nil
    then show ?case by simp
  next
    case (Cons tx txs)
    then obtain M1 v where 1: "apply_transaction pf dw eng M tx h ch = (M1, Ok v)"
      "apply_transactions pf dw eng txs h ch M1 = (M', Ok ())"
      by (auto split: prod.splits res.splits)
    have "asset_supply a (ls_utxos M1) \<le> asset_supply a (ls_utxos M) + minted pf tx ch a"
      by (rule applied_supply_le [OF 1(1)]) (simp add: totals_exact_def assms(2))
    with Cons.IH [OF 1(2)] show ?case by simp
  qed
  from this [OF L] root show ?thesis unfolding C' by (simp add: header_hash_def)
qed

definition sample_block :: block where
  "sample_block = \<lparr>b_header = \<lparr>bh_parent_hash = hash_fill 0, bh_state_root = hash_fill 129, bh_tx_root = hash_fill 0,
       bh_height = 1, bh_timestamp = 3\<rparr>,
     b_transactions = [], b_proposer_public_key = \<lparr>pk_scheme = Dilithium2, pk_bytes = [1]\<rparr>,
     b_signature = \<lparr>sig_scheme = Dilithium2, sig_bytes = [1]\<rparr>\<rparr>"

theorem block_application_witness:
  "\<exists>C'. chain_apply_block (sample_platform True) sample_dw (sample_eng True)
      (default_chain_state\<lparr>cs_ledger := sample_ledger\<rparr>) sample_block = (C', Ok ()) \<and>
    cs_height C' = 1 \<and> cs_last_timestamp C' = 3 \<and>
    asset_supply qcoin_asset_id_bytes (ls_utxos (cs_ledger C')) \<le> 5"
proof -
  have "state_root (sample_platform True) sample_ledger = Some (hash_fill 129)"
    using sample_root [of True 5] by (simp add: sample_ledger_with_5)
  then obtain C' where C': "chain_apply_block (sample_platform True) sample_dw (sample_eng True)
      (default_chain_state\<lparr>cs_ledger := sample_ledger\<rparr>) sample_block = (C', Ok ())"
    by (simp add: chain_apply_block_eq_Ok sample_block_def default_chain_state_def)
  from block_application [OF C', of qcoin_asset_id_bytes] C' sample_supply show ?thesis
    by (auto simp: sample_block_def default_chain_state_def)
qed

text \<open>C36. Applying a transaction always returns: in a release build, for a transaction whose vectors and
  witnesses, and a ledger whose vectors, fit 32-bit lengths, and a decoder whose results are not longer than
  their input, the outcome for the modelled script engine is success or an error, never a panic; and so it is
  for a list of such transactions, one applied after the other.\<close>

theorem apply_transaction_returns:
  assumes "\<forall>tx \<in> set (tx # txs). core_fits (tx_core tx) \<and> witness_fits tx" and "ledger_fits L" and "decoder_bounded dw"
    and "\<not> pf_overflow_checks pf"
  shows "(\<exists>L'. apply_transaction pf dw (eval pf cfg) L tx height chain_id = (L', Ok ()) \<or>
      (\<exists>e. apply_transaction pf dw (eval pf cfg) L tx height chain_id = (L', Err e))) \<and>
    snd (apply_transactions pf dw (eval pf cfg) (tx # txs) height chain_id L) \<noteq> Panic"
proof -
  have "pf\<lparr>pf_overflow_checks := False\<rparr> = pf" using assms(4) by (intro platform.equality) simp_all
  then have "snd (apply_transaction pf dw (eval pf cfg) L tx height chain_id) \<noteq> Panic"
    using release_engine.apply_returns [OF _ assms(2) _ assms(3,4), of tx pf cfg] assms(1) by simp
  moreover have "snd (apply_transactions pf dw (eval pf cfg) (tx # txs) height chain_id L) \<noteq> Panic"
    using release_engine.apply_all_return [OF assms, of pf cfg] \<open>pf\<lparr>pf_overflow_checks := False\<rparr> = pf\<close> by simp
  ultimately show ?thesis
    by (cases "apply_transaction pf dw (eval pf cfg) L tx height chain_id"; cases "snd (apply_transaction pf dw (eval pf cfg) L tx height chain_id)") auto
qed

theorem apply_transaction_returns_witness:
  "snd (apply_transactions (sample_platform False) sample_dw (eval (sample_platform False) default_vm_config)
      [sample_spend Transfer [], sample_spend Transfer []] 1 0 sample_ledger) \<noteq> Panic"
proof -
  have "core_fits (tx_core (sample_spend Transfer [])) \<and> witness_fits (sample_spend Transfer [])"
    by (simp add: core_fits_def witness_fits_def sample_spend_def)
  moreover have "ledger_fits sample_ledger"
    by (simp add: ledger_fits_def sample_ledger_def sample_utxos_def fmpred_iff sample_coin_fits)
  moreover have "decoder_bounded sample_dw"
    by (simp add: decoder_bounded_def sample_dw_def)
  ultimately show ?thesis
    using apply_transaction_returns [of "sample_spend Transfer []" "[sample_spend Transfer []]" sample_ledger sample_dw
        "sample_platform False" default_vm_config 1 0] by simp
qed

end
