(* ===== verification/QC_Consensus.thy ===== *)
theory QC_Consensus
  imports QC_Ledger
begin

text \<open>
  \<open>qcoin-consensus\<close>: the round-robin proposer rule, \<open>DummyConsensusEngine\<close> with its constructors,
  \<open>propose_block\<close> and \<open>validate_block\<close>, and \<open>validate_replayed_block\<close>.

  The clock is the parameter \<open>now\<close> (what \<open>SystemTime::now().duration_since\<close> yields), the randomness of
  key generation and signing the parameters \<open>seed\<close> and \<open>rnd\<close>.
\<close>

section \<open>Errors\<close>

datatype consensus_error =
    InvalidBlock
  | SignatureError
  | ConsensusLedgerError string
  | ConsensusOther string

fun ledger_error_display :: "ledger_error \<Rightarrow> string" where
  "ledger_error_display MissingInput = ''input not found in UTXO set''"
| "ledger_error_display MissingWitness = ''missing witness data for input''"
| "ledger_error_display DoubleSpend = ''double spend detected''"
| "ledger_error_display ScriptHashMismatch = ''owner script hash does not match provided script''"
| "ledger_error_display MetadataHashMismatch = ''output metadata hash does not match provided metadata''"
| "ledger_error_display InvalidWitness = ''failed to decode witness data''"
| "ledger_error_display ScriptFailed = ''script execution failed''"
| "ledger_error_display AssetConservationViolation = ''asset conservation violated''"
| "ledger_error_display AssetAlreadyExists = ''asset already exists''"
| "ledger_error_display ReservedNativeAssetId =
     ''native QCOIN asset ID is reserved and cannot be created via CreateAsset''"
| "ledger_error_display MissingIssuerAuthorization = ''missing issuer authorization for asset creation''"
| "ledger_error_display MaxSupplyExceeded = ''asset supply exceeds declared maximum''"
| "ledger_error_display (LedgerOther s) = ''other ledger error: '' @ s"

section \<open>The engine\<close>

record consensus_engine =
  ce_registry :: in_memory_registry
  ce_signing_scheme :: signature_scheme_id
  ce_signing_key :: private_key
  ce_public_key :: public_key
  ce_validators :: "public_key list"

definition engine_new ::
  "in_memory_registry \<Rightarrow> signature_scheme_id \<Rightarrow> nat \<Rightarrow> (consensus_error, consensus_engine) res" where
  "engine_new registry signing_scheme seed =
     and_then (expect (registry_get registry signing_scheme)) (\<lambda>scheme.
     case ps_keygen scheme seed of
       Ok (public_key, signing_key) \<Rightarrow>
         Ok \<lparr>ce_registry = registry, ce_signing_scheme = signing_scheme, ce_signing_key = signing_key,
           ce_public_key = public_key, ce_validators = [public_key]\<rparr>
     | _ \<Rightarrow> Panic)"

definition engine_default :: "platform \<Rightarrow> nat \<Rightarrow> (consensus_error, consensus_engine) res" where
  "engine_default pf seed = engine_new (default_registry pf) Dilithium2 seed"

definition engine_with_validators ::
  "in_memory_registry \<Rightarrow> signature_scheme_id \<Rightarrow> public_key list \<Rightarrow> nat \<Rightarrow> (consensus_error, consensus_engine) res" where
  "engine_with_validators registry signing_scheme validators seed =
     and_then (engine_new registry signing_scheme seed) (\<lambda>e.
     Ok (if validators = [] then e\<lparr>ce_validators := ce_validators e @ [ce_public_key e]\<rparr>
         else e\<lparr>ce_validators := validators\<rparr>))"

definition engine_from_keys ::
  "in_memory_registry \<Rightarrow> public_key \<Rightarrow> private_key \<Rightarrow> public_key list \<Rightarrow> (consensus_error, consensus_engine) res" where
  "engine_from_keys registry public_key signing_key validators =
     (if pk_scheme public_key \<noteq> sk_scheme signing_key
      then Err (ConsensusOther ''public/private key scheme mismatch'')
      else Ok \<lparr>ce_registry = registry, ce_signing_scheme = pk_scheme public_key, ce_signing_key = signing_key,
        ce_public_key = public_key,
        ce_validators = (if validators = [] then validators @ [public_key] else validators)\<rparr>)"

section \<open>Proposers\<close>

definition expected_proposer_for_validators ::
  "platform \<Rightarrow> public_key list \<Rightarrow> u64 \<Rightarrow> (consensus_error, public_key) res" where
  "expected_proposer_for_validators pf validators height =
     (if validators = [] then Err (ConsensusOther ''validator set is empty'')
      else
        and_then (expect (sub_chk (pf_overflow_checks pf) height 1)) (\<lambda>prev.
        ok_or (ConsensusOther ''invalid proposer index'')
          (list_get validators (unat prev mod length validators))))"

definition expected_proposer :: "platform \<Rightarrow> consensus_engine \<Rightarrow> u64 \<Rightarrow> (consensus_error, public_key) res" where
  "expected_proposer pf e height = expected_proposer_for_validators pf (ce_validators e) height"

definition can_propose_next_block :: "platform \<Rightarrow> consensus_engine \<Rightarrow> chain_state \<Rightarrow> (consensus_error, bool) res" where
  "can_propose_next_block pf e C =
     and_then (expect (add_chk (pf_overflow_checks pf) (cs_height C) 1)) (\<lambda>next.
     and_then (expected_proposer pf e next) (\<lambda>p. Ok (p = ce_public_key e)))"

section \<open>Roots\<close>

definition default_script_engine :: "platform \<Rightarrow> script_engine" where
  "default_script_engine pf = eval pf default_vm_config"

definition compute_tx_root :: "platform \<Rightarrow> transaction list \<Rightarrow> hash256 option" where
  "compute_tx_root pf txs = do {
     ids \<leftarrow> map_option_list (tx_id pf) txs;
     Some (pf_blake3 pf (concat (map hash_slice ids)))
   }"

definition compute_state_root ::
  "platform \<Rightarrow> (bytes \<Rightarrow> input_witness option) \<Rightarrow> chain_state \<Rightarrow> transaction list \<Rightarrow> u64 \<Rightarrow> (consensus_error, hash256) res" where
  "compute_state_root pf dw C txs height =
     (case apply_transactions pf dw (default_script_engine pf) txs height (cs_chain_id C) (cs_ledger C) of
        (L, Ok _) \<Rightarrow> expect (state_root pf L)
      | (L, Err e) \<Rightarrow> Err (ConsensusLedgerError (ledger_error_display e))
      | (L, Panic) \<Rightarrow> Panic)"

section \<open>Validation and proposal\<close>

definition validate_replayed_block ::
  "platform \<Rightarrow> (bytes \<Rightarrow> input_witness option) \<Rightarrow> in_memory_registry \<Rightarrow> chain_state \<Rightarrow> block \<Rightarrow> public_key list
     \<Rightarrow> (consensus_error, unit) res" where
  "validate_replayed_block pf dw registry C b validators =
     (let h = b_header b in
      and_then (expect (add_chk (pf_overflow_checks pf) (cs_height C) 1)) (\<lambda>next.
      and_then (ensure InvalidBlock (bh_height h = next)) (\<lambda>_.
      and_then (ensure InvalidBlock (bh_parent_hash h = cs_tip_hash C)) (\<lambda>_.
      and_then (ensure InvalidBlock (cs_last_timestamp C < bh_timestamp h)) (\<lambda>_.
      and_then (if validators = [] then Ok ()
        else and_then (expected_proposer_for_validators pf validators (bh_height h))
          (\<lambda>p. ensure InvalidBlock (b_proposer_public_key b = p))) (\<lambda>_.
      and_then (expect (compute_tx_root pf (b_transactions b))) (\<lambda>expected_tx_root.
      and_then (ensure InvalidBlock (bh_tx_root h = expected_tx_root)) (\<lambda>_.
      and_then (compute_state_root pf dw C (b_transactions b) (bh_height h)) (\<lambda>expected_state_root.
      and_then (ensure InvalidBlock (bh_state_root h = expected_state_root)) (\<lambda>_.
      and_then (ok_or SignatureError (registry_get registry (sig_scheme (b_signature b)))) (\<lambda>scheme.
      map_err (\<lambda>_. SignatureError)
        (ps_verify scheme (b_proposer_public_key b) (encode_block_header h) (b_signature b)))))))))))))"

definition validate_block ::
  "platform \<Rightarrow> (bytes \<Rightarrow> input_witness option) \<Rightarrow> consensus_engine \<Rightarrow> chain_state \<Rightarrow> block \<Rightarrow> (consensus_error, unit) res" where
  "validate_block pf dw e C b = validate_replayed_block pf dw (ce_registry e) C b (ce_validators e)"

definition current_unix_timestamp :: "(string, u64) res \<Rightarrow> (consensus_error, u64) res" where
  "current_unix_timestamp now = map_err (\<lambda>err. ConsensusOther (''failed to read time: '' @ err)) now"

definition propose_block ::
  "platform \<Rightarrow> (bytes \<Rightarrow> input_witness option) \<Rightarrow> consensus_engine \<Rightarrow> chain_state \<Rightarrow> transaction list
     \<Rightarrow> (string, u64) res \<Rightarrow> nat \<Rightarrow> (consensus_error, block) res" where
  "propose_block pf dw e C txs now rnd =
     and_then (expect (add_chk (pf_overflow_checks pf) (cs_height C) 1)) (\<lambda>next_height.
     and_then (expected_proposer pf e next_height) (\<lambda>p.
     and_then (ensure InvalidBlock (p = ce_public_key e)) (\<lambda>_.
     and_then (compute_state_root pf dw C txs next_height) (\<lambda>sroot.
     and_then (expect (compute_tx_root pf txs)) (\<lambda>tx_root.
     and_then (current_unix_timestamp now) (\<lambda>timestamp.
     let h = \<lparr>bh_parent_hash = cs_tip_hash C, bh_state_root = sroot, bh_tx_root = tx_root,
           bh_height = next_height, bh_timestamp = timestamp\<rparr> in
     and_then (expect (registry_get (ce_registry e) (ce_signing_scheme e))) (\<lambda>scheme.
     and_then (map_err (\<lambda>_. SignatureError) (ps_sign scheme rnd (ce_signing_key e) (encode_block_header h))) (\<lambda>sig.
     Ok \<lparr>b_header = h, b_transactions = txs, b_proposer_public_key = ce_public_key e, b_signature = sig\<rparr>))))))))"

section \<open>What validation establishes\<close>

lemma validate_replayed_block_eq_Ok:
  "validate_replayed_block pf dw registry C b validators = Ok u \<longleftrightarrow>
     (\<exists>scheme.
        add_chk (pf_overflow_checks pf) (cs_height C) 1 = Some (bh_height (b_header b)) \<and>
        bh_parent_hash (b_header b) = cs_tip_hash C \<and>
        cs_last_timestamp C < bh_timestamp (b_header b) \<and>
        (validators = [] \<or>
           expected_proposer_for_validators pf validators (bh_height (b_header b)) = Ok (b_proposer_public_key b)) \<and>
        compute_tx_root pf (b_transactions b) = Some (bh_tx_root (b_header b)) \<and>
        compute_state_root pf dw C (b_transactions b) (bh_height (b_header b)) = Ok (bh_state_root (b_header b)) \<and>
        registry_get registry (sig_scheme (b_signature b)) = Some scheme \<and>
        ps_verify scheme (b_proposer_public_key b) (encode_block_header (b_header b)) (b_signature b) = Ok ())"
  by (auto simp: validate_replayed_block_def Let_def res_simps)

lemma propose_block_eq_Ok:
  "propose_block pf dw e C txs now rnd = Ok b \<longleftrightarrow>
     (\<exists>scheme.
        add_chk (pf_overflow_checks pf) (cs_height C) 1 = Some (bh_height (b_header b)) \<and>
        expected_proposer pf e (bh_height (b_header b)) = Ok (ce_public_key e) \<and>
        compute_state_root pf dw C txs (bh_height (b_header b)) = Ok (bh_state_root (b_header b)) \<and>
        compute_tx_root pf txs = Some (bh_tx_root (b_header b)) \<and>
        now = Ok (bh_timestamp (b_header b)) \<and> bh_parent_hash (b_header b) = cs_tip_hash C \<and>
        registry_get (ce_registry e) (ce_signing_scheme e) = Some scheme \<and>
        ps_sign scheme rnd (ce_signing_key e) (encode_block_header (b_header b)) = Ok (b_signature b) \<and>
        b_transactions b = txs \<and> b_proposer_public_key b = ce_public_key e)"
  (is "?L \<longleftrightarrow> ?R")
proof
  assume ?R
  then obtain scheme where r: "add_chk (pf_overflow_checks pf) (cs_height C) 1 = Some (bh_height (b_header b))"
    "expected_proposer pf e (bh_height (b_header b)) = Ok (ce_public_key e)"
    "compute_state_root pf dw C txs (bh_height (b_header b)) = Ok (bh_state_root (b_header b))"
    "compute_tx_root pf txs = Some (bh_tx_root (b_header b))" "now = Ok (bh_timestamp (b_header b))"
    "registry_get (ce_registry e) (ce_signing_scheme e) = Some scheme"
    "ps_sign scheme rnd (ce_signing_key e) (encode_block_header (b_header b)) = Ok (b_signature b)"
    and b: "bh_parent_hash (b_header b) = cs_tip_hash C" "b_transactions b = txs" "b_proposer_public_key b = ce_public_key e"
    by blast
  have "\<lparr>bh_parent_hash = cs_tip_hash C, bh_state_root = bh_state_root (b_header b),
      bh_tx_root = bh_tx_root (b_header b), bh_height = bh_height (b_header b),
      bh_timestamp = bh_timestamp (b_header b)\<rparr> = b_header b"
    using b(1) by (cases "b_header b") simp
  then show ?L
    using b(2,3) by (simp add: propose_block_def current_unix_timestamp_def Let_def r)
qed (auto simp: propose_block_def current_unix_timestamp_def Let_def res_simps)

lemma compute_state_root_eq_Ok:
  "compute_state_root pf dw C txs height = Ok root \<longleftrightarrow>
     (\<exists>L. apply_transactions pf dw (default_script_engine pf) txs height (cs_chain_id C) (cs_ledger C) = (L, Ok ()) \<and>
        state_root pf L = Some root)"
  by (auto simp: compute_state_root_def res_simps split: prod.splits res.splits)

lemma expected_proposer_eq_Ok:
  "expected_proposer_for_validators pf vs height = Ok p \<longleftrightarrow>
     vs \<noteq> [] \<and> (pf_overflow_checks pf \<longrightarrow> height \<noteq> 0) \<and> p = vs ! (unat (height - 1) mod length vs)"
  by (auto simp: expected_proposer_for_validators_def res_simps list_get_eq_Some sub_chk_def word_less_1 split: if_splits)

text \<open>A validated block applies, and its header describes the chain state it leads to.\<close>

lemma validated_block_applies:
  assumes "validate_replayed_block pf dw registry C b validators = Ok u"
  obtains L where "apply_transactions pf dw (default_script_engine pf) (b_transactions b) (bh_height (b_header b))
      (cs_chain_id C) (cs_ledger C) = (L, Ok ())"
    "chain_apply_block pf dw (default_script_engine pf) C b =
      (\<lparr>cs_ledger = L, cs_height = cs_height C + 1, cs_tip_hash = header_hash pf (b_header b),
        cs_state_root = bh_state_root (b_header b), cs_last_timestamp = bh_timestamp (b_header b),
        cs_chain_id = cs_chain_id C\<rparr>, Ok ())"
    "bh_height (b_header b) = cs_height C + 1" "state_root pf L = Some (bh_state_root (b_header b))"
  using assms unfolding validate_replayed_block_eq_Ok compute_state_root_eq_Ok
  by (auto simp: chain_apply_block_eq_Ok dest: add_chk_SomeD)

text \<open>A proposal signed with a generated key pair is valid if its clock is ahead, and only then.\<close>

lemma proposal_validity:
  assumes "propose_block pf dw e C txs now rnd = Ok b"
    and "pq_lib_correct (pf_dilithium2 pf)" and "pq_lib_correct (pf_falcon512 pf)"
    and "ce_registry e = default_registry pf" and "registry_get (default_registry pf) (ce_signing_scheme e) = Some sch"
    and "ps_keygen sch seed = Ok (ce_public_key e, ce_signing_key e)"
  shows "validate_block pf dw e C b =
    (if cs_last_timestamp C < bh_timestamp (b_header b) then Ok () else Err InvalidBlock)"
proof -
  note p = assms(1) [unfolded propose_block_eq_Ok assms(4)]
  have ver: "sig_scheme (b_signature b) = ce_signing_scheme e \<and>
      ps_verify sch (ce_public_key e) (encode_block_header (b_header b)) (b_signature b) = Ok ()"
    using default_registry_signs [OF assms(5,2,3,6), of rnd "encode_block_header (b_header b)"] p assms(5) by auto
  show ?thesis
  proof (cases "cs_last_timestamp C < bh_timestamp (b_header b)")
    case True
    with p ver assms(4,5) have "validate_block pf dw e C b = Ok ()"
      by (auto simp: validate_block_def validate_replayed_block_eq_Ok expected_proposer_def)
    with True show ?thesis by simp
  next
    case False
    with p show ?thesis
      by (auto simp: validate_block_def validate_replayed_block_def Let_def)
  qed
qed

text \<open>The effect of a transaction depends on its core only.\<close>

lemma apply_core_determines:
  assumes "apply_transaction pf dw eng L t height ch = (L1, Ok u)" and "apply_transaction pf dw eng L t' height ch = (L2, Ok v)"
    and "tx_core t = tx_core t'"
  shows "L1 = L2"
proof -
  have ann: "\<exists>created. announced_asset pf L ch (tc_kind (tx_core tx)) = Ok created \<and> ls_assets M = ls_assets (register_asset created L)"
    if app: "apply_transaction pf dw eng L tx height ch = (M, Ok w)" for tx M w
  proof -
    from app obtain created consumed ins outs where
      chk: "check_transaction pf dw eng L tx height ch = Ok (created, consumed, ins, outs)" and
      as: "ls_assets M = ls_assets (register_asset created L)"
      by (rule apply_transaction_Ok)
    from chk have "announced_asset pf L ch (tc_kind (tx_core tx)) = Ok created" by (rule check_transaction_Ok)
    with as show ?thesis by blast
  qed
  have "ls_utxos L1 = ls_utxos L2"
    using applied_inputs [OF assms(1)] applied_inputs [OF assms(2)] assms(3) by (auto simp: tx_id_def)
  moreover have "ls_assets L1 = ls_assets L2"
    using ann [OF assms(1)] ann [OF assms(2)] assms(3) by auto
  ultimately show ?thesis by (intro ledger_state.equality) auto
qed

lemma apply_cores_determine:
  assumes "apply_transactions pf dw eng ts height ch L = (L1, Ok u)" and "apply_transactions pf dw eng ts' height ch L = (L2, Ok v)"
    and "map tx_core ts = map tx_core ts'"
  shows "L1 = L2"
  using assms
proof (induction ts arbitrary: L ts')
  case Nil
  then show ?case by simp
next
  case (Cons t ts)
  from Cons.prems(3) obtain t' ts'' where ts': "ts' = t' # ts''" "tx_core t = tx_core t'" "map tx_core ts = map tx_core ts''"
    by (cases ts') auto
  from Cons.prems(1) obtain M u' where 1: "apply_transaction pf dw eng L t height ch = (M, Ok u')"
    "apply_transactions pf dw eng ts height ch M = (L1, Ok u)" by (auto split: prod.splits res.splits)
  from Cons.prems(2) obtain N v' where 2: "apply_transaction pf dw eng L t' height ch = (N, Ok v')"
    "apply_transactions pf dw eng ts'' height ch N = (L2, Ok v)" by (auto simp: ts'(1) split: prod.splits res.splits)
  have "M = N" by (rule apply_core_determines [OF 1(1) 2(1) ts'(2)])
  with Cons.IH [OF 1(2) _ ts'(3)] 2(2) show ?case by simp
qed

lemma tx_ids_of_cores: "map_option_list (tx_id pf) ts = map_option_list (core_tx_id pf) (map tx_core ts)"
  by (induction ts) (simp_all add: tx_id_def)

lemma tx_root_of_cores: "map tx_core ts = map tx_core ts' \<Longrightarrow> compute_tx_root pf ts = compute_tx_root pf ts'"
  unfolding compute_tx_root_def tx_ids_of_cores by (simp only:)

section \<open>Samples\<close>

definition sample_engine :: "bool \<Rightarrow> consensus_engine" where
  "sample_engine oc = \<lparr>ce_registry = default_registry (sample_platform oc), ce_signing_scheme = Dilithium2,
     ce_signing_key = \<lparr>sk_scheme = Dilithium2, sk_bytes = [1]\<rparr>, ce_public_key = \<lparr>pk_scheme = Dilithium2, pk_bytes = [1]\<rparr>,
     ce_validators = [\<lparr>pk_scheme = Dilithium2, pk_bytes = [1]\<rparr>]\<rparr>"

lemma sample_engine_new: "engine_default (sample_platform oc) 1 = Ok (sample_engine oc)"
  by (simp add: engine_default_def engine_new_def default_registry_get dilithium2_scheme_def dilithium2_keygen_def
      sample_lib_def crypto_new_defs validate_key_size_def sample_engine_def)

definition sample_chain :: chain_state where
  "sample_chain = default_chain_state\<lparr>cs_ledger := sample_ledger\<rparr>"

lemma sample_chain_sel: "cs_height sample_chain = 0" "cs_tip_hash sample_chain = hash_fill 0"
  "cs_last_timestamp sample_chain = 0" "cs_ledger sample_chain = sample_ledger" "cs_chain_id sample_chain = 0"
  by (simp_all add: sample_chain_def default_chain_state_def)

lemma sample_ledger_root: "state_root (sample_platform oc) sample_ledger = Some (hash_fill 129)"
  using sample_root [of oc 5] by (simp add: sample_ledger_with_5)

lemma sample_empty_tx_root: "compute_tx_root (sample_platform oc) [] = Some (hash_fill 0)"
  by (simp add: compute_tx_root_def)

lemma sample_empty_state_root: "compute_state_root (sample_platform oc) dw sample_chain [] h = Ok (hash_fill 129)"
  by (simp add: compute_state_root_eq_Ok sample_chain_sel sample_ledger_root)

lemma sample_header:
  "bh_height (b_header sample_block) = 1" "bh_timestamp (b_header sample_block) = 3"
  "bh_parent_hash (b_header sample_block) = hash_fill 0" "bh_tx_root (b_header sample_block) = hash_fill 0"
  "bh_state_root (b_header sample_block) = hash_fill 129" "b_transactions sample_block = []"
  "b_proposer_public_key sample_block = ce_public_key (sample_engine oc)"
  "b_signature sample_block = \<lparr>sig_scheme = Dilithium2, sig_bytes = [1]\<rparr>"
  by (simp_all add: sample_block_def sample_engine_def)

lemma sample_engine_sel:
  "ce_registry (sample_engine oc) = default_registry (sample_platform oc)" "ce_signing_scheme (sample_engine oc) = Dilithium2"
  "ce_public_key (sample_engine oc) = \<lparr>pk_scheme = Dilithium2, pk_bytes = [1]\<rparr>"
  "ce_validators (sample_engine oc) = [ce_public_key (sample_engine oc)]"
  by (simp_all add: sample_engine_def)

lemma sample_signs:
  "ps_sign (dilithium2_scheme (sample_platform oc)) rnd (ce_signing_key (sample_engine oc)) msg
     = Ok \<lparr>sig_scheme = Dilithium2, sig_bytes = [1]\<rparr>"
  "ps_verify (dilithium2_scheme (sample_platform oc)) (ce_public_key (sample_engine oc)) msg
     \<lparr>sig_scheme = Dilithium2, sig_bytes = [1]\<rparr> = Ok ()"
  by (simp_all add: sample_engine_def dilithium2_scheme_def dilithium2_sign_def dilithium2_verify_def sample_lib_def
      crypto_new_defs validate_key_size_def)

lemma sample_proposer:
  "expected_proposer_for_validators (sample_platform oc) (ce_validators (sample_engine oc)) 1 = Ok (ce_public_key (sample_engine oc))"
  unfolding sample_engine_sel(4) by (simp add: expected_proposer_eq_Ok)

lemmas sample_facts = sample_header sample_chain_sel sample_signs sample_proposer sample_empty_tx_root
  sample_empty_state_root default_registry_get

lemma sample_proposal:
  "propose_block (sample_platform oc) dw (sample_engine oc) sample_chain [] (Ok 3) rnd = Ok sample_block"
  unfolding propose_block_eq_Ok
  by (rule exI [of _ "dilithium2_scheme (sample_platform oc)"])
    (simp add: sample_facts sample_header(7) [of oc] add_chk_def expected_proposer_def sample_engine_sel(1,2))

lemma sample_validates: "validate_block (sample_platform oc) dw (sample_engine oc) sample_chain sample_block = Ok ()"
  unfolding validate_block_def validate_replayed_block_eq_Ok
  by (rule exI [of _ "dilithium2_scheme (sample_platform oc)"])
    (simp add: sample_facts sample_header(7) [of oc] add_chk_def sample_engine_sel(1))

section \<open>Properties\<close>

text \<open>C4. A validated block is applicable and its header tells the truth: applying it with the default
  script engine succeeds, it extends the tip by one height, later in time, and the new chain state has
  the header's hash as tip and the header's state root as root.\<close>

theorem validated_block_transition:
  assumes "validate_block pf dw e C b = Ok u"
  shows "\<exists>C'. chain_apply_block pf dw (default_script_engine pf) C b = (C', Ok ()) \<and>
    bh_parent_hash (b_header b) = cs_tip_hash C \<and> cs_height C' = cs_height C + 1 \<and>
    cs_tip_hash C' = pf_blake3 pf (encode_block_header (b_header b)) \<and>
    cs_state_root C' = bh_state_root (b_header b) \<and> state_root pf (cs_ledger C') = Some (cs_state_root C') \<and>
    cs_last_timestamp C < cs_last_timestamp C' \<and> cs_chain_id C' = cs_chain_id C"
proof -
  have v: "validate_replayed_block pf dw (ce_registry e) C b (ce_validators e) = Ok u"
    using assms by (simp add: validate_block_def)
  have "bh_parent_hash (b_header b) = cs_tip_hash C" "cs_last_timestamp C < bh_timestamp (b_header b)"
    using v by (auto simp: validate_replayed_block_eq_Ok)
  with v show ?thesis
    by (elim validated_block_applies) (simp add: header_hash_def)
qed

theorem validated_block_transition_witness:
  "\<exists>C'. chain_apply_block (sample_platform True) sample_dw (default_script_engine (sample_platform True)) sample_chain
      sample_block = (C', Ok ()) \<and> cs_height C' = 0 + 1 \<and> 0 < cs_last_timestamp C'"
  using validated_block_transition [OF sample_validates [of True sample_dw]] by (auto simp: sample_chain_sel)

text \<open>C24. A proposal is valid exactly if its clock is ahead of the chain: the block an engine proposes with
  a key pair from its scheme's key generation passes that engine's own validation on the same chain if
  its timestamp is greater than the last one, and is refused as invalid otherwise; \<open>propose_block\<close> does
  not look at the last timestamp.\<close>

theorem proposal_validates:
  assumes "propose_block pf dw e C txs now rnd = Ok b"
    and "pq_lib_correct (pf_dilithium2 pf)" and "pq_lib_correct (pf_falcon512 pf)"
    and "ce_registry e = default_registry pf" and "registry_get (default_registry pf) (ce_signing_scheme e) = Some sch"
    and "ps_keygen sch seed = Ok (ce_public_key e, ce_signing_key e)"
  shows "validate_block pf dw e C b =
    (if cs_last_timestamp C < bh_timestamp (b_header b) then Ok () else Err InvalidBlock)"
  using assms by (rule proposal_validity)

theorem proposal_validates_witness:
  "validate_block (sample_platform True) sample_dw (sample_engine True) sample_chain sample_block = Ok ()"
proof -
  have "ps_keygen (dilithium2_scheme (sample_platform True)) 1
      = Ok (ce_public_key (sample_engine True), ce_signing_key (sample_engine True))"
    by (simp add: dilithium2_scheme_def dilithium2_keygen_def sample_lib_def crypto_new_defs validate_key_size_def
        sample_engine_def)
  from proposal_validates [OF sample_proposal [of True sample_dw 0] _ _ _ _ this] sample_lib_correct
  show ?thesis by (simp add: sample_engine_sel default_registry_get sample_facts)
qed

text \<open>C37. One proposer per height, in turn: with a validator set, every block valid on a given chain state is
  proposed by the validator at position (height of the chain) modulo the size of the set, so two valid
  blocks on one state have the same proposer, and over any run of consecutive heights as long as the
  set each position gets exactly one turn.\<close>

theorem round_robin_proposers:
  assumes "validate_block pf dw e C b = Ok u" and "validate_block pf dw e C b' = Ok v" and "ce_validators e = vs" and "vs \<noteq> []"
  shows "b_proposer_public_key b = vs ! (unat (cs_height C) mod length vs) \<and>
    b_proposer_public_key b' = b_proposer_public_key b \<and>
    (\<forall>n. bij_betw (\<lambda>h. h mod length vs) {n ..< n + length vs} {0 ..< length vs})"
proof -
  have turn: "b_proposer_public_key b = vs ! (unat (cs_height C) mod length vs)"
    if "validate_block pf dw e C b = Ok u" for b u
  proof -
    from that assms(3,4) have "expected_proposer_for_validators pf vs (cs_height C + 1) = Ok (b_proposer_public_key b)"
      by (auto simp: validate_block_def validate_replayed_block_eq_Ok dest: add_chk_SomeD)
    then show ?thesis by (simp add: expected_proposer_eq_Ok)
  qed
  have "inj_on (\<lambda>h. h mod length vs) {n ..< n + length vs}" for n
  proof (rule inj_onI)
    fix x y assume xy: "x \<in> {n ..< n + length vs}" "y \<in> {n ..< n + length vs}" and m: "x mod length vs = y mod length vs"
    then have "x \<le> y \<Longrightarrow> length vs dvd y - x" "y \<le> x \<Longrightarrow> length vs dvd x - y"
      by (metis mod_eq_dvd_iff_nat)+
    then show "x = y" using xy by (cases "x \<le> y") (auto dest!: dvd_imp_le)
  qed
  moreover have "(\<lambda>h. h mod length vs) ` {n ..< n + length vs} \<subseteq> {0 ..< length vs}" for n
    using assms(4) by auto
  ultimately have "bij_betw (\<lambda>h. h mod length vs) {n ..< n + length vs} {0 ..< length vs}" for n
    unfolding bij_betw_def using assms(4)
    by (metis card_image card_atLeastLessThan card_subset_eq diff_add_inverse diff_zero finite_atLeastLessThan)
  with turn [OF assms(1)] turn [OF assms(2)] show ?thesis by simp
qed

theorem round_robin_proposers_witness:
  "b_proposer_public_key sample_block = [ce_public_key (sample_engine True)] ! (unat (0 :: u64) mod 1)"
  using round_robin_proposers [OF sample_validates [of True sample_dw] sample_validates [of True sample_dw] sample_engine_sel(4)]
  by (simp add: sample_chain_sel)

text \<open>The transaction root commits to the transaction cores, in order: two lists of transactions with the
  same root have the same cores, or exhibit a collision of the hash, either of two cores or of two lists
  of ids.\<close>

theorem tx_root_commits:
  assumes "compute_tx_root pf ts = Some r" and "compute_tx_root pf ts' = Some r"
  shows "map tx_core ts = map tx_core ts' \<or> (\<exists>x y. x \<noteq> y \<and> pf_blake3 pf x = pf_blake3 pf y)"
proof (rule disjCI)
  assume no: "\<not> (\<exists>x y. x \<noteq> y \<and> pf_blake3 pf x = pf_blake3 pf y)"
  obtain us js where us: "map_option_list (tx_id pf) ts = Some us" and js: "map_option_list (tx_id pf) ts' = Some js"
    and "pf_blake3 pf (concat (map hash_slice us)) = pf_blake3 pf (concat (map hash_slice js))"
    using assms by (auto simp: compute_tx_root_def bind_eq_Some_conv)
  with no have "concat (map hash_slice us) = concat (map hash_slice js)" by blast
  then have "us = js" by (rule hash_code.fixed_list_injective [rotated]) simp
  have core: "tx_core t = tx_core t'" if ids: "tx_id pf t = Some h" "tx_id pf t' = Some h" for t t' h
  proof -
    obtain a where a: "encode_tx_core (tx_core t) = Some a" "h = pf_blake3 pf a"
      using ids(1) by (auto simp: tx_id_def core_tx_id_def)
    obtain a' where a': "encode_tx_core (tx_core t') = Some a'" "h = pf_blake3 pf a'"
      using ids(2) by (auto simp: tx_id_def core_tx_id_def)
    from no a(2) a'(2) have "a = a'" by blast
    with a(1) a'(1) show ?thesis using tx_core_code.code_injective by blast
  qed
  from us js \<open>us = js\<close> show "map tx_core ts = map tx_core ts'"
    by (auto simp: map_option_list_eq_Some list_eq_iff_nth_eq intro!: core)
qed

theorem tx_root_commits_witness:
  "\<exists>x y. x \<noteq> y \<and> pf_blake3 (sample_platform True) x = pf_blake3 (sample_platform True) y"
proof -
  have root: "compute_tx_root (sample_platform True) [sample_spend Transfer [sample_coin (hash_fill 9) n]] = Some (hash_fill 32)" for n
  proof -
    obtain h where "tx_id (sample_platform True) (sample_spend Transfer [sample_coin (hash_fill 9) n]) = Some h"
      using sample_tx_id [of "[sample_coin (hash_fill 9) n]" "sample_platform True" Transfer] sample_coin_fits by auto
    then show ?thesis by (simp add: compute_tx_root_def)
  qed
  from tx_root_commits [OF root [of 5] root [of 6]] show ?thesis
    by (simp add: sample_spend_def sample_coin_def)
qed

text \<open>A block does not commit to its witnesses: exchanging the witnesses in a valid block, with any others
  under which the transactions still apply, gives a block with the same header, hash and signature that
  is valid too and leads to the same chain state.\<close>

theorem witnesses_not_committed:
  assumes "validate_block pf dw e C b = Ok u" and "map tx_core ts = map tx_core (b_transactions b)"
    and "apply_transactions pf dw (default_script_engine pf) ts (bh_height (b_header b)) (cs_chain_id C) (cs_ledger C) = (L, Ok v)"
  shows "validate_block pf dw e C (b\<lparr>b_transactions := ts\<rparr>) = Ok () \<and>
    chain_apply_block pf dw (default_script_engine pf) C (b\<lparr>b_transactions := ts\<rparr>)
      = chain_apply_block pf dw (default_script_engine pf) C b"
proof -
  have v: "validate_replayed_block pf dw (ce_registry e) C b (ce_validators e) = Ok u"
    using assms(1) by (simp add: validate_block_def)
  then obtain M where M: "apply_transactions pf dw (default_script_engine pf) (b_transactions b) (bh_height (b_header b))
      (cs_chain_id C) (cs_ledger C) = (M, Ok ())"
    by (rule validated_block_applies)
  have "L = M" by (rule apply_cores_determine [OF assms(3) M assms(2)])
  then have "compute_state_root pf dw C ts h = compute_state_root pf dw C (b_transactions b) h" if "h = bh_height (b_header b)" for h
    using assms(3) M that by (simp add: compute_state_root_def)
  moreover have "compute_tx_root pf ts = compute_tx_root pf (b_transactions b)"
    by (rule tx_root_of_cores [OF assms(2)])
  ultimately show ?thesis
    using v assms(3) M \<open>L = M\<close>
    by (simp add: validate_block_def validate_replayed_block_eq_Ok) (simp add: chain_apply_block_def Let_def split: option.splits)
qed

theorem witnesses_not_committed_witness:
  "validate_block (sample_platform True) sample_dw (sample_engine True) sample_chain (sample_block\<lparr>b_transactions := []\<rparr>) = Ok ()"
proof -
  have "map tx_core [] = map tx_core (b_transactions sample_block)" by (simp add: sample_header)
  from witnesses_not_committed [OF sample_validates [of True sample_dw] this, of sample_ledger "()"]
  show ?thesis by (simp add: sample_chain_sel)
qed

end
