(* ===== verification/QC_Storage.thy ===== *)
theory QC_Storage
  imports QC_Text QC_Consensus
begin

text \<open>
  Persistence in \<open>qcoin-node/src/main.rs\<close>: the persisted form of the chain state, atomic file
  replacement, loading and saving, and the repair of the state from the block history.

  A file system maps paths (lists of components; an absolute path begins with an empty component) to
  contents. Every call of the operating system may
  fail: the outcomes are the records \<open>io_outcome\<close> and \<open>read_outcome\<close>, arguments of the operations. A
  process that is killed between two steps of \<open>write_file_atomically\<close> leaves the file system that the
  failure of the next step leaves, so statements over all outcomes cover crashes too. What \<open>fsync\<close>
  guarantees about power loss is not modelled. \<open>sync_parent_dir\<close> is the variant for Unix. The JSON codec is
  the parameter \<open>json_codec\<close>.
\<close>

section \<open>Persisted chain states\<close>

record persisted_utxo_entry =
  pu_key :: utxo_key
  pu_tracked_output :: tracked_output

record persisted_asset_entry =
  pa_asset_id :: asset_id
  pa_definition :: asset_definition

record persisted_ledger_state =
  pl_utxos :: "persisted_utxo_entry list"
  pl_assets :: "persisted_asset_entry list"

record persisted_chain_state =
  pc_ledger :: persisted_ledger_state
  pc_height :: u64
  pc_tip_hash :: hash256
  pc_state_root :: hash256
  pc_last_timestamp :: u64
  pc_chain_id :: u32

definition persisted_from_chain :: "chain_state \<Rightarrow> persisted_chain_state" where
  "persisted_from_chain C =
     \<lparr>pc_ledger =
        \<lparr>pl_utxos = map (\<lambda>(k, t). \<lparr>pu_key = k, pu_tracked_output = t\<rparr>) (sorted_list_of_fmap (ls_utxos (cs_ledger C))),
         pl_assets = map (\<lambda>(i, d). \<lparr>pa_asset_id = i, pa_definition = d\<rparr>) (sorted_list_of_fmap (ls_assets (cs_ledger C)))\<rparr>,
      pc_height = cs_height C, pc_tip_hash = cs_tip_hash C, pc_state_root = cs_state_root C,
      pc_last_timestamp = cs_last_timestamp C, pc_chain_id = cs_chain_id C\<rparr>"

definition collect_utxo :: "persisted_utxo_entry \<Rightarrow> utxo_set \<Rightarrow> (string, utxo_set) res" where
  "collect_utxo entry utxos =
     (if fmlookup utxos (pu_key entry) \<noteq> None
      then Err (''duplicate UTXO entry in persisted chain state for tx '' @ to_hex (hash_slice (uk_tx_id (pu_key entry)))
        @ '' index '' @ show_nat (unat (uk_index (pu_key entry))))
      else Ok (fmupd (pu_key entry) (pu_tracked_output entry) utxos))"

definition collect_asset ::
  "persisted_asset_entry \<Rightarrow> (asset_id, asset_definition) fmap \<Rightarrow> (string, (asset_id, asset_definition) fmap) res" where
  "collect_asset entry assets =
     (if fmlookup assets (pa_asset_id entry) \<noteq> None
      then Err (''duplicate asset entry in persisted chain state for asset '' @ to_hex (hash_slice (asset_id_hash (pa_asset_id entry))))
      else Ok (fmupd (pa_asset_id entry) (pa_definition entry) assets))"

definition into_chain_state :: "persisted_chain_state \<Rightarrow> (string, chain_state) res" where
  "into_chain_state p =
     and_then (fold_res collect_utxo (pl_utxos (pc_ledger p)) fmempty) (\<lambda>utxos.
     and_then (fold_res collect_asset (pl_assets (pc_ledger p)) fmempty) (\<lambda>assets.
     Ok \<lparr>cs_ledger = \<lparr>ls_utxos = utxos, ls_assets = assets\<rparr>, cs_height = pc_height p, cs_tip_hash = pc_tip_hash p,
       cs_state_root = pc_state_root p, cs_last_timestamp = pc_last_timestamp p, cs_chain_id = pc_chain_id p\<rparr>))"

section \<open>Files\<close>

type_synonym path = "string list"
type_synonym file_system = "(path, string) fmap"

text \<open>The root directory.\<close>

abbreviation path_root :: path where
  "path_root \<equiv> [[]]"

definition path_display :: "path \<Rightarrow> string" where
  "path_display p = (if p = path_root then ''/'' else concat (case p of [] \<Rightarrow> [] | c # cs \<Rightarrow> c # map (\<lambda>c. ''/'' @ c) cs))"

definition path_parent :: "path \<Rightarrow> path option" where
  "path_parent p = (if p = [] \<or> p = path_root then None else Some (butlast p))"

definition path_file_name :: "path \<Rightarrow> string option" where
  "path_file_name p = (if p = [] \<or> p = path_root \<or> last p = ''..'' then None else Some (last p))"

definition temp_path :: "path \<Rightarrow> path" where
  "temp_path p = butlast p @ [last p @ ''.tmp'']"

definition blocks_path_from_state_path :: "path \<Rightarrow> path" where
  "blocks_path_from_state_path p = (if p = [] then [''.blocks.json''] else butlast p @ [last p @ ''.blocks.json''])"

text \<open>Outcomes of the system calls of one atomic write: \<open>Some\<close> is the error; a failing write may have
  written any prefix. The parent of a bare file name is the empty path: \<open>create_dir_all\<close> returns at once for
  it, and \<open>File::open\<close> never finds it.\<close>

record io_outcome =
  io_create_dirs :: "string option"
  io_create :: "string option"
  io_write :: "(string \<times> nat) option"
  io_sync :: "string option"
  io_rename :: "string option"
  io_open_parent :: "string option"
  io_sync_parent :: "string option"

definition io_ok :: io_outcome where
  "io_ok = \<lparr>io_create_dirs = None, io_create = None, io_write = None, io_sync = None, io_rename = None,
     io_open_parent = None, io_sync_parent = None\<rparr>"

definition no_such_file :: string where
  "no_such_file = ''No such file or directory (os error 2)''"

definition sync_parent_dir :: "io_outcome \<Rightarrow> path \<Rightarrow> (string, unit) res" where
  "sync_parent_dir io p =
     (case path_parent p of
        None \<Rightarrow> Ok ()
      | Some parent \<Rightarrow>
          (case (if parent = [] then Some no_such_file else io_open_parent io) of
             Some e \<Rightarrow> Err (''failed to open parent directory '' @ path_display parent @ '': '' @ e)
           | None \<Rightarrow>
               (case io_sync_parent io of
                  Some e \<Rightarrow> Err (''failed to sync parent directory '' @ path_display parent @ '': '' @ e)
                | None \<Rightarrow> Ok ())))"

definition write_file_atomically ::
  "io_outcome \<Rightarrow> path \<Rightarrow> string \<Rightarrow> file_system \<Rightarrow> file_system \<times> (string, unit) res" where
  "write_file_atomically io p contents fs =
     (case (if path_parent p = None \<or> path_parent p = Some [] then None else io_create_dirs io) of
        Some e \<Rightarrow> (fs, Err e)
      | None \<Rightarrow>
     (case path_file_name p of
        None \<Rightarrow> (fs, Err (''path '' @ [CHR 0x27] @ path_display p @ [CHR 0x27] @ '' has no file name''))
      | Some name \<Rightarrow>
     (case io_create io of
        Some e \<Rightarrow> (fs, Err e)
      | None \<Rightarrow>
     (case io_write io of
        Some (e, k) \<Rightarrow> (fmupd (temp_path p) (take k contents) fs, Err e)
      | None \<Rightarrow>
     (case io_sync io of
        Some e \<Rightarrow> (fmupd (temp_path p) contents fs, Err e)
      | None \<Rightarrow>
     (case io_rename io of
        Some e \<Rightarrow> (fmupd (temp_path p) contents fs, Err e)
      | None \<Rightarrow> (fmupd p contents (fmdrop (temp_path p) fs), sync_parent_dir io p)))))))"

section \<open>Loading and saving\<close>

record json_codec =
  js_state_to :: "persisted_chain_state \<Rightarrow> (string, string) res"
  js_state_from :: "string \<Rightarrow> (string, persisted_chain_state) res"
  js_legacy_from :: "string \<Rightarrow> (string, chain_state) res"
  js_blocks_to :: "block list \<Rightarrow> (string, string) res"
  js_blocks_from :: "string \<Rightarrow> (string, block list) res"

datatype read_fault = StatFails | OpenFails string | ReadFails string

text \<open>Which reads fail, and how. \<open>StatFails\<close>: the metadata of the file cannot be read, so \<open>Path::exists\<close> is false
  although the file may be there; reads that do not ask \<open>exists\<close> first do not notice.\<close>

type_synonym read_outcome = "path \<Rightarrow> read_fault option"

definition load_chain_state ::
  "json_codec \<Rightarrow> read_outcome \<Rightarrow> file_system \<Rightarrow> path \<Rightarrow> (string, chain_state option) res" where
  "load_chain_state js rd fs p =
     (case rd p of
        Some (OpenFails e) \<Rightarrow> Err (''failed to open chain state '' @ path_display p @ '': '' @ e)
      | fault \<Rightarrow>
     (case fmlookup fs p of
        None \<Rightarrow> Ok None
      | Some contents \<Rightarrow>
     (case fault of
        Some (ReadFails e) \<Rightarrow> Err (''failed to read chain state '' @ path_display p @ '': '' @ e)
      | _ \<Rightarrow>
     (case js_state_from js contents of
        Ok snapshot \<Rightarrow>
          map_err (\<lambda>e. ''failed to parse chain state '' @ path_display p @ '': '' @ e) (map_ok Some (into_chain_state snapshot))
      | Err snapshot_err \<Rightarrow>
          map_err (\<lambda>legacy_err. ''failed to parse chain state '' @ path_display p @ '': snapshot format error: '' @ snapshot_err
            @ ''; legacy format error: '' @ legacy_err) (map_ok Some (js_legacy_from js contents))
      | Panic \<Rightarrow> Panic))))"

definition save_chain_state ::
  "json_codec \<Rightarrow> io_outcome \<Rightarrow> path \<Rightarrow> chain_state \<Rightarrow> file_system \<Rightarrow> file_system \<times> (string, unit) res" where
  "save_chain_state js io p C fs =
     (case js_state_to js (persisted_from_chain C) of
        Ok text \<Rightarrow> write_file_atomically io p text fs
      | Err e \<Rightarrow> (fs, Err e)
      | Panic \<Rightarrow> (fs, Panic))"

definition load_block_history ::
  "json_codec \<Rightarrow> read_outcome \<Rightarrow> file_system \<Rightarrow> path \<Rightarrow> (string, block list option) res" where
  "load_block_history js rd fs p =
     (case fmlookup fs p of
        None \<Rightarrow> Ok None
      | Some contents \<Rightarrow>
     (case rd p of
        Some StatFails \<Rightarrow> Ok None
      | Some (OpenFails e) \<Rightarrow> Err (''failed to open block history '' @ path_display p @ '': '' @ e)
      | Some (ReadFails e) \<Rightarrow> Err (''failed to read block history '' @ path_display p @ '': '' @ e)
      | None \<Rightarrow>
          map_err (\<lambda>e. ''failed to parse block history '' @ path_display p @ '': '' @ e)
            (map_ok Some (js_blocks_from js contents))))"

definition save_block_history ::
  "json_codec \<Rightarrow> io_outcome \<Rightarrow> path \<Rightarrow> block list \<Rightarrow> file_system \<Rightarrow> file_system \<times> (string, unit) res" where
  "save_block_history js io p blocks fs =
     (case js_blocks_to js blocks of
        Ok text \<Rightarrow> write_file_atomically io p text fs
      | Err e \<Rightarrow> (fs, Err e)
      | Panic \<Rightarrow> (fs, Panic))"

section \<open>Rebuilding the state\<close>

fun consensus_error_display :: "consensus_error \<Rightarrow> string" where
  "consensus_error_display InvalidBlock = ''invalid block''"
| "consensus_error_display SignatureError = ''signature verification failed''"
| "consensus_error_display (ConsensusLedgerError s) = ''ledger error: '' @ s"
| "consensus_error_display (ConsensusOther s) = ''other consensus error: '' @ s"

definition default_chain_state_with_id :: "platform \<Rightarrow> u32 \<Rightarrow> chain_state option" where
  "default_chain_state_with_id pf chain_id = do {
     root \<leftarrow> state_root pf default_ledger_state;
     Some \<lparr>cs_ledger = default_ledger_state, cs_height = 0, cs_tip_hash = hash_fill 0, cs_state_root = root,
       cs_last_timestamp = 0, cs_chain_id = chain_id\<rparr>
   }"

definition replay_block ::
  "platform \<Rightarrow> (bytes \<Rightarrow> input_witness option) \<Rightarrow> public_key list \<Rightarrow> nat \<times> block \<Rightarrow> chain_state \<Rightarrow> (string, chain_state) res" where
  "replay_block pf dw validators = (\<lambda>(index, b) C.
     and_then (map_err (\<lambda>e. ''block history entry '' @ show_nat (index + 1) @ '' failed validation while rebuilding state: ''
         @ consensus_error_display e) (validate_replayed_block pf dw (default_registry pf) C b validators)) (\<lambda>_.
     case chain_apply_block pf dw (default_script_engine pf) C b of
       (C', Ok _) \<Rightarrow> Ok C'
     | (C', Err e) \<Rightarrow> Err (''block history entry '' @ show_nat (index + 1) @ '' failed ledger replay while rebuilding state: ''
         @ ledger_error_display e)
     | (C', Panic) \<Rightarrow> Panic))"

definition rebuild_chain_state_from_blocks ::
  "platform \<Rightarrow> (bytes \<Rightarrow> input_witness option) \<Rightarrow> block list \<Rightarrow> u32 \<Rightarrow> public_key list \<Rightarrow> (string, chain_state) res" where
  "rebuild_chain_state_from_blocks pf dw blocks chain_id validators =
     and_then (expect (default_chain_state_with_id pf chain_id)) (\<lambda>C.
     fold_res (replay_block pf dw validators) (List.enumerate 0 blocks) C)"

definition chain_states_differ :: "chain_state \<Rightarrow> chain_state \<Rightarrow> bool" where
  "chain_states_differ C R \<longleftrightarrow> cs_height C \<noteq> cs_height R \<or> cs_tip_hash C \<noteq> cs_tip_hash R \<or>
     cs_state_root C \<noteq> cs_state_root R \<or> cs_last_timestamp C \<noteq> cs_last_timestamp R"

definition load_or_repair_storage ::
  "platform \<Rightarrow> (bytes \<Rightarrow> input_witness option) \<Rightarrow> json_codec \<Rightarrow> read_outcome \<Rightarrow> io_outcome \<Rightarrow> path \<Rightarrow> path \<Rightarrow> u32
     \<Rightarrow> public_key list \<Rightarrow> file_system \<Rightarrow> file_system \<times> (string, chain_state \<times> block list) res" where
  "load_or_repair_storage pf dw js rd io state_path blocks_path chain_id validators fs =
     (case
        and_then (load_chain_state js rd fs state_path) (\<lambda>stored_chain.
        and_then (load_block_history js rd fs blocks_path) (\<lambda>history.
        let stored_blocks = (case history of Some bs \<Rightarrow> bs | None \<Rightarrow> []) in
        and_then (rebuild_chain_state_from_blocks pf dw stored_blocks chain_id validators) (\<lambda>rebuilt.
        and_then
          (case stored_chain of
             Some C \<Rightarrow>
               if cs_chain_id C \<noteq> chain_id
               then Err (''chain state '' @ path_display state_path @ '' has chain_id '' @ show_nat (unat (cs_chain_id C))
                 @ '', expected '' @ show_nat (unat chain_id))
               else Ok (chain_states_differ C rebuilt)
           | None \<Rightarrow> Ok (stored_blocks \<noteq> [])) (\<lambda>differs.
        Ok (rebuilt, stored_blocks, differs))))) of
        Ok (rebuilt, stored_blocks, differs) \<Rightarrow>
          (if differs then
             (case save_chain_state js io state_path rebuilt fs of
                (fs', Ok _) \<Rightarrow> (fs', Ok (rebuilt, stored_blocks))
              | (fs', Err e) \<Rightarrow> (fs', Err e)
              | (fs', Panic) \<Rightarrow> (fs', Panic))
           else (fs, Ok (rebuilt, stored_blocks)))
      | Err e \<Rightarrow> (fs, Err e)
      | Panic \<Rightarrow> (fs, Panic))"

section \<open>Round trips\<close>

lemma collect_utxos:
  assumes "distinct (map fst kvs)" and "\<forall>k\<in>set (map fst kvs). fmlookup m k = None"
  shows "fold_res collect_utxo (map (\<lambda>(k, t). \<lparr>pu_key = k, pu_tracked_output = t\<rparr>) kvs) m
    = Ok (fold (\<lambda>(k, t). fmupd k t) kvs m)"
  using assms
proof (induction kvs arbitrary: m)
  case (Cons kv kvs)
  obtain k t where kv: "kv = (k, t)" by (cases kv)
  have "\<forall>j\<in>set (map fst kvs). fmlookup (fmupd k t m) j = None" using Cons.prems by (auto simp: kv)
  from Cons.IH [OF _ this] Cons.prems show ?case by (simp add: kv collect_utxo_def)
qed simp

lemma collect_assets:
  assumes "distinct (map fst kvs)" and "\<forall>k\<in>set (map fst kvs). fmlookup m k = None"
  shows "fold_res collect_asset (map (\<lambda>(k, t). \<lparr>pa_asset_id = k, pa_definition = t\<rparr>) kvs) m
    = Ok (fold (\<lambda>(k, t). fmupd k t) kvs m)"
  using assms
proof (induction kvs arbitrary: m)
  case (Cons kv kvs)
  obtain k t where kv: "kv = (k, t)" by (cases kv)
  have "\<forall>j\<in>set (map fst kvs). fmlookup (fmupd k t m) j = None" using Cons.prems by (auto simp: kv)
  from Cons.IH [OF _ this] Cons.prems show ?case by (simp add: kv collect_asset_def)
qed simp

lemma distinct_sorted_list_of_fmap: "distinct (map fst (sorted_list_of_fmap m))"
  by (simp add: sorted_list_of_fmap_def comp_def sorted_list_of_fset.rep_eq)

lemma fold_fmupd_lookup:
  "distinct (map fst kvs) \<Longrightarrow>
     fmlookup (fold (\<lambda>(k, t). fmupd k t) kvs m) j = (case map_of kvs j of Some t \<Rightarrow> Some t | None \<Rightarrow> fmlookup m j)"
proof (induction kvs arbitrary: m)
  case (Cons kv kvs)
  obtain k t where kv: "kv = (k, t)" by (cases kv)
  have "map_of kvs k = None" using Cons.prems by (simp add: kv map_of_eq_None_iff)
  with Cons.IH [of "fmupd k t m"] Cons.prems show ?case by (simp add: kv split: option.splits)
qed simp

lemma fold_fmupd_sorted: "fold (\<lambda>(k, t). fmupd k t) (sorted_list_of_fmap m) fmempty = m"
  by (rule fmap_ext) (simp add: fold_fmupd_lookup [OF distinct_sorted_list_of_fmap] split: option.splits)

lemma into_persisted: "into_chain_state (persisted_from_chain C) = Ok C"
  by (simp add: into_chain_state_def persisted_from_chain_def fold_fmupd_sorted
      collect_utxos [OF distinct_sorted_list_of_fmap] collect_assets [OF distinct_sorted_list_of_fmap])

section \<open>Atomic replacement\<close>

text \<open>Paths at which a file can be written: they have a file name and are not bare file names.\<close>

definition savable :: "path \<Rightarrow> bool" where
  "savable p \<longleftrightarrow> path_file_name p \<noteq> None \<and> path_parent p \<noteq> Some []"

lemma savable_below [simp]: "savable (d # dir @ [name]) \<longleftrightarrow> name \<noteq> ''..''" "savable [d, name] \<longleftrightarrow> name \<noteq> ''..''"
  by (simp_all add: savable_def path_file_name_def path_parent_def)

lemma savable_blocks_path: "savable p \<Longrightarrow> savable (blocks_path_from_state_path p)"
  by (cases p rule: rev_cases) (auto simp: savable_def path_file_name_def path_parent_def blocks_path_from_state_path_def split: if_splits)

lemma temp_path_neq: "p \<noteq> [] \<Longrightarrow> temp_path p \<noteq> p"
  by (metis append_butlast_last_id append_self_conv last_snoc list.distinct(1) temp_path_def)

text \<open>Whatever happens, the file holds its old or the new contents, and no other file but the
  temporary one is touched.\<close>

lemma write_cases:
  assumes "write_file_atomically io p contents fs = (fs', r)"
  shows "r \<noteq> Panic \<and> (r = Ok () \<longrightarrow> fmlookup fs' p = Some contents) \<and>
    (fmlookup fs' p = fmlookup fs p \<or> fmlookup fs' p = Some contents) \<and>
    (\<forall>q. q \<noteq> p \<and> q \<noteq> temp_path p \<longrightarrow> fmlookup fs' q = fmlookup fs q)"
proof (cases "p = []")
  case True
  with assms show ?thesis by (auto simp: write_file_atomically_def path_parent_def path_file_name_def)
next
  case False
  have "sync_parent_dir io p \<noteq> Panic"
    by (auto simp: sync_parent_dir_def split: option.splits)
  with assms temp_path_neq [OF False] show ?thesis
    by (auto simp: write_file_atomically_def split: option.splits if_splits prod.splits)
qed

lemma write_ok: "savable p \<Longrightarrow> \<exists>fs'. write_file_atomically io_ok p contents fs = (fs', Ok ())"
  by (auto simp: savable_def write_file_atomically_def io_ok_def sync_parent_dir_def split: option.splits)

text \<open>Saving to a bare file name reports an error whatever the system calls do, although the file has been
  replaced when they all succeed.\<close>

lemma bare_name_write:
  shows "\<exists>e. snd (write_file_atomically io [name] contents fs) = Err e"
    and "name \<noteq> [] \<Longrightarrow> name \<noteq> ''..'' \<Longrightarrow>
      write_file_atomically io_ok [name] contents fs = (fmupd [name] contents (fmdrop [name @ ''.tmp''] fs),
        Err (''failed to open parent directory : '' @ no_such_file))"
  by (auto simp: write_file_atomically_def io_ok_def sync_parent_dir_def path_file_name_def path_parent_def
      path_display_def temp_path_def split: option.splits)

text \<open>The documented behaviour of the JSON library: what was written is read back.\<close>

definition json_codec_ok :: "json_codec \<Rightarrow> bool" where
  "json_codec_ok js \<longleftrightarrow> (\<forall>s t. js_state_to js s = Ok t \<longrightarrow> js_state_from js t = Ok s) \<and>
     (\<forall>bs t. js_blocks_to js bs = Ok t \<longrightarrow> js_blocks_from js t = Ok bs) \<and>
     (\<forall>s. js_state_to js s \<noteq> Panic) \<and> (\<forall>bs. js_blocks_to js bs \<noteq> Panic)"

definition no_read_faults :: read_outcome where
  "no_read_faults = (\<lambda>p. None)"

lemma save_load_chain:
  assumes "json_codec_ok js" and "save_chain_state js io p C fs = (fs', Ok ())"
  shows "load_chain_state js no_read_faults fs' p = Ok (Some C)"
proof -
  from assms(2) obtain t where t: "js_state_to js (persisted_from_chain C) = Ok t"
    "write_file_atomically io p t fs = (fs', Ok ())"
    by (auto simp: save_chain_state_def split: res.splits)
  have "fmlookup fs' p = Some t" using write_cases [OF t(2)] by simp
  moreover have "js_state_from js t = Ok (persisted_from_chain C)"
    using assms(1) t(1) by (simp add: json_codec_ok_def)
  ultimately show ?thesis
    by (simp add: load_chain_state_def no_read_faults_def into_persisted)
qed

lemma save_load_blocks:
  assumes "json_codec_ok js" and "save_block_history js io p bs fs = (fs', Ok ())"
  shows "load_block_history js no_read_faults fs' p = Ok (Some bs)"
proof -
  from assms(2) obtain t where t: "js_blocks_to js bs = Ok t" "write_file_atomically io p t fs = (fs', Ok ())"
    by (auto simp: save_block_history_def split: res.splits)
  have "fmlookup fs' p = Some t" using write_cases [OF t(2)] by simp
  moreover have "js_blocks_from js t = Ok bs" using assms(1) t(1) by (simp add: json_codec_ok_def)
  ultimately show ?thesis by (simp add: load_block_history_def no_read_faults_def)
qed

section \<open>Replaying\<close>

lemma rebuild_append:
  "rebuild_chain_state_from_blocks pf dw (bs @ [b]) chain_id vs =
     and_then (rebuild_chain_state_from_blocks pf dw bs chain_id vs) (replay_block pf dw vs (length bs, b))"
  by (simp add: rebuild_chain_state_from_blocks_def enumerate_append_eq fold_res_append fold_res_single and_then_assoc
      del: fold_res.simps)

lemma replay_block_eq_Ok:
  "replay_block pf dw vs (i, b) C = Ok C' \<longleftrightarrow>
     is_Ok (validate_replayed_block pf dw (default_registry pf) C b vs) \<and>
     chain_apply_block pf dw (default_script_engine pf) C b = (C', Ok ())"
  by (auto simp: replay_block_def res_simps is_Ok_iff split: prod.splits res.splits)

end
