(* ===== verification/QC_Runtime.thy ===== *)
theory QC_Runtime
  imports QC_Storage
begin

text \<open>
  The node runtime of \<open>qcoin-node/src/main.rs\<close>: accepting blocks with persistence, the mempool, and
  block production, as operations on the runtime and the file system, and the step relation of a running
  node, whose invariant ties chain state, block history and mempool together.

  The runtime sits behind a mutex. A panic poisons it, after which every operation refuses to lock it, so
  the state after a panic is never read; \<open>poisoned\<close> is the message of a failing lock.
\<close>

section \<open>The runtime\<close>

record node_runtime =
  nr_chain :: chain_state
  nr_blocks :: "block list"
  nr_pending :: "transaction list"
  nr_consensus :: consensus_engine
  nr_state_path :: path
  nr_blocks_path :: path
  nr_node_public_key_hex :: string
  nr_node_is_validator :: bool
  nr_produce_empty_blocks :: bool

datatype transaction_accept_status = AcceptedNew hash256 | AlreadyPending hash256

text \<open>\<open>iter().any(|tx| tx.tx_id() == tx_id)\<close>; computing an id may panic.\<close>

fun any_tx_id :: "platform \<Rightarrow> hash256 \<Rightarrow> transaction list \<Rightarrow> bool option" where
  "any_tx_id pf h [] = Some False"
| "any_tx_id pf h (t # ts) = do {
     i \<leftarrow> tx_id pf t;
     if i = h then Some True else any_tx_id pf h ts
   }"

definition transaction_is_committed :: "platform \<Rightarrow> node_runtime \<Rightarrow> hash256 \<Rightarrow> bool option" where
  "transaction_is_committed pf rt h = any_tx_id pf h (concat (map b_transactions (nr_blocks rt)))"

fun reconcile_loop ::
  "platform \<Rightarrow> (bytes \<Rightarrow> input_witness option) \<Rightarrow> hash256 list \<Rightarrow> u64 \<Rightarrow> u32 \<Rightarrow> transaction list \<Rightarrow> ledger_state
     \<Rightarrow> transaction list option" where
  "reconcile_loop pf dw committed height chain_id [] L = Some []"
| "reconcile_loop pf dw committed height chain_id (tx # txs) L = do {
     h \<leftarrow> tx_id pf tx;
     if h \<in> set committed then reconcile_loop pf dw committed height chain_id txs L
     else
       (case apply_transaction pf dw (default_script_engine pf) L tx height chain_id of
          (L', Ok _) \<Rightarrow> do {
            retained \<leftarrow> reconcile_loop pf dw committed height chain_id txs L';
            Some (tx # retained)
          }
        | (L', Err _) \<Rightarrow> reconcile_loop pf dw committed height chain_id txs L'
        | (L', Panic) \<Rightarrow> None)
   }"

definition reconcile_pending_transactions ::
  "platform \<Rightarrow> (bytes \<Rightarrow> input_witness option) \<Rightarrow> node_runtime \<Rightarrow> node_runtime option" where
  "reconcile_pending_transactions pf dw rt =
     (if nr_pending rt = [] then Some rt
      else do {
        committed_tx_ids \<leftarrow> map_option_list (tx_id pf) (concat (map b_transactions (nr_blocks rt)));
        retained \<leftarrow> reconcile_loop pf dw committed_tx_ids (saturating_add (cs_height (nr_chain rt)) 1)
          (cs_chain_id (nr_chain rt)) (nr_pending rt) (cs_ledger (nr_chain rt));
        Some (rt\<lparr>nr_pending := retained\<rparr>)
      })"

definition runtime_apply_block ::
  "platform \<Rightarrow> (bytes \<Rightarrow> input_witness option) \<Rightarrow> json_codec \<Rightarrow> io_outcome \<Rightarrow> io_outcome \<Rightarrow> block
     \<Rightarrow> node_runtime \<times> file_system \<Rightarrow> (node_runtime \<times> file_system) \<times> (string, u64) res" where
  "runtime_apply_block pf dw js io_blocks io_state b = (\<lambda>(rt, fs).
     (case validate_block pf dw (nr_consensus rt) (nr_chain rt) b of
        Err e \<Rightarrow> ((rt, fs), Err (''Failed to validate block: '' @ consensus_error_display e))
      | Panic \<Rightarrow> ((rt, fs), Panic)
      | Ok _ \<Rightarrow>
     (case chain_apply_block pf dw (default_script_engine pf) (nr_chain rt) b of
        (_, Err e) \<Rightarrow> ((rt, fs), Err (''Failed to apply block: '' @ ledger_error_display e))
      | (_, Panic) \<Rightarrow> ((rt, fs), Panic)
      | (next_chain, Ok _) \<Rightarrow>
     (let next_blocks = nr_blocks rt @ [b] in
     (case save_block_history js io_blocks (nr_blocks_path rt) next_blocks fs of
        (fs1, Err e) \<Rightarrow> ((rt, fs1), Err e)
      | (fs1, Panic) \<Rightarrow> ((rt, fs1), Panic)
      | (fs1, Ok _) \<Rightarrow>
     (case save_chain_state js io_state (nr_state_path rt) next_chain fs1 of
        (fs2, Err e) \<Rightarrow> ((rt, fs2), Err e)
      | (fs2, Panic) \<Rightarrow> ((rt, fs2), Panic)
      | (fs2, Ok _) \<Rightarrow>
     (let rt1 = rt\<lparr>nr_chain := next_chain, nr_blocks := next_blocks\<rparr> in
     (case reconcile_pending_transactions pf dw rt1 of
        None \<Rightarrow> ((rt1, fs2), Panic)
      | Some rt2 \<Rightarrow> ((rt2, fs2), Ok (cs_height (nr_chain rt2)))))))))))"

text \<open>The checks of \<open>accept_transaction\<close>, which leave the runtime alone, and then the push.\<close>

definition admit_transaction ::
  "platform \<Rightarrow> (bytes \<Rightarrow> input_witness option) \<Rightarrow> transaction \<Rightarrow> node_runtime \<Rightarrow> (string, transaction_accept_status) res" where
  "admit_transaction pf dw tx rt =
     and_then (expect (tx_id pf tx)) (\<lambda>h.
     and_then (expect (transaction_is_committed pf rt h)) (\<lambda>committed.
     if committed then Err (''transaction '' @ to_hex (hash_slice h) @ '' is already committed'')
     else
       and_then (expect (any_tx_id pf h (nr_pending rt))) (\<lambda>pending.
       if pending then Ok (AlreadyPending h)
       else
         (let block_height = saturating_add (cs_height (nr_chain rt)) 1;
              chain_id = cs_chain_id (nr_chain rt);
              eng = default_script_engine pf
          in (case apply_transactions pf dw eng (nr_pending rt) block_height chain_id (cs_ledger (nr_chain rt)) of
                (_, Err e) \<Rightarrow> Err (''Pending mempool transaction became invalid: '' @ ledger_error_display e)
              | (_, Panic) \<Rightarrow> Panic
              | (L, Ok _) \<Rightarrow>
                  (case apply_transaction pf dw eng L tx block_height chain_id of
                     (_, Err e) \<Rightarrow>
                       Err (''Failed to validate transaction for mempool admission: '' @ ledger_error_display e)
                   | (_, Panic) \<Rightarrow> Panic
                   | (_, Ok _) \<Rightarrow> Ok (AcceptedNew h)))))))"

definition accept_transaction ::
  "platform \<Rightarrow> (bytes \<Rightarrow> input_witness option) \<Rightarrow> transaction \<Rightarrow> node_runtime
     \<Rightarrow> node_runtime \<times> (string, transaction_accept_status) res" where
  "accept_transaction pf dw tx rt =
     (case admit_transaction pf dw tx rt of
        Ok (AcceptedNew h) \<Rightarrow> (rt\<lparr>nr_pending := nr_pending rt @ [tx]\<rparr>, Ok (AcceptedNew h))
      | r \<Rightarrow> (rt, r))"

definition produce_one_block ::
  "platform \<Rightarrow> (bytes \<Rightarrow> input_witness option) \<Rightarrow> json_codec \<Rightarrow> io_outcome \<Rightarrow> io_outcome \<Rightarrow> string option
     \<Rightarrow> (string, u64) res \<Rightarrow> nat \<Rightarrow> node_runtime \<times> file_system
     \<Rightarrow> (node_runtime \<times> file_system) \<times> (string, (u64 \<times> block) option) res" where
  "produce_one_block pf dw js io_blocks io_state poisoned now rnd = (\<lambda>(rt, fs).
     (case poisoned of
        Some e \<Rightarrow> ((rt, fs), Err (''failed to lock runtime for block production: '' @ e))
      | None \<Rightarrow>
     (case map_err (\<lambda>e. ''Failed to evaluate proposer schedule: '' @ consensus_error_display e)
         (can_propose_next_block pf (nr_consensus rt) (nr_chain rt)) of
        Err e \<Rightarrow> ((rt, fs), Err e)
      | Panic \<Rightarrow> ((rt, fs), Panic)
      | Ok False \<Rightarrow> ((rt, fs), Ok None)
      | Ok True \<Rightarrow>
     (if nr_pending rt = [] \<and> \<not> nr_produce_empty_blocks rt then ((rt, fs), Ok None)
      else
     (case map_err (\<lambda>e. ''Failed to propose block: '' @ consensus_error_display e)
         (propose_block pf dw (nr_consensus rt) (nr_chain rt) (nr_pending rt) now rnd) of
        Err e \<Rightarrow> ((rt, fs), Err e)
      | Panic \<Rightarrow> ((rt, fs), Panic)
      | Ok b \<Rightarrow>
     (case runtime_apply_block pf dw js io_blocks io_state b (rt, fs) of
        (s, Ok height) \<Rightarrow> (s, Ok (Some (height, b)))
      | (s, Err e) \<Rightarrow> (s, Err e)
      | (s, Panic) \<Rightarrow> (s, Panic)))))))"

section \<open>Starting and running a node\<close>

definition start_runtime ::
  "platform \<Rightarrow> (bytes \<Rightarrow> input_witness option) \<Rightarrow> json_codec \<Rightarrow> read_outcome \<Rightarrow> io_outcome \<Rightarrow> path \<Rightarrow> path \<Rightarrow> u32
     \<Rightarrow> public_key list \<Rightarrow> public_key \<Rightarrow> private_key \<Rightarrow> bool \<Rightarrow> bool \<Rightarrow> file_system
     \<Rightarrow> (node_runtime \<times> file_system) option" where
  "start_runtime pf dw js rd io state_path blocks_path chain_id validators pk sk is_validator empty_blocks fs =
     (case load_or_repair_storage pf dw js rd io state_path blocks_path chain_id validators fs of
        (fs', Ok (C, bs)) \<Rightarrow>
          (case engine_from_keys (default_registry pf) pk sk validators of
             Ok e \<Rightarrow> Some (\<lparr>nr_chain = C, nr_blocks = bs, nr_pending = [], nr_consensus = e, nr_state_path = state_path,
               nr_blocks_path = blocks_path, nr_node_public_key_hex = to_hex (pk_bytes pk),
               nr_node_is_validator = is_validator, nr_produce_empty_blocks = empty_blocks\<rparr>, fs')
           | _ \<Rightarrow> None)
      | _ \<Rightarrow> None)"

text \<open>The operations that change a running node, in any order and with any outcome of the system calls.\<close>

inductive runtime_step ::
  "platform \<Rightarrow> (bytes \<Rightarrow> input_witness option) \<Rightarrow> json_codec \<Rightarrow> node_runtime \<times> file_system \<Rightarrow> node_runtime \<times> file_system \<Rightarrow> bool"
  for pf dw js where
  step_block: "runtime_apply_block pf dw js io1 io2 b s = (s', r) \<Longrightarrow> r \<noteq> Panic \<Longrightarrow> runtime_step pf dw js s s'"
| step_transaction: "accept_transaction pf dw tx rt = (rt', r) \<Longrightarrow> r \<noteq> Panic \<Longrightarrow> runtime_step pf dw js (rt, fs) (rt', fs)"
| step_produce: "produce_one_block pf dw js io1 io2 poisoned now rnd s = (s', r) \<Longrightarrow> r \<noteq> Panic \<Longrightarrow> runtime_step pf dw js s s'"

inductive runtime_reachable ::
  "platform \<Rightarrow> (bytes \<Rightarrow> input_witness option) \<Rightarrow> json_codec \<Rightarrow> u32 \<Rightarrow> public_key list \<Rightarrow> node_runtime \<times> file_system \<Rightarrow> bool"
  for pf dw js chain_id validators where
  reach_start: "start_runtime pf dw js rd io sp bp chain_id validators pk sk v e fs = Some s
    \<Longrightarrow> runtime_reachable pf dw js chain_id validators s"
| reach_step: "runtime_reachable pf dw js chain_id validators s \<Longrightarrow> runtime_step pf dw js s s'
    \<Longrightarrow> runtime_reachable pf dw js chain_id validators s'"

inductive_cases runtime_stepE: "runtime_step pf dw js s s'"

section \<open>Fewer registered assets never hurt\<close>

text \<open>The simulated ledger of \<open>reconcile_pending_transactions\<close> may carry an asset that a refused
  transaction registered. What applies there applies on the clean ledger too.\<close>

definition fewer_assets :: "ledger_state \<Rightarrow> ledger_state \<Rightarrow> bool" where
  "fewer_assets L M \<longleftrightarrow> ls_utxos L = ls_utxos M \<and> (\<forall>i. fmlookup (ls_assets M) i = None \<longrightarrow> fmlookup (ls_assets L) i = None)"

lemma fewer_assets_refl: "fewer_assets L L"
  by (simp add: fewer_assets_def)

lemma fewer_assets_register: "fewer_assets L M \<Longrightarrow> fewer_assets L (register_asset created M)"
  by (cases created) (auto simp: fewer_assets_def split: if_splits)

lemma scan_inputs_utxos_only:
  assumes "ls_utxos L = ls_utxos M"
  shows "scan_inputs pf dw eng L tx height ch created = scan_inputs pf dw eng M tx height ch created"
proof -
  have "scan_input pf dw eng L tx height ch created = scan_input pf dw eng M tx height ch created"
    by (simp add: scan_input_def assms)
  then show ?thesis by (simp add: scan_inputs_def)
qed

lemma fewer_assets_check:
  assumes "fewer_assets L M" and "check_transaction pf dw eng M tx height ch = Ok x"
  shows "check_transaction pf dw eng L tx height ch = Ok x"
proof -
  have "announced_asset pf L ch (tc_kind (tx_core tx)) = announced_asset pf M ch (tc_kind (tx_core tx))"
    if "announced_asset pf M ch (tc_kind (tx_core tx)) = Ok created" for created
    using that assms(1) by (cases "tc_kind (tx_core tx)") (auto simp: Let_def fewer_assets_def split: if_splits)
  with assms show ?thesis
    using scan_inputs_utxos_only [of L M] by (auto simp: check_transaction_def res_simps fewer_assets_def)
qed

lemma fewer_assets_apply:
  assumes "fewer_assets L M" and "apply_transaction pf dw eng M tx height ch = (M', Ok u)"
  shows "\<exists>L'. apply_transaction pf dw eng L tx height ch = (L', Ok ()) \<and> fewer_assets L' M'"
proof -
  from assms(2) obtain created consumed ins outs h where
    chk: "check_transaction pf dw eng M tx height ch = Ok (created, consumed, ins, outs)" and c: "conserves ins outs"
    and h: "tx_id pf tx = Some h" and as: "ls_assets M' = ls_assets (register_asset created M)"
    and us: "ls_utxos M' = insert_outputs h height (tc_outputs (tx_core tx)) (remove_consumed consumed (ls_utxos M))"
    by (rule apply_transaction_Ok)
  have "ls_utxos (register_asset created N) = ls_utxos N" for N by (cases created) auto
  moreover have "fmlookup (ls_assets (register_asset created L)) i = None"
    if "fmlookup (ls_assets (register_asset created M)) i = None" for i
    using that assms(1) by (cases created) (auto simp: fewer_assets_def split: if_splits)
  ultimately show ?thesis
    using fewer_assets_check [OF assms(1) chk] c h as us assms(1)
    by (auto simp: apply_transaction_def Let_def fewer_assets_def)
qed

lemma apply_Err_fewer:
  assumes "apply_transaction pf dw eng M tx height ch = (M', Err e)" and "fewer_assets L M"
  shows "fewer_assets L M'"
  using apply_transaction_Err [OF assms(1)] assms(2) fewer_assets_register by auto

section \<open>The mempool applies\<close>

lemma apply_transactions_append:
  "apply_transactions pf dw eng (xs @ ys) height ch L =
     (case apply_transactions pf dw eng xs height ch L of
        (M, Ok _) \<Rightarrow> apply_transactions pf dw eng ys height ch M
      | (M, Err e) \<Rightarrow> (M, Err e)
      | (M, Panic) \<Rightarrow> (M, Panic))"
  by (induction xs arbitrary: L) (auto split: prod.splits res.splits)

lemma reconcile_loop_applies:
  assumes "reconcile_loop pf dw committed height ch txs M = Some kept" and "fewer_assets L M"
  shows "\<exists>L'. apply_transactions pf dw (default_script_engine pf) kept height ch L = (L', Ok ())"
  using assms
proof (induction txs arbitrary: L M kept)
  case (Cons tx txs)
  from Cons.prems(1) obtain h where h: "tx_id pf tx = Some h" by (auto simp: bind_eq_Some_conv)
  show ?case
  proof (cases "h \<in> set committed")
    case True
    with Cons.prems h Cons.IH show ?thesis by simp
  next
    case False
    obtain M' r where a: "apply_transaction pf dw (default_script_engine pf) M tx height ch = (M', r)" by fastforce
    show ?thesis
    proof (cases r)
      case (Ok u)
      with Cons.prems(1) h False a obtain rest where rest: "reconcile_loop pf dw committed height ch txs M' = Some rest"
        "kept = tx # rest" by (auto simp: bind_eq_Some_conv)
      obtain L1 where L1: "apply_transaction pf dw (default_script_engine pf) L tx height ch = (L1, Ok ())" "fewer_assets L1 M'"
        using fewer_assets_apply [OF Cons.prems(2) a [unfolded Ok]] by blast
      with Cons.IH [OF rest(1) L1(2)] rest(2) show ?thesis by simp
    next
      case (Err e)
      with Cons.prems(1) h False a have "reconcile_loop pf dw committed height ch txs M' = Some kept" by simp
      with Cons.IH apply_Err_fewer [OF a [unfolded Err] Cons.prems(2)] show ?thesis by blast
    next
      case Panic
      with Cons.prems(1) h False a show ?thesis by simp
    qed
  qed
qed simp

text \<open>Ids of a list of transactions that have ids.\<close>

definition ids_of :: "platform \<Rightarrow> transaction list \<Rightarrow> hash256 set" where
  "ids_of pf txs = {h. \<exists>t\<in>set txs. tx_id pf t = Some h}"

definition distinct_ids :: "platform \<Rightarrow> transaction list \<Rightarrow> bool" where
  "distinct_ids pf txs \<longleftrightarrow> distinct (map (tx_id pf) txs) \<and> None \<notin> tx_id pf ` set txs"

lemma reconcile_loop_ids:
  assumes "reconcile_loop pf dw committed height ch txs M = Some kept" and "distinct_ids pf txs"
  shows "distinct_ids pf kept \<and> set kept \<subseteq> set txs \<and> ids_of pf kept \<inter> set committed = {}"
  using assms
proof (induction txs arbitrary: M kept)
  case Nil
  then show ?case by (simp add: ids_of_def distinct_ids_def)
next
  case (Cons tx txs)
  from Cons.prems(1) obtain h where h: "tx_id pf tx = Some h" by (auto simp: bind_eq_Some_conv)
  have d: "distinct_ids pf txs" "Some h \<notin> tx_id pf ` set txs" using Cons.prems(2) h by (auto simp: distinct_ids_def)
  show ?case
  proof (cases "h \<in> set committed")
    case True
    with Cons.prems(1) h Cons.IH [OF _ d(1)] show ?thesis by auto
  next
    case False
    obtain M' r where a: "apply_transaction pf dw (default_script_engine pf) M tx height ch = (M', r)" by fastforce
    show ?thesis
    proof (cases r)
      case (Ok u)
      with Cons.prems(1) h False a obtain rest where rest: "reconcile_loop pf dw committed height ch txs M' = Some rest"
        "kept = tx # rest" by (auto simp: bind_eq_Some_conv)
      with Cons.IH [OF rest(1) d(1)] h d(2) False show ?thesis
        by (auto simp: distinct_ids_def ids_of_def rev_image_eqI)
    next
      case (Err e)
      with Cons.prems(1) h False a Cons.IH [OF _ d(1)] show ?thesis by auto
    next
      case Panic
      with Cons.prems(1) h False a show ?thesis by simp
    qed
  qed
qed

lemma any_tx_id_eq_Some:
  "any_tx_id pf h ts = Some b \<Longrightarrow> b \<longleftrightarrow> h \<in> ids_of pf ts"
  by (induction ts) (auto simp: bind_eq_Some_conv ids_of_def split: if_splits)

section \<open>The block history\<close>

text \<open>What a successful replay says of a history: heights count from 1, every block names the hash of
  its predecessor's header, and timestamps increase.\<close>

definition history_linked :: "platform \<Rightarrow> block list \<Rightarrow> bool" where
  "history_linked pf bs \<longleftrightarrow>
     (\<forall>i < length bs. bh_height (b_header (bs ! i)) = of_nat (i + 1) \<and>
        bh_parent_hash (b_header (bs ! i)) = (if i = 0 then hash_fill 0 else header_hash pf (b_header (bs ! (i - 1))))) \<and>
     sorted_wrt (<) (map (\<lambda>b. bh_timestamp (b_header b)) bs)"

definition chain_tops :: "platform \<Rightarrow> block list \<Rightarrow> chain_state \<Rightarrow> bool" where
  "chain_tops pf bs C \<longleftrightarrow> cs_height C = of_nat (length bs) \<and>
     cs_tip_hash C = (if bs = [] then hash_fill 0 else header_hash pf (b_header (last bs))) \<and>
     cs_last_timestamp C = (if bs = [] then 0 else bh_timestamp (b_header (last bs))) \<and>
     state_root pf (cs_ledger C) = Some (cs_state_root C)"

lemma default_chain_eq_Some:
  "default_chain_state_with_id pf chain_id = Some C \<longleftrightarrow>
     C = \<lparr>cs_ledger = default_ledger_state, cs_height = 0, cs_tip_hash = hash_fill 0, cs_state_root = pf_blake3 pf [],
       cs_last_timestamp = 0, cs_chain_id = chain_id\<rparr>"
proof -
  have "state_root pf default_ledger_state = Some (pf_blake3 pf [])"
    by (simp add: state_root_def state_root_preimage_def default_ledger_state_def sorted_empty)
  then show ?thesis by (auto simp: default_chain_state_with_id_def)
qed

lemma rebuild_facts:
  assumes "rebuild_chain_state_from_blocks pf dw bs chain_id vs = Ok C"
  shows "chain_tops pf bs C \<and> cs_chain_id C = chain_id \<and> history_linked pf bs"
  using assms
proof (induction bs arbitrary: C rule: rev_induct)
  case Nil
  then have "default_chain_state_with_id pf chain_id = Some C"
    by (auto simp: rebuild_chain_state_from_blocks_def res_simps)
  then show ?case
    by (simp add: default_chain_eq_Some chain_tops_def history_linked_def state_root_def state_root_preimage_def
        default_ledger_state_def sorted_empty)
next
  case (snoc b bs)
  from snoc.prems obtain B where B: "rebuild_chain_state_from_blocks pf dw bs chain_id vs = Ok B"
    "replay_block pf dw vs (length bs, b) B = Ok C"
    by (auto simp: rebuild_append res_simps)
  from B(2) obtain u where v: "validate_replayed_block pf dw (default_registry pf) B b vs = Ok u"
    and app: "chain_apply_block pf dw (default_script_engine pf) B b = (C, Ok ())"
    by (auto simp: replay_block_eq_Ok is_Ok_iff)
  have top: "chain_tops pf bs B" "cs_chain_id B = chain_id" "history_linked pf bs"
    using snoc.IH [OF B(1)] by auto
  have hd: "bh_height (b_header b) = of_nat (length bs) + 1" "bh_parent_hash (b_header b) = cs_tip_hash B"
    "cs_last_timestamp B < bh_timestamp (b_header b)"
    using v top(1) by (auto simp: validate_replayed_block_eq_Ok chain_tops_def dest: add_chk_SomeD)
  obtain L root where C: "state_root pf L = Some root"
    "C = \<lparr>cs_ledger = L, cs_height = bh_height (b_header b), cs_tip_hash = header_hash pf (b_header b),
      cs_state_root = root, cs_last_timestamp = bh_timestamp (b_header b), cs_chain_id = cs_chain_id B\<rparr>"
    using app by (auto simp: chain_apply_block_eq_Ok)
  have "chain_tops pf (bs @ [b]) C" using C hd(1) by (simp add: chain_tops_def)
  moreover have "history_linked pf (bs @ [b])"
  proof -
    have ts: "bh_timestamp (b_header x) < bh_timestamp (b_header b)" if "x \<in> set bs" for x
    proof -
      have ne: "bs \<noteq> []" using that by auto
      then have "bh_timestamp (b_header x) \<le> bh_timestamp (b_header (last bs))"
        using top(3) that
        by (cases bs rule: rev_cases) (auto simp: history_linked_def sorted_wrt_append intro: less_imp_le)
      with hd(3) top(1) ne show ?thesis by (auto simp: chain_tops_def)
    qed
    show ?thesis
      using top hd ts by (auto simp: history_linked_def chain_tops_def nth_append sorted_wrt_append last_conv_nth less_Suc_eq)
  qed
  ultimately show ?case using C top(2) by simp
qed

section \<open>The invariant of a running node\<close>

definition pending_applies :: "platform \<Rightarrow> (bytes \<Rightarrow> input_witness option) \<Rightarrow> node_runtime \<Rightarrow> bool" where
  "pending_applies pf dw rt \<longleftrightarrow>
     is_Ok (snd (apply_transactions pf dw (default_script_engine pf) (nr_pending rt)
       (saturating_add (cs_height (nr_chain rt)) 1) (cs_chain_id (nr_chain rt)) (cs_ledger (nr_chain rt))))"

definition committed_txs :: "node_runtime \<Rightarrow> transaction list" where
  "committed_txs rt = concat (map b_transactions (nr_blocks rt))"

definition runtime_ok ::
  "platform \<Rightarrow> (bytes \<Rightarrow> input_witness option) \<Rightarrow> u32 \<Rightarrow> public_key list \<Rightarrow> node_runtime \<Rightarrow> bool" where
  "runtime_ok pf dw chain_id vs rt \<longleftrightarrow>
     rebuild_chain_state_from_blocks pf dw (nr_blocks rt) chain_id vs = Ok (nr_chain rt) \<and>
     ce_registry (nr_consensus rt) = default_registry pf \<and> (vs = [] \<or> ce_validators (nr_consensus rt) = vs) \<and>
     pending_applies pf dw rt \<and> distinct_ids pf (nr_pending rt) \<and>
     ids_of pf (nr_pending rt) \<inter> ids_of pf (committed_txs rt) = {}"

lemma map_option_list_ids: "map_option_list (tx_id pf) ts = Some is \<Longrightarrow> set is = ids_of pf ts"
  by (induction ts arbitrary: "is") (auto simp: bind_eq_Some_conv ids_of_def)

lemma reconcile_establishes:
  assumes "reconcile_pending_transactions pf dw rt = Some rt'" and "distinct_ids pf (nr_pending rt)"
  shows "rt' = rt\<lparr>nr_pending := nr_pending rt'\<rparr> \<and> pending_applies pf dw rt' \<and> distinct_ids pf (nr_pending rt') \<and>
    set (nr_pending rt') \<subseteq> set (nr_pending rt) \<and> ids_of pf (nr_pending rt') \<inter> ids_of pf (committed_txs rt') = {}"
proof (cases "nr_pending rt = []")
  case True
  with assms show ?thesis
    by (simp add: reconcile_pending_transactions_def pending_applies_def ids_of_def)
next
  case False
  with assms(1) obtain ids kept where ids: "map_option_list (tx_id pf) (committed_txs rt) = Some ids"
    and kept: "reconcile_loop pf dw ids (saturating_add (cs_height (nr_chain rt)) 1) (cs_chain_id (nr_chain rt))
      (nr_pending rt) (cs_ledger (nr_chain rt)) = Some kept" and rt': "rt' = rt\<lparr>nr_pending := kept\<rparr>"
    by (auto simp: reconcile_pending_transactions_def committed_txs_def bind_eq_Some_conv)
  from reconcile_loop_applies [OF kept fewer_assets_refl] have "pending_applies pf dw rt'"
    by (auto simp: rt' pending_applies_def)
  with reconcile_loop_ids [OF kept assms(2)] map_option_list_ids [OF ids] show ?thesis
    by (simp add: rt' committed_txs_def)
qed

lemma runtime_apply_block_cases:
  assumes "runtime_apply_block pf dw js io1 io2 b (rt, fs) = ((rt', fs'), r)" and "r \<noteq> Panic"
  obtains "rt' = rt" "\<exists>e. r = Err e"
    | C u where "validate_block pf dw (nr_consensus rt) (nr_chain rt) b = Ok u"
      "chain_apply_block pf dw (default_script_engine pf) (nr_chain rt) b = (C, Ok ())"
      "reconcile_pending_transactions pf dw (rt\<lparr>nr_chain := C, nr_blocks := nr_blocks rt @ [b]\<rparr>) = Some rt'"
      "r = Ok (cs_height C)"
proof -
  have h: "cs_height (nr_chain rt2) = cs_height (nr_chain rt1)"
    if "reconcile_pending_transactions pf dw rt1 = Some rt2" for rt1 rt2
    using that by (auto simp: reconcile_pending_transactions_def bind_eq_Some_conv split: if_splits)
  show ?thesis
    using assms that h
    by (simp add: runtime_apply_block_def Let_def split: res.splits prod.splits option.splits) auto
qed

lemma replay_with_configured:
  assumes "validate_replayed_block pf dw r C b evs = Ok u" and "vs = [] \<or> evs = vs"
  shows "validate_replayed_block pf dw r C b vs = Ok ()"
  using assms by (auto simp: validate_replayed_block_eq_Ok)

text \<open>A block that the engine accepts on the chain extends the history by one replayable block.\<close>

lemma valid_block_rebuilds:
  assumes "runtime_ok pf dw chain_id vs rt" and "validate_block pf dw (nr_consensus rt) (nr_chain rt) b = Ok u"
    and "chain_apply_block pf dw (default_script_engine pf) (nr_chain rt) b = (C, Ok ())"
  shows "replay_block pf dw vs (length (nr_blocks rt), b) (nr_chain rt) = Ok C"
    and "rebuild_chain_state_from_blocks pf dw (nr_blocks rt @ [b]) chain_id vs = Ok C"
proof -
  note rt = assms(1) [unfolded runtime_ok_def]
  have "validate_replayed_block pf dw (default_registry pf) (nr_chain rt) b (ce_validators (nr_consensus rt)) = Ok u"
    using assms(2) rt by (simp add: validate_block_def)
  then have "validate_replayed_block pf dw (default_registry pf) (nr_chain rt) b vs = Ok ()"
    using replay_with_configured rt by blast
  with assms(3) show "replay_block pf dw vs (length (nr_blocks rt), b) (nr_chain rt) = Ok C"
    by (simp add: replay_block_eq_Ok)
  then show "rebuild_chain_state_from_blocks pf dw (nr_blocks rt @ [b]) chain_id vs = Ok C"
    using rt by (simp add: rebuild_append)
qed

lemma runtime_ok_apply_block:
  assumes "runtime_ok pf dw chain_id vs rt" and "runtime_apply_block pf dw js io1 io2 b (rt, fs) = ((rt', fs'), r)"
    and "r \<noteq> Panic"
  shows "runtime_ok pf dw chain_id vs rt'"
  using assms(2,3)
proof (cases rule: runtime_apply_block_cases)
  case 1
  with assms(1) show ?thesis by simp
next
  case (2 C u)
  let ?rt1 = "rt\<lparr>nr_chain := C, nr_blocks := nr_blocks rt @ [b]\<rparr>"
  note rt = assms(1) [unfolded runtime_ok_def]
  have "distinct_ids pf (nr_pending ?rt1)" using rt by simp
  note rec = reconcile_establishes [OF 2(3) this]
  moreover have "nr_blocks rt' = nr_blocks rt @ [b]" "nr_chain rt' = C" "nr_consensus rt' = nr_consensus rt"
    using rec by (metis node_runtime.select_convs(1,2,4) node_runtime.update_convs(1,2,3) node_runtime.surjective)+
  ultimately show ?thesis
    using rt valid_block_rebuilds [OF assms(1) 2(1,2)] by (simp add: runtime_ok_def)
qed

lemma ids_of_append: "ids_of pf (xs @ ys) = ids_of pf xs \<union> ids_of pf ys"
  by (auto simp: ids_of_def)

lemma admit_transaction_new:
  "admit_transaction pf dw tx rt = Ok (AcceptedNew h) \<longleftrightarrow>
     tx_id pf tx = Some h \<and> transaction_is_committed pf rt h = Some False \<and> any_tx_id pf h (nr_pending rt) = Some False \<and>
     (\<exists>L M. apply_transactions pf dw (default_script_engine pf) (nr_pending rt) (saturating_add (cs_height (nr_chain rt)) 1)
        (cs_chain_id (nr_chain rt)) (cs_ledger (nr_chain rt)) = (L, Ok ()) \<and>
      apply_transaction pf dw (default_script_engine pf) L tx (saturating_add (cs_height (nr_chain rt)) 1)
        (cs_chain_id (nr_chain rt)) = (M, Ok ()))"
proof (cases "apply_transactions pf dw (default_script_engine pf) (nr_pending rt)
    (saturating_add (cs_height (nr_chain rt)) 1) (cs_chain_id (nr_chain rt)) (cs_ledger (nr_chain rt))")
  case (Pair L r)
  note batch = this
  show ?thesis
  proof (cases "apply_transaction pf dw (default_script_engine pf) L tx (saturating_add (cs_height (nr_chain rt)) 1)
      (cs_chain_id (nr_chain rt))")
    case (Pair M r')
    show ?thesis
      by (cases r; cases r'; simp add: admit_transaction_def and_then_eq_Ok expect_eq_Ok Let_def batch Pair)
        (auto split: if_splits)
  qed
qed

lemma accept_transaction_cases:
  assumes "accept_transaction pf dw tx rt = (rt', r)"
  obtains "rt' = rt" "\<forall>h. r \<noteq> Ok (AcceptedNew h)" "admit_transaction pf dw tx rt = r"
    | h where "admit_transaction pf dw tx rt = Ok (AcceptedNew h)" "r = Ok (AcceptedNew h)"
      "rt' = rt\<lparr>nr_pending := nr_pending rt @ [tx]\<rparr>"
proof (cases "\<exists>h. admit_transaction pf dw tx rt = Ok (AcceptedNew h)")
  case True
  then obtain h where h: "admit_transaction pf dw tx rt = Ok (AcceptedNew h)" ..
  show ?thesis by (rule that(2) [OF h]) (use assms h in \<open>auto simp: accept_transaction_def\<close>)
next
  case False
  then have "rt' = rt \<and> r = admit_transaction pf dw tx rt"
    using assms by (auto simp: accept_transaction_def split: res.splits transaction_accept_status.splits)
  with False that(1) show ?thesis by metis
qed

lemma runtime_ok_accept:
  assumes "runtime_ok pf dw chain_id vs rt" and "accept_transaction pf dw tx rt = (rt', r)"
  shows "runtime_ok pf dw chain_id vs rt'"
  using assms(2)
proof (cases rule: accept_transaction_cases)
  case 1
  with assms(1) show ?thesis by simp
next
  case (2 h)
  note adm = 2(1) [unfolded admit_transaction_new] and rt' = 2(3)
  have "h \<notin> ids_of pf (nr_pending rt)" using any_tx_id_eq_Some adm by blast
  moreover have "h \<notin> ids_of pf (committed_txs rt)"
    using any_tx_id_eq_Some adm unfolding transaction_is_committed_def committed_txs_def by blast
  moreover have "pending_applies pf dw rt'"
    using adm by (auto simp: rt' pending_applies_def apply_transactions_append)
  ultimately show ?thesis
    using assms(1) adm
    by (auto simp: rt' runtime_ok_def committed_txs_def ids_of_append distinct_ids_def) (auto simp: ids_of_def)
qed

lemma runtime_ok_produce:
  assumes "runtime_ok pf dw chain_id vs rt" and "produce_one_block pf dw js io1 io2 poisoned now rnd (rt, fs) = ((rt', fs'), r)"
    and "r \<noteq> Panic"
  shows "runtime_ok pf dw chain_id vs rt'"
proof (cases "rt' = rt")
  case False
  with assms(2,3) obtain b r' where "runtime_apply_block pf dw js io1 io2 b (rt, fs) = ((rt', fs'), r')" "r' \<noteq> Panic"
    by (auto simp: produce_one_block_def split: res.splits option.splits bool.splits if_splits prod.splits)
  with runtime_ok_apply_block [OF assms(1)] show ?thesis by blast
qed (use assms(1) in simp)

lemma runtime_ok_start:
  assumes "start_runtime pf dw js rd io sp bp chain_id vs pk sk v e fs = Some (rt, fs')"
  shows "runtime_ok pf dw chain_id vs rt"
proof -
  from assms obtain C bs eng where
    l: "load_or_repair_storage pf dw js rd io sp bp chain_id vs fs = (fs', Ok (C, bs))" and
    eng: "engine_from_keys (default_registry pf) pk sk vs = Ok eng" and
    rt: "nr_chain rt = C" "nr_blocks rt = bs" "nr_pending rt = []" "nr_consensus rt = eng"
    by (auto simp: start_runtime_def split: prod.splits res.splits)
  from l have "rebuild_chain_state_from_blocks pf dw bs chain_id vs = Ok C"
    by (auto simp: load_or_repair_storage_def res_simps Let_def split: res.splits prod.splits if_splits option.splits)
  moreover from eng have "ce_registry eng = default_registry pf" "vs = [] \<or> ce_validators eng = vs"
    by (auto simp: engine_from_keys_def split: if_splits)
  ultimately show ?thesis
    using rt by (simp add: runtime_ok_def pending_applies_def distinct_ids_def ids_of_def)
qed

lemma reachable_ok:
  assumes "runtime_reachable pf dw js chain_id vs s"
  shows "runtime_ok pf dw chain_id vs (fst s)"
  using assms
proof (induction rule: runtime_reachable.induct)
  case (reach_start rd io sp bp pk sk v e fs s)
  then show ?case using runtime_ok_start by (cases s) auto
next
  case (reach_step s s')
  obtain rt fs rt' fs' where s: "s = (rt, fs)" "s' = (rt', fs')" by (cases s; cases s')
  from reach_step(2,3) show ?case
    unfolding s
    by (auto elim!: runtime_stepE dest: runtime_ok_apply_block runtime_ok_accept runtime_ok_produce)
qed

end
