(* ===== verification/QC_Recovery.thy ===== *)
theory QC_Recovery
  imports QC_Runtime
begin

text \<open>
  Durability of the node of \<open>qcoin-node/src/main.rs\<close>: what its two files hold while it runs, and what a
  restart through \<open>load_or_repair_storage\<close> makes of them, whichever system calls failed before.
\<close>

section \<open>What the loaders see\<close>

text \<open>Paths that do not get in each other's way: the two files are different and neither is the other's
  temporary file.\<close>

definition storage_paths :: "path \<Rightarrow> path \<Rightarrow> bool" where
  "storage_paths sp bp \<longleftrightarrow> path_file_name sp \<noteq> None \<and> sp \<noteq> bp \<and> temp_path bp \<noteq> sp \<and> temp_path sp \<noteq> bp"

lemma storage_paths_default:
  assumes "path_file_name sp \<noteq> None"
  shows "storage_paths sp (blocks_path_from_state_path sp)"
proof -
  have ne: "sp \<noteq> []" using assms by (auto simp: path_file_name_def)
  have "length (last (temp_path sp)) < length (last (blocks_path_from_state_path sp))"
    "length (last sp) < length (last (blocks_path_from_state_path sp))"
    "length (last (blocks_path_from_state_path sp)) < length (last (temp_path (blocks_path_from_state_path sp)))"
    using ne by (simp_all add: temp_path_def blocks_path_from_state_path_def)
  with assms show ?thesis by (auto simp: storage_paths_def)
qed

lemma load_block_history_cong:
  "fmlookup fs p = fmlookup fs' p \<Longrightarrow> load_block_history js rd fs p = load_block_history js rd fs' p"
  by (simp add: load_block_history_def)

lemma load_chain_state_cong:
  "fmlookup fs p = fmlookup fs' p \<Longrightarrow> load_chain_state js rd fs p = load_chain_state js rd fs' p"
  unfolding load_chain_state_def by (simp only:)

lemma save_blocks_cases:
  assumes "save_block_history js io bp bs fs = (fs', r)" and "json_codec_ok js" and "storage_paths sp bp"
  shows "load_chain_state js no_read_faults fs' sp = load_chain_state js no_read_faults fs sp \<and>
    (load_block_history js no_read_faults fs' bp = Ok (Some bs) \<or>
       r \<noteq> Ok () \<and> load_block_history js no_read_faults fs' bp = load_block_history js no_read_faults fs bp)"
proof (cases "js_blocks_to js bs")
  case (Ok t)
  with assms(1) have "write_file_atomically io bp t fs = (fs', r)" by (simp add: save_block_history_def)
  from write_cases [OF this] assms(3) have sp: "fmlookup fs' sp = fmlookup fs sp"
    and bp: "r = Ok () \<longrightarrow> fmlookup fs' bp = Some t" "fmlookup fs' bp = fmlookup fs bp \<or> fmlookup fs' bp = Some t"
    by (auto simp: storage_paths_def)
  have "load_block_history js no_read_faults fs' bp = Ok (Some bs)" if "fmlookup fs' bp = Some t"
    using that assms(2) Ok by (simp add: load_block_history_def no_read_faults_def json_codec_ok_def)
  with load_chain_state_cong [OF sp] bp load_block_history_cong [of fs' bp fs] show ?thesis by blast
qed (use assms in \<open>auto simp: save_block_history_def\<close>)

lemma save_chain_cases:
  assumes "save_chain_state js io sp C fs = (fs', r)" and "json_codec_ok js" and "storage_paths sp bp"
  shows "load_block_history js no_read_faults fs' bp = load_block_history js no_read_faults fs bp \<and>
    (load_chain_state js no_read_faults fs' sp = Ok (Some C) \<or>
       r \<noteq> Ok () \<and> load_chain_state js no_read_faults fs' sp = load_chain_state js no_read_faults fs sp)"
proof (cases "js_state_to js (persisted_from_chain C)")
  case (Ok t)
  with assms(1) have "write_file_atomically io sp t fs = (fs', r)" by (simp add: save_chain_state_def)
  from write_cases [OF this] assms(3) have bp: "fmlookup fs' bp = fmlookup fs bp"
    and sp: "r = Ok () \<longrightarrow> fmlookup fs' sp = Some t" "fmlookup fs' sp = fmlookup fs sp \<or> fmlookup fs' sp = Some t"
    unfolding storage_paths_def by metis+
  have "load_chain_state js no_read_faults fs' sp = Ok (Some C)" if "fmlookup fs' sp = Some t"
    using that assms(2) Ok
    by (simp add: load_chain_state_def no_read_faults_def json_codec_ok_def into_persisted)
  with load_block_history_cong [OF bp] sp load_chain_state_cong [of fs' sp fs] show ?thesis by blast
qed (use assms in \<open>auto simp: save_chain_state_def\<close>)

section \<open>What the files of a running node hold\<close>

definition blocks_or_none :: "block list option \<Rightarrow> block list" where
  "blocks_or_none h = (case h of Some bs \<Rightarrow> bs | None \<Rightarrow> [])"

definition disk_ok ::
  "platform \<Rightarrow> (bytes \<Rightarrow> input_witness option) \<Rightarrow> json_codec \<Rightarrow> u32 \<Rightarrow> public_key list \<Rightarrow> node_runtime \<times> file_system \<Rightarrow> bool" where
  "disk_ok pf dw js chain_id vs = (\<lambda>(rt, fs).
     (\<exists>h C c. load_block_history js no_read_faults fs (nr_blocks_path rt) = Ok h \<and>
        (blocks_or_none h = nr_blocks rt \<and> C = nr_chain rt \<or>
          (\<exists>b. blocks_or_none h = nr_blocks rt @ [b] \<and>
            replay_block pf dw vs (length (nr_blocks rt), b) (nr_chain rt) = Ok C)) \<and>
        load_chain_state js no_read_faults fs (nr_state_path rt) = Ok c \<and> (\<forall>S. c = Some S \<longrightarrow> cs_chain_id S = chain_id)))"

lemma reconcile_keeps:
  assumes "reconcile_pending_transactions pf dw rt = Some rt'"
  shows "nr_chain rt' = nr_chain rt \<and> nr_blocks rt' = nr_blocks rt \<and> nr_state_path rt' = nr_state_path rt \<and>
    nr_blocks_path rt' = nr_blocks_path rt \<and> nr_consensus rt' = nr_consensus rt"
  using assms by (auto simp: reconcile_pending_transactions_def bind_eq_Some_conv split: if_splits)

lemma apply_block_paths:
  assumes "runtime_apply_block pf dw js io1 io2 b (rt, fs) = ((rt', fs'), r)"
  shows "nr_state_path rt' = nr_state_path rt \<and> nr_blocks_path rt' = nr_blocks_path rt"
  using assms
  by (auto simp: runtime_apply_block_def Let_def dest: reconcile_keeps split: res.splits prod.splits option.splits)

text \<open>The outcomes of accepting a block, with the calls that led to them.\<close>

lemma runtime_apply_block_stages:
  assumes "runtime_apply_block pf dw js io1 io2 b (rt, fs) = ((rt', fs'), r)"
  obtains "rt' = rt" "fs' = fs" "\<forall>h. r \<noteq> Ok h"
    | C u r1 where "validate_block pf dw (nr_consensus rt) (nr_chain rt) b = Ok u"
        "chain_apply_block pf dw (default_script_engine pf) (nr_chain rt) b = (C, Ok ())"
        "save_block_history js io1 (nr_blocks_path rt) (nr_blocks rt @ [b]) fs = (fs', r1)" "r1 \<noteq> Ok ()" "rt' = rt"
    | C u fs1 r2 where "validate_block pf dw (nr_consensus rt) (nr_chain rt) b = Ok u"
        "chain_apply_block pf dw (default_script_engine pf) (nr_chain rt) b = (C, Ok ())"
        "save_block_history js io1 (nr_blocks_path rt) (nr_blocks rt @ [b]) fs = (fs1, Ok ())"
        "save_chain_state js io2 (nr_state_path rt) C fs1 = (fs', r2)"
        "rt' = rt \<and> r2 \<noteq> Ok () \<or> r2 = Ok () \<and> nr_chain rt' = C \<and> nr_blocks rt' = nr_blocks rt @ [b]"
proof (cases "validate_block pf dw (nr_consensus rt) (nr_chain rt) b")
  case v: (Ok u)
  obtain C ra where a: "chain_apply_block pf dw (default_script_engine pf) (nr_chain rt) b = (C, ra)" by fastforce
  show ?thesis
  proof (cases "ra = Ok ()")
    case True
    obtain fs1 r1 where s1: "save_block_history js io1 (nr_blocks_path rt) (nr_blocks rt @ [b]) fs = (fs1, r1)" by fastforce
    show ?thesis
    proof (cases "r1 = Ok ()")
      case r1: True
      obtain fs2 r2 where s2: "save_chain_state js io2 (nr_state_path rt) C fs1 = (fs2, r2)" by fastforce
      have "fs' = fs2 \<and> (rt' = rt \<and> r2 \<noteq> Ok () \<or> r2 = Ok () \<and> nr_chain rt' = C \<and> nr_blocks rt' = nr_blocks rt @ [b])"
        using assms v a True s1 r1 s2
        by (auto simp: runtime_apply_block_def Let_def dest: reconcile_keeps split: res.splits option.splits)
      then show ?thesis using that(3) [OF v a [unfolded True] s1 [unfolded r1]] s2 by blast
    next
      case False
      with assms v a True s1 have "fs' = fs1 \<and> rt' = rt"
        by (auto simp: runtime_apply_block_def Let_def split: res.splits)
      then show ?thesis using that(2) [OF v a [unfolded True]] s1 False by blast
    qed
  next
    case False
    with assms v a have "rt' = rt \<and> fs' = fs \<and> (\<forall>h. r \<noteq> Ok h)"
      by (auto simp: runtime_apply_block_def split: res.splits)
    then show ?thesis using that(1) by blast
  qed
qed (use assms that(1) in \<open>auto simp: runtime_apply_block_def\<close>)

lemma disk_ok_apply_block:
  assumes "runtime_ok pf dw chain_id vs rt" and "disk_ok pf dw js chain_id vs (rt, fs)"
    and "json_codec_ok js" and "storage_paths (nr_state_path rt) (nr_blocks_path rt)"
    and "runtime_apply_block pf dw js io1 io2 b (rt, fs) = ((rt', fs'), r)"
  shows "disk_ok pf dw js chain_id vs (rt', fs')"
proof -
  note paths = apply_block_paths [OF assms(5)]
  have id: "cs_chain_id C = chain_id"
    if "validate_block pf dw (nr_consensus rt) (nr_chain rt) b = Ok u"
      "chain_apply_block pf dw (default_script_engine pf) (nr_chain rt) b = (C, Ok ())" for C u
    using rebuild_facts [OF valid_block_rebuilds(2) [OF assms(1) that]] by simp
  note old = assms(2) [unfolded disk_ok_def prod.case]
  show ?thesis
    using assms(5)
  proof (cases rule: runtime_apply_block_stages)
    case 1
    with assms(2) show ?thesis by simp
  next
    case (2 C u r1)
    from save_blocks_cases [OF 2(3) assms(3,4)] 2(4)
    show ?thesis
    proof (elim conjE disjE)
      assume "load_block_history js no_read_faults fs' (nr_blocks_path rt) = Ok (Some (nr_blocks rt @ [b]))"
        "load_chain_state js no_read_faults fs' (nr_state_path rt) = load_chain_state js no_read_faults fs (nr_state_path rt)"
      with old valid_block_rebuilds(1) [OF assms(1) 2(1,2)] show ?thesis
        by (auto simp: disk_ok_def 2(5) blocks_or_none_def)
    qed (use old in \<open>simp add: disk_ok_def 2(5)\<close>)
  next
    case (3 C u fs1 r2)
    from save_blocks_cases [OF 3(3) assms(3,4)]
    have fs1: "load_block_history js no_read_faults fs1 (nr_blocks_path rt) = Ok (Some (nr_blocks rt @ [b]))"
      "load_chain_state js no_read_faults fs1 (nr_state_path rt) = load_chain_state js no_read_faults fs (nr_state_path rt)"
      by auto
    from save_chain_cases [OF 3(4) assms(3,4)] fs1 old id [OF 3(1,2)]
    have blocks: "load_block_history js no_read_faults fs' (nr_blocks_path rt) = Ok (Some (nr_blocks rt @ [b]))"
      and state: "\<exists>c. load_chain_state js no_read_faults fs' (nr_state_path rt) = Ok c \<and>
        (\<forall>S. c = Some S \<longrightarrow> cs_chain_id S = chain_id)" by auto
    from 3(5) show ?thesis
    proof (elim conjE disjE)
      assume "rt' = rt"
      with blocks state valid_block_rebuilds(1) [OF assms(1) 3(1,2)] show ?thesis
        by (auto simp: disk_ok_def blocks_or_none_def)
    next
      assume "nr_chain rt' = C" "nr_blocks rt' = nr_blocks rt @ [b]"
      with blocks state paths show ?thesis by (auto simp: disk_ok_def blocks_or_none_def)
    qed
  qed
qed

lemma load_chain_no_fault:
  "load_chain_state js rd fs p = Ok c \<Longrightarrow> load_chain_state js no_read_faults fs p = Ok c"
  by (auto simp: load_chain_state_def no_read_faults_def split: option.splits read_fault.splits)

lemma load_blocks_no_fault:
  "load_block_history js rd fs p = Ok h \<Longrightarrow> rd p \<noteq> Some StatFails \<Longrightarrow> load_block_history js no_read_faults fs p = Ok h"
  by (auto simp: load_block_history_def no_read_faults_def split: option.splits read_fault.splits)

lemma load_or_repair_eq_Ok:
  "load_or_repair_storage pf dw js rd io sp bp chain_id vs fs = (fs', Ok (C, bs)) \<longleftrightarrow>
     (\<exists>c h. load_chain_state js rd fs sp = Ok c \<and> load_block_history js rd fs bp = Ok h \<and> bs = blocks_or_none h \<and>
        rebuild_chain_state_from_blocks pf dw bs chain_id vs = Ok C \<and> (\<forall>S. c = Some S \<longrightarrow> cs_chain_id S = chain_id) \<and>
        (if case c of Some S \<Rightarrow> chain_states_differ S C | None \<Rightarrow> bs \<noteq> []
         then save_chain_state js io sp C fs = (fs', Ok ()) else fs' = fs))"
  (is "?L = ?R")
proof (cases "load_chain_state js rd fs sp")
  case c: (Ok c)
  show ?thesis
  proof (cases "load_block_history js rd fs bp")
    case h: (Ok h)
    have b: "(case h of Some bs \<Rightarrow> bs | None \<Rightarrow> []) = blocks_or_none h" by (simp add: blocks_or_none_def)
    show ?thesis
    proof (cases "rebuild_chain_state_from_blocks pf dw (blocks_or_none h) chain_id vs")
      case (Ok D)
      obtain fs2 r2 where s: "save_chain_state js io sp D fs = (fs2, r2)" by fastforce
      note facts = load_or_repair_storage_def Let_def c h b Ok s
      show ?thesis
      proof (cases "bs = blocks_or_none h \<and> C = D")
        case True
        then have eq: "bs = blocks_or_none h" "C = D" by auto
        show ?thesis unfolding eq by (cases c; cases r2) (simp_all add: facts eq_commute [of fs fs'])
      next
        case False
        then have "\<not> ?R" using c h Ok by auto
        moreover have "\<not> ?L" using False by (cases c; cases r2) (auto simp: facts split: if_splits)
        ultimately show ?thesis by blast
      qed
    qed (auto simp: load_or_repair_storage_def Let_def c h b)
  qed (simp_all add: load_or_repair_storage_def c)
qed (simp_all add: load_or_repair_storage_def)

section \<open>A run of a node\<close>

text \<open>A start that cannot read the metadata of the block history takes it for missing; after every other start
  the files describe the runtime.\<close>

lemma disk_ok_start:
  assumes "start_runtime pf dw js rd io sp bp chain_id vs pk sk v e fs = Some (rt, fs')"
    and "json_codec_ok js" and "storage_paths sp bp" and "rd bp \<noteq> Some StatFails"
  shows "disk_ok pf dw js chain_id vs (rt, fs')" and "nr_state_path rt = sp" and "nr_blocks_path rt = bp"
proof -
  from assms obtain C bs where
    l: "load_or_repair_storage pf dw js rd io sp bp chain_id vs fs = (fs', Ok (C, bs))" and
    rt: "nr_chain rt = C" "nr_blocks rt = bs" "nr_state_path rt = sp" "nr_blocks_path rt = bp"
    by (auto simp: start_runtime_def split: prod.splits res.splits)
  from rt show "nr_state_path rt = sp" and "nr_blocks_path rt = bp" by simp_all
  from l obtain c h where c: "load_chain_state js no_read_faults fs sp = Ok c" "\<forall>S. c = Some S \<longrightarrow> cs_chain_id S = chain_id"
    and h: "load_block_history js no_read_faults fs bp = Ok h" "bs = blocks_or_none h"
    and C: "rebuild_chain_state_from_blocks pf dw bs chain_id vs = Ok C"
    and w: "save_chain_state js io sp C fs = (fs', Ok ()) \<or> fs' = fs"
    unfolding load_or_repair_eq_Ok using assms(4) by (metis load_chain_no_fault load_blocks_no_fault)
  from w show "disk_ok pf dw js chain_id vs (rt, fs')"
  proof
    assume "fs' = fs"
    with c h show ?thesis by (auto simp: disk_ok_def rt)
  next
    assume "save_chain_state js io sp C fs = (fs', Ok ())"
    from save_chain_cases [OF this assms(2,3)] h rebuild_facts [OF C] show ?thesis
      by (auto simp: disk_ok_def rt)
  qed
qed

lemma disk_ok_step:
  assumes "runtime_step pf dw js (rt, fs) (rt', fs')" and "runtime_ok pf dw chain_id vs rt"
    and "disk_ok pf dw js chain_id vs (rt, fs)" and "json_codec_ok js"
    and "storage_paths (nr_state_path rt) (nr_blocks_path rt)"
  shows "disk_ok pf dw js chain_id vs (rt', fs') \<and> nr_state_path rt' = nr_state_path rt \<and> nr_blocks_path rt' = nr_blocks_path rt"
proof -
  have block: ?thesis if "runtime_apply_block pf dw js io1 io2 b (rt, fs) = ((rt', fs'), r)" for io1 io2 b r
    using disk_ok_apply_block [OF assms(2-5) that] apply_block_paths [OF that] by simp
  from assms(1) show ?thesis
  proof (cases rule: runtime_step.cases)
    case (step_transaction tx r)
    with assms(3) show ?thesis
      by (elim accept_transaction_cases) (auto simp: disk_ok_def)
  next
    case (step_produce io1 io2 poisoned now rnd r)
    then have "(rt', fs') = (rt, fs) \<or> (\<exists>b r'. runtime_apply_block pf dw js io1 io2 b (rt, fs) = ((rt', fs'), r'))"
      by (auto simp: produce_one_block_def split: res.splits option.splits bool.splits if_splits prod.splits)
    with block assms(3) show ?thesis by auto
  qed (use block in auto)
qed

lemma disk_ok_steps:
  assumes "(runtime_step pf dw js)\<^sup>*\<^sup>* s t" and "runtime_reachable pf dw js chain_id vs s"
    and "disk_ok pf dw js chain_id vs s" and "json_codec_ok js"
    and "storage_paths (nr_state_path (fst s)) (nr_blocks_path (fst s))"
  shows "runtime_reachable pf dw js chain_id vs t \<and> disk_ok pf dw js chain_id vs t \<and>
    nr_state_path (fst t) = nr_state_path (fst s) \<and> nr_blocks_path (fst t) = nr_blocks_path (fst s)"
  using assms(1)
proof (induction rule: rtranclp_induct)
  case (step t u)
  then have r: "runtime_reachable pf dw js chain_id vs t" by simp
  from disk_ok_step [of pf dw js "fst t" "snd t" "fst u" "snd u"] step reachable_ok [OF r] assms(4,5)
  have "disk_ok pf dw js chain_id vs u \<and> nr_state_path (fst u) = nr_state_path (fst t) \<and> nr_blocks_path (fst u) = nr_blocks_path (fst t)"
    by simp
  with step reach_step [OF r] show ?case by simp
qed (use assms in simp)

lemma run_disk_ok:
  assumes "start_runtime pf dw js rd io sp bp chain_id vs pk sk v e fs0 = Some s0" and "rd bp \<noteq> Some StatFails"
    and "(runtime_step pf dw js)\<^sup>*\<^sup>* s0 s" and "json_codec_ok js" and "storage_paths sp bp"
  shows "runtime_reachable pf dw js chain_id vs s" and "disk_ok pf dw js chain_id vs s"
    and "nr_state_path (fst s) = sp" and "nr_blocks_path (fst s) = bp"
proof -
  obtain rt0 fs0' where s0: "s0 = (rt0, fs0')" by (cases s0)
  note start = disk_ok_start [OF assms(1) [unfolded s0] assms(4,5,2)]
  from disk_ok_steps [OF assms(3) reach_start [OF assms(1)]] start assms(4,5)
  show "runtime_reachable pf dw js chain_id vs s" and "disk_ok pf dw js chain_id vs s"
    and "nr_state_path (fst s) = sp" and "nr_blocks_path (fst s) = bp"
    by (simp_all add: s0)
qed

section \<open>Samples\<close>

definition sample_first_block :: block where
  "sample_first_block = sample_block\<lparr>b_header := (b_header sample_block)\<lparr>bh_state_root := hash_fill 0\<rparr>\<rparr>"

definition sample_first_chain :: chain_state where
  "sample_first_chain = \<lparr>cs_ledger = default_ledger_state, cs_height = 1,
     cs_tip_hash = header_hash (sample_platform True) (b_header sample_first_block), cs_state_root = hash_fill 0,
     cs_last_timestamp = 3, cs_chain_id = 0\<rparr>"

definition sample_genesis :: chain_state where
  "sample_genesis = \<lparr>cs_ledger = default_ledger_state, cs_height = 0, cs_tip_hash = hash_fill 0, cs_state_root = hash_fill 0,
     cs_last_timestamp = 0, cs_chain_id = 0\<rparr>"

definition sample_runtime :: node_runtime where
  "sample_runtime = \<lparr>nr_chain = sample_genesis, nr_blocks = [], nr_pending = [], nr_consensus = sample_engine True,
     nr_state_path = [''d'', ''s''], nr_blocks_path = [''d'', ''b''], nr_node_public_key_hex = to_hex [1], nr_node_is_validator = True,
     nr_produce_empty_blocks = True\<rparr>"

text \<open>A codec for two values, and a run in which the state file cannot be written.\<close>

definition sample_js :: json_codec where
  "sample_js = \<lparr>js_state_to = (\<lambda>s. if s = persisted_from_chain sample_first_chain then Ok ''chain'' else Err ''no''),
     js_state_from = (\<lambda>t. if t = ''chain'' then Ok (persisted_from_chain sample_first_chain) else Err ''no''),
     js_legacy_from = (\<lambda>t. Err ''no''),
     js_blocks_to = (\<lambda>bs. if bs = [sample_first_block] then Ok ''blocks'' else Err ''no''),
     js_blocks_from = (\<lambda>t. if t = ''blocks'' then Ok [sample_first_block] else Err ''no'')\<rparr>"

lemma sample_js_ok: "json_codec_ok sample_js"
  by (simp add: json_codec_ok_def sample_js_def)

definition io_full_disk :: io_outcome where
  "io_full_disk = io_ok\<lparr>io_create := Some ''no space''\<rparr>"

lemma sample_empty_root: "state_root (sample_platform oc) default_ledger_state = Some (hash_fill 0)"
  by (simp add: state_root_def state_root_preimage_def default_ledger_state_def sorted_empty)

lemma sample_first_header:
  "bh_height (b_header sample_first_block) = 1" "bh_timestamp (b_header sample_first_block) = 3"
  "bh_parent_hash (b_header sample_first_block) = hash_fill 0" "bh_tx_root (b_header sample_first_block) = hash_fill 0"
  "bh_state_root (b_header sample_first_block) = hash_fill 0" "b_transactions sample_first_block = []"
  "b_proposer_public_key sample_first_block = ce_public_key (sample_engine oc)"
  "b_signature sample_first_block = \<lparr>sig_scheme = Dilithium2, sig_bytes = [1]\<rparr>"
  by (simp_all add: sample_first_block_def sample_block_def sample_engine_def)

lemma sample_genesis_sel: "cs_height sample_genesis = 0" "cs_tip_hash sample_genesis = hash_fill 0"
  "cs_last_timestamp sample_genesis = 0" "cs_ledger sample_genesis = default_ledger_state" "cs_chain_id sample_genesis = 0"
  by (simp_all add: sample_genesis_def)

lemma sample_first_validates:
  "validate_block (sample_platform True) dw (sample_engine True) sample_genesis sample_first_block = Ok ()"
  unfolding validate_block_def validate_replayed_block_eq_Ok compute_state_root_eq_Ok
  by (rule exI [of _ "dilithium2_scheme (sample_platform True)"])
    (simp add: sample_first_header(1-6,8) sample_first_header(7) [of True] sample_genesis_sel sample_signs sample_proposer
      sample_empty_tx_root default_registry_get sample_empty_root add_chk_def sample_engine_sel(1))

lemma sample_first_applies:
  "chain_apply_block (sample_platform True) dw eng sample_genesis sample_first_block = (sample_first_chain, Ok ())"
  unfolding chain_apply_block_eq_Ok
  by (simp add: sample_first_header sample_genesis_sel sample_empty_root sample_first_chain_def)

lemma sample_start:
  "start_runtime (sample_platform True) dw sample_js no_read_faults io_ok [''d'', ''s''] [''d'', ''b''] 0 []
     \<lparr>pk_scheme = Dilithium2, pk_bytes = [1]\<rparr> \<lparr>sk_scheme = Dilithium2, sk_bytes = [1]\<rparr> True True fmempty
   = Some (sample_runtime, fmempty)"
  by (simp add: start_runtime_def load_or_repair_storage_def load_chain_state_def load_block_history_def no_read_faults_def
      rebuild_chain_state_from_blocks_def default_chain_state_with_id_def sample_empty_root engine_from_keys_def
      sample_runtime_def sample_genesis_def sample_engine_def)

lemma sample_storage: "storage_paths [''d'', ''s''] [''d'', ''b'']"
  by (simp add: storage_paths_def path_file_name_def temp_path_def)

lemma sample_savable: "savable [''d'', ''s'']"
  by simp

lemma sample_runtime_sel: "nr_chain sample_runtime = sample_genesis" "nr_blocks sample_runtime = []"
  "nr_pending sample_runtime = []" "nr_consensus sample_runtime = sample_engine True"
  "nr_state_path sample_runtime = [''d'', ''s'']" "nr_blocks_path sample_runtime = [''d'', ''b'']" "nr_produce_empty_blocks sample_runtime"
  by (simp_all add: sample_runtime_def)

text \<open>With a full disk at the second write the block is refused, but its history is on disk.\<close>

lemma sample_crash:
  "runtime_apply_block (sample_platform True) dw sample_js io_ok io_full_disk sample_first_block (sample_runtime, fmempty)
     = ((sample_runtime, fmupd [''d'', ''b''] ''blocks'' fmempty), Err ''no space'')"
proof -
  have "fmdrop [''d'', ''b.tmp''] fmempty = (fmempty :: file_system)" by simp
  then show ?thesis
    by (simp add: runtime_apply_block_def sample_runtime_sel sample_first_validates sample_first_applies Let_def
        save_block_history_def save_chain_state_def sample_js_def write_file_atomically_def io_ok_def io_full_disk_def
        path_parent_def path_file_name_def sync_parent_dir_def temp_path_def)
qed

lemma sample_accepts:
  "runtime_apply_block (sample_platform True) dw sample_js io_ok io_ok sample_first_block (sample_runtime, fmempty)
     = ((sample_runtime\<lparr>nr_chain := sample_first_chain, nr_blocks := [sample_first_block]\<rparr>,
         fmupd [''d'', ''s''] ''chain'' (fmupd [''d'', ''b''] ''blocks'' fmempty)), Ok 1)"
proof -
  have "fmdrop [''d'', ''b.tmp''] fmempty = (fmempty :: file_system)" by simp
  moreover have "fmdrop [''d'', ''s.tmp''] (fmupd [''d'', ''b''] ''blocks'' fmempty) = (fmupd [''d'', ''b''] ''blocks'' fmempty :: file_system)"
    by (simp add: fmdrop_fmupd)
  ultimately show ?thesis
    by (simp add: runtime_apply_block_def sample_runtime_sel sample_first_validates sample_first_applies Let_def
        save_block_history_def save_chain_state_def sample_js_def write_file_atomically_def io_ok_def
        path_parent_def path_file_name_def sync_parent_dir_def temp_path_def reconcile_pending_transactions_def
        sample_first_chain_def)
qed

lemma sample_accepted_reachable:
  "runtime_reachable (sample_platform True) dw sample_js 0 []
     (sample_runtime\<lparr>nr_chain := sample_first_chain, nr_blocks := [sample_first_block]\<rparr>,
      fmupd [''d'', ''s''] ''chain'' (fmupd [''d'', ''b''] ''blocks'' fmempty))"
  by (rule reach_step [OF reach_start [OF sample_start] step_block [OF sample_accepts]]) simp

section \<open>Properties\<close>

text \<open>C5. In every state a node can reach from a successful start, by blocks, transactions and block production
  in any order and with any system call failing: the chain state is the replay of the block history; the
  heights of the blocks count from 1, each names the hash of its predecessor's header, and their
  timestamps increase; the tip, the height, the last timestamp and the state root of the chain describe
  its last block and its ledger; the mempool applies as a whole on top of the chain; and the transactions
  in it have different ids, none of which is committed already.\<close>

theorem running_node_invariant:
  assumes "runtime_reachable pf dw js chain_id vs (rt, fs)"
  shows "rebuild_chain_state_from_blocks pf dw (nr_blocks rt) chain_id vs = Ok (nr_chain rt) \<and>
    history_linked pf (nr_blocks rt) \<and> chain_tops pf (nr_blocks rt) (nr_chain rt) \<and> cs_chain_id (nr_chain rt) = chain_id \<and>
    pending_applies pf dw rt \<and> distinct_ids pf (nr_pending rt) \<and>
    ids_of pf (nr_pending rt) \<inter> ids_of pf (committed_txs rt) = {}"
  using reachable_ok [OF assms] rebuild_facts [of pf dw "nr_blocks rt" chain_id vs "nr_chain rt"]
  by (simp add: runtime_ok_def)

theorem running_node_invariant_witness:
  "rebuild_chain_state_from_blocks (sample_platform True) sample_dw [sample_first_block] 0 [] = Ok sample_first_chain \<and>
   history_linked (sample_platform True) [sample_first_block] \<and>
   chain_tops (sample_platform True) [sample_first_block] sample_first_chain"
  using running_node_invariant [OF sample_accepted_reachable [of sample_dw]] by simp

text \<open>C29. Accepting a block is all or nothing in memory, and durable: if \<open>apply_block\<close> reports an error the
  runtime is what it was; if it reports a height, the block was valid on the old chain, the new chain is
  the result of applying it, the history grew by exactly this block, and both files, read back, give
  exactly the chain and the history that the runtime holds.\<close>

theorem accepted_block_is_durable:
  assumes "runtime_apply_block pf dw js io1 io2 b (rt, fs) = ((rt', fs'), r)" and "json_codec_ok js"
    and "storage_paths (nr_state_path rt) (nr_blocks_path rt)"
  shows "case r of
      Err e \<Rightarrow> rt' = rt
    | Ok h \<Rightarrow> validate_block pf dw (nr_consensus rt) (nr_chain rt) b = Ok () \<and>
        chain_apply_block pf dw (default_script_engine pf) (nr_chain rt) b = (nr_chain rt', Ok ()) \<and>
        nr_blocks rt' = nr_blocks rt @ [b] \<and> h = cs_height (nr_chain rt') \<and>
        load_block_history js no_read_faults fs' (nr_blocks_path rt) = Ok (Some (nr_blocks rt')) \<and>
        load_chain_state js no_read_faults fs' (nr_state_path rt) = Ok (Some (nr_chain rt'))
    | Panic \<Rightarrow> True"
proof (cases r)
  case (Ok h)
  then have "r \<noteq> Panic" by simp
  note c = runtime_apply_block_cases [OF assms(1) this]
  have h: "h = cs_height (nr_chain rt')" using assms(1) Ok
    by (auto simp: runtime_apply_block_def Let_def split: res.splits prod.splits option.splits)
  have len: "nr_blocks rt' \<noteq> nr_blocks rt" using c reconcile_keeps Ok by fastforce
  show ?thesis
    using assms(1)
  proof (cases rule: runtime_apply_block_stages)
    case (3 C u fs1 r2)
    with len have s: "r2 = Ok ()" "nr_chain rt' = C" "nr_blocks rt' = nr_blocks rt @ [b]" by auto
    from save_blocks_cases [OF 3(3) assms(2,3)] save_chain_cases [OF 3(4) assms(2,3)] 3(1,2) s h show ?thesis
      by (simp add: Ok)
  qed (use len Ok in auto)
next
  case (Err e)
  then have "r \<noteq> Panic" by simp
  with assms(1) show ?thesis by (cases rule: runtime_apply_block_cases) (auto simp: Err)
qed simp

theorem accepted_block_is_durable_witness:
  "load_chain_state sample_js no_read_faults (fmupd [''d'', ''s''] ''chain'' (fmupd [''d'', ''b''] ''blocks'' fmempty)) [''d'', ''s'']
     = Ok (Some sample_first_chain)"
  using accepted_block_is_durable [OF sample_accepts [of sample_dw] sample_js_ok] sample_storage
  by (simp add: sample_runtime_sel)

text \<open>C6. No accepted block is lost, whatever system calls fail after a start that could read the metadata of the
  block history: from the files of a node in any state it reaches from such a start, in particular after any
  prefix of the system calls that persist a block, a restart with working files succeeds unless the state
  cannot be serialised or its path is a bare file name. It comes up with the history the node had, or with
  that history and one more block which is valid on it (a block that was being written when a call failed),
  and with the chain state that is the replay of that history. A restart that cannot read the metadata of the
  block history is not like this: it takes the history for missing and comes up with an empty one.\<close>

theorem restart_recovers:
  assumes "start_runtime pf dw js rd io sp bp chain_id vs pk sk v e fs0 = Some s0" and "rd bp \<noteq> Some StatFails"
    and "(runtime_step pf dw js)\<^sup>*\<^sup>* s0 (rt, fs)" and "json_codec_ok js" and "storage_paths sp bp" and "savable sp"
  shows "(\<exists>C bs. rebuild_chain_state_from_blocks pf dw bs chain_id vs = Ok C \<and>
      (bs = nr_blocks rt \<and> C = nr_chain rt \<or>
        (\<exists>b. bs = nr_blocks rt @ [b] \<and> replay_block pf dw vs (length (nr_blocks rt), b) (nr_chain rt) = Ok C)) \<and>
      ((\<exists>fs'. load_or_repair_storage pf dw js no_read_faults io_ok sp bp chain_id vs fs = (fs', Ok (C, bs))) \<or>
        (\<exists>e. js_state_to js (persisted_from_chain C) = Err e))) \<and>
    (\<exists>G. rebuild_chain_state_from_blocks pf dw [] chain_id vs = Ok G \<and>
      ((\<exists>fs'. load_or_repair_storage pf dw js (no_read_faults(bp := Some StatFails)) io_ok sp bp chain_id vs fs = (fs', Ok (G, []))) \<or>
        (\<exists>e. js_state_to js (persisted_from_chain G) = Err e)))"
proof -
  note run = run_disk_ok [OF assms(1-5)]
  have ok: "rebuild_chain_state_from_blocks pf dw (nr_blocks rt) chain_id vs = Ok (nr_chain rt)"
    using reachable_ok [OF run(1)] by (simp add: runtime_ok_def)
  from run(2-4) obtain h C c where
    h: "load_block_history js no_read_faults fs bp = Ok h" and
    bs: "blocks_or_none h = nr_blocks rt \<and> C = nr_chain rt \<or>
      (\<exists>b. blocks_or_none h = nr_blocks rt @ [b] \<and> replay_block pf dw vs (length (nr_blocks rt), b) (nr_chain rt) = Ok C)" and
    c: "load_chain_state js no_read_faults fs sp = Ok c" "\<forall>S. c = Some S \<longrightarrow> cs_chain_id S = chain_id"
    by (auto simp: disk_ok_def)
  have C: "rebuild_chain_state_from_blocks pf dw (blocks_or_none h) chain_id vs = Ok C"
    using bs ok by (auto simp: rebuild_append)
  obtain G where G: "rebuild_chain_state_from_blocks pf dw [] chain_id vs = Ok G"
    using ok by (auto simp: rebuild_chain_state_from_blocks_def res_simps)
  have load: "(\<exists>fs'. load_or_repair_storage pf dw js rd' io_ok sp bp chain_id vs fs = (fs', Ok (D, ds))) \<or>
      (\<exists>e. js_state_to js (persisted_from_chain D) = Err e)"
    if "load_chain_state js rd' fs sp = Ok c" "load_block_history js rd' fs bp = Ok d" "ds = blocks_or_none d"
      "rebuild_chain_state_from_blocks pf dw ds chain_id vs = Ok D" for rd' d ds D
  proof (cases "js_state_to js (persisted_from_chain D)")
    case (Ok t)
    then have "\<exists>fs'. if e then save_chain_state js io_ok sp D fs = (fs', Ok ()) else fs' = fs" for e
      using write_ok [OF assms(6), of t fs] by (cases e) (simp_all add: save_chain_state_def)
    with that c(2) show ?thesis unfolding load_or_repair_eq_Ok by blast
  qed (use assms(4) in \<open>auto simp: json_codec_ok_def\<close>)
  have unseen: "load_chain_state js (no_read_faults(bp := Some StatFails)) fs sp = Ok c"
    "load_block_history js (no_read_faults(bp := Some StatFails)) fs bp = Ok None"
    using c(1) assms(5) by (auto simp: load_chain_state_def load_block_history_def no_read_faults_def storage_paths_def
        split: option.splits)
  from load [OF c(1) h refl C] load [OF unseen _ G] C bs G show ?thesis
    by (auto simp: blocks_or_none_def)
qed

theorem restart_recovers_witness:
  "(\<exists>C bs. rebuild_chain_state_from_blocks (sample_platform True) sample_dw bs 0 [] = Ok C \<and>
    ((\<exists>fs'. load_or_repair_storage (sample_platform True) sample_dw sample_js no_read_faults io_ok [''d'', ''s''] [''d'', ''b''] 0 []
        (fmupd [''d'', ''b''] ''blocks'' fmempty) = (fs', Ok (C, bs))) \<or> (\<exists>e. js_state_to sample_js (persisted_from_chain C) = Err e))) \<and>
   (runtime_step (sample_platform True) sample_dw sample_js)\<^sup>*\<^sup>* (sample_runtime, fmempty)
     (sample_runtime, fmupd [''d'', ''b''] ''blocks'' fmempty)"
proof -
  have "(runtime_step (sample_platform True) sample_dw sample_js)\<^sup>*\<^sup>* (sample_runtime, fmempty)
     (sample_runtime, fmupd [''d'', ''b''] ''blocks'' fmempty)"
    by (rule r_into_rtranclp [of "runtime_step (sample_platform True) sample_dw sample_js"], rule step_block [OF sample_crash]) simp
  with restart_recovers [OF sample_start _ this sample_js_ok sample_storage sample_savable] show ?thesis
    by (auto simp: no_read_faults_def)
qed

end
