(* ===== verification/QC_Mempool.thy ===== *)
theory QC_Mempool
  imports QC_Recovery
begin

text \<open>
  The mempool and block production of \<open>qcoin-node/src/main.rs\<close>: no two transactions of the mempool spend
  the same output, a node whose turn it is commits its whole mempool, and the chain halts at the
  greatest timestamp.
\<close>

section \<open>Where outputs come from\<close>

definition input_keys :: "transaction \<Rightarrow> utxo_key set" where
  "input_keys tx = input_key ` set (tc_inputs (tx_core tx))"

lemma ids_of_Cons: "ids_of pf (t # ts) = (case tx_id pf t of Some h \<Rightarrow> {h} | None \<Rightarrow> {}) \<union> ids_of pf ts"
  by (auto simp: ids_of_def split: option.splits)

lemma apply_transactions_Cons:
  assumes "apply_transactions pf dw eng (t # ts) height ch L = (M, Ok u)"
  obtains L1 where "apply_transaction pf dw eng L t height ch = (L1, Ok ())" "apply_transactions pf dw eng ts height ch L1 = (M, Ok ())"
  using assms by (auto split: prod.splits res.splits)

lemma applied_lookup:
  assumes "apply_transaction pf dw eng L t height ch = (L', Ok u)"
  obtains h where "tx_id pf t = Some h"
    "\<And>k. uk_tx_id k \<noteq> h \<Longrightarrow> fmlookup (ls_utxos L') k = (if k \<in> input_keys t then None else fmlookup (ls_utxos L) k)"
  using applied_inputs [OF assms]
  by (auto simp: fmlookup_insert_outputs fmlookup_remove_consumed core_fits_def input_keys_def)

text \<open>A new entry of the UTXO set carries the id of an applied transaction.\<close>

lemma applied_keys:
  assumes "apply_transactions pf dw eng ts height ch L = (M, Ok ())" and "fmlookup (ls_utxos M) k \<noteq> None"
  shows "fmlookup (ls_utxos L) k \<noteq> None \<or> uk_tx_id k \<in> ids_of pf ts"
  using assms
proof (induction ts arbitrary: L)
  case (Cons t ts)
  from Cons.prems(1) obtain L1 where 1: "apply_transaction pf dw eng L t height ch = (L1, Ok ())"
    "apply_transactions pf dw eng ts height ch L1 = (M, Ok ())" by (rule apply_transactions_Cons)
  obtain h where h: "tx_id pf t = Some h"
    "\<And>k. uk_tx_id k \<noteq> h \<Longrightarrow> fmlookup (ls_utxos L1) k = (if k \<in> input_keys t then None else fmlookup (ls_utxos L) k)"
    using applied_lookup [OF 1(1)] by metis
  from Cons.IH [of L1] 1(2) Cons.prems(2) h show ?case
    by (cases "uk_tx_id k = h") (auto simp: ids_of_Cons split: if_splits)
qed simp

text \<open>An absent output that no transaction of a batch can create is spent by none of them.\<close>

lemma absent_not_spent:
  assumes "apply_transactions pf dw eng ts height ch L = (M, Ok ())" and "fmlookup (ls_utxos L) k = None"
    and "uk_tx_id k \<notin> ids_of pf ts" and "t \<in> set ts"
  shows "k \<notin> input_keys t"
  using assms
proof (induction ts arbitrary: L)
  case (Cons t' ts)
  from Cons.prems(1) obtain L1 where 1: "apply_transaction pf dw eng L t' height ch = (L1, Ok ())"
    "apply_transactions pf dw eng ts height ch L1 = (M, Ok ())" by (rule apply_transactions_Cons)
  obtain h where h: "tx_id pf t' = Some h"
    "\<And>k. uk_tx_id k \<noteq> h \<Longrightarrow> fmlookup (ls_utxos L1) k = (if k \<in> input_keys t' then None else fmlookup (ls_utxos L) k)"
    using applied_lookup [OF 1(1)] by metis
  have "k \<notin> input_keys t'" using applied_inputs_exist [OF 1(1)] Cons.prems(2) by (force simp: input_keys_def)
  moreover have "fmlookup (ls_utxos L1) k = None"
    using h Cons.prems(2,3) by (auto simp: ids_of_Cons)
  ultimately show ?case
    using Cons.IH [of L1] 1(2) Cons.prems(3,4) h(1) by (auto simp: ids_of_Cons)
qed simp

lemma batch_conflict_free:
  assumes "apply_transactions pf dw eng ts height ch L = (M, Ok ())" and "distinct_ids pf ts"
    and "\<And>k. fmlookup (ls_utxos L) k \<noteq> None \<Longrightarrow> uk_tx_id k \<notin> ids_of pf ts"
  shows "sorted_wrt (\<lambda>t t'. input_keys t \<inter> input_keys t' = {}) ts"
  using assms
proof (induction ts arbitrary: L)
  case (Cons t ts)
  from Cons.prems(1) obtain L1 where 1: "apply_transaction pf dw eng L t height ch = (L1, Ok ())"
    "apply_transactions pf dw eng ts height ch L1 = (M, Ok ())" by (rule apply_transactions_Cons)
  obtain h where h: "tx_id pf t = Some h"
    "\<And>k. uk_tx_id k \<noteq> h \<Longrightarrow> fmlookup (ls_utxos L1) k = (if k \<in> input_keys t then None else fmlookup (ls_utxos L) k)"
    using applied_lookup [OF 1(1)] by metis
  have d: "distinct_ids pf ts" "h \<notin> ids_of pf ts"
    using Cons.prems(2) h(1) by (auto simp: distinct_ids_def ids_of_def rev_image_eqI)
  have "k \<notin> input_keys t'" if k: "k \<in> input_keys t" and t': "t' \<in> set ts" for k t'
  proof -
    have "fmlookup (ls_utxos L) k \<noteq> None" using applied_inputs_exist [OF 1(1)] k by (auto simp: input_keys_def)
    with Cons.prems(3) h(1) have id: "uk_tx_id k \<noteq> h" "uk_tx_id k \<notin> ids_of pf ts" by (auto simp: ids_of_Cons)
    with h(2) k have "fmlookup (ls_utxos L1) k = None" by simp
    with absent_not_spent [OF 1(2) _ id(2) t'] show ?thesis by blast
  qed
  moreover have "uk_tx_id k \<notin> ids_of pf ts" if "fmlookup (ls_utxos L1) k \<noteq> None" for k
    using that h Cons.prems(3) [of k] d(2) by (cases "uk_tx_id k = h") (auto simp: ids_of_Cons split: if_splits)
  ultimately show ?case using Cons.IH [OF 1(2) d(1)] by auto
qed simp

text \<open>Every output on a chain was created by a committed transaction, and committed transactions have ids.\<close>

lemma rebuild_keys:
  assumes "rebuild_chain_state_from_blocks pf dw bs chain_id vs = Ok C"
  shows "(\<forall>k. fmlookup (ls_utxos (cs_ledger C)) k \<noteq> None \<longrightarrow> uk_tx_id k \<in> ids_of pf (concat (map b_transactions bs))) \<and>
    (\<forall>t\<in>set (concat (map b_transactions bs)). tx_id pf t \<noteq> None)"
  using assms
proof (induction bs arbitrary: C rule: rev_induct)
  case Nil
  then have "cs_ledger C = default_ledger_state"
    by (auto simp: rebuild_chain_state_from_blocks_def res_simps default_chain_eq_Some)
  then show ?case by (simp add: default_ledger_state_def)
next
  case (snoc b bs)
  from snoc.prems obtain B where B: "rebuild_chain_state_from_blocks pf dw bs chain_id vs = Ok B"
    "replay_block pf dw vs (length bs, b) B = Ok C"
    by (auto simp: rebuild_append res_simps)
  from B(2) obtain u where v: "validate_replayed_block pf dw (default_registry pf) B b vs = Ok u"
    and app: "chain_apply_block pf dw (default_script_engine pf) B b = (C, Ok ())"
    by (auto simp: replay_block_eq_Ok is_Ok_iff)
  from app have "apply_transactions pf dw (default_script_engine pf) (b_transactions b) (bh_height (b_header b))
      (cs_chain_id B) (cs_ledger B) = (cs_ledger C, Ok ())"
    by (auto simp: chain_apply_block_eq_Ok)
  note keys = applied_keys [OF this]
  have "tx_id pf t \<noteq> None" if "t \<in> set (b_transactions b)" for t
    using v that by (auto simp: validate_replayed_block_eq_Ok compute_tx_root_def bind_eq_Some_conv map_option_list_eq_Some
        in_set_conv_nth)
  with keys snoc.IH [OF B(1)] show ?case by (auto simp: ids_of_append)
qed

section \<open>Production\<close>

lemma pending_covered:
  "ids_of pf txs \<subseteq> set committed \<Longrightarrow> None \<notin> tx_id pf ` set txs
     \<Longrightarrow> reconcile_loop pf dw committed height ch txs L = Some []"
proof (induction txs)
  case (Cons t txs)
  then obtain h where "tx_id pf t = Some h" by (cases "tx_id pf t") auto
  with Cons show ?case by (simp add: ids_of_Cons)
qed simp

text \<open>After a block with the whole mempool, nothing is left of it.\<close>

lemma reconcile_clears:
  assumes "None \<notin> tx_id pf ` set (committed_txs rt)" and "ids_of pf (nr_pending rt) \<subseteq> ids_of pf (committed_txs rt)"
    and "None \<notin> tx_id pf ` set (nr_pending rt)"
  shows "reconcile_pending_transactions pf dw rt = Some (rt\<lparr>nr_pending := []\<rparr>)"
proof (cases "nr_pending rt = []")
  case True
  then show ?thesis by (cases rt) (simp add: reconcile_pending_transactions_def)
next
  case False
  obtain ids where ids: "map_option_list (tx_id pf) (committed_txs rt) = Some ids"
    using assms(1) map_option_list_None [of "tx_id pf" "committed_txs rt"]
    by (cases "map_option_list (tx_id pf) (committed_txs rt)") (auto simp: rev_image_eqI)
  have "reconcile_loop pf dw ids h ch (nr_pending rt) L = Some []" for h ch L
    by (rule pending_covered) (use assms map_option_list_ids [OF ids] in auto)
  with ids False show ?thesis by (simp add: reconcile_pending_transactions_def committed_txs_def)
qed

lemma saturating_next: "c \<noteq> - 1 \<Longrightarrow> saturating_add c 1 = (c + 1 :: u64)"
proof -
  assume "c \<noteq> - 1"
  then have "c < - 1" by (simp add: word_order.not_eq_extremum)
  then have "unat c < 2 ^ 64 - 1" by (simp add: word_less_nat_alt unsigned_minus_1_eq_mask mask_eq_exp_minus_1)
  then show ?thesis by (simp add: saturating_add_exact)
qed

text \<open>With working files, \<open>apply_block\<close> succeeds on a valid block.\<close>

definition json_writes :: "json_codec \<Rightarrow> bool" where
  "json_writes js \<longleftrightarrow> (\<forall>s. is_Ok (js_state_to js s)) \<and> (\<forall>bs. is_Ok (js_blocks_to js bs))"

lemma apply_block_persists:
  assumes "validate_block pf dw (nr_consensus rt) (nr_chain rt) b = Ok u"
    and "chain_apply_block pf dw (default_script_engine pf) (nr_chain rt) b = (C, Ok ())"
    and "json_writes js" and "savable (nr_state_path rt)" and "savable (nr_blocks_path rt)"
  shows "\<exists>fs'. runtime_apply_block pf dw js io_ok io_ok b (rt, fs) =
    (let rt1 = rt\<lparr>nr_chain := C, nr_blocks := nr_blocks rt @ [b]\<rparr> in
     case reconcile_pending_transactions pf dw rt1 of Some rt' \<Rightarrow> ((rt', fs'), Ok (cs_height C)) | None \<Rightarrow> ((rt1, fs'), Panic))"
proof -
  obtain t1 t2 where t: "js_blocks_to js (nr_blocks rt @ [b]) = Ok t1" "js_state_to js (persisted_from_chain C) = Ok t2"
    using assms(3) unfolding json_writes_def is_Ok_iff by meson
  obtain fs1 where 1: "save_block_history js io_ok (nr_blocks_path rt) (nr_blocks rt @ [b]) fs = (fs1, Ok ())"
    using t(1) assms(5) write_ok [of "nr_blocks_path rt" t1 fs] by (auto simp: save_block_history_def)
  obtain fs2 where 2: "save_chain_state js io_ok (nr_state_path rt) C fs1 = (fs2, Ok ())"
    using t(2) assms(4) write_ok [of "nr_state_path rt" t2 fs1] by (auto simp: save_chain_state_def)
  show ?thesis
    using assms(1,2) 1 2 by (auto simp: runtime_apply_block_def Let_def dest: reconcile_keeps split: option.splits)
qed

lemma apply_block_succeeds:
  assumes "validate_block pf dw (nr_consensus rt) (nr_chain rt) b = Ok u"
    and "chain_apply_block pf dw (default_script_engine pf) (nr_chain rt) b = (C, Ok ())"
    and "json_writes js" and "savable (nr_state_path rt)" and "savable (nr_blocks_path rt)"
    and "reconcile_pending_transactions pf dw (rt\<lparr>nr_chain := C, nr_blocks := nr_blocks rt @ [b]\<rparr>) = Some rt'"
  shows "\<exists>fs'. runtime_apply_block pf dw js io_ok io_ok b (rt, fs) = ((rt', fs'), Ok (cs_height C))"
  using apply_block_persists [OF assms(1-5), of fs] assms(6) by (simp add: Let_def)

text \<open>The state root of the next block exists, since the mempool applies.\<close>

lemma pending_root:
  assumes "runtime_ok pf dw chain_id vs rt" and "cs_height (nr_chain rt) \<noteq> - 1"
  shows "\<exists>root. compute_state_root pf dw (nr_chain rt) (nr_pending rt) (cs_height (nr_chain rt) + 1) = Ok root"
proof -
  note ok = assms(1) [unfolded runtime_ok_def]
  have "state_root pf (cs_ledger (nr_chain rt)) = Some (cs_state_root (nr_chain rt))"
    using rebuild_facts ok by (auto simp: chain_tops_def)
  then have fits: "ledger_fits (cs_ledger (nr_chain rt))" using state_root_eq_None by (metis option.distinct(1))
  obtain M r where b: "apply_transactions pf dw (default_script_engine pf) (nr_pending rt) (cs_height (nr_chain rt) + 1)
      (cs_chain_id (nr_chain rt)) (cs_ledger (nr_chain rt)) = (M, r)" by fastforce
  moreover have "r = Ok ()" using ok b saturating_next [OF assms(2)] by (auto simp: pending_applies_def is_Ok_iff)
  ultimately have "ledger_fits M" using apply_transactions_fits fits by blast
  then have "state_root pf M \<noteq> None" using state_root_eq_None by blast
  with b \<open>r = Ok ()\<close> show ?thesis by (auto simp: compute_state_root_eq_Ok)
qed

lemma production_succeeds:
  assumes "runtime_ok pf dw chain_id vs rt" and "can_propose_next_block pf (nr_consensus rt) (nr_chain rt) = Ok True"
    and "nr_pending rt \<noteq> [] \<or> nr_produce_empty_blocks rt" and "cs_last_timestamp (nr_chain rt) < ts"
    and "cs_height (nr_chain rt) \<noteq> - 1"
    and "pq_lib_correct (pf_dilithium2 pf)" and "pq_lib_correct (pf_falcon512 pf)"
    and "registry_get (default_registry pf) (ce_signing_scheme (nr_consensus rt)) = Some sch"
    and "ps_keygen sch seed = Ok (ce_public_key (nr_consensus rt), ce_signing_key (nr_consensus rt))"
    and "json_writes js" and "savable (nr_state_path rt)" and "savable (nr_blocks_path rt)"
  shows "\<exists>rt' fs' b. produce_one_block pf dw js io_ok io_ok None (Ok ts) rnd (rt, fs)
      = ((rt', fs'), Ok (Some (cs_height (nr_chain rt) + 1, b))) \<and>
    b_transactions b = nr_pending rt \<and> bh_timestamp (b_header b) = ts \<and> nr_pending rt' = [] \<and> nr_blocks rt' = nr_blocks rt @ [b]"
proof -
  note ok = assms(1) [unfolded runtime_ok_def]
  let ?C = "nr_chain rt" and ?e = "nr_consensus rt" and ?n = "cs_height (nr_chain rt) + 1"
  have turn: "add_chk (pf_overflow_checks pf) (cs_height ?C) 1 = Some ?n" "expected_proposer pf ?e ?n = Ok (ce_public_key ?e)"
    using assms(2) by (auto simp: can_propose_next_block_def res_simps dest: add_chk_SomeD)
  obtain root where root: "compute_state_root pf dw ?C (nr_pending rt) ?n = Ok root"
    using pending_root [OF assms(1,5)] by blast
  have ids: "None \<notin> tx_id pf ` set (nr_pending rt)" using ok by (simp add: distinct_ids_def)
  then obtain txr where txr: "compute_tx_root pf (nr_pending rt) = Some txr"
    using map_option_list_None [of "tx_id pf" "nr_pending rt"]
    by (cases "map_option_list (tx_id pf) (nr_pending rt)") (auto simp: compute_tx_root_def rev_image_eqI)
  define h where "h = \<lparr>bh_parent_hash = cs_tip_hash ?C, bh_state_root = root, bh_tx_root = txr, bh_height = ?n, bh_timestamp = ts\<rparr>"
  obtain sig where "ps_sign sch rnd (ce_signing_key ?e) (encode_block_header h) = Ok sig"
    using default_registry_signs [OF assms(8,6,7,9)] by blast
  moreover define b where "b = \<lparr>b_header = h, b_transactions = nr_pending rt, b_proposer_public_key = ce_public_key ?e, b_signature = sig\<rparr>"
  ultimately have proposed: "propose_block pf dw ?e ?C (nr_pending rt) (Ok ts) rnd = Ok b"
    unfolding propose_block_eq_Ok using turn root txr assms(8) ok by (auto simp: b_def h_def)
  have val: "validate_block pf dw ?e ?C b = Ok ()"
    using proposal_validity [OF proposed assms(6,7) _ assms(8,9)] ok assms(4) by (simp add: b_def h_def)
  then obtain D where D: "chain_apply_block pf dw (default_script_engine pf) ?C b = (D, Ok ())" "cs_height D = ?n"
    by (auto simp: validate_block_def elim!: validated_block_applies)
  have "None \<notin> tx_id pf ` set (concat (map b_transactions (nr_blocks rt)))"
    using rebuild_keys ok by (metis (no_types, lifting) imageE)
  then have "reconcile_pending_transactions pf dw (rt\<lparr>nr_chain := D, nr_blocks := nr_blocks rt @ [b]\<rparr>)
      = Some (rt\<lparr>nr_chain := D, nr_blocks := nr_blocks rt @ [b], nr_pending := []\<rparr>)"
    using ids by (subst reconcile_clears) (auto simp: committed_txs_def b_def ids_of_append)
  from apply_block_succeeds [OF val D(1) assms(10,11,12) this] D(2) obtain fs' where
    "runtime_apply_block pf dw js io_ok io_ok b (rt, fs)
      = ((rt\<lparr>nr_chain := D, nr_blocks := nr_blocks rt @ [b], nr_pending := []\<rparr>, fs'), Ok ?n)" by auto
  with assms(2,3) proposed have "produce_one_block pf dw js io_ok io_ok None (Ok ts) rnd (rt, fs)
      = ((rt\<lparr>nr_chain := D, nr_blocks := nr_blocks rt @ [b], nr_pending := []\<rparr>, fs'), Ok (Some (?n, b)))"
    by (auto simp: produce_one_block_def)
  then show ?thesis by (intro exI) (auto simp: b_def h_def)
qed

section \<open>Samples\<close>

text \<open>A codec that only writes.\<close>

definition sample_write_js :: json_codec where
  "sample_write_js = \<lparr>js_state_to = (\<lambda>s. Ok ''chain''), js_state_from = (\<lambda>t. Err ''no''), js_legacy_from = (\<lambda>t. Err ''no''),
     js_blocks_to = (\<lambda>bs. Ok ''blocks''), js_blocks_from = (\<lambda>t. Err ''no'')\<rparr>"

lemma sample_write_start:
  "runtime_reachable (sample_platform True) dw sample_write_js 0 [] (sample_runtime, fmempty)"
  by (rule reach_start [where rd = no_read_faults and io = io_ok and sp = "[''d'', ''s'']" and bp = "[''d'', ''b'']" and v = True and e = True
      and pk = "\<lparr>pk_scheme = Dilithium2, pk_bytes = [1]\<rparr>" and sk = "\<lparr>sk_scheme = Dilithium2, sk_bytes = [1]\<rparr>" and fs = fmempty])
    (simp add: start_runtime_def load_or_repair_storage_def load_chain_state_def load_block_history_def no_read_faults_def
      rebuild_chain_state_from_blocks_def default_chain_state_with_id_def sample_empty_root engine_from_keys_def
      sample_runtime_def sample_genesis_def sample_engine_def)

lemma sample_turn: "can_propose_next_block (sample_platform True) (sample_engine True) sample_genesis = Ok True"
  by (simp add: can_propose_next_block_def sample_genesis_sel add_chk_def expected_proposer_def sample_proposer)

lemma sample_keygen:
  "ps_keygen (dilithium2_scheme (sample_platform True)) 1 = Ok (ce_public_key (sample_engine True), ce_signing_key (sample_engine True))"
  by (simp add: dilithium2_scheme_def dilithium2_keygen_def sample_lib_def crypto_new_defs validate_key_size_def
      sample_engine_def)

section \<open>Properties\<close>

text \<open>C11. The mempool of a reachable node is free of conflicts: no two of its transactions spend the same
  output. The admission test simulates the whole mempool, so a double spend of an output that a pending
  transaction already spends is refused; this also needs that no pending transaction recreates an
  output, which holds as ids in the mempool are different and not committed.\<close>

theorem mempool_conflict_free:
  assumes "runtime_reachable pf dw js chain_id vs (rt, fs)"
  shows "sorted_wrt (\<lambda>t t'. input_keys t \<inter> input_keys t' = {}) (nr_pending rt)"
proof -
  note ok = reachable_ok [OF assms, unfolded fst_conv runtime_ok_def]
  obtain M r where M: "apply_transactions pf dw (default_script_engine pf) (nr_pending rt)
      (saturating_add (cs_height (nr_chain rt)) 1) (cs_chain_id (nr_chain rt)) (cs_ledger (nr_chain rt)) = (M, r)"
    by fastforce
  with ok have "r = Ok ()" by (auto simp: pending_applies_def is_Ok_iff)
  note M [unfolded this]
  moreover have "uk_tx_id k \<notin> ids_of pf (nr_pending rt)" if "fmlookup (ls_utxos (cs_ledger (nr_chain rt))) k \<noteq> None" for k
    using rebuild_keys that ok unfolding committed_txs_def by blast
  ultimately show ?thesis using ok by (blast intro: batch_conflict_free)
qed

theorem mempool_conflict_free_witness:
  "sorted_wrt (\<lambda>t t'. input_keys t \<inter> input_keys t' = {}) (nr_pending sample_runtime)"
  by (rule mempool_conflict_free [OF sample_write_start [of sample_dw]])

text \<open>A node whose turn it is makes progress: with a generated key pair, a clock ahead of the chain and
  working files, a reachable node that has transactions, or produces empty blocks, produces a block with
  its whole mempool, in order, at the next height and with the time of its clock; the block is accepted
  and appended to the history, and the mempool is empty afterwards.\<close>

theorem block_production_succeeds:
  assumes "runtime_reachable pf dw js chain_id vs (rt, fs)" and "can_propose_next_block pf (nr_consensus rt) (nr_chain rt) = Ok True"
    and "nr_pending rt \<noteq> [] \<or> nr_produce_empty_blocks rt" and "cs_last_timestamp (nr_chain rt) < ts"
    and "cs_height (nr_chain rt) \<noteq> - 1"
    and "pq_lib_correct (pf_dilithium2 pf)" and "pq_lib_correct (pf_falcon512 pf)"
    and "registry_get (default_registry pf) (ce_signing_scheme (nr_consensus rt)) = Some sch"
    and "ps_keygen sch seed = Ok (ce_public_key (nr_consensus rt), ce_signing_key (nr_consensus rt))"
    and "json_writes js" and "savable (nr_state_path rt)" and "savable (nr_blocks_path rt)"
  shows "\<exists>rt' fs' b. produce_one_block pf dw js io_ok io_ok None (Ok ts) rnd (rt, fs)
      = ((rt', fs'), Ok (Some (cs_height (nr_chain rt) + 1, b))) \<and>
    b_transactions b = nr_pending rt \<and> bh_timestamp (b_header b) = ts \<and> nr_pending rt' = [] \<and> nr_blocks rt' = nr_blocks rt @ [b]"
  using production_succeeds [OF reachable_ok [OF assms(1), unfolded fst_conv] assms(2-)] .

theorem block_production_succeeds_witness:
  "\<exists>rt' fs' b. produce_one_block (sample_platform True) sample_dw sample_write_js io_ok io_ok None (Ok 7) 0 (sample_runtime, fmempty)
      = ((rt', fs'), Ok (Some (1, b))) \<and> b_transactions b = [] \<and> bh_timestamp (b_header b) = 7 \<and> nr_blocks rt' = [b]"
proof -
  have "json_writes sample_write_js" by (simp add: json_writes_def sample_write_js_def)
  from block_production_succeeds [OF sample_write_start [of sample_dw], where ts = 7 and rnd = 0 and seed = 1
      and sch = "dilithium2_scheme (sample_platform True)", unfolded sample_runtime_sel, OF sample_turn _ _ _ _ _ _ sample_keygen this]
  show ?thesis
    by (simp add: sample_genesis_sel sample_lib_correct default_registry_get sample_engine_sel path_file_name_def sample_runtime_sel) blast
qed

text \<open>C32. Time can run out: block validation bounds the timestamp of a block from below only, so any proposer
  may sign a valid block with the greatest timestamp; after it, no block validates on the chain, and no
  operation of a node that holds it extends its history any more.\<close>

theorem greatest_timestamp_halts:
  assumes "chain_apply_block pf dw eng C b = (C', Ok u)" and "bh_timestamp (b_header b) = - 1"
  shows "validate_block pf dw e C' b' \<noteq> Ok v \<and>
    (nr_chain rt = C' \<and> runtime_step pf dw js (rt, fs) (rt', fs') \<longrightarrow> nr_blocks rt' = nr_blocks rt \<and> nr_chain rt' = C')"
proof -
  have C': "cs_last_timestamp C' = - 1" using assms by (auto simp: chain_apply_block_eq_Ok)
  then have no: "validate_block pf dw e C' b' \<noteq> Ok v" for e b' v
    using word_order.extremum_strict by (auto simp: validate_block_def validate_replayed_block_eq_Ok)
  have kept: "rt' = rt" if "nr_chain rt = C'" "runtime_apply_block pf dw js io1 io2 b1 (rt, fs) = ((rt', fs'), r)" for io1 io2 b1 r
    using that(2) by (cases rule: runtime_apply_block_stages) (use no that(1) in auto)
  have "nr_blocks rt' = nr_blocks rt \<and> nr_chain rt' = C'" if C: "nr_chain rt = C'" and st: "runtime_step pf dw js (rt, fs) (rt', fs')"
    using st
  proof (cases rule: runtime_step.cases)
    case (step_transaction tx r)
    with C show ?thesis by (elim accept_transaction_cases) auto
  next
    case (step_produce io1 io2 poisoned now rnd r)
    then have "rt' = rt \<or> (\<exists>b r'. runtime_apply_block pf dw js io1 io2 b (rt, fs) = ((rt', fs'), r'))"
      by (auto simp: produce_one_block_def split: res.splits option.splits bool.splits if_splits prod.splits)
    with kept C show ?thesis by auto
  qed (use kept C in auto)
  with no show ?thesis by blast
qed

theorem greatest_timestamp_halts_witness:
  "\<exists>b C'. validate_block (sample_platform True) sample_dw (sample_engine True) sample_genesis b = Ok () \<and>
    chain_apply_block (sample_platform True) sample_dw (default_script_engine (sample_platform True)) sample_genesis b = (C', Ok ()) \<and>
    validate_block (sample_platform True) sample_dw (sample_engine True) C' sample_first_block \<noteq> Ok ()"
proof -
  define b where "b = sample_first_block\<lparr>b_header := (b_header sample_first_block)\<lparr>bh_timestamp := - 1\<rparr>\<rparr>"
  have b: "bh_height (b_header b) = 1" "bh_timestamp (b_header b) = - 1" "bh_parent_hash (b_header b) = hash_fill 0"
    "bh_tx_root (b_header b) = hash_fill 0" "bh_state_root (b_header b) = hash_fill 0" "b_transactions b = []"
    "b_proposer_public_key b = ce_public_key (sample_engine True)" "b_signature b = \<lparr>sig_scheme = Dilithium2, sig_bytes = [1]\<rparr>"
    by (simp_all add: b_def sample_first_header(1-6,8) sample_first_header(7) [of True])
  have "validate_block (sample_platform True) sample_dw (sample_engine True) sample_genesis b = Ok ()"
    unfolding validate_block_def validate_replayed_block_eq_Ok compute_state_root_eq_Ok
    by (rule exI [of _ "dilithium2_scheme (sample_platform True)"])
      (simp add: b sample_genesis_sel sample_signs sample_proposer
        sample_empty_tx_root default_registry_get sample_empty_root add_chk_def sample_engine_sel(1) word_gt_0)
  moreover obtain C' where C': "chain_apply_block (sample_platform True) sample_dw (default_script_engine (sample_platform True))
      sample_genesis b = (C', Ok ())"
    unfolding chain_apply_block_eq_Ok by (simp add: b sample_genesis_sel sample_empty_root)
  moreover have "validate_block (sample_platform True) sample_dw (sample_engine True) C' sample_first_block \<noteq> Ok ()"
    using greatest_timestamp_halts [OF C' b(2)] by blast
  ultimately show ?thesis by blast
qed

end
