(* ===== verification/QC_Addr.thy ===== *)
theory QC_Addr
  imports QC_Text
begin

text \<open>
  Socket addresses of \<open>std::net\<close> as the node uses them: the address classes it asks for and the text of
  an address, which orders peers and appears in error messages.
\<close>

unbundle bit_operations_syntax

section \<open>Addresses\<close>

datatype ip_addr = IpV4 u32 | IpV6 u128

datatype socket_addr =
    SocketV4 (v4_ip: u32) (v4_port: u16)
  | SocketV6 (v6_ip: u128) (v6_port: u16) (v6_flowinfo: u32) (v6_scope: u32)

fun addr_ip :: "socket_addr \<Rightarrow> ip_addr" where
  "addr_ip (SocketV4 ip p) = IpV4 ip"
| "addr_ip (SocketV6 ip p f s) = IpV6 ip"

fun addr_port :: "socket_addr \<Rightarrow> u16" where
  "addr_port (SocketV4 ip p) = p"
| "addr_port (SocketV6 ip p f s) = p"

fun is_ipv4 :: "socket_addr \<Rightarrow> bool" where
  "is_ipv4 (SocketV4 ip p) = True"
| "is_ipv4 (SocketV6 ip p f s) = False"

fun ip_is_unspecified :: "ip_addr \<Rightarrow> bool" where
  "ip_is_unspecified (IpV4 a) = (a = 0)"
| "ip_is_unspecified (IpV6 a) = (a = 0)"

text \<open>Multicast: 224.0.0.0/4 and ff00::/8.\<close>

fun ip_is_multicast :: "ip_addr \<Rightarrow> bool" where
  "ip_is_multicast (IpV4 a) = (unat a div 2 ^ 28 = 0xE)"
| "ip_is_multicast (IpV6 a) = (unat a div 2 ^ 120 = 0xFF)"

section \<open>Text\<close>

fun str_join :: "string \<Rightarrow> string list \<Rightarrow> string" where
  "str_join sep [] = []"
| "str_join sep [s] = s"
| "str_join sep (s # ss) = s @ sep @ str_join sep ss"

fun show_hex :: "nat \<Rightarrow> string" where
  "show_hex n = (if n < 16 then bytes_str [hex_digit n] else show_hex (n div 16) @ bytes_str [hex_digit (n mod 16)])"

declare show_hex.simps [simp del]

definition ipv4_display :: "nat \<Rightarrow> string" where
  "ipv4_display n = str_join ''.'' (map (\<lambda>i. show_nat (n div 256 ^ i mod 256)) [3, 2, 1, 0])"

definition ipv6_segments :: "nat \<Rightarrow> nat list" where
  "ipv6_segments n = map (\<lambda>i. n div 65536 ^ i mod 65536) [7, 6, 5, 4, 3, 2, 1, 0]"

text \<open>The first longest run of zero segments, as start and length.\<close>

fun zero_span :: "nat \<times> nat \<Rightarrow> (nat \<times> nat) \<times> (nat \<times> nat) \<Rightarrow> (nat \<times> nat) \<times> (nat \<times> nat)" where
  "zero_span (i, segment) (longest, current) =
     (if segment = 0 then
        (let current = (if snd current = 0 then i else fst current, snd current + 1)
         in (if snd current > snd longest then current else longest, current))
      else (longest, (0, 0)))"

definition ipv6_display :: "nat \<Rightarrow> string" where
  "ipv6_display n =
     (if n div 2 ^ 32 = 0xFFFF then ''::ffff:'' @ ipv4_display (n mod 2 ^ 32)
      else
        (let segments = ipv6_segments n;
             (start, len) = fst (fold zero_span (List.enumerate 0 segments) ((0, 0), (0, 0)));
             show_slice = (\<lambda>ss. str_join '':'' (map show_hex ss))
         in if len > 1 then show_slice (take start segments) @ ''::'' @ show_slice (drop (start + len) segments)
            else show_slice segments))"

fun addr_display :: "socket_addr \<Rightarrow> string" where
  "addr_display (SocketV4 ip p) = ipv4_display (unat ip) @ '':'' @ show_nat (unat p)"
| "addr_display (SocketV6 ip p f s) =
     ''['' @ ipv6_display (unat ip) @ (if s = 0 then [] else ''%'' @ show_nat (unat s)) @ '']:'' @ show_nat (unat p)"

text \<open>\<open>str::contains\<close>, \<open>trim_end_matches('/')\<close> and \<open>strip_prefix\<close>.\<close>

definition str_contains :: "string \<Rightarrow> string \<Rightarrow> bool" where
  "str_contains s needle = list_ex (prefix needle) (suffixes s)"

definition trim_end_slashes :: "string \<Rightarrow> string" where
  "trim_end_slashes s = rev (dropWhile (\<lambda>c. c = CHR ''/'') (rev s))"

definition strip_prefix :: "string \<Rightarrow> string \<Rightarrow> string option" where
  "strip_prefix p s = (if prefix p s then Some (drop (length p) s) else None)"

end
