(* ===== verification/QC_Wire.thy ===== *)
theory QC_Wire
  imports QC_Addr
begin

text \<open>
  The wire messages of \<open>qcoin-node/src/wire.rs\<close>, their frames, the description a node gives of itself,
  and the compatibility checks on it. The payload codec (\<open>bincode\<close>) is the parameter \<open>bincode\<close>.
\<close>

section \<open>Messages\<close>

record tip_response =
  tp_height :: u64
  tp_tip_hash_hex :: string
  tp_state_root_hex :: string
  tp_last_timestamp :: u64

record submit_block_response =
  sb_accepted :: bool
  sb_height :: u64
  sb_message :: string

record submit_transaction_response =
  st_accepted :: bool
  st_tx_id_hex :: string
  st_message :: string

record node_info =
  ni_wire_version :: u16
  ni_min_compatible_wire_version :: u16
  ni_software_version :: string
  ni_chain_id :: u32
  ni_node_public_key_hex :: string
  ni_capabilities :: "string list"

datatype wire_message =
    PresenceAnnounce
  | NodeInfo node_info
  | TipRequest
  | TipResponse tip_response
  | BlockRequest u64
  | BlockResponse u64 "block option"
  | SubmitBlock block
  | SubmitBlockResponse submit_block_response
  | TransactionAnnounce hash256
  | TransactionRequest hash256
  | TransactionResponse hash256 "transaction option"
  | SubmitTransaction transaction
  | SubmitTransactionResponse submit_transaction_response

section \<open>Frames\<close>

text \<open>The library's serializer, for the values the node passes to it.\<close>

record bincode =
  bc_message_to :: "wire_message \<Rightarrow> (string, bytes) res"
  bc_message_from :: "bytes \<Rightarrow> (string, wire_message) res"
  bc_block_to :: "block \<Rightarrow> (string, bytes) res"
  bc_block_from :: "bytes \<Rightarrow> (string, block) res"

text \<open>\<open>b"QCN1"\<close>.\<close>

definition QCOIN_WIRE_MAGIC :: bytes where
  "QCOIN_WIRE_MAGIC = [0x51, 0x43, 0x4E, 0x31]"

definition WIRE_VERSION :: u16 where
  "WIRE_VERSION = 2"

definition MIN_COMPATIBLE_WIRE_VERSION :: u16 where
  "MIN_COMPATIBLE_WIRE_VERSION = 1"

definition encode_wire :: "bincode \<Rightarrow> wire_message \<Rightarrow> (string, bytes) res" where
  "encode_wire bc msg =
     and_then (bc_message_to bc msg) (\<lambda>payload. Ok (QCOIN_WIRE_MAGIC @ payload))"

definition decode_wire :: "bincode \<Rightarrow> bytes \<Rightarrow> (string, wire_message) res" where
  "decode_wire bc frame =
     (if length frame < length QCOIN_WIRE_MAGIC then Err ''frame shorter than qcoin wire header''
      else if take (length QCOIN_WIRE_MAGIC) frame \<noteq> QCOIN_WIRE_MAGIC then Err ''frame does not match qcoin wire magic''
      else bc_message_from bc (drop (length QCOIN_WIRE_MAGIC) frame))"

text \<open>The documented behaviour of the serializer: what was written is read back, and nothing panics.\<close>

definition bincode_ok :: "bincode \<Rightarrow> bool" where
  "bincode_ok bc \<longleftrightarrow> (\<forall>msg p. bc_message_to bc msg = Ok p \<longrightarrow> bc_message_from bc p = Ok msg) \<and>
     (\<forall>b p. bc_block_to bc b = Ok p \<longrightarrow> bc_block_from bc p = Ok b) \<and>
     (\<forall>msg. bc_message_to bc msg \<noteq> Panic) \<and> (\<forall>p. bc_message_from bc p \<noteq> Panic) \<and>
     (\<forall>b. bc_block_to bc b \<noteq> Panic) \<and> (\<forall>p. bc_block_from bc p \<noteq> Panic)"

section \<open>Node descriptions\<close>

text \<open>The version of the package (\<open>CARGO_PKG_VERSION\<close>, from the workspace's \<open>Cargo.toml\<close>).\<close>

definition software_version :: string where
  "software_version = ''0.1.1''"

definition local_node_info :: "u32 \<Rightarrow> bool \<Rightarrow> string \<Rightarrow> bool \<Rightarrow> bool \<Rightarrow> node_info" where
  "local_node_info chain_id multicast_enabled node_public_key_hex validator producer =
     \<lparr>ni_wire_version = WIRE_VERSION, ni_min_compatible_wire_version = MIN_COMPATIBLE_WIRE_VERSION,
      ni_software_version = software_version, ni_chain_id = chain_id, ni_node_public_key_hex = node_public_key_hex,
      ni_capabilities = [''udp-qcoin-wire'', ''http-api''] @ (if multicast_enabled then [''multicast-discovery''] else [])
        @ [''tx-submit-v1'', ''tx-announce-v1''] @ (if validator then [''validator''] else [])
        @ (if producer then [''block-producer''] else [])\<rparr>"

definition ensure_version_compatible :: "node_info \<Rightarrow> (string, unit) res" where
  "ensure_version_compatible remote =
     (if ni_wire_version remote < MIN_COMPATIBLE_WIRE_VERSION
      then Err (''peer wire version '' @ show_nat (unat (ni_wire_version remote)) @ '' is older than minimum compatible ''
        @ show_nat (unat MIN_COMPATIBLE_WIRE_VERSION))
      else if WIRE_VERSION < ni_min_compatible_wire_version remote
      then Err (''peer requires minimum wire version '' @ show_nat (unat (ni_min_compatible_wire_version remote))
        @ '', local wire version is '' @ show_nat (unat WIRE_VERSION))
      else Ok ())"

definition ensure_node_info_compatible :: "u32 \<Rightarrow> node_info \<Rightarrow> (string, unit) res" where
  "ensure_node_info_compatible local_chain_id remote =
     and_then (ensure_version_compatible remote) (\<lambda>_.
     if ni_chain_id remote \<noteq> local_chain_id
     then Err (''peer chain id '' @ show_nat (unat (ni_chain_id remote)) @ '' does not match local chain id ''
       @ show_nat (unat local_chain_id))
     else Ok ())"

section \<open>Facts\<close>

lemma encode_wire_eq_Ok:
  "encode_wire bc msg = Ok f \<longleftrightarrow> (\<exists>p. bc_message_to bc msg = Ok p \<and> f = QCOIN_WIRE_MAGIC @ p)"
  by (auto simp: encode_wire_def res_simps)

lemma decode_wire_magic [simp]: "decode_wire bc (QCOIN_WIRE_MAGIC @ p) = bc_message_from bc p"
  by (simp add: decode_wire_def)

lemma decode_wire_eq_Ok:
  "decode_wire bc f = Ok msg \<longleftrightarrow> (\<exists>p. f = QCOIN_WIRE_MAGIC @ p \<and> bc_message_from bc p = Ok msg)"
proof
  assume d: "decode_wire bc f = Ok msg"
  then have "take (length QCOIN_WIRE_MAGIC) f = QCOIN_WIRE_MAGIC" by (auto simp: decode_wire_def split: if_splits)
  then have "f = QCOIN_WIRE_MAGIC @ drop (length QCOIN_WIRE_MAGIC) f" by (metis append_take_drop_id)
  with d show "\<exists>p. f = QCOIN_WIRE_MAGIC @ p \<and> bc_message_from bc p = Ok msg" by (metis decode_wire_magic)
qed auto

lemma word_ge_1: "1 \<le> w \<longleftrightarrow> w \<noteq> 0" for w :: "'a::len word"
  by (simp add: word_le_nat_alt Suc_le_eq unat_gt_0)

lemma compatible_iff:
  "ensure_node_info_compatible c remote = Ok u \<longleftrightarrow>
     1 \<le> ni_wire_version remote \<and> ni_min_compatible_wire_version remote \<le> 2 \<and> ni_chain_id remote = c"
  by (auto simp: ensure_node_info_compatible_def ensure_version_compatible_def WIRE_VERSION_def
      MIN_COMPATIBLE_WIRE_VERSION_def not_less word_ge_1)

lemma compatible_neq_Panic [simp]: "ensure_node_info_compatible c remote \<noteq> Panic"
  by (simp add: ensure_node_info_compatible_def ensure_version_compatible_def)

section \<open>A sample codec\<close>

text \<open>It writes the messages without payload, and no block.\<close>

definition sample_bincode :: bincode where
  "sample_bincode = \<lparr>bc_message_to = (\<lambda>msg. case msg of PresenceAnnounce \<Rightarrow> Ok [0] | TipRequest \<Rightarrow> Ok [2] | _ \<Rightarrow> Err ''no''),
     bc_message_from = (\<lambda>p. if p = [0] then Ok PresenceAnnounce else if p = [2] then Ok TipRequest else Err ''no''),
     bc_block_to = (\<lambda>b. Err ''no''), bc_block_from = (\<lambda>p. Err ''no'')\<rparr>"

lemma sample_bincode_ok: "bincode_ok sample_bincode"
  by (auto simp: bincode_ok_def sample_bincode_def split: wire_message.splits)

section \<open>Properties\<close>

text \<open>Frames round trip and are recognised: a frame that was encoded decodes to its message; every frame
  that decodes starts with the magic bytes, followed by a payload that the codec reads as the message;
  no byte string makes decoding panic.\<close>

theorem wire_roundtrip:
  assumes "bincode_ok bc"
  shows "(case encode_wire bc msg of Ok f \<Rightarrow> decode_wire bc f = Ok msg | Err e \<Rightarrow> True | Panic \<Rightarrow> False) \<and>
    (decode_wire bc g = Ok msg' \<longleftrightarrow> (\<exists>p. g = QCOIN_WIRE_MAGIC @ p \<and> bc_message_from bc p = Ok msg')) \<and>
    decode_wire bc g \<noteq> Panic"
proof (intro conjI)
  show "case encode_wire bc msg of Ok f \<Rightarrow> decode_wire bc f = Ok msg | Err e \<Rightarrow> True | Panic \<Rightarrow> False"
    using assms by (auto simp: encode_wire_def bincode_ok_def and_then_eq_Panic res_simps split: res.splits)
  show "decode_wire bc g \<noteq> Panic"
    using assms by (auto simp: decode_wire_def bincode_ok_def)
qed (rule decode_wire_eq_Ok)

theorem wire_roundtrip_witness:
  "encode_wire sample_bincode TipRequest = Ok [0x51, 0x43, 0x4E, 0x31, 2] \<and>
    decode_wire sample_bincode [0x51, 0x43, 0x4E, 0x31, 2] = Ok TipRequest"
proof -
  have e: "encode_wire sample_bincode TipRequest = Ok [0x51, 0x43, 0x4E, 0x31, 2]"
    by (simp add: encode_wire_def sample_bincode_def QCOIN_WIRE_MAGIC_def)
  with wire_roundtrip [OF sample_bincode_ok, of TipRequest] show ?thesis by simp
qed

text \<open>Compatibility, exactly: a peer is compatible if it speaks version 1 or later, does not require a
  version after 2, and is on the same chain; nodes of this version are compatible with each other,
  in both directions, exactly if their chains are the same.\<close>

theorem node_compatibility:
  "(ensure_node_info_compatible c remote = Ok () \<longleftrightarrow>
      1 \<le> ni_wire_version remote \<and> ni_min_compatible_wire_version remote \<le> 2 \<and> ni_chain_id remote = c) \<and>
   (ensure_node_info_compatible c (local_node_info d m k v p) = Ok () \<longleftrightarrow> c = d) \<and>
   (ensure_node_info_compatible c remote \<noteq> Panic)"
  unfolding compatible_iff by (auto simp: local_node_info_def WIRE_VERSION_def MIN_COMPATIBLE_WIRE_VERSION_def)

end
