(* ===== verification/QC_Http.thy ===== *)
theory QC_Http
  imports QC_Mempool QC_Wire
begin

text \<open>
  The HTTP interface of \<open>qcoin-node/src/main.rs\<close>: \<open>handle_request\<close>, and \<open>sync_from_peer_http\<close>, which a node that
  runs once uses to fetch blocks before anything else shares its runtime.

  A request is its method, its URL and what reading its body gives; a response is its status and its
  value, before the JSON writer. Answers of a remote peer are the parameter \<open>http_peer\<close>.
\<close>

section \<open>Requests and responses\<close>

datatype http_method = MethodGet | MethodPost | MethodOther string

record http_request =
  rq_method :: http_method
  rq_url :: string
  rq_body :: "(string, bytes) res"

datatype http_response =
    RespondText nat string
  | RespondNodeInfo nat node_info
  | RespondTip nat tip_response
  | RespondSubmitBlock nat submit_block_response
  | RespondBinary nat bytes

definition is_digit :: "char \<Rightarrow> bool" where
  "is_digit c \<longleftrightarrow> 48 \<le> (of_char c :: nat) \<and> (of_char c :: nat) \<le> 57"

definition digits_value :: "string \<Rightarrow> nat" where
  "digits_value s = foldl (\<lambda>n c. 10 * n + (of_char c - 48)) 0 s"

text \<open>\<open>parse::<u64>\<close>: an optional plus sign and digits, in range.\<close>

definition parse_u64 :: "string \<Rightarrow> u64 option" where
  "parse_u64 s =
     (let digits = (case s of c # cs \<Rightarrow> if c = CHR ''+'' \<and> cs \<noteq> [] then cs else s | [] \<Rightarrow> s)
      in if digits = [] \<or> \<not> list_all is_digit digits \<or> 2 ^ 64 \<le> digits_value digits then None
         else Some (of_nat (digits_value digits)))"

definition url_path :: "string \<Rightarrow> string" where
  "url_path url = takeWhile (\<lambda>c. c \<noteq> CHR ''?'') url"

definition tip_of_runtime :: "node_runtime \<Rightarrow> tip_response" where
  "tip_of_runtime rt =
     \<lparr>tp_height = cs_height (nr_chain rt), tp_tip_hash_hex = to_hex (hash_slice (cs_tip_hash (nr_chain rt))),
      tp_state_root_hex = to_hex (hash_slice (cs_state_root (nr_chain rt))), tp_last_timestamp = cs_last_timestamp (nr_chain rt)\<rparr>"

text \<open>\<open>GET /blocks/<height>\<close>; \<open>trim_start_matches\<close> strips the prefix as often as it is there.\<close>

definition get_block :: "bincode \<Rightarrow> node_runtime \<Rightarrow> string \<Rightarrow> http_response option" where
  "get_block bc rt path =
     (case Option.bind (parse_u64 (strip_front [''/blocks/''] path)) (\<lambda>h. if 0 < h then Some h else None) of
        None \<Rightarrow> Some (RespondText 400 ''height must be >= 1'')
      | Some height \<Rightarrow>
          (case list_get (nr_blocks rt) (unat (height - 1)) of
             Some b \<Rightarrow>
               (case bc_block_to bc b of
                  Ok payload \<Rightarrow> Some (RespondBinary 200 payload)
                | Err e \<Rightarrow> Some (RespondText 500 (''failed to encode block: '' @ e))
                | Panic \<Rightarrow> None)
           | None \<Rightarrow> Some (RespondText 404 ''block not found'')))"

definition post_block ::
  "platform \<Rightarrow> (bytes \<Rightarrow> input_witness option) \<Rightarrow> json_codec \<Rightarrow> bincode \<Rightarrow> io_outcome \<Rightarrow> io_outcome \<Rightarrow> (string, bytes) res
     \<Rightarrow> node_runtime \<times> file_system \<Rightarrow> (node_runtime \<times> file_system) \<times> http_response option" where
  "post_block pf dw js bc io1 io2 body s =
     (case body of
        Err e \<Rightarrow> (s, Some (RespondText 400 (''failed to read request body: '' @ e)))
      | Panic \<Rightarrow> (s, None)
      | Ok bs \<Rightarrow>
          (case bc_block_from bc bs of
             Err e \<Rightarrow> (s, Some (RespondText 400 (''invalid block bincode payload: '' @ e)))
           | Panic \<Rightarrow> (s, None)
           | Ok b \<Rightarrow>
               (case runtime_apply_block pf dw js io1 io2 b s of
                  (s', Ok height) \<Rightarrow>
                    (s', Some (RespondSubmitBlock 200 \<lparr>sb_accepted = True, sb_height = height, sb_message = ''block accepted''\<rparr>))
                | (s', Err e) \<Rightarrow>
                    (s', Some (RespondSubmitBlock 409
                       \<lparr>sb_accepted = False, sb_height = cs_height (nr_chain (fst s')), sb_message = e\<rparr>))
                | (s', Panic) \<Rightarrow> (s', None))))"

definition handle_request ::
  "platform \<Rightarrow> (bytes \<Rightarrow> input_witness option) \<Rightarrow> json_codec \<Rightarrow> bincode \<Rightarrow> io_outcome \<Rightarrow> io_outcome \<Rightarrow> node_info \<Rightarrow> http_request
     \<Rightarrow> node_runtime \<times> file_system \<Rightarrow> (node_runtime \<times> file_system) \<times> http_response option" where
  "handle_request pf dw js bc io1 io2 info req s =
     (let path = url_path (rq_url req)
      in case rq_method req of
           MethodGet \<Rightarrow>
             if path = ''/node-info'' then (s, Some (RespondNodeInfo 200 info))
             else if path = ''/tip'' then (s, Some (RespondTip 200 (tip_of_runtime (fst s))))
             else if prefix ''/blocks/'' path then (s, get_block bc (fst s) path)
             else (s, Some (RespondText 404 ''not found''))
         | MethodPost \<Rightarrow>
             if path = ''/blocks'' then post_block pf dw js bc io1 io2 (rq_body req) s
             else (s, Some (RespondText 404 ''not found''))
         | MethodOther m \<Rightarrow> (s, Some (RespondText 404 ''not found'')))"

section \<open>Fetching from a peer\<close>

text \<open>What the requests to a peer give: the error of the call, or what reading the answer gives.\<close>

record http_peer =
  hp_node_info :: "(string, (string, node_info) res) res"
  hp_tip :: "(string, (string, tip_response) res) res"
  hp_block :: "u64 \<Rightarrow> (string, (string, bytes) res) res"

definition fetch_block :: "bincode \<Rightarrow> http_peer \<Rightarrow> u64 \<Rightarrow> (string, block) res" where
  "fetch_block bc peer height =
     (let at = show_nat (unat height) @ '': '' in
      and_then (map_err (\<lambda>e. ''block fetch failed at '' @ at @ e) (hp_block peer height)) (\<lambda>response.
      and_then (map_err (\<lambda>e. ''block read failed at '' @ at @ e) response) (\<lambda>block_bytes.
      map_err (\<lambda>e. ''block parse failed at '' @ at @ e) (bc_block_from bc block_bytes))))"

lemma u64_bound: "unat (w :: u64) < 2 ^ 64"
  by (rule order_less_le_trans [OF unsigned_less]) simp

lemma apply_block_height:
  assumes "runtime_apply_block pf dw js io1 io2 b (rt, fs) = ((rt', fs'), Ok h)"
  shows "cs_height (nr_chain rt') = cs_height (nr_chain rt) + 1"
proof -
  have "(Ok h :: (string, u64) res) \<noteq> Panic" by simp
  with assms show ?thesis
  proof (cases rule: runtime_apply_block_cases)
    case (2 C u)
    from 2(1,2) have "cs_height C = cs_height (nr_chain rt) + 1"
      by (auto simp: validate_block_def elim!: validated_block_applies)
    with reconcile_keeps [OF 2(3)] show ?thesis by simp
  qed auto
qed

function sync_loop ::
  "platform \<Rightarrow> (bytes \<Rightarrow> input_witness option) \<Rightarrow> json_codec \<Rightarrow> bincode \<Rightarrow> (u64 \<Rightarrow> io_outcome \<times> io_outcome) \<Rightarrow> http_peer \<Rightarrow> u64
     \<Rightarrow> node_runtime \<times> file_system \<Rightarrow> (node_runtime \<times> file_system) \<times> (string, unit) res" where
  "sync_loop pf dw js bc io peer tip (rt, fs) =
     (if tip \<le> cs_height (nr_chain rt) then ((rt, fs), Ok ())
      else
        (let next_height = cs_height (nr_chain rt) + 1 in
         case fetch_block bc peer next_height of
           Err e \<Rightarrow> ((rt, fs), Err e)
         | Panic \<Rightarrow> ((rt, fs), Panic)
         | Ok b \<Rightarrow>
             (case runtime_apply_block pf dw js (fst (io next_height)) (snd (io next_height)) b (rt, fs) of
                (s, Ok h) \<Rightarrow> sync_loop pf dw js bc io peer tip s
              | (s, Err e) \<Rightarrow> (s, Err e)
              | (s, Panic) \<Rightarrow> (s, Panic))))"
  by pat_completeness auto
termination
proof (relation "measure (\<lambda>(pf, dw, js, bc, io, peer, tip, s). unat tip - unat (cs_height (nr_chain (fst s))))")
  fix pf dw js bc io peer tip rt fs next_height b s h and x :: "(string, u64) res"
  assume "\<not> tip \<le> cs_height (nr_chain rt)"
    and z: "(s, x) = runtime_apply_block pf dw js (fst (io next_height)) (snd (io next_height)) b (rt, fs)" "x = Ok h"
  then have lt: "unat (cs_height (nr_chain rt)) < unat tip" by (simp add: word_le_nat_alt)
  have "cs_height (nr_chain (fst s)) = cs_height (nr_chain rt) + 1"
    using apply_block_height [of pf dw js "fst (io next_height)" "snd (io next_height)" b rt fs "fst s" "snd s" h] z by simp
  moreover have "unat (cs_height (nr_chain rt) + 1) = unat (cs_height (nr_chain rt)) + 1"
    using lt u64_bound [of tip] by (subst unat_add_small) auto
  ultimately show "((pf, dw, js, bc, io, peer, tip, s), pf, dw, js, bc, io, peer, tip, rt, fs)
      \<in> measure (\<lambda>(pf, dw, js, bc, io, peer, tip, s). unat tip - unat (cs_height (nr_chain (fst s))))"
    using lt by simp
qed simp

declare sync_loop.simps [simp del]

definition sync_from_peer_http ::
  "platform \<Rightarrow> (bytes \<Rightarrow> input_witness option) \<Rightarrow> json_codec \<Rightarrow> bincode \<Rightarrow> (u64 \<Rightarrow> io_outcome \<times> io_outcome) \<Rightarrow> http_peer
     \<Rightarrow> node_runtime \<times> file_system \<Rightarrow> (node_runtime \<times> file_system) \<times> (string, unit) res" where
  "sync_from_peer_http pf dw js bc io peer s =
     (case
        and_then (map_err (\<lambda>e. ''node-info request failed: '' @ e) (hp_node_info peer)) (\<lambda>response.
        and_then (map_err (\<lambda>e. ''node-info parse failed: '' @ e) response) (\<lambda>remote_node_info.
        and_then (ensure_node_info_compatible (cs_chain_id (nr_chain (fst s))) remote_node_info) (\<lambda>_.
        and_then (map_err (\<lambda>e. ''tip request failed: '' @ e) (hp_tip peer)) (\<lambda>response.
        map_err (\<lambda>e. ''tip parse failed: '' @ e) response)))) of
        Ok tip \<Rightarrow> sync_loop pf dw js bc io peer (tp_height tip) s
      | Err e \<Rightarrow> (s, Err e)
      | Panic \<Rightarrow> (s, Panic))"

text \<open>\<open>sync_all_peers_http\<close> reports the errors and goes on; a panic ends the program.\<close>

fun sync_all_peers_http ::
  "platform \<Rightarrow> (bytes \<Rightarrow> input_witness option) \<Rightarrow> json_codec \<Rightarrow> bincode \<Rightarrow> (http_peer \<times> (u64 \<Rightarrow> io_outcome \<times> io_outcome)) list
     \<Rightarrow> node_runtime \<times> file_system \<Rightarrow> (node_runtime \<times> file_system) option" where
  "sync_all_peers_http pf dw js bc [] s = Some s"
| "sync_all_peers_http pf dw js bc ((peer, io) # peers) s =
     (case sync_from_peer_http pf dw js bc io peer s of
        (s', Panic) \<Rightarrow> None
      | (s', _) \<Rightarrow> sync_all_peers_http pf dw js bc peers s')"

section \<open>Numbers in URLs\<close>

lemma digits_value_snoc: "digits_value (s @ [c]) = 10 * digits_value s + (of_char c - 48)"
  by (simp add: digits_value_def)

lemma show_nat_digits: "list_all is_digit (show_nat n) \<and> digits_value (show_nat n) = n"
proof (induction n rule: show_nat.induct)
  case (1 n)
  have d: "is_digit (char_of (48 + k))" "of_char (char_of (48 + k) :: char) = 48 + k" if "k < 10" for k :: nat
    using that by (simp_all add: is_digit_def)
  show ?case
  proof (cases "n < 10")
    case True
    then show ?thesis using d [of n] by (subst (1 2) show_nat.simps) (simp add: digits_value_def)
  next
    case False
    with 1 d [of "n mod 10"] show ?thesis
      by (subst (1 2) show_nat.simps) (simp add: digits_value_snoc)
  qed
qed

lemma parse_show: "parse_u64 (show_nat (unat h)) = Some h"
proof -
  obtain c cs where s: "show_nat (unat h) = c # cs" using show_nat_not_empty by (cases "show_nat (unat h)") auto
  have "is_digit c" using show_nat_digits [of "unat h"] by (simp add: s)
  then have "c \<noteq> CHR ''+''" by (auto simp: is_digit_def)
  then show ?thesis
    using show_nat_digits [of "unat h"] u64_bound [of h] by (simp add: parse_u64_def s)
qed

lemma strip_blocks_prefix: "strip_front [''/blocks/''] (''/blocks/'' @ show_nat n) = show_nat n"
proof -
  obtain c cs where s: "show_nat n = c # cs" using show_nat_not_empty by (cases "show_nat n") auto
  have "is_digit c" using show_nat_digits [of n] by (simp add: s)
  then have "c \<noteq> CHR ''/''" by (auto simp: is_digit_def)
  then have "strip_front [''/blocks/''] (show_nat n) = show_nat n" by (subst strip_front.simps) (simp add: s)
  then show ?thesis by (subst strip_front.simps) simp
qed

definition get_request :: "string \<Rightarrow> http_request" where
  "get_request url = \<lparr>rq_method = MethodGet, rq_url = url, rq_body = Ok []\<rparr>"

lemma block_url_path: "url_path (''/blocks/'' @ show_nat n) = ''/blocks/'' @ show_nat n"
proof -
  have "c \<noteq> CHR ''?''" if "c \<in> set (show_nat n)" for c
    using that show_nat_digits [of n] by (auto simp: list_all_iff is_digit_def)
  then have "takeWhile (\<lambda>c. c \<noteq> CHR ''?'') (show_nat n) = show_nat n" by (simp add: takeWhile_eq_all_conv)
  then show ?thesis by (simp add: url_path_def)
qed

lemma handle_get_block:
  fixes h :: u64
  shows "handle_request pf dw js bc io1 io2 info (get_request (''/blocks/'' @ show_nat (unat h))) s =
     (s, if h = 0 then Some (RespondText 400 ''height must be >= 1'')
         else (case list_get (nr_blocks (fst s)) (unat (h - 1)) of
             Some b \<Rightarrow>
               (case bc_block_to bc b of
                  Ok payload \<Rightarrow> Some (RespondBinary 200 payload)
                | Err e \<Rightarrow> Some (RespondText 500 (''failed to encode block: '' @ e))
                | Panic \<Rightarrow> None)
           | None \<Rightarrow> Some (RespondText 404 ''block not found'')))"
proof -
  have "get_block bc (fst s) (''/blocks/'' @ show_nat (unat h)) =
      (if h = 0 then Some (RespondText 400 ''height must be >= 1'')
         else (case list_get (nr_blocks (fst s)) (unat (h - 1)) of
             Some b \<Rightarrow>
               (case bc_block_to bc b of
                  Ok payload \<Rightarrow> Some (RespondBinary 200 payload)
                | Err e \<Rightarrow> Some (RespondText 500 (''failed to encode block: '' @ e))
                | Panic \<Rightarrow> None)
           | None \<Rightarrow> Some (RespondText 404 ''block not found'')))"
    unfolding get_block_def strip_blocks_prefix parse_show by (simp add: word_gt_0)
  moreover have "''/blocks/'' @ show_nat (unat h) \<noteq> ''/node-info''" "''/blocks/'' @ show_nat (unat h) \<noteq> ''/tip''"
    by simp_all
  ultimately show ?thesis
    unfolding handle_request_def get_request_def by (simp add: block_url_path del: append_Cons append_Nil)
qed

section \<open>Synchronising from a node\<close>

text \<open>What a client sees of a node that answers through \<open>handle_request\<close>: a status other than 200 is an
  error of the call.\<close>

definition peer_of ::
  "platform \<Rightarrow> (bytes \<Rightarrow> input_witness option) \<Rightarrow> json_codec \<Rightarrow> bincode \<Rightarrow> node_info \<Rightarrow> node_runtime \<times> file_system \<Rightarrow> http_peer" where
  "peer_of pf dw js bc info s =
     (let answer = (\<lambda>url. snd (handle_request pf dw js bc io_ok io_ok info (get_request url) s))
      in \<lparr>hp_node_info = (case answer ''/node-info'' of Some (RespondNodeInfo c i) \<Rightarrow> Ok (Ok i) | _ \<Rightarrow> Err ''request''),
          hp_tip = (case answer ''/tip'' of Some (RespondTip c t) \<Rightarrow> Ok (Ok t) | _ \<Rightarrow> Err ''request''),
          hp_block = (\<lambda>h. case answer (''/blocks/'' @ show_nat (unat h)) of
             Some (RespondBinary c p) \<Rightarrow> Ok (Ok p) | _ \<Rightarrow> Err ''request'')\<rparr>)"

lemma peer_of_tip: "hp_tip (peer_of pf dw js bc info s) = Ok (Ok (tip_of_runtime (fst s)))"
  by (simp add: peer_of_def handle_request_def get_request_def url_path_def Let_def)

lemma peer_of_info: "hp_node_info (peer_of pf dw js bc info s) = Ok (Ok info)"
  by (simp add: peer_of_def handle_request_def get_request_def url_path_def Let_def)

lemma peer_of_block:
  assumes "i < length (nr_blocks (fst s))" and "length (nr_blocks (fst s)) < 2 ^ 64" and "bincode_ok bc"
    and "is_Ok (bc_block_to bc (nr_blocks (fst s) ! i))"
  shows "fetch_block bc (peer_of pf dw js bc info s) (of_nat i + 1) = Ok (nr_blocks (fst s) ! i)"
proof -
  let ?h = "of_nat i + 1 :: u64"
  obtain p where p: "bc_block_to bc (nr_blocks (fst s) ! i) = Ok p" using assms(4) by (auto simp: is_Ok_iff)
  have i: "unat (of_nat i :: u64) = i" using assms(1,2) by (simp add: unat_of_nat)
  have "unat ?h = i + 1" using assms(1,2) i by (subst unat_add_small) auto
  then have "?h \<noteq> 0" by auto
  then have "snd (handle_request pf dw js bc io_ok io_ok info (get_request (''/blocks/'' @ show_nat (unat ?h))) s)
      = Some (RespondBinary 200 p)"
    unfolding handle_get_block using i p assms(1) by (simp add: list_get_def)
  then have "hp_block (peer_of pf dw js bc info s) ?h = Ok (Ok p)"
    unfolding peer_of_def Let_def by simp
  moreover have "bc_block_from bc p = Ok (nr_blocks (fst s) ! i)" using assms(3) p by (auto simp: bincode_ok_def)
  ultimately show ?thesis by (simp add: fetch_block_def Let_def)
qed

lemma rebuild_prefix:
  assumes "rebuild_chain_state_from_blocks pf dw (xs @ ys) chain_id vs = Ok C"
  shows "\<exists>D. rebuild_chain_state_from_blocks pf dw xs chain_id vs = Ok D"
  using assms by (auto simp: rebuild_chain_state_from_blocks_def enumerate_append_eq fold_res_append res_simps)

text \<open>A block that extends the history of a node with a configured validator set to a replayable one is
  accepted.\<close>

lemma replayable_block_accepted:
  assumes "runtime_ok pf dw chain_id vs rt" and "vs \<noteq> []" and "nr_pending rt = []"
    and "rebuild_chain_state_from_blocks pf dw (nr_blocks rt @ [b]) chain_id vs = Ok D" and "json_writes js"
    and "savable (nr_state_path rt)" and "savable (nr_blocks_path rt)"
  shows "\<exists>fs' rt'. runtime_apply_block pf dw js io_ok io_ok b (rt, fs) = ((rt', fs'), Ok (cs_height D)) \<and>
    rt' = rt\<lparr>nr_chain := D, nr_blocks := nr_blocks rt @ [b]\<rparr> \<and> runtime_ok pf dw chain_id vs rt'"
proof -
  note ok = assms(1) [unfolded runtime_ok_def]
  from assms(4) ok have "replay_block pf dw vs (length (nr_blocks rt), b) (nr_chain rt) = Ok D"
    by (simp add: rebuild_append)
  then obtain u where v: "validate_block pf dw (nr_consensus rt) (nr_chain rt) b = Ok u"
    and a: "chain_apply_block pf dw (default_script_engine pf) (nr_chain rt) b = (D, Ok ())"
    using ok assms(2) by (auto simp: replay_block_eq_Ok is_Ok_iff validate_block_def)
  let ?rt' = "rt\<lparr>nr_chain := D, nr_blocks := nr_blocks rt @ [b]\<rparr>"
  have "reconcile_pending_transactions pf dw ?rt' = Some ?rt'"
    using assms(3) by (simp add: reconcile_pending_transactions_def)
  from apply_block_succeeds [OF v a assms(5-7) this] obtain fs' where
    r: "runtime_apply_block pf dw js io_ok io_ok b (rt, fs) = ((?rt', fs'), Ok (cs_height D))" by blast
  with runtime_ok_apply_block [OF assms(1) r] show ?thesis by simp
qed

lemma u64_of_nat_le: "m < 2 ^ 64 \<Longrightarrow> n < 2 ^ 64 \<Longrightarrow> (of_nat m :: u64) \<le> of_nat n \<longleftrightarrow> m \<le> n"
  by (simp add: word_le_nat_alt unat_of_nat)

lemma sync_loop_converges:
  assumes "runtime_ok pf dw chain_id vs rt" and "vs \<noteq> []" and "nr_pending rt = []"
    and "rebuild_chain_state_from_blocks pf dw (nr_blocks rt @ new) chain_id vs = Ok D" and "json_writes js"
    and "savable (nr_state_path rt)" and "savable (nr_blocks_path rt)"
    and "\<forall>i < length (nr_blocks rt @ new). fetch_block bc peer (of_nat i + 1) = Ok ((nr_blocks rt @ new) ! i)"
    and "length (nr_blocks rt @ new) < 2 ^ 64"
  shows "\<exists>rt' fs'. sync_loop pf dw js bc (\<lambda>h. (io_ok, io_ok)) peer (of_nat (length (nr_blocks rt @ new))) (rt, fs)
      = ((rt', fs'), Ok ()) \<and> nr_blocks rt' = nr_blocks rt @ new \<and> nr_chain rt' = D"
  using assms
proof (induction new arbitrary: rt fs)
  case Nil
  note ok = Nil.prems(1) [unfolded runtime_ok_def]
  with Nil.prems(4) have D: "nr_chain rt = D" by simp
  have "cs_height D = of_nat (length (nr_blocks rt))" using rebuild_facts ok D by (auto simp: chain_tops_def)
  with D show ?case by (auto simp: sync_loop.simps [of pf dw js bc _ peer _ rt fs])
next
  case (Cons b new)
  note ok = Cons.prems(1) [unfolded runtime_ok_def]
  have h: "cs_height (nr_chain rt) = of_nat (length (nr_blocks rt))" using rebuild_facts ok by (auto simp: chain_tops_def)
  have lt: "\<not> of_nat (length (nr_blocks rt @ b # new)) \<le> cs_height (nr_chain rt)"
    using Cons.prems(9) unfolding h by (subst u64_of_nat_le) auto
  obtain E where E: "rebuild_chain_state_from_blocks pf dw (nr_blocks rt @ [b]) chain_id vs = Ok E"
    using rebuild_prefix [of pf dw "nr_blocks rt @ [b]" new chain_id vs D] Cons.prems(4) by auto
  from replayable_block_accepted [OF Cons.prems(1-3) E Cons.prems(5-7)] obtain fs1 rt1 where
    1: "runtime_apply_block pf dw js io_ok io_ok b (rt, fs) = ((rt1, fs1), Ok (cs_height E))"
      "rt1 = rt\<lparr>nr_chain := E, nr_blocks := nr_blocks rt @ [b]\<rparr>" "runtime_ok pf dw chain_id vs rt1" by blast
  have "fetch_block bc peer (cs_height (nr_chain rt) + 1) = Ok b"
    using Cons.prems(8) by (auto simp: h nth_append dest!: spec [of _ "length (nr_blocks rt)"])
  then have step: "sync_loop pf dw js bc (\<lambda>h. (io_ok, io_ok)) peer (of_nat (length (nr_blocks rt @ b # new))) (rt, fs)
      = sync_loop pf dw js bc (\<lambda>h. (io_ok, io_ok)) peer (of_nat (length (nr_blocks rt @ b # new))) (rt1, fs1)"
    using lt 1(1) by (subst sync_loop.simps) (simp add: Let_def)
  have "nr_blocks rt1 @ new = nr_blocks rt @ b # new" by (simp add: 1(2))
  with Cons.IH [OF 1(3) Cons.prems(2), of fs1] Cons.prems(3-9) step show ?case by (simp add: 1(2))
qed

section \<open>Sync is a run of the runtime\<close>

lemma handle_request_step:
  assumes "handle_request pf dw js bc io1 io2 info req s = (s', Some resp)"
  shows "s' = s \<or> rq_method req = MethodPost \<and> runtime_step pf dw js s s'"
  using assms
  by (auto simp: handle_request_def post_block_def Let_def intro!: step_block
      split: http_method.splits if_splits res.splits prod.splits)

text \<open>Binary answers are blocks of the history.\<close>

lemma binary_response:
  assumes "handle_request pf dw js bc io1 io2 info req s = (s', Some (RespondBinary c payload))"
  shows "\<exists>b \<in> set (nr_blocks (fst s)). bc_block_to bc b = Ok payload"
  using assms
  by (auto simp: handle_request_def post_block_def get_block_def list_get_def Let_def
      split: http_method.splits if_splits res.splits prod.splits option.splits)

lemma sync_loop_run:
  assumes "sync_loop pf dw js bc io peer tip s = (s', r)" and "r \<noteq> Panic"
  shows "(runtime_step pf dw js)\<^sup>*\<^sup>* s s' \<and> (r = Ok () \<longrightarrow> tip \<le> cs_height (nr_chain (fst s')))"
  using assms
proof (induction pf dw js bc io peer tip s rule: sync_loop.induct)
  case (1 pf dw js bc io peer tip rt fs)
  let ?n = "cs_height (nr_chain rt) + 1"
  note step = 1(2) [unfolded sync_loop.simps [of pf dw js bc io peer tip rt fs] Let_def]
  show ?case
  proof (cases "tip \<le> cs_height (nr_chain rt)")
    case True
    with step show ?thesis by auto
  next
    case False
    show ?thesis
    proof (cases "fetch_block bc peer ?n")
      case b: (Ok b)
      obtain s1 r1 where a: "runtime_apply_block pf dw js (fst (io ?n)) (snd (io ?n)) b (rt, fs) = (s1, r1)" by fastforce
      show ?thesis
      proof (cases r1)
        case (Ok h)
        have "runtime_step pf dw js (rt, fs) s1" using step_block [OF a] Ok by simp
        moreover have "(runtime_step pf dw js)\<^sup>*\<^sup>* s1 s' \<and> (r = Ok () \<longrightarrow> tip \<le> cs_height (nr_chain (fst s')))"
          using 1(1) [OF False refl b a [symmetric] Ok] step False b a Ok 1(3) by simp
        ultimately show ?thesis by (meson converse_rtranclp_into_rtranclp)
      next
        case (Err e)
        have "runtime_step pf dw js (rt, fs) s1" using step_block [OF a] Err by simp
        with step False b a Err show ?thesis by auto
      qed (use step False b a 1(3) in auto)
    qed (use step False 1(3) in auto)
  qed
qed

lemma reachable_run: "(runtime_step pf dw js)\<^sup>*\<^sup>* s s' \<Longrightarrow> runtime_reachable pf dw js chain_id vs s \<Longrightarrow> runtime_reachable pf dw js chain_id vs s'"
  by (induction rule: rtranclp_induct) (auto intro: reach_step)

section \<open>Samples\<close>

definition sample_block_bincode :: bincode where
  "sample_block_bincode = sample_bincode\<lparr>bc_block_to := (\<lambda>b. if b = sample_first_block then Ok [7] else Err ''no''),
     bc_block_from := (\<lambda>p. if p = [7] then Ok sample_first_block else Err ''no'')\<rparr>"

lemma sample_block_bincode_ok: "bincode_ok sample_block_bincode"
  by (auto simp: bincode_ok_def sample_block_bincode_def sample_bincode_def split: wire_message.splits)

abbreviation sample_validators :: "public_key list" where
  "sample_validators \<equiv> [\<lparr>pk_scheme = Dilithium2, pk_bytes = [1]\<rparr>]"

definition sample_ahead :: node_runtime where
  "sample_ahead = sample_runtime\<lparr>nr_chain := sample_first_chain, nr_blocks := [sample_first_block]\<rparr>"

lemma sample_validator_start:
  "runtime_reachable (sample_platform True) dw sample_write_js 0 sample_validators (sample_runtime, fmempty)"
  by (rule reach_start [where rd = no_read_faults and io = io_ok and sp = "[''d'', ''s'']" and bp = "[''d'', ''b'']" and v = True and e = True
      and pk = "\<lparr>pk_scheme = Dilithium2, pk_bytes = [1]\<rparr>" and sk = "\<lparr>sk_scheme = Dilithium2, sk_bytes = [1]\<rparr>" and fs = fmempty])
    (simp add: start_runtime_def load_or_repair_storage_def load_chain_state_def load_block_history_def no_read_faults_def
      rebuild_chain_state_from_blocks_def default_chain_state_with_id_def sample_empty_root engine_from_keys_def
      sample_runtime_def sample_genesis_def sample_engine_def)

lemma sample_ahead_reachable:
  "\<exists>fs. runtime_reachable (sample_platform True) dw sample_write_js 0 sample_validators (sample_ahead, fs)"
proof -
  let ?rt = "sample_runtime\<lparr>nr_chain := sample_first_chain, nr_blocks := nr_blocks sample_runtime @ [sample_first_block]\<rparr>"
  have v: "validate_block (sample_platform True) dw (nr_consensus sample_runtime) (nr_chain sample_runtime) sample_first_block = Ok ()"
    by (simp add: sample_runtime_sel sample_first_validates)
  have a: "chain_apply_block (sample_platform True) dw (default_script_engine (sample_platform True)) (nr_chain sample_runtime)
      sample_first_block = (sample_first_chain, Ok ())"
    by (simp add: sample_runtime_sel sample_first_applies)
  have "json_writes sample_write_js" by (simp add: json_writes_def sample_write_js_def)
  from apply_block_succeeds [OF v a this, of ?rt fmempty] obtain fs where
    "runtime_apply_block (sample_platform True) dw sample_write_js io_ok io_ok sample_first_block (sample_runtime, fmempty)
      = ((?rt, fs), Ok (cs_height sample_first_chain))"
    by (auto simp: sample_runtime_sel path_file_name_def reconcile_pending_transactions_def)
  from reach_step [OF sample_validator_start step_block [OF this]] show ?thesis
    by (auto simp: sample_ahead_def sample_runtime_sel)
qed

section \<open>Properties\<close>

text \<open>C30. The HTTP interface refines the runtime machine and serves its history: a request leaves the state alone
  or, a POST only, makes one step of the runtime; and on a reachable node the request for the block at a
  height is answered with the encoding of the block whose header has that height if there is one, with
  400 for height 0 and with 404 past the end.\<close>

theorem http_serves_history:
  assumes "runtime_reachable pf dw js chain_id vs (rt, fs)" and "length (nr_blocks rt) < 2 ^ 64"
    and "handle_request pf dw js bc io1 io2 info req (rt, fs) = (s', Some resp)"
  shows "(s' = (rt, fs) \<or> rq_method req = MethodPost \<and> runtime_step pf dw js (rt, fs) s') \<and>
    snd (handle_request pf dw js bc io1 io2 info (get_request (''/blocks/'' @ show_nat (unat h))) (rt, fs)) =
      (if h = 0 then Some (RespondText 400 ''height must be >= 1'')
       else if unat h \<le> length (nr_blocks rt) then
         (case bc_block_to bc (nr_blocks rt ! (unat h - 1)) of
            Ok payload \<Rightarrow> Some (RespondBinary 200 payload)
          | Err e \<Rightarrow> Some (RespondText 500 (''failed to encode block: '' @ e))
          | Panic \<Rightarrow> None)
       else Some (RespondText 404 ''block not found'')) \<and>
    (0 < h \<and> unat h \<le> length (nr_blocks rt) \<longrightarrow> bh_height (b_header (nr_blocks rt ! (unat h - 1))) = h)"
proof (intro conjI)
  show "s' = (rt, fs) \<or> rq_method req = MethodPost \<and> runtime_step pf dw js (rt, fs) s'"
    using handle_request_step [OF assms(3)] by auto
  have prev: "unat (h - 1) = unat h - 1" if "h \<noteq> 0"
    using that by (simp add: unat_minus_one)
  show "snd (handle_request pf dw js bc io1 io2 info (get_request (''/blocks/'' @ show_nat (unat h))) (rt, fs)) =
      (if h = 0 then Some (RespondText 400 ''height must be >= 1'')
       else if unat h \<le> length (nr_blocks rt) then
         (case bc_block_to bc (nr_blocks rt ! (unat h - 1)) of
            Ok payload \<Rightarrow> Some (RespondBinary 200 payload)
          | Err e \<Rightarrow> Some (RespondText 500 (''failed to encode block: '' @ e))
          | Panic \<Rightarrow> None)
       else Some (RespondText 404 ''block not found''))"
    unfolding handle_get_block using prev unat_gt_0 [of h]
    by (cases "h = 0") (auto simp: list_get_def)
  have "history_linked pf (nr_blocks rt)"
    using rebuild_facts reachable_ok [OF assms(1), unfolded fst_conv runtime_ok_def] by blast
  then show "0 < h \<and> unat h \<le> length (nr_blocks rt) \<longrightarrow> bh_height (b_header (nr_blocks rt ! (unat h - 1))) = h"
    using unat_gt_0 [of h] by (auto simp: history_linked_def word_gt_0 dest!: spec [of _ "unat h - 1"])
qed

theorem http_serves_history_witness:
  "snd (handle_request (sample_platform True) sample_dw sample_write_js sample_block_bincode io_ok io_ok
      (local_node_info 0 False [] True True) (get_request (''/blocks/'' @ show_nat (unat (1 :: u64)))) (sample_ahead, fmempty))
     = Some (RespondBinary 200 [7])"
proof -
  obtain fs where r: "runtime_reachable (sample_platform True) sample_dw sample_write_js 0 sample_validators (sample_ahead, fs)"
    using sample_ahead_reachable by blast
  have b: "nr_blocks sample_ahead = [sample_first_block]" by (simp add: sample_ahead_def)
  have "handle_request (sample_platform True) sample_dw sample_write_js sample_block_bincode io_ok io_ok
      (local_node_info 0 False [] True True) (get_request ''/tip'') (sample_ahead, fs)
    = ((sample_ahead, fs), Some (RespondTip 200 (tip_of_runtime sample_ahead)))"
    by (simp add: handle_request_def get_request_def url_path_def)
  from http_serves_history [OF r _ this, of 1] b
  have "snd (handle_request (sample_platform True) sample_dw sample_write_js sample_block_bincode io_ok io_ok
      (local_node_info 0 False [] True True) (get_request (''/blocks/'' @ show_nat (unat (1 :: u64)))) (sample_ahead, fs))
     = Some (RespondBinary 200 [7])"
    by (simp add: sample_block_bincode_def)
  then show ?thesis unfolding handle_get_block by simp
qed

text \<open>C13. Synchronisation converges: a node that runs with a validator set and has an empty mempool, and whose
  history is a beginning of the history of another node of the same chain and validators, catches up with
  it in one call: \<open>sync_from_peer_http\<close>, fetching from the other node's own request handler, terminates
  without error, with the other node's history and chain state.\<close>

theorem honest_sync_converges:
  assumes "runtime_reachable pf dw js chain_id vs (rt, fs)" and "runtime_reachable pf dw js' chain_id vs (rrt, rfs)"
    and "vs \<noteq> []" and "nr_pending rt = []" and "nr_blocks rrt = nr_blocks rt @ rest" and "length (nr_blocks rrt) < 2 ^ 64"
    and "json_writes js" and "savable (nr_state_path rt)" and "savable (nr_blocks_path rt)"
    and "bincode_ok bc" and "\<forall>b\<in>set (nr_blocks rrt). is_Ok (bc_block_to bc b)"
    and "info = local_node_info chain_id m k v p"
  shows "\<exists>rt' fs'. sync_from_peer_http pf dw js bc (\<lambda>h. (io_ok, io_ok)) (peer_of pf dw js' bc info (rrt, rfs)) (rt, fs)
      = ((rt', fs'), Ok ()) \<and> nr_blocks rt' = nr_blocks rrt \<and> nr_chain rt' = nr_chain rrt"
proof -
  note ok = reachable_ok [OF assms(1), unfolded fst_conv] and rok = reachable_ok [OF assms(2), unfolded fst_conv runtime_ok_def]
  have id: "cs_chain_id (nr_chain rt) = chain_id" using rebuild_facts ok by (auto simp: runtime_ok_def)
  have tip: "tp_height (tip_of_runtime rrt) = of_nat (length (nr_blocks rt @ rest))"
    using rebuild_facts rok assms(5) by (auto simp: tip_of_runtime_def chain_tops_def)
  have compat: "ensure_node_info_compatible chain_id info = Ok ()"
    by (simp add: compatible_iff assms(12) local_node_info_def WIRE_VERSION_def MIN_COMPATIBLE_WIRE_VERSION_def)
  have fetch: "\<forall>i < length (nr_blocks rt @ rest). fetch_block bc (peer_of pf dw js' bc info (rrt, rfs)) (of_nat i + 1)
      = Ok ((nr_blocks rt @ rest) ! i)"
  proof (intro allI impI)
    fix i assume "i < length (nr_blocks rt @ rest)"
    then have i: "i < length (nr_blocks rrt)" by (simp add: assms(5))
    then have "is_Ok (bc_block_to bc (nr_blocks rrt ! i))" using assms(11) by simp
    from peer_of_block [of i "(rrt, rfs)" bc, unfolded fst_conv, OF i assms(6,10) this]
    show "fetch_block bc (peer_of pf dw js' bc info (rrt, rfs)) (of_nat i + 1) = Ok ((nr_blocks rt @ rest) ! i)"
      unfolding assms(5) .
  qed
  from sync_loop_converges [OF ok assms(3,4) _ assms(7-9) fetch] rok assms(5,6) obtain rt' fs' where
    "sync_loop pf dw js bc (\<lambda>h. (io_ok, io_ok)) (peer_of pf dw js' bc info (rrt, rfs)) (of_nat (length (nr_blocks rt @ rest))) (rt, fs)
      = ((rt', fs'), Ok ())" "nr_blocks rt' = nr_blocks rt @ rest" "nr_chain rt' = nr_chain rrt"
    by (metis)
  then show ?thesis
    using assms(5) compat id tip by (simp add: sync_from_peer_http_def peer_of_info peer_of_tip)
qed

theorem honest_sync_converges_witness:
  "\<exists>fs rt' fs'. sync_from_peer_http (sample_platform True) sample_dw sample_write_js sample_block_bincode (\<lambda>h. (io_ok, io_ok))
      (peer_of (sample_platform True) sample_dw sample_write_js sample_block_bincode (local_node_info 0 False [] True True)
        (sample_ahead, fs)) (sample_runtime, fmempty) = ((rt', fs'), Ok ()) \<and>
    nr_blocks rt' = [sample_first_block] \<and> nr_chain rt' = sample_first_chain"
proof -
  obtain fs where r: "runtime_reachable (sample_platform True) sample_dw sample_write_js 0 sample_validators (sample_ahead, fs)"
    using sample_ahead_reachable by blast
  have b: "nr_blocks sample_ahead = nr_blocks sample_runtime @ [sample_first_block]" "nr_chain sample_ahead = sample_first_chain"
    by (simp_all add: sample_ahead_def sample_runtime_sel)
  have "json_writes sample_write_js" by (simp add: json_writes_def sample_write_js_def)
  from honest_sync_converges [OF sample_validator_start r _ _ b(1) _ this _ _ sample_block_bincode_ok _ refl,
      of False "[]" True True] b
  show ?thesis by (auto simp: sample_runtime_sel path_file_name_def sample_block_bincode_def)
qed

end
