(* ===== verification/QC_Startup.thy ===== *)
theory QC_Startup
  imports QC_Recovery QC_Addr
begin

text \<open>
  Starting a node in \<open>qcoin-node/src/main.rs\<close>: the keypair file, the network configuration and the cluster
  manifest, the choice of multicast interfaces, the startup profile, and the part of \<open>run_node\<close> up to
  the runtime.

  Parameters: the JSON readers and writers, the resolver of listen addresses, and the list that
  \<open>getifaddrs\<close> returns (on a unix system), whose entries are decoded into \<open>if_entry\<close> records.
\<close>

section \<open>The keypair file\<close>

record keypair_codec =
  kj_to :: "keypair_output \<Rightarrow> (string, string) res"
  kj_from :: "string \<Rightarrow> (string, keypair_output) res"

text \<open>\<open>fs::read_to_string\<close>.\<close>

definition read_to_string :: "read_outcome \<Rightarrow> file_system \<Rightarrow> path \<Rightarrow> (string, string) res" where
  "read_to_string rd fs p =
     (case rd p of
        Some (OpenFails e) \<Rightarrow> Err e
      | Some (ReadFails e) \<Rightarrow> Err e
      | _ \<Rightarrow> ok_or no_such_file (fmlookup fs p))"

definition save_keypair_to_json ::
  "keypair_codec \<Rightarrow> io_outcome \<Rightarrow> path \<Rightarrow> public_key \<Rightarrow> private_key \<Rightarrow> file_system \<Rightarrow> file_system \<times> (string, unit) res" where
  "save_keypair_to_json kj io p pk sk fs =
     (case kj_to kj (keypair_output_of pk sk) of
        Ok payload \<Rightarrow> write_file_atomically io p payload fs
      | Err e \<Rightarrow> (fs, Err e)
      | Panic \<Rightarrow> (fs, Panic))"

definition load_keypair_from_json ::
  "platform \<Rightarrow> keypair_codec \<Rightarrow> read_outcome \<Rightarrow> file_system \<Rightarrow> path \<Rightarrow> signature_scheme_id
     \<Rightarrow> (string, public_key \<times> private_key) res" where
  "load_keypair_from_json pf kj rd fs p expected_scheme =
     and_then (read_to_string rd fs p) (\<lambda>contents.
     and_then (kj_from kj contents) (\<lambda>parsed.
     keys_of_keypair_output pf parsed expected_scheme))"

definition load_or_create_keypair_from_json ::
  "platform \<Rightarrow> keypair_codec \<Rightarrow> read_outcome \<Rightarrow> io_outcome \<Rightarrow> path \<Rightarrow> signature_scheme_id \<Rightarrow> in_memory_registry \<Rightarrow> nat
     \<Rightarrow> file_system \<Rightarrow> file_system \<times> (string, public_key \<times> private_key) res" where
  "load_or_create_keypair_from_json pf kj rd io p expected_scheme registry seed fs =
     (if fmlookup fs p \<noteq> None \<and> rd p \<noteq> Some StatFails then (fs, load_keypair_from_json pf kj rd fs p expected_scheme)
      else
        (case registry_get registry expected_scheme of
           None \<Rightarrow> (fs, Err (''signing scheme '' @ scheme_display expected_scheme @ '' is not available''))
         | Some selected \<Rightarrow>
             (case map_err crypto_error_display (ps_keygen selected seed) of
                Err e \<Rightarrow> (fs, Err e)
              | Panic \<Rightarrow> (fs, Panic)
              | Ok (pk, sk) \<Rightarrow>
                  (case save_keypair_to_json kj io p pk sk fs of
                     (fs', Ok _) \<Rightarrow> (fs', Ok (pk, sk))
                   | (fs', Err e) \<Rightarrow> (fs', Err e)
                   | (fs', Panic) \<Rightarrow> (fs', Panic)))))"

section \<open>Configuration files\<close>

record multicast_v4_config =
  m4_group :: u32
  m4_interface :: u32

record multicast_v6_config =
  m6_group :: u128
  m6_interface :: "u32 option"

text \<open>\<open>network::MulticastConfig\<close>.\<close>

datatype multicast_config = MulticastV4 u32 u32 | MulticastV6 u128 u32

record network_config =
  nc_peers :: "string list"
  nc_validator_public_key_hex :: "string list"
  nc_disable_default_multicast :: bool
  nc_multicast_v4 :: "multicast_v4_config list"
  nc_multicast_v6 :: "multicast_v6_config list"

record cluster_manifest =
  cm_chain_id :: u32
  cm_validator_public_key_hex :: "string list"
  cm_reliable_node_public_key_hex :: "string list"
  cm_disable_default_multicast :: bool
  cm_multicast_v4 :: "multicast_v4_config list"
  cm_multicast_v6 :: "multicast_v6_config list"

record startup_profile =
  sp_chain_id :: u32
  sp_validator_public_key_hex :: "string list"
  sp_reliable_node_public_key_hex :: "string list"
  sp_multicast :: "multicast_config list"
  sp_default_multicast_enabled :: bool

definition DEFAULT_CHAIN_ID :: u32 where
  "DEFAULT_CHAIN_ID = 0"

text \<open>\<open>load_network_config\<close> and \<open>load_cluster_manifest\<close>: the same code at two types.\<close>

definition load_config ::
  "(string \<Rightarrow> (string, 'c) res) \<Rightarrow> read_outcome \<Rightarrow> file_system \<Rightarrow> path \<Rightarrow> (string, 'c) res" where
  "load_config from rd fs p = and_then (read_to_string rd fs p) from"

definition load_optional_network_config ::
  "(string \<Rightarrow> (string, network_config) res) \<Rightarrow> read_outcome \<Rightarrow> file_system \<Rightarrow> path option \<Rightarrow> (string, network_config option) res" where
  "load_optional_network_config from rd fs path =
     (case path of
        Some p \<Rightarrow> map_err (\<lambda>e. ''Failed to load network config '' @ path_display p @ '': '' @ e) (map_ok Some (load_config from rd fs p))
      | None \<Rightarrow> Ok None)"

definition load_optional_cluster_manifest ::
  "(string \<Rightarrow> (string, cluster_manifest) res) \<Rightarrow> read_outcome \<Rightarrow> file_system \<Rightarrow> path option \<Rightarrow> (string, cluster_manifest option) res" where
  "load_optional_cluster_manifest from rd fs path =
     (case path of
        Some p \<Rightarrow> map_err (\<lambda>e. ''Failed to load cluster manifest '' @ path_display p @ '': '' @ e) (map_ok Some (load_config from rd fs p))
      | None \<Rightarrow> Ok None)"

section \<open>Interfaces\<close>

record interface_candidate =
  ic_index :: u32
  ic_ip :: ip_addr
  ic_is_loopback :: bool

text \<open>An entry of \<open>getifaddrs\<close>: the address, \<open>None\<close> if it is missing or of another family, three of the
  flags, and what \<open>if_nametoindex\<close> gives.\<close>

record if_entry =
  ie_ip :: "ip_addr option"
  ie_up :: bool
  ie_multicast :: bool
  ie_loopback :: bool
  ie_index :: u32

fun collect_candidates :: "if_entry list \<Rightarrow> interface_candidate list" where
  "collect_candidates [] = []"
| "collect_candidates (entry # entries) =
     (case ie_ip entry of
        Some ip \<Rightarrow>
          (if ie_up entry \<and> ie_multicast entry \<and> ie_index entry \<noteq> 0
           then \<lparr>ic_index = ie_index entry, ic_ip = ip, ic_is_loopback = ie_loopback entry\<rparr> # collect_candidates entries
           else collect_candidates entries)
      | None \<Rightarrow> collect_candidates entries)"

definition discover_multicast_interface_candidates :: "(string, if_entry list) res \<Rightarrow> (string, interface_candidate list) res" where
  "discover_multicast_interface_candidates ifs =
     map_err (\<lambda>e. ''failed to inspect local interfaces: '' @ e) (map_ok collect_candidates ifs)"

text \<open>\<open>if !target.contains(&candidate.index) { target.push(candidate.index) }\<close>, for the list the candidate
  belongs to.\<close>

definition push_index :: "u32 \<Rightarrow> u32 list \<Rightarrow> u32 list" where
  "push_index i target = (if i \<in> set target then target else target @ [i])"

definition sort_candidate ::
  "(ip_addr \<Rightarrow> bool) \<Rightarrow> interface_candidate \<Rightarrow> u32 list \<times> u32 list \<Rightarrow> u32 list \<times> u32 list" where
  "sort_candidate wanted candidate = (\<lambda>(non_loopback, loopback).
     if \<not> wanted (ic_ip candidate) then (non_loopback, loopback)
     else if ic_is_loopback candidate then (non_loopback, push_index (ic_index candidate) loopback)
     else (push_index (ic_index candidate) non_loopback, loopback))"

definition select_multicast_interfaces_for_bind_ip :: "ip_addr \<Rightarrow> interface_candidate list \<Rightarrow> u32 list" where
  "select_multicast_interfaces_for_bind_ip bind_ip candidates =
     (let (non_loopback, loopback) = fold (sort_candidate (\<lambda>ip. ip = bind_ip)) candidates ([], [])
      in if non_loopback \<noteq> [] then non_loopback else loopback)"

definition is_v6 :: "ip_addr \<Rightarrow> bool" where
  "is_v6 ip = (case ip of IpV6 a \<Rightarrow> True | IpV4 a \<Rightarrow> False)"

definition discover_ipv6_multicast_interfaces :: "(string, if_entry list) res \<Rightarrow> (string, u32 list) res" where
  "discover_ipv6_multicast_interfaces ifs =
     and_then (discover_multicast_interface_candidates ifs) (\<lambda>candidates.
     let (non_loopback, loopback) = fold (sort_candidate is_v6) candidates ([], [])
     in if non_loopback \<noteq> [] then Ok non_loopback
        else if loopback \<noteq> [] then Ok loopback
        else Err ''no IPv6 multicast-capable interfaces found'')"

definition discover_ipv6_multicast_interfaces_for_bind_addr ::
  "(string, if_entry list) res \<Rightarrow> socket_addr \<Rightarrow> (string, u32 list option) res" where
  "discover_ipv6_multicast_interfaces_for_bind_addr ifs bind_addr =
     (if ip_is_unspecified (addr_ip bind_addr) then Ok None
      else
        and_then (discover_multicast_interface_candidates ifs) (\<lambda>candidates.
        let preferred = select_multicast_interfaces_for_bind_ip (addr_ip bind_addr) candidates
        in Ok (if preferred = [] then None else Some preferred)))"

definition resolve_ipv6_multicast_interfaces :: "(string, if_entry list) res \<Rightarrow> socket_addr \<Rightarrow> (string, u32 list) res" where
  "resolve_ipv6_multicast_interfaces ifs bind_addr =
     (let discover =
        and_then (discover_ipv6_multicast_interfaces_for_bind_addr ifs bind_addr) (\<lambda>found.
          case found of Some indices \<Rightarrow> Ok indices | None \<Rightarrow> discover_ipv6_multicast_interfaces ifs)
      in case bind_addr of
           SocketV6 ip p f scope \<Rightarrow> if scope \<noteq> 0 then Ok [scope] else discover
         | SocketV4 ip p \<Rightarrow> discover)"

section \<open>Multicast\<close>

definition push_multicast :: "u128 \<Rightarrow> u32 \<Rightarrow> multicast_config list \<Rightarrow> multicast_config list" where
  "push_multicast grp i configs = (let c = MulticastV6 grp i in if c \<in> set configs then configs else configs @ [c])"

definition expand_v6_entry ::
  "(string, if_entry list) res \<Rightarrow> socket_addr \<Rightarrow> bool \<Rightarrow> multicast_v6_config \<Rightarrow> multicast_config list
     \<Rightarrow> (string, multicast_config list) res" where
  "expand_v6_entry ifs bind_addr best_effort_auto entry configs =
     (case (case m6_interface entry of Some i \<Rightarrow> Ok [i] | None \<Rightarrow> resolve_ipv6_multicast_interfaces ifs bind_addr) of
        Ok interfaces \<Rightarrow> Ok (fold (push_multicast (m6_group entry)) interfaces configs)
      | Err e \<Rightarrow> if best_effort_auto then Ok configs else Err e
      | Panic \<Rightarrow> Panic)"

definition expand_multicast_configs ::
  "(string, if_entry list) res \<Rightarrow> socket_addr \<Rightarrow> multicast_v4_config list \<Rightarrow> multicast_v6_config list \<Rightarrow> bool
     \<Rightarrow> (string, multicast_config list) res" where
  "expand_multicast_configs ifs bind_addr v4 v6 best_effort_auto =
     fold_res (expand_v6_entry ifs bind_addr best_effort_auto) v6 (map (\<lambda>e. MulticastV4 (m4_group e) (m4_interface e)) v4)"

text \<open>ff02::5143:6f69:6e.\<close>

definition DEFAULT_IPV6_MULTICAST_GROUP :: u128 where
  "DEFAULT_IPV6_MULTICAST_GROUP = 0xff02000000000000000051436f69006e"

definition default_multicast_v6_configs :: "multicast_v6_config list" where
  "default_multicast_v6_configs = [\<lparr>m6_group = DEFAULT_IPV6_MULTICAST_GROUP, m6_interface = None\<rparr>]"

definition resolve_multicast_configs ::
  "(string, if_entry list) res \<Rightarrow> socket_addr \<Rightarrow> network_config option \<Rightarrow> cluster_manifest option
     \<Rightarrow> (string, multicast_config list \<times> bool) res" where
  "resolve_multicast_configs ifs bind_addr network_config cluster_manifest =
     (let explicit = (\<lambda>v4 v6. map_ok (\<lambda>configs. (configs, False)) (expand_multicast_configs ifs bind_addr v4 v6 False));
          configured = (\<lambda>v4 v6. v4 \<noteq> [] \<or> v6 \<noteq> []);
          defaults =
            (if (case network_config of Some c \<Rightarrow> nc_disable_default_multicast c | None \<Rightarrow> False) \<or>
                (case cluster_manifest of Some m \<Rightarrow> cm_disable_default_multicast m | None \<Rightarrow> False)
             then Ok ([], False)
             else
               (case expand_multicast_configs ifs bind_addr [] default_multicast_v6_configs True of
                  Ok configs \<Rightarrow> Ok (configs, True)
                | Err e \<Rightarrow> Ok ([], True)
                | Panic \<Rightarrow> Panic));
          by_manifest =
            (case cluster_manifest of
               Some m \<Rightarrow> if configured (cm_multicast_v4 m) (cm_multicast_v6 m) then explicit (cm_multicast_v4 m) (cm_multicast_v6 m)
                 else defaults
             | None \<Rightarrow> defaults)
      in case network_config of
           Some c \<Rightarrow> if configured (nc_multicast_v4 c) (nc_multicast_v6 c) then explicit (nc_multicast_v4 c) (nc_multicast_v6 c)
             else by_manifest
         | None \<Rightarrow> by_manifest)"

section \<open>The startup profile\<close>

definition resolve_startup_profile ::
  "(string, if_entry list) res \<Rightarrow> socket_addr \<Rightarrow> network_config option \<Rightarrow> cluster_manifest option \<Rightarrow> string list
     \<Rightarrow> (string, startup_profile) res" where
  "resolve_startup_profile ifs bind_addr network_config cluster_manifest cli_validators =
     (let validators =
        (case cluster_manifest of
           Some m \<Rightarrow> merge_unique_hex_strings (cm_validator_public_key_hex m) []
         | None \<Rightarrow> merge_unique_hex_strings
             (case network_config of Some c \<Rightarrow> nc_validator_public_key_hex c | None \<Rightarrow> []) cli_validators);
        reliable = (case cluster_manifest of Some m \<Rightarrow> normalize_hex_strings (cm_reliable_node_public_key_hex m) | None \<Rightarrow> [])
      in and_then (resolve_multicast_configs ifs bind_addr network_config cluster_manifest) (\<lambda>(multicast, default_enabled).
         Ok \<lparr>sp_chain_id = (case cluster_manifest of Some m \<Rightarrow> cm_chain_id m | None \<Rightarrow> DEFAULT_CHAIN_ID),
           sp_validator_public_key_hex = validators, sp_reliable_node_public_key_hex = reliable,
           sp_multicast = multicast, sp_default_multicast_enabled = default_enabled\<rparr>))"

definition same_peer_endpoint :: "string \<Rightarrow> string \<Rightarrow> bool" where
  "same_peer_endpoint peer self_peer_url \<longleftrightarrow>
     to_ascii_lowercase (trim_end_slashes peer) = to_ascii_lowercase self_peer_url"

section \<open>From the command line to the runtime\<close>

text \<open>The arguments of the command \<open>run\<close> that the part of \<open>run_node\<close> up to the runtime uses.\<close>

record run_args =
  ra_state_path :: path
  ra_blocks_path :: "path option"
  ra_peers :: "string list"
  ra_listen :: string
  ra_produce :: "bool option"
  ra_produce_empty_blocks :: bool
  ra_scheme :: signature_scheme_id
  ra_keypair_json :: "path option"
  ra_network_config_json :: "path option"
  ra_cluster_manifest_json :: "path option"
  ra_validator_public_key_hex :: "string list"

text \<open>What the start depends on outside the program: the JSON codecs, reads, writes of the keypair file and of
  the state, name resolution, interfaces and the randomness of key generation.\<close>

record start_env =
  se_json :: json_codec
  se_keypair_json :: keypair_codec
  se_network_config_from :: "string \<Rightarrow> (string, network_config) res"
  se_cluster_manifest_from :: "string \<Rightarrow> (string, cluster_manifest) res"
  se_reads :: read_outcome
  se_keypair_io :: io_outcome
  se_state_io :: io_outcome
  se_lookup :: "string \<Rightarrow> (string, socket_addr list) res"
  se_interfaces :: "(string, if_entry list) res"
  se_seed :: nat

record node_start =
  ns_runtime :: node_runtime
  ns_peers :: "string list"
  ns_bind_addr :: socket_addr
  ns_profile :: startup_profile
  ns_validators :: "public_key list"
  ns_produce_enabled :: bool

definition resolve_bind_addr :: "(string \<Rightarrow> (string, socket_addr list) res) \<Rightarrow> string \<Rightarrow> (string, socket_addr) res" where
  "resolve_bind_addr lookup listen_addr =
     and_then (map_err (\<lambda>e. ''failed to resolve listen address '' @ listen_addr @ '': '' @ e) (lookup listen_addr)) (\<lambda>addrs.
     ok_or (''listen address '' @ listen_addr @ '' did not resolve'') (list_get addrs 0))"

definition node_keys ::
  "platform \<Rightarrow> start_env \<Rightarrow> run_args \<Rightarrow> file_system \<Rightarrow> file_system \<times> (string, public_key \<times> private_key) res" where
  "node_keys pf env args fs =
     (case ra_keypair_json args of
        Some p \<Rightarrow>
          (case load_or_create_keypair_from_json pf (se_keypair_json env) (se_reads env) (se_keypair_io env) p (ra_scheme args)
              (default_registry pf) (se_seed env) fs of
             (fs', r) \<Rightarrow> (fs', map_err (\<lambda>e. ''Failed to load keypair '' @ path_display p @ '': '' @ e) r))
      | None \<Rightarrow>
          (fs, and_then (ok_or (''Signing scheme '' @ scheme_display (ra_scheme args) @ '' is not available'')
              (registry_get (default_registry pf) (ra_scheme args))) (\<lambda>selected.
            map_err (\<lambda>e. ''Failed to generate keypair: '' @ crypto_error_display e) (ps_keygen selected (se_seed env)))))"

text \<open>The settings, once the keys are there.\<close>

definition node_settings ::
  "platform \<Rightarrow> start_env \<Rightarrow> run_args \<Rightarrow> public_key \<Rightarrow> file_system
     \<Rightarrow> (string, socket_addr \<times> startup_profile \<times> string list \<times> public_key list \<times> bool \<times> bool) res" where
  "node_settings pf env args public_key fs =
     and_then (load_optional_network_config (se_network_config_from env) (se_reads env) fs (ra_network_config_json args)) (\<lambda>config.
     and_then (load_optional_cluster_manifest (se_cluster_manifest_from env) (se_reads env) fs (ra_cluster_manifest_json args)) (\<lambda>manifest.
     and_then (resolve_bind_addr (se_lookup env) (ra_listen args)) (\<lambda>bind_addr.
     and_then (resolve_startup_profile (se_interfaces env) bind_addr config manifest (ra_validator_public_key_hex args)) (\<lambda>startup.
     let self_peer_url = ''http://'' @ trim_end_slashes (ra_listen args);
         peers = filter (\<lambda>peer. \<not> same_peer_endpoint peer self_peer_url)
           (merge_unique_strings (case config of Some c \<Rightarrow> nc_peers c | None \<Rightarrow> []) (ra_peers args))
     in and_then (map_err (\<lambda>e. ''Failed to parse validator keys: '' @ e)
            (parse_validators pf (sp_validator_public_key_hex startup) (ra_scheme args))) (\<lambda>validators.
        let node_is_validator = list_ex (\<lambda>v. v = to_hex (pk_bytes public_key)) (sp_validator_public_key_hex startup);
            produce_enabled = resolve_produce_mode (ra_produce args) (manifest \<noteq> None) node_is_validator (validators = [])
        in Ok (bind_addr, startup, peers, validators, node_is_validator, produce_enabled))))))"

definition prepare_node ::
  "platform \<Rightarrow> (bytes \<Rightarrow> input_witness option) \<Rightarrow> start_env \<Rightarrow> run_args \<Rightarrow> file_system \<Rightarrow> file_system \<times> (string, node_start) res" where
  "prepare_node pf dw env args fs =
     (let state_path = ra_state_path args;
          blocks_path = (case ra_blocks_path args of Some p \<Rightarrow> p | None \<Rightarrow> blocks_path_from_state_path state_path)
      in case node_keys pf env args fs of
           (fs1, Err e) \<Rightarrow> (fs1, Err e)
         | (fs1, Panic) \<Rightarrow> (fs1, Panic)
         | (fs1, Ok (public_key, private_key)) \<Rightarrow>
      (case node_settings pf env args public_key fs1 of
         Err e \<Rightarrow> (fs1, Err e)
       | Panic \<Rightarrow> (fs1, Panic)
       | Ok (bind_addr, startup, peers, validators, node_is_validator, produce_enabled) \<Rightarrow>
      (case load_or_repair_storage pf dw (se_json env) (se_reads env) (se_state_io env) state_path blocks_path
          (sp_chain_id startup) validators fs1 of
         (fs2, Err e) \<Rightarrow> (fs2, Err e)
       | (fs2, Panic) \<Rightarrow> (fs2, Panic)
       | (fs2, Ok (chain, blocks)) \<Rightarrow>
      (case map_err (\<lambda>e. ''Failed to initialize consensus engine: '' @ consensus_error_display e)
          (engine_from_keys (default_registry pf) public_key private_key validators) of
         Err e \<Rightarrow> (fs2, Err e)
       | Panic \<Rightarrow> (fs2, Panic)
       | Ok consensus \<Rightarrow>
          (fs2, Ok \<lparr>ns_runtime =
               \<lparr>nr_chain = chain, nr_blocks = blocks, nr_pending = [], nr_consensus = consensus, nr_state_path = state_path,
                nr_blocks_path = blocks_path, nr_node_public_key_hex = to_hex (pk_bytes public_key),
                nr_node_is_validator = node_is_validator, nr_produce_empty_blocks = ra_produce_empty_blocks args\<rparr>,
             ns_peers = peers, ns_bind_addr = bind_addr, ns_profile = startup, ns_validators = validators,
             ns_produce_enabled = produce_enabled\<rparr>)))))"

section \<open>Facts\<close>

text \<open>Pushing what is not there yet keeps the first occurrences.\<close>

lemma fold_push_index: "fold push_index xs [] = rev (remdups (rev xs))"
proof (induction xs rule: rev_induct)
  case (snoc x xs)
  then show ?case by (simp add: push_index_def)
qed simp

lemma fold_sort_candidate:
  "fold (sort_candidate wanted) cs (n, l) =
     (fold push_index (map ic_index (filter (\<lambda>c. wanted (ic_ip c) \<and> \<not> ic_is_loopback c) cs)) n,
      fold push_index (map ic_index (filter (\<lambda>c. wanted (ic_ip c) \<and> ic_is_loopback c) cs)) l)"
  by (induction cs arbitrary: n l) (auto simp: sort_candidate_def)

lemma keygen_keys:
  assumes "registry_get (default_registry pf) i = Some sch" and "ps_keygen sch seed = Ok (pk, sk)"
  obtains pkb skb where "public_key_new pf i pkb = Ok pk" "private_key_new pf i skb = Ok sk" "\<forall>n. i \<noteq> Unknown n"
  using assms(1)
proof (cases rule: default_registry_cases)
  case 1
  with assms(2) that show ?thesis
    by (auto simp: dilithium2_scheme_def dilithium2_keygen_def res_simps split: prod.splits)
next
  case 2
  with assms(2) that show ?thesis
    by (auto simp: falcon512_scheme_def falcon512_keygen_def res_simps split: prod.splits)
qed

text \<open>The documented behaviour of the JSON library: what was written is read back, also with a newline behind it,
  since white space after a value is skipped.\<close>

definition keypair_codec_ok :: "keypair_codec \<Rightarrow> bool" where
  "keypair_codec_ok kj \<longleftrightarrow> (\<forall>k t. kj_to kj k = Ok t \<longrightarrow> kj_from kj t = Ok k \<and> kj_from kj (t @ [CHR 0x0A]) = Ok k)"

lemma start_runtime_fields:
  assumes "start_runtime pf dw js rd io sp bp chain_id vs pk sk v e fs = Some (rt, fs')"
  shows "nr_pending rt = []" and "nr_node_is_validator rt = v" and "nr_node_public_key_hex rt = to_hex (pk_bytes pk)"
  using assms by (auto simp: start_runtime_def split: prod.splits res.splits)

lemma prepare_node_starts:
  assumes "prepare_node pf dw env args fs = (fs', Ok st)"
  obtains pk sk v e fs1 where
    "start_runtime pf dw (se_json env) (se_reads env) (se_state_io env) (ra_state_path args)
       (case ra_blocks_path args of Some p \<Rightarrow> p | None \<Rightarrow> blocks_path_from_state_path (ra_state_path args))
       (sp_chain_id (ns_profile st)) (ns_validators st) pk sk v e fs1 = Some (ns_runtime st, fs')"
    "node_settings pf env args pk fs1
       = Ok (ns_bind_addr st, ns_profile st, ns_peers st, ns_validators st, v, ns_produce_enabled st)"
proof -
  obtain fs1 kr where k: "node_keys pf env args fs = (fs1, kr)" by fastforce
  from assms k obtain pk sk where kr: "kr = Ok (pk, sk)" by (cases kr) (auto simp: prepare_node_def Let_def)
  from assms k kr obtain b sp ps vs v pe where set: "node_settings pf env args pk fs1 = Ok (b, sp, ps, vs, v, pe)"
    by (cases "node_settings pf env args pk fs1") (auto simp: prepare_node_def Let_def)
  let ?bp = "case ra_blocks_path args of Some p \<Rightarrow> p | None \<Rightarrow> blocks_path_from_state_path (ra_state_path args)"
  obtain fs2 lr where l: "load_or_repair_storage pf dw (se_json env) (se_reads env) (se_state_io env) (ra_state_path args) ?bp
      (sp_chain_id sp) vs fs1 = (fs2, lr)" by fastforce
  from assms k kr set l obtain C bs where lr: "lr = Ok (C, bs)" by (cases lr) (auto simp: prepare_node_def Let_def)
  from assms k kr set l lr obtain eng where eng: "engine_from_keys (default_registry pf) pk sk vs = Ok eng"
    by (cases "engine_from_keys (default_registry pf) pk sk vs") (auto simp: prepare_node_def Let_def)
  from assms k kr set l lr eng have st: "fs' = fs2" "ns_profile st = sp" "ns_validators st = vs" "ns_bind_addr st = b"
    "ns_peers st = ps" "ns_produce_enabled st = pe"
    "ns_runtime st = \<lparr>nr_chain = C, nr_blocks = bs, nr_pending = [], nr_consensus = eng, nr_state_path = ra_state_path args,
       nr_blocks_path = ?bp, nr_node_public_key_hex = to_hex (pk_bytes pk), nr_node_is_validator = v,
       nr_produce_empty_blocks = ra_produce_empty_blocks args\<rparr>"
    by (auto simp: prepare_node_def Let_def)
  show ?thesis
    by (rule that [of pk sk v "ra_produce_empty_blocks args" fs1])
      (use l lr eng set in \<open>simp_all add: start_runtime_def st\<close>)
qed

section \<open>A sample start\<close>

definition sample_start_env :: start_env where
  "sample_start_env = \<lparr>se_json = sample_js, se_keypair_json = \<lparr>kj_to = (\<lambda>k. Err ''no''), kj_from = (\<lambda>t. Err ''no'')\<rparr>,
     se_network_config_from = (\<lambda>t. Err ''no''), se_cluster_manifest_from = (\<lambda>t. Err ''no''), se_reads = no_read_faults,
     se_keypair_io = io_ok, se_state_io = io_ok, se_lookup = (\<lambda>a. Ok [SocketV4 0x7F000001 9700]),
     se_interfaces = Err ''none'', se_seed = 1\<rparr>"

definition sample_args :: run_args where
  "sample_args = \<lparr>ra_state_path = [''d'', ''s''], ra_blocks_path = Some [''d'', ''b''], ra_peers = [], ra_listen = ''127.0.0.1:9700'',
     ra_produce = None, ra_produce_empty_blocks = True, ra_scheme = Dilithium2, ra_keypair_json = None,
     ra_network_config_json = None, ra_cluster_manifest_json = None, ra_validator_public_key_hex = []\<rparr>"

definition sample_node_start :: node_start where
  "sample_node_start = \<lparr>ns_runtime = sample_runtime\<lparr>nr_node_is_validator := False\<rparr>, ns_peers = [],
     ns_bind_addr = SocketV4 0x7F000001 9700,
     ns_profile = \<lparr>sp_chain_id = 0, sp_validator_public_key_hex = [], sp_reliable_node_public_key_hex = [], sp_multicast = [],
       sp_default_multicast_enabled = True\<rparr>,
     ns_validators = [], ns_produce_enabled = True\<rparr>"

lemma sample_prepares:
  "prepare_node (sample_platform True) sample_dw sample_start_env sample_args fmempty = (fmempty, Ok sample_node_start)"
proof -
  have keys: "node_keys (sample_platform True) sample_start_env sample_args fmempty
      = (fmempty, Ok (\<lparr>pk_scheme = Dilithium2, pk_bytes = [1]\<rparr>, \<lparr>sk_scheme = Dilithium2, sk_bytes = [1]\<rparr>))"
    by (simp add: node_keys_def sample_args_def sample_start_env_def default_registry_get dilithium2_scheme_def
        dilithium2_keygen_def sample_lib_def crypto_new_defs validate_key_size_def)
  have settings: "node_settings (sample_platform True) sample_start_env sample_args pk fmempty
      = Ok (SocketV4 0x7F000001 9700, ns_profile sample_node_start, [], [], False, True)" for pk
    by (simp add: node_settings_def sample_args_def sample_start_env_def load_optional_network_config_def
        load_optional_cluster_manifest_def resolve_bind_addr_def list_get_def resolve_startup_profile_def
        merge_unique_hex_strings_def normalize_hex_strings_def merge_unique_strings_def resolve_multicast_configs_def Let_def
        expand_multicast_configs_def default_multicast_v6_configs_def expand_v6_entry_def resolve_ipv6_multicast_interfaces_def
        discover_ipv6_multicast_interfaces_for_bind_addr_def discover_multicast_interface_candidates_def
        sample_node_start_def DEFAULT_CHAIN_ID_def)
  show ?thesis
    using keys settings
    by (simp add: prepare_node_def sample_args_def sample_start_env_def load_or_repair_storage_def load_chain_state_def
        load_block_history_def no_read_faults_def rebuild_chain_state_from_blocks_def default_chain_state_with_id_def
        sample_empty_root engine_from_keys_def sample_node_start_def sample_runtime_def sample_genesis_def sample_engine_def)
qed

section \<open>Properties\<close>

text \<open>\<open>run_node\<close> refines the start of the runtime machine: whatever the arguments, files and outcomes of the
  system, a node it brings up is in a reachable state, with the chain id and the parsed validators of its
  profile, so everything proved of reachable states holds of it from then on. It calls itself a validator
  exactly if its key is in the configured list, an explicit \<open>--produce\<close> decides whether it produces, and
  without one every validator does.\<close>

theorem prepared_node:
  assumes "prepare_node pf dw env args fs = (fs', Ok st)"
  shows "runtime_reachable pf dw (se_json env) (sp_chain_id (ns_profile st)) (ns_validators st) (ns_runtime st, fs') \<and>
    nr_pending (ns_runtime st) = [] \<and>
    (nr_node_is_validator (ns_runtime st) \<longleftrightarrow>
      nr_node_public_key_hex (ns_runtime st) \<in> set (sp_validator_public_key_hex (ns_profile st))) \<and>
    parse_validators pf (sp_validator_public_key_hex (ns_profile st)) (ra_scheme args) = Ok (ns_validators st) \<and>
    (case ra_produce args of
       Some b \<Rightarrow> ns_produce_enabled st = b
     | None \<Rightarrow> nr_node_is_validator (ns_runtime st) \<longrightarrow> ns_produce_enabled st)"
proof -
  from assms obtain pk sk v e fs1 where
    start: "start_runtime pf dw (se_json env) (se_reads env) (se_state_io env) (ra_state_path args)
       (case ra_blocks_path args of Some p \<Rightarrow> p | None \<Rightarrow> blocks_path_from_state_path (ra_state_path args))
       (sp_chain_id (ns_profile st)) (ns_validators st) pk sk v e fs1 = Some (ns_runtime st, fs')" and
    settings: "node_settings pf env args pk fs1
       = Ok (ns_bind_addr st, ns_profile st, ns_peers st, ns_validators st, v, ns_produce_enabled st)"
    by (rule prepare_node_starts)
  note rt = start_runtime_fields [OF start]
  from settings obtain m where set: "parse_validators pf (sp_validator_public_key_hex (ns_profile st)) (ra_scheme args) = Ok (ns_validators st)"
    "v = list_ex (\<lambda>x. x = to_hex (pk_bytes pk)) (sp_validator_public_key_hex (ns_profile st))"
    "ns_produce_enabled st = resolve_produce_mode (ra_produce args) m v (ns_validators st = [])"
    by (auto simp: node_settings_def res_simps Let_def)
  have "runtime_reachable pf dw (se_json env) (sp_chain_id (ns_profile st)) (ns_validators st) (ns_runtime st, fs')"
    by (rule reach_start [OF start])
  with rt set show ?thesis by (auto simp: list_ex_iff split: option.splits)
qed

theorem prepared_node_witness:
  "runtime_reachable (sample_platform True) sample_dw sample_js 0 [] (sample_runtime\<lparr>nr_node_is_validator := False\<rparr>, fmempty)"
  using prepared_node [OF sample_prepares] by (simp add: sample_node_start_def sample_start_env_def)

text \<open>A node keeps its identity: when a keypair file is created, every later start that finds it reads back
  the same keys for the scheme, whatever the randomness, and does not touch the file; asked for another
  scheme it reports an error.\<close>

theorem node_identity_is_stable:
  assumes "load_or_create_keypair_from_json pf kj rd io p scheme (default_registry pf) seed fs = (fs', Ok (pk, sk))"
    and "fmlookup fs p = None" and "keypair_codec_ok kj"
  shows "load_or_create_keypair_from_json pf kj no_read_faults io' p scheme (default_registry pf) seed' fs' = (fs', Ok (pk, sk)) \<and>
    (\<forall>other. other = scheme \<or> (\<exists>e. load_or_create_keypair_from_json pf kj no_read_faults io' p other (default_registry pf) seed' fs'
       = (fs', Err e)))"
proof -
  from assms(1,2) obtain sch where sch: "registry_get (default_registry pf) scheme = Some sch" "ps_keygen sch seed = Ok (pk, sk)"
    and save: "save_keypair_to_json kj io p pk sk fs = (fs', Ok ())"
    by (auto simp: load_or_create_keypair_from_json_def split: option.splits res.splits prod.splits)
      (metis map_err_eq_Ok)
  obtain pkb skb where keys: "public_key_new pf scheme pkb = Ok pk" "private_key_new pf scheme skb = Ok sk" "\<forall>n. scheme \<noteq> Unknown n"
    by (rule keygen_keys [OF sch])
  from save obtain t where t: "kj_to kj (keypair_output_of pk sk) = Ok t" "write_file_atomically io p t fs = (fs', Ok ())"
    by (auto simp: save_keypair_to_json_def split: res.splits)
  have "fmlookup fs' p = Some t" using write_cases [OF t(2)] by simp
  moreover have "kj_from kj t = Ok (keypair_output_of pk sk)" using assms(3) t(1) by (simp add: keypair_codec_ok_def)
  ultimately have "load_or_create_keypair_from_json pf kj no_read_faults io' p other (default_registry pf) seed' fs'
      = (fs', keys_of_keypair_output pf (keypair_output_of pk sk) other)" for other
    by (simp add: load_or_create_keypair_from_json_def load_keypair_from_json_def read_to_string_def no_read_faults_def)
  with keypair_roundtrip [OF keys] show ?thesis by metis
qed

theorem node_identity_is_stable_witness:
  "\<exists>kj fs'. load_or_create_keypair_from_json (sample_platform True) kj no_read_faults io_ok [''d'', ''k''] Dilithium2
     (default_registry (sample_platform True)) 77 fs'
   = (fs', Ok (\<lparr>pk_scheme = Dilithium2, pk_bytes = [1]\<rparr>, \<lparr>sk_scheme = Dilithium2, sk_bytes = [1]\<rparr>))"
proof -
  define k where "k = keypair_output_of \<lparr>pk_scheme = Dilithium2, pk_bytes = [1]\<rparr> \<lparr>sk_scheme = Dilithium2, sk_bytes = [1]\<rparr>"
  define kj where "kj = \<lparr>kj_to = (\<lambda>x. if x = k then Ok ''keys'' else Err ''no''), kj_from = (\<lambda>t. if t = ''keys'' \<or> t = ''keys'' @ [CHR 0x0A] then Ok k else Err ''no'')\<rparr>"
  have ok: "keypair_codec_ok kj" by (simp add: keypair_codec_ok_def kj_def)
  have "load_or_create_keypair_from_json (sample_platform True) kj no_read_faults io_ok [''d'', ''k''] Dilithium2
      (default_registry (sample_platform True)) 1 fmempty
    = (fmupd [''d'', ''k''] ''keys'' (fmdrop [''d'', ''k.tmp''] fmempty),
       Ok (\<lparr>pk_scheme = Dilithium2, pk_bytes = [1]\<rparr>, \<lparr>sk_scheme = Dilithium2, sk_bytes = [1]\<rparr>))"
    by (simp add: load_or_create_keypair_from_json_def default_registry_get dilithium2_scheme_def dilithium2_keygen_def
        sample_lib_def crypto_new_defs validate_key_size_def save_keypair_to_json_def kj_def write_file_atomically_def io_ok_def
        path_parent_def path_file_name_def sync_parent_dir_def temp_path_def) (simp add: k_def)
  from node_identity_is_stable [OF this _ ok] show ?thesis by (simp del: fmdrop_empty) blast
qed

text \<open>When the metadata of an existing keypair file cannot be read, \<open>exists\<close> says that there is none: the node
  generates keys and replaces the file.\<close>

lemma unseen_keypair_replaced:
  assumes "load_or_create_keypair_from_json pf kj rd io p scheme registry seed fs = (fs', Ok (pk, sk))"
    and "rd p = Some StatFails"
  shows "\<exists>selected t. registry_get registry scheme = Some selected \<and> ps_keygen selected seed = Ok (pk, sk) \<and>
    kj_to kj (keypair_output_of pk sk) = Ok t \<and> fmlookup fs' p = Some t"
proof -
  from assms obtain selected where sel: "registry_get registry scheme = Some selected" "ps_keygen selected seed = Ok (pk, sk)"
    and save: "save_keypair_to_json kj io p pk sk fs = (fs', Ok ())"
    by (auto simp: load_or_create_keypair_from_json_def split: option.splits res.splits prod.splits)
      (metis map_err_eq_Ok)
  from save obtain t where t: "kj_to kj (keypair_output_of pk sk) = Ok t" "write_file_atomically io p t fs = (fs', Ok ())"
    by (auto simp: save_keypair_to_json_def split: res.splits)
  from write_cases [OF t(2)] sel t(1) show ?thesis by auto
qed

text \<open>C40. The choice of multicast interfaces for a bind address is what it is meant to be: the indices of the
  candidates with that address that are not loopback interfaces, each once and in the order found, and
  the loopback ones only if there are no others.\<close>

theorem interface_selection:
  "select_multicast_interfaces_for_bind_ip ip cs =
     (let indices = (\<lambda>loopback. rev (remdups (rev (map ic_index (filter (\<lambda>c. ic_ip c = ip \<and> ic_is_loopback c = loopback) cs)))))
      in if indices False \<noteq> [] then indices False else indices True)"
  by (simp add: select_multicast_interfaces_for_bind_ip_def fold_sort_candidate fold_push_index Let_def)

end
