(* ===== verification/QC_Node.thy ===== *)
theory QC_Node
  imports QC_Http QC_Startup "HOL-Library.List_Lexorder" "HOL-Library.Product_Lexorder" "HOL-Library.Char_ord"
begin

text \<open>
  The network core of \<open>qcoin-node/src/node.rs\<close>: the synchronisation state of a node, the handlers of wire
  messages, broadcasting and the timed jobs, as operations on the node state.

  The record \<open>service\<close> holds what is fixed while a node runs: its configuration and the codecs. The record
  \<open>call\<close> holds what one invocation of a handler meets: the readings of the monotonic clock, in nanoseconds
  (one in the handler, one in \<open>send_local_node_info\<close>), the outcome of sending a frame to a peer, of the
  writes of a block, of locking the runtime, and the iteration orders of two hash sets. The state records the
  messages handed to the network. The mutex of the synchronisation state is never held across code that can
  panic, so it is never poisoned, and only the thread of the proactor uses it.

  The runtime is shared with the HTTP thread, and a handler locks it anew for each query and change. What that
  thread does to the runtime between two lockings is part of the state (\<open>nd_others\<close>): one function for each
  of the next lockings, which is applied just before the lock is granted.
\<close>

section \<open>State\<close>

definition second :: nat where
  "second = 1000000000"

definition NODE_INFO_RESPONSE_MIN_INTERVAL :: nat where
  "NODE_INFO_RESPONSE_MIN_INTERVAL = 42 * second"

definition NODE_INFO_PROBE_MIN_INTERVAL :: nat where
  "NODE_INFO_PROBE_MIN_INTERVAL = 5 * second"

record sync_state =
  ss_peer_tip_heights :: "(socket_addr, u64) fmap"
  ss_in_flight_blocks :: "(socket_addr, u64) fmap"
  ss_known_peers :: "socket_addr fset"
  ss_peer_node_info :: "(socket_addr, node_info) fmap"
  ss_peer_rejections :: "(socket_addr, string) fmap"
  ss_pending_transaction_announcements :: "(socket_addr, hash256 fset) fmap"
  ss_peer_last_presence_seen_at :: "(socket_addr, nat) fmap"
  ss_peer_last_node_info_sent_at :: "(socket_addr, nat) fmap"
  ss_peer_last_node_info_probe_at :: "(socket_addr, nat) fmap"

definition sync_state_new :: sync_state where
  "sync_state_new = \<lparr>ss_peer_tip_heights = fmempty, ss_in_flight_blocks = fmempty, ss_known_peers = {||},
     ss_peer_node_info = fmempty, ss_peer_rejections = fmempty, ss_pending_transaction_announcements = fmempty,
     ss_peer_last_presence_seen_at = fmempty, ss_peer_last_node_info_sent_at = fmempty,
     ss_peer_last_node_info_probe_at = fmempty\<rparr>"

record service =
  sv_platform :: platform
  sv_decode_witness :: "bytes \<Rightarrow> input_witness option"
  sv_json :: json_codec
  sv_bincode :: bincode
  sv_bootstrap_targets :: "socket_addr list"
  sv_local_addrs :: "socket_addr fset"
  sv_multicast_enabled :: bool
  sv_produce_enabled :: bool
  sv_reliable_node_public_key_hex :: "string fset"

record call =
  cl_now :: nat
  cl_now_send :: nat
  cl_link :: "socket_addr \<Rightarrow> bytes \<Rightarrow> string option"
  cl_io_blocks :: io_outcome
  cl_io_state :: io_outcome
  cl_poisoned :: "string option"
  cl_hash_order :: "hash256 fset \<Rightarrow> hash256 list"
  cl_peer_order :: "socket_addr fset \<Rightarrow> socket_addr list"
  cl_unix_time :: "(string, u64) res"
  cl_rnd :: nat

record node_state =
  nd_runtime :: node_runtime
  nd_files :: file_system
  nd_sync :: sync_state
  nd_sent :: "(socket_addr \<times> wire_message) list"
  nd_others :: "(node_runtime \<times> file_system \<Rightarrow> node_runtime \<times> file_system) list"

section \<open>Operations\<close>

type_synonym 'a node_op = "node_state \<Rightarrow> node_state \<times> (string, 'a) res"

definition op_return :: "'a \<Rightarrow> 'a node_op" where
  "op_return x = (\<lambda>s. (s, Ok x))"

text \<open>\<open>let x = m?; f(x)\<close>.\<close>

definition op_then :: "'a node_op \<Rightarrow> ('a \<Rightarrow> 'b node_op) \<Rightarrow> 'b node_op" where
  "op_then m f = (\<lambda>s. case m s of
     (s', Ok x) \<Rightarrow> f x s'
   | (s', Err e) \<Rightarrow> (s', Err e)
   | (s', Panic) \<Rightarrow> (s', Panic))"

text \<open>\<open>let r = m;\<close>, with the result as a value: a match on it, or \<open>let _ = m;\<close>.\<close>

definition op_try :: "'a node_op \<Rightarrow> ((string, 'a) res \<Rightarrow> 'b node_op) \<Rightarrow> 'b node_op" where
  "op_try m f = (\<lambda>s. case m s of
     (s', Panic) \<Rightarrow> (s', Panic)
   | (s', r) \<Rightarrow> f r s')"

fun op_for :: "('a \<Rightarrow> unit node_op) \<Rightarrow> 'a list \<Rightarrow> unit node_op" where
  "op_for f [] = op_return ()"
| "op_for f (x # xs) = op_then (f x) (\<lambda>_. op_for f xs)"

definition get_sync :: "(sync_state \<Rightarrow> 'a) \<Rightarrow> 'a node_op" where
  "get_sync f = (\<lambda>s. (s, Ok (f (nd_sync s))))"

definition set_sync :: "(sync_state \<Rightarrow> sync_state) \<Rightarrow> unit node_op" where
  "set_sync f = (\<lambda>s. (s\<lparr>nd_sync := f (nd_sync s)\<rparr>, Ok ()))"

text \<open>Waiting for the lock of the runtime: the HTTP thread may have it before.\<close>

definition lock_runtime :: "node_state \<Rightarrow> node_state" where
  "lock_runtime s =
     (case nd_others s of
        [] \<Rightarrow> s
      | other # others \<Rightarrow>
          (case other (nd_runtime s, nd_files s) of
             (rt, fs) \<Rightarrow> s\<lparr>nd_runtime := rt, nd_files := fs, nd_others := others\<rparr>))"

lemma lock_runtime_idle [simp]: "nd_others s = [] \<Longrightarrow> lock_runtime s = s"
  by (simp add: lock_runtime_def)

definition with_runtime :: "call \<Rightarrow> (node_runtime \<Rightarrow> (string, 'a) res) \<Rightarrow> 'a node_op" where
  "with_runtime cl f = (\<lambda>s.
     let s = lock_runtime s in
     case cl_poisoned cl of
       Some e \<Rightarrow> (s, Err (''failed to lock qcoin runtime: '' @ e))
     | None \<Rightarrow> (s, f (nd_runtime s)))"

definition with_runtime_mut ::
  "call \<Rightarrow> (node_runtime \<times> file_system \<Rightarrow> (node_runtime \<times> file_system) \<times> (string, 'a) res) \<Rightarrow> 'a node_op" where
  "with_runtime_mut cl f = (\<lambda>s.
     let s = lock_runtime s in
     case cl_poisoned cl of
       Some e \<Rightarrow> (s, Err (''failed to lock qcoin runtime: '' @ e))
     | None \<Rightarrow>
         (case f (nd_runtime s, nd_files s) of
            ((rt, fs), r) \<Rightarrow> (s\<lparr>nd_runtime := rt, nd_files := fs\<rparr>, r)))"

definition send_wire :: "service \<Rightarrow> call \<Rightarrow> socket_addr \<Rightarrow> wire_message \<Rightarrow> unit node_op" where
  "send_wire sv cl target msg = (\<lambda>s.
     case encode_wire (sv_bincode sv) msg of
       Err e \<Rightarrow> (s, Err e)
     | Panic \<Rightarrow> (s, Panic)
     | Ok frame \<Rightarrow>
         (case cl_link cl target frame of
            Some e \<Rightarrow> (s, Err (''failed to send qcoin wire message to '' @ addr_display target @ '': '' @ e))
          | None \<Rightarrow> (s\<lparr>nd_sent := nd_sent s @ [(target, msg)]\<rparr>, Ok ())))"

section \<open>Queries of the runtime\<close>

definition current_height :: "call \<Rightarrow> u64 node_op" where
  "current_height cl = with_runtime cl (\<lambda>rt. Ok (cs_height (nr_chain rt)))"

definition current_chain_id :: "call \<Rightarrow> u32 node_op" where
  "current_chain_id cl = with_runtime cl (\<lambda>rt. Ok (cs_chain_id (nr_chain rt)))"

definition tip_snapshot :: "call \<Rightarrow> tip_response node_op" where
  "tip_snapshot cl = with_runtime cl (\<lambda>rt. Ok (tip_of_runtime rt))"

definition block_at_height :: "call \<Rightarrow> u64 \<Rightarrow> block option node_op" where
  "block_at_height cl height = with_runtime cl (\<lambda>rt. Ok (list_get (nr_blocks rt) (unat (saturating_sub height 1))))"

definition has_transaction :: "service \<Rightarrow> call \<Rightarrow> hash256 \<Rightarrow> bool node_op" where
  "has_transaction sv cl h = with_runtime cl (\<lambda>rt.
     and_then (expect (any_tx_id (sv_platform sv) h (nr_pending rt))) (\<lambda>pending.
     if pending then Ok True else expect (transaction_is_committed (sv_platform sv) rt h)))"

fun find_tx_id :: "platform \<Rightarrow> hash256 \<Rightarrow> transaction list \<Rightarrow> transaction option option" where
  "find_tx_id pf h [] = Some None"
| "find_tx_id pf h (t # ts) = do {
     i \<leftarrow> tx_id pf t;
     if i = h then Some (Some t) else find_tx_id pf h ts
   }"

definition transaction_by_id :: "service \<Rightarrow> call \<Rightarrow> hash256 \<Rightarrow> transaction option node_op" where
  "transaction_by_id sv cl h = with_runtime cl (\<lambda>rt. expect (find_tx_id (sv_platform sv) h (nr_pending rt)))"

definition apply_remote_block :: "service \<Rightarrow> call \<Rightarrow> block \<Rightarrow> u64 node_op" where
  "apply_remote_block sv cl b = with_runtime_mut cl
     (runtime_apply_block (sv_platform sv) (sv_decode_witness sv) (sv_json sv) (cl_io_blocks cl) (cl_io_state cl) b)"

definition node_accept_transaction :: "service \<Rightarrow> call \<Rightarrow> transaction \<Rightarrow> transaction_accept_status node_op" where
  "node_accept_transaction sv cl tx = with_runtime_mut cl (\<lambda>(rt, fs).
     case accept_transaction (sv_platform sv) (sv_decode_witness sv) tx rt of (rt', r) \<Rightarrow> ((rt', fs), r))"

definition node_local_info :: "service \<Rightarrow> call \<Rightarrow> node_info node_op" where
  "node_local_info sv cl = with_runtime cl (\<lambda>rt.
     Ok (local_node_info (cs_chain_id (nr_chain rt)) (sv_multicast_enabled sv) (nr_node_public_key_hex rt)
       (nr_node_is_validator rt) (sv_produce_enabled sv)))"

section \<open>The handshake\<close>

definition send_local_node_info :: "service \<Rightarrow> call \<Rightarrow> socket_addr \<Rightarrow> unit node_op" where
  "send_local_node_info sv cl source =
     op_then (set_sync (\<lambda>ss. ss\<lparr>ss_peer_last_node_info_sent_at := fmupd source (cl_now_send cl) (ss_peer_last_node_info_sent_at ss)\<rparr>)) (\<lambda>_.
     op_then (node_local_info sv cl) (\<lambda>info.
     send_wire sv cl source (NodeInfo info)))"

text \<open>\<open>is_none_or(|last| now.duration_since(*last) >= interval)\<close>; a negative duration is zero.\<close>

definition elapsed :: "nat \<Rightarrow> nat option \<Rightarrow> nat \<Rightarrow> bool" where
  "elapsed now earlier interval = (case earlier of None \<Rightarrow> True | Some t \<Rightarrow> interval \<le> now - t)"

definition handle_presence_announce :: "service \<Rightarrow> call \<Rightarrow> socket_addr \<Rightarrow> unit node_op" where
  "handle_presence_announce sv cl source =
     op_then (set_sync (\<lambda>ss. ss\<lparr>ss_peer_last_presence_seen_at := fmupd source (cl_now cl) (ss_peer_last_presence_seen_at ss)\<rparr>)) (\<lambda>_.
     op_then (get_sync (\<lambda>ss. source |\<notin>| ss_known_peers ss \<or>
       elapsed (cl_now cl) (fmlookup (ss_peer_last_node_info_sent_at ss) source) NODE_INFO_RESPONSE_MIN_INTERVAL)) (\<lambda>should_respond.
     if should_respond then send_local_node_info sv cl source else op_return ()))"

definition request_node_info_exchange :: "service \<Rightarrow> call \<Rightarrow> socket_addr \<Rightarrow> unit node_op" where
  "request_node_info_exchange sv cl source =
     op_then (set_sync (\<lambda>ss. ss\<lparr>ss_peer_last_presence_seen_at := fmupd source (cl_now cl) (ss_peer_last_presence_seen_at ss)\<rparr>)) (\<lambda>_.
     op_then (get_sync (\<lambda>ss.
       elapsed (cl_now cl) (fmlookup (ss_peer_last_node_info_probe_at ss) source) NODE_INFO_PROBE_MIN_INTERVAL)) (\<lambda>should_probe.
     if \<not> should_probe then op_return ()
     else
       op_then (set_sync (\<lambda>ss. ss\<lparr>ss_peer_last_node_info_probe_at := fmupd source (cl_now cl) (ss_peer_last_node_info_probe_at ss)\<rparr>)) (\<lambda>_.
       op_try (send_wire sv cl source PresenceAnnounce) (\<lambda>_.
       send_local_node_info sv cl source))))"

definition ensure_compatible_peer :: "service \<Rightarrow> call \<Rightarrow> socket_addr \<Rightarrow> bool node_op" where
  "ensure_compatible_peer sv cl source =
     op_then (get_sync (\<lambda>ss. (source |\<in>| ss_known_peers ss, fmlookup (ss_peer_rejections ss) source))) (\<lambda>(known, rejection).
     if known then op_return True
     else
       (case rejection of
          Some e \<Rightarrow> (\<lambda>s. (s, Err e))
        | None \<Rightarrow> op_try (request_node_info_exchange sv cl source) (\<lambda>_. op_return False)))"

text \<open>\<open>if !self.ensure_compatible_peer(source)? { return Ok(()); }\<close> and what follows.\<close>

definition if_compatible :: "service \<Rightarrow> call \<Rightarrow> socket_addr \<Rightarrow> unit node_op \<Rightarrow> unit node_op" where
  "if_compatible sv cl source m =
     op_then (ensure_compatible_peer sv cl source) (\<lambda>compatible. if compatible then m else op_return ())"

definition reject_peer :: "socket_addr \<Rightarrow> string \<Rightarrow> sync_state \<Rightarrow> sync_state" where
  "reject_peer source e ss =
     ss\<lparr>ss_known_peers := ss_known_peers ss |-| {|source|},
        ss_peer_node_info := fmdrop source (ss_peer_node_info ss),
        ss_peer_rejections := fmupd source e (ss_peer_rejections ss),
        ss_pending_transaction_announcements := fmdrop source (ss_pending_transaction_announcements ss)\<rparr>"

definition admit_peer :: "nat \<Rightarrow> socket_addr \<Rightarrow> node_info \<Rightarrow> sync_state \<Rightarrow> sync_state" where
  "admit_peer now source info ss =
     ss\<lparr>ss_known_peers := finsert source (ss_known_peers ss),
        ss_pending_transaction_announcements := fmdrop source (ss_pending_transaction_announcements ss),
        ss_peer_rejections := fmdrop source (ss_peer_rejections ss),
        ss_peer_last_presence_seen_at := fmupd source now (ss_peer_last_presence_seen_at ss),
        ss_peer_last_node_info_probe_at := fmdrop source (ss_peer_last_node_info_probe_at ss),
        ss_peer_node_info := fmupd source info (ss_peer_node_info ss)\<rparr>"

definition request_announced :: "service \<Rightarrow> call \<Rightarrow> socket_addr \<Rightarrow> hash256 \<Rightarrow> unit node_op" where
  "request_announced sv cl source h =
     op_then (has_transaction sv cl h) (\<lambda>known. if known then op_return () else send_wire sv cl source (TransactionRequest h))"

definition handle_node_info :: "service \<Rightarrow> call \<Rightarrow> socket_addr \<Rightarrow> node_info \<Rightarrow> unit node_op" where
  "handle_node_info sv cl source info =
     op_then (current_chain_id cl) (\<lambda>chain_id.
     case ensure_node_info_compatible chain_id info of
       Err e \<Rightarrow> set_sync (reject_peer source e)
     | Panic \<Rightarrow> (\<lambda>s. (s, Panic))
     | Ok _ \<Rightarrow>
         op_then (get_sync (\<lambda>ss. case fmlookup (ss_pending_transaction_announcements ss) source of
             Some ids \<Rightarrow> cl_hash_order cl ids | None \<Rightarrow> [])) (\<lambda>pending_tx_ids.
         op_then (set_sync (admit_peer (cl_now cl) source info)) (\<lambda>_.
         op_for (request_announced sv cl source) pending_tx_ids)))"

section \<open>Block synchronisation\<close>

definition request_next_missing_block :: "service \<Rightarrow> call \<Rightarrow> socket_addr \<Rightarrow> u64 \<Rightarrow> unit node_op" where
  "request_next_missing_block sv cl source remote_tip_height =
     op_then (current_height cl) (\<lambda>local_height.
     if remote_tip_height \<le> local_height then op_return ()
     else
       (let next_height = local_height + 1 in
        op_then (get_sync (\<lambda>ss. fmlookup (ss_in_flight_blocks ss) source = Some next_height)) (\<lambda>in_flight.
        if in_flight then op_return ()
        else
          op_then (set_sync (\<lambda>ss. ss\<lparr>ss_in_flight_blocks := fmupd source next_height (ss_in_flight_blocks ss)\<rparr>)) (\<lambda>_.
          send_wire sv cl source (BlockRequest next_height)))))"

definition request_follow_up_block :: "service \<Rightarrow> call \<Rightarrow> socket_addr \<Rightarrow> unit node_op" where
  "request_follow_up_block sv cl source =
     op_then (get_sync (\<lambda>ss. case fmlookup (ss_peer_tip_heights ss) source of Some h \<Rightarrow> h | None \<Rightarrow> 0)) (\<lambda>remote_tip.
     request_next_missing_block sv cl source remote_tip)"

definition handle_tip_response :: "service \<Rightarrow> call \<Rightarrow> socket_addr \<Rightarrow> tip_response \<Rightarrow> unit node_op" where
  "handle_tip_response sv cl source tip =
     if_compatible sv cl source
       (op_then (set_sync (\<lambda>ss. ss\<lparr>ss_peer_tip_heights := fmupd source (tp_height tip) (ss_peer_tip_heights ss)\<rparr>)) (\<lambda>_.
        request_next_missing_block sv cl source (tp_height tip)))"

definition handle_block_response :: "service \<Rightarrow> call \<Rightarrow> socket_addr \<Rightarrow> u64 \<Rightarrow> block option \<Rightarrow> unit node_op" where
  "handle_block_response sv cl source height b =
     if_compatible sv cl source
       (op_then (set_sync (\<lambda>ss. ss\<lparr>ss_in_flight_blocks := fmdrop source (ss_in_flight_blocks ss)\<rparr>)) (\<lambda>_.
        case b of
          None \<Rightarrow> op_return ()
        | Some b \<Rightarrow>
            op_then (current_height cl) (\<lambda>local_height.
            if height \<le> local_height then request_follow_up_block sv cl source
            else
              op_try (apply_remote_block sv cl b) (\<lambda>r.
              case r of
                Ok new_height \<Rightarrow> request_follow_up_block sv cl source
              | _ \<Rightarrow> op_return ()))))"

definition submit_block_reply :: "service \<Rightarrow> call \<Rightarrow> block \<Rightarrow> submit_block_response node_op" where
  "submit_block_reply sv cl b =
     op_try (apply_remote_block sv cl b) (\<lambda>r.
     case r of
       Ok height \<Rightarrow> op_return \<lparr>sb_accepted = True, sb_height = height, sb_message = ''block accepted''\<rparr>
     | Err e \<Rightarrow>
         op_then (current_height cl) (\<lambda>height. op_return \<lparr>sb_accepted = False, sb_height = height, sb_message = e\<rparr>)
     | Panic \<Rightarrow> (\<lambda>s. (s, Panic)))"

section \<open>Broadcasting\<close>

definition should_ignore_bootstrap_send_error :: "socket_addr \<Rightarrow> string \<Rightarrow> bool" where
  "should_ignore_bootstrap_send_error target err \<longleftrightarrow>
     ip_is_multicast (addr_ip target) \<and>
     list_ex (str_contains err) [''No route to host'', ''Network is unreachable'', ''Host is unreachable'']"

definition bootstrap_send :: "service \<Rightarrow> call \<Rightarrow> wire_message \<Rightarrow> socket_addr \<Rightarrow> unit node_op" where
  "bootstrap_send sv cl msg target =
     op_try (send_wire sv cl target msg) (\<lambda>r.
     case r of
       Err e \<Rightarrow> if should_ignore_bootstrap_send_error target e then op_return () else (\<lambda>s. (s, Err e))
     | _ \<Rightarrow> op_return ())"

definition broadcast_presence_announces :: "service \<Rightarrow> call \<Rightarrow> unit node_op" where
  "broadcast_presence_announces sv cl = op_for (bootstrap_send sv cl PresenceAnnounce) (sv_bootstrap_targets sv)"

definition broadcast_transaction_announce :: "service \<Rightarrow> call \<Rightarrow> hash256 \<Rightarrow> unit node_op" where
  "broadcast_transaction_announce sv cl h = op_for (bootstrap_send sv cl (TransactionAnnounce h)) (sv_bootstrap_targets sv)"

fun best_effort_loop :: "(socket_addr \<Rightarrow> unit node_op) \<Rightarrow> socket_addr list \<Rightarrow> nat \<Rightarrow> string list \<Rightarrow> (nat \<times> string list) node_op" where
  "best_effort_loop send [] successes failures = op_return (successes, failures)"
| "best_effort_loop send (target # targets) successes failures =
     op_try (send target) (\<lambda>r.
     case r of
       Err e \<Rightarrow> best_effort_loop send targets successes (failures @ [addr_display target @ '': '' @ e])
     | _ \<Rightarrow> best_effort_loop send targets (successes + 1) failures)"

definition broadcast_best_effort :: "socket_addr list \<Rightarrow> (socket_addr \<Rightarrow> unit node_op) \<Rightarrow> unit node_op" where
  "broadcast_best_effort targets send =
     op_then (best_effort_loop send targets 0 []) (\<lambda>(successes, failures).
     if 0 < length targets \<and> successes = 0 \<and> failures \<noteq> []
     then (\<lambda>s. (s, Err (''failed to send to all '' @ show_nat (length targets) @ '' peer(s): '' @ str_join ''; '' failures)))
     else op_return ())"

definition is_reliable_peer :: "service \<Rightarrow> sync_state \<Rightarrow> socket_addr \<Rightarrow> bool" where
  "is_reliable_peer sv ss peer =
     (case fmlookup (ss_peer_node_info ss) peer of
        Some info \<Rightarrow> ni_node_public_key_hex info |\<in>| sv_reliable_node_public_key_hex sv
      | None \<Rightarrow> False)"

text \<open>Reliable peers first, then by the text of the address.\<close>

definition known_peers :: "service \<Rightarrow> call \<Rightarrow> sync_state \<Rightarrow> socket_addr list" where
  "known_peers sv cl ss =
     sort_key (\<lambda>peer. (\<not> is_reliable_peer sv ss peer, addr_display peer))
       (filter (\<lambda>peer. peer |\<notin>| sv_local_addrs sv) (cl_peer_order cl (ss_known_peers ss)))"

definition broadcast_tip_requests :: "service \<Rightarrow> call \<Rightarrow> unit node_op" where
  "broadcast_tip_requests sv cl =
     op_then (get_sync (known_peers sv cl)) (\<lambda>peers.
     broadcast_best_effort peers (\<lambda>peer. send_wire sv cl peer TipRequest))"

definition send_block :: "service \<Rightarrow> call \<Rightarrow> block \<Rightarrow> bytes \<Rightarrow> socket_addr \<Rightarrow> unit node_op" where
  "send_block sv cl b encoded peer = (\<lambda>s.
     case cl_link cl peer encoded of
       Some e \<Rightarrow> (s, Err (''failed to broadcast block to '' @ addr_display peer @ '': '' @ e))
     | None \<Rightarrow> (s\<lparr>nd_sent := nd_sent s @ [(peer, SubmitBlock b)]\<rparr>, Ok ()))"

definition broadcast_block :: "service \<Rightarrow> call \<Rightarrow> block \<Rightarrow> unit node_op" where
  "broadcast_block sv cl b =
     op_then (get_sync (known_peers sv cl)) (\<lambda>peers.
     if peers = [] then op_return ()
     else
       op_then (\<lambda>s. (s, encode_wire (sv_bincode sv) (SubmitBlock b))) (\<lambda>encoded.
       op_for (send_block sv cl b encoded) peers))"

definition node_produce_one_block :: "service \<Rightarrow> call \<Rightarrow> (u64 \<times> block) option node_op" where
  "node_produce_one_block sv cl = (\<lambda>s.
     let s = lock_runtime s in
     case produce_one_block (sv_platform sv) (sv_decode_witness sv) (sv_json sv) (cl_io_blocks cl) (cl_io_state cl)
         (cl_poisoned cl) (cl_unix_time cl) (cl_rnd cl) (nd_runtime s, nd_files s) of
       ((rt, fs), r) \<Rightarrow> (s\<lparr>nd_runtime := rt, nd_files := fs\<rparr>, r))"

definition produce_now :: "service \<Rightarrow> call \<Rightarrow> u64 option node_op" where
  "produce_now sv cl =
     op_then (node_produce_one_block sv cl) (\<lambda>produced.
     case produced of
       None \<Rightarrow> op_return None
     | Some (height, b) \<Rightarrow> op_then (broadcast_block sv cl b) (\<lambda>_. op_return (Some height)))"

section \<open>Transactions\<close>

definition note_announcement :: "socket_addr \<Rightarrow> hash256 \<Rightarrow> sync_state \<Rightarrow> sync_state" where
  "note_announcement source h ss =
     ss\<lparr>ss_pending_transaction_announcements :=
          fmupd source (finsert h (case fmlookup (ss_pending_transaction_announcements ss) source of Some ids \<Rightarrow> ids | None \<Rightarrow> {||}))
            (ss_pending_transaction_announcements ss)\<rparr>"

definition handle_transaction_announce :: "service \<Rightarrow> call \<Rightarrow> socket_addr \<Rightarrow> hash256 \<Rightarrow> unit node_op" where
  "handle_transaction_announce sv cl source h =
     op_then (has_transaction sv cl h) (\<lambda>has.
     if has then op_return ()
     else
       op_then (get_sync (\<lambda>ss. (source |\<in>| ss_known_peers ss, fmlookup (ss_peer_rejections ss) source \<noteq> None))) (\<lambda>(known, rejected).
       if known then send_wire sv cl source (TransactionRequest h)
       else if rejected then op_return ()
       else
         op_then (set_sync (note_announcement source h)) (\<lambda>_.
         op_try (request_node_info_exchange sv cl source) (\<lambda>_. op_return ()))))"

definition handle_transaction_request :: "service \<Rightarrow> call \<Rightarrow> socket_addr \<Rightarrow> hash256 \<Rightarrow> unit node_op" where
  "handle_transaction_request sv cl source h =
     if_compatible sv cl source
       (op_then (transaction_by_id sv cl h) (\<lambda>tx. send_wire sv cl source (TransactionResponse h tx)))"

definition handle_transaction_response ::
  "service \<Rightarrow> call \<Rightarrow> socket_addr \<Rightarrow> hash256 \<Rightarrow> transaction option \<Rightarrow> unit node_op" where
  "handle_transaction_response sv cl source h tx =
     if_compatible sv cl source
       (case tx of
          None \<Rightarrow> op_return ()
        | Some tx \<Rightarrow>
            op_then (\<lambda>s. (s, expect (tx_id (sv_platform sv) tx))) (\<lambda>i.
            if i \<noteq> h
            then (\<lambda>s. (s, Err (''peer '' @ addr_display source @ '' sent mismatched transaction payload for '' @ to_hex (hash_slice h))))
            else
              op_then (node_accept_transaction sv cl tx) (\<lambda>status.
              case status of
                AcceptedNew accepted \<Rightarrow> broadcast_transaction_announce sv cl accepted
              | AlreadyPending _ \<Rightarrow> op_return ())))"

fun transaction_reply :: "hash256 \<Rightarrow> (string, transaction_accept_status) res \<Rightarrow> submit_transaction_response \<times> hash256 option" where
  "transaction_reply h (Ok (AcceptedNew i)) =
     (\<lparr>st_accepted = True, st_tx_id_hex = to_hex (hash_slice i), st_message = ''transaction accepted into mempool''\<rparr>, Some i)"
| "transaction_reply h (Ok (AlreadyPending i)) =
     (\<lparr>st_accepted = True, st_tx_id_hex = to_hex (hash_slice i), st_message = ''transaction already pending''\<rparr>, None)"
| "transaction_reply h (Err e) = (\<lparr>st_accepted = False, st_tx_id_hex = to_hex (hash_slice h), st_message = e\<rparr>, None)"
| "transaction_reply h Panic = (\<lparr>st_accepted = False, st_tx_id_hex = [], st_message = []\<rparr>, None)"

definition handle_submitted_transaction :: "service \<Rightarrow> call \<Rightarrow> socket_addr \<Rightarrow> transaction \<Rightarrow> unit node_op" where
  "handle_submitted_transaction sv cl source tx =
     op_then (\<lambda>s. (s, expect (tx_id (sv_platform sv) tx))) (\<lambda>h.
     op_try (node_accept_transaction sv cl tx) (\<lambda>r.
     case transaction_reply h r of
       (response, should_announce) \<Rightarrow>
         op_then (send_wire sv cl source (SubmitTransactionResponse response)) (\<lambda>_.
         case should_announce of
           None \<Rightarrow> op_return ()
         | Some i \<Rightarrow> op_try (broadcast_transaction_announce sv cl i) (\<lambda>_. op_return ()))))"

section \<open>Frames\<close>

fun handle_message :: "service \<Rightarrow> call \<Rightarrow> socket_addr \<Rightarrow> wire_message \<Rightarrow> unit node_op" where
  "handle_message sv cl source PresenceAnnounce = handle_presence_announce sv cl source"
| "handle_message sv cl source (NodeInfo info) = handle_node_info sv cl source info"
| "handle_message sv cl source TipRequest =
     if_compatible sv cl source (op_then (tip_snapshot cl) (\<lambda>tip. send_wire sv cl source (TipResponse tip)))"
| "handle_message sv cl source (TipResponse tip) = handle_tip_response sv cl source tip"
| "handle_message sv cl source (BlockRequest height) =
     if_compatible sv cl source (op_then (block_at_height cl height) (\<lambda>b. send_wire sv cl source (BlockResponse height b)))"
| "handle_message sv cl source (BlockResponse height b) = handle_block_response sv cl source height b"
| "handle_message sv cl source (SubmitBlock b) =
     if_compatible sv cl source
       (op_then (submit_block_reply sv cl b) (\<lambda>response. send_wire sv cl source (SubmitBlockResponse response)))"
| "handle_message sv cl source (SubmitBlockResponse response) = op_return ()"
| "handle_message sv cl source (TransactionAnnounce h) = handle_transaction_announce sv cl source h"
| "handle_message sv cl source (TransactionRequest h) = handle_transaction_request sv cl source h"
| "handle_message sv cl source (TransactionResponse h tx) = handle_transaction_response sv cl source h tx"
| "handle_message sv cl source (SubmitTransaction tx) = handle_submitted_transaction sv cl source tx"
| "handle_message sv cl source (SubmitTransactionResponse response) = op_return ()"

definition handle_frame :: "service \<Rightarrow> call \<Rightarrow> socket_addr \<Rightarrow> bytes \<Rightarrow> unit node_op" where
  "handle_frame sv cl source frame =
     (if source |\<in>| sv_local_addrs sv then op_return ()
      else
        (case decode_wire (sv_bincode sv) frame of
           Ok msg \<Rightarrow> handle_message sv cl source msg
         | Err e \<Rightarrow> op_return ()
         | Panic \<Rightarrow> (\<lambda>s. (s, Panic))))"

text \<open>What \<open>recv_frame\<close> gives until it would block; each frame meets its own call.\<close>

datatype received = ReceivedFrame call socket_addr bytes | ReceiveFails string

fun drain_frames :: "service \<Rightarrow> received list \<Rightarrow> nat \<Rightarrow> nat node_op" where
  "drain_frames sv [] handled = op_return handled"
| "drain_frames sv (ReceivedFrame cl source frame # inbox) handled =
     op_then (handle_frame sv cl source frame) (\<lambda>_. drain_frames sv inbox (handled + 1))"
| "drain_frames sv (ReceiveFails e # inbox) handled = (\<lambda>s. (s, Err (''failed to receive qcoin UDP frame: '' @ e)))"

end
