(* ===== verification/QC_NodeFacts.thy ===== *)
theory QC_NodeFacts
  imports QC_Node
begin

text \<open>
  Reasoning about the operations of \<open>QC_Node\<close>: relations that an operation that returns keeps between the
  state before and after, proved along the structure of the operations, also when the HTTP thread takes the
  lock of the runtime in the middle of an operation; the refinement of the runtime machine by the network
  core; and the invariant of the synchronisation state.
\<close>

section \<open>Relations kept by operations\<close>

definition op_moves :: "(node_state \<Rightarrow> node_state \<Rightarrow> bool) \<Rightarrow> 'a node_op \<Rightarrow> bool" where
  "op_moves R m \<longleftrightarrow> (\<forall>s s' r. m s = (s', r) \<and> r \<noteq> Panic \<longrightarrow> R s s')"

lemma op_movesI: "(\<And>s s' r. m s = (s', r) \<Longrightarrow> r \<noteq> Panic \<Longrightarrow> R s s') \<Longrightarrow> op_moves R m"
  by (simp add: op_moves_def)

lemma op_movesD: "op_moves R m \<Longrightarrow> m s = (s', r) \<Longrightarrow> r \<noteq> Panic \<Longrightarrow> R s s'"
  by (simp add: op_moves_def)

text \<open>Composite operations keep what their parts keep, for every preorder on states.\<close>

locale state_preorder =
  fixes R :: "node_state \<Rightarrow> node_state \<Rightarrow> bool"
  assumes refl: "R s s" and trans: "R s t \<Longrightarrow> R t u \<Longrightarrow> R s u"
begin

lemma pure: "op_moves R (\<lambda>s. (s, g s))"
  by (auto simp: op_moves_def refl)

lemma return: "op_moves R (op_return x)"
  by (auto simp: op_moves_def op_return_def refl)

lemma bind: "op_moves R m \<Longrightarrow> (\<And>x. op_moves R (f x)) \<Longrightarrow> op_moves R (op_then m f)"
  by (rule op_movesI) (auto simp: op_then_def dest: op_movesD intro: trans split: prod.splits res.splits)

lemma attempt: "op_moves R m \<Longrightarrow> (\<And>r. r \<noteq> Panic \<Longrightarrow> op_moves R (f r)) \<Longrightarrow> op_moves R (op_try m f)"
  by (rule op_movesI) (auto simp: op_try_def split: prod.splits res.splits; blast dest: op_movesD intro: trans)

lemma each: "(\<And>x. x \<in> set xs \<Longrightarrow> op_moves R (f x)) \<Longrightarrow> op_moves R (op_for f xs)"
  by (induction xs) (auto intro: return bind)

lemma sync_read: "op_moves R (get_sync g)"
  by (auto simp: op_moves_def get_sync_def refl)

lemma effort: "(\<And>x. op_moves R (send x)) \<Longrightarrow> op_moves R (best_effort_loop send xs a b)"
  by (induction send xs a b rule: best_effort_loop.induct) (auto intro!: return attempt split: res.splits)

lemmas basic = pure return bind each sync_read effort

end

locale lock_preorder = state_preorder +
  assumes lock: "R s (lock_runtime s)"
begin

lemma runtime_read: "op_moves R (with_runtime cl g)"
  by (auto simp: op_moves_def with_runtime_def Let_def lock split: option.splits)

lemma locked: "op_moves R m \<Longrightarrow> op_moves R (\<lambda>s. m (lock_runtime s))"
  by (rule op_movesI) (blast intro: trans lock dest: op_movesD)

lemma runtime_write:
  assumes "\<And>s rt fs r. f (nd_runtime s, nd_files s) = ((rt, fs), r) \<Longrightarrow> r \<noteq> Panic \<Longrightarrow>
    R s (s\<lparr>nd_runtime := rt, nd_files := fs\<rparr>)"
  shows "op_moves R (with_runtime_mut cl f)"
proof -
  have "op_moves R (\<lambda>s. case cl_poisoned cl of
      Some e \<Rightarrow> (s, Err (''failed to lock qcoin runtime: '' @ e))
    | None \<Rightarrow> (case f (nd_runtime s, nd_files s) of ((rt, fs), r) \<Rightarrow> (s\<lparr>nd_runtime := rt, nd_files := fs\<rparr>, r)))"
    by (rule op_movesI) (auto simp: refl assms split: option.splits prod.splits)
  from locked [OF this] show ?thesis by (simp add: with_runtime_mut_def Let_def)
qed

lemmas elementary = basic runtime_read

end

section \<open>The HTTP thread\<close>

inductive http_step :: "service \<Rightarrow> node_runtime \<times> file_system \<Rightarrow> node_runtime \<times> file_system \<Rightarrow> bool" for sv where
  http_serves: "handle_request (sv_platform sv) (sv_decode_witness sv) (sv_json sv) (sv_bincode sv) io1 io2 info req s
    = (s', Some resp) \<Longrightarrow> http_step sv s s'"

definition http_only :: "service \<Rightarrow> (node_runtime \<times> file_system \<Rightarrow> node_runtime \<times> file_system) list \<Rightarrow> bool" where
  "http_only sv others \<longleftrightarrow> (\<forall>other\<in>set others. \<forall>s. (http_step sv)\<^sup>*\<^sup>* s (other s))"

lemma http_only_simps [simp]:
  "http_only sv []" "http_only sv (other # others) \<longleftrightarrow> (\<forall>s. (http_step sv)\<^sup>*\<^sup>* s (other s)) \<and> http_only sv others"
  by (simp_all add: http_only_def)

lemma http_step_runtime:
  assumes "(http_step sv)\<^sup>*\<^sup>* s t"
  shows "(runtime_step (sv_platform sv) (sv_decode_witness sv) (sv_json sv))\<^sup>*\<^sup>* s t"
  using assms
proof (induction rule: rtranclp_induct)
  case (step t u)
  from step(2) have "u = t \<or> runtime_step (sv_platform sv) (sv_decode_witness sv) (sv_json sv) t u"
    by (cases rule: http_step.cases) (blast dest: handle_request_step)
  with step(3) show ?case by auto
qed simp

text \<open>A relation in every run in which the HTTP thread only serves requests.\<close>

definition beside_http :: "service \<Rightarrow> (node_state \<Rightarrow> node_state \<Rightarrow> bool) \<Rightarrow> node_state \<Rightarrow> node_state \<Rightarrow> bool" where
  "beside_http sv R s t \<longleftrightarrow> (http_only sv (nd_others s) \<longrightarrow> http_only sv (nd_others t) \<and> R s t)"

text \<open>For a preorder that the HTTP thread keeps it is one that waiting for the lock keeps.\<close>

locale http_preorder = state_preorder R for R :: "node_state \<Rightarrow> node_state \<Rightarrow> bool" +
  fixes sv :: service
  assumes http: "http_step sv (nd_runtime s, nd_files s) (rt, fs) \<Longrightarrow> R s (s\<lparr>nd_runtime := rt, nd_files := fs\<rparr>)"
    and others: "R s (s\<lparr>nd_others := others\<rparr>)"
begin

lemma http_many:
  assumes "(http_step sv)\<^sup>*\<^sup>* (nd_runtime s, nd_files s) u"
  shows "R s (s\<lparr>nd_runtime := fst u, nd_files := snd u\<rparr>)"
  using assms
proof (induction rule: rtranclp_induct)
  case base
  show ?case by (simp add: refl)
next
  case (step t u)
  from http [of "s\<lparr>nd_runtime := fst t, nd_files := snd t\<rparr>" "fst u" "snd u"] step(2)
  have "R (s\<lparr>nd_runtime := fst t, nd_files := snd t\<rparr>) (s\<lparr>nd_runtime := fst u, nd_files := snd u\<rparr>)" by simp
  with step(3) show ?case by (rule trans)
qed

sublocale beside: lock_preorder "beside_http sv R"
proof
  fix s t u :: node_state
  show "beside_http sv R s s" by (simp add: beside_http_def refl)
  show "beside_http sv R s t \<Longrightarrow> beside_http sv R t u \<Longrightarrow> beside_http sv R s u"
    by (auto simp: beside_http_def intro: trans)
  show "beside_http sv R s (lock_runtime s)"
  proof (cases "nd_others s")
    case (Cons other others')
    obtain rt fs where o: "other (nd_runtime s, nd_files s) = (rt, fs)" by fastforce
    have "R s (lock_runtime s)" if "http_only sv (nd_others s)"
    proof -
      from that Cons have "(http_step sv)\<^sup>*\<^sup>* (nd_runtime s, nd_files s) (other (nd_runtime s, nd_files s))" by simp
      from http_many [OF this] others [of "s\<lparr>nd_runtime := rt, nd_files := fs\<rparr>" others']
      show ?thesis by (auto simp: lock_runtime_def Cons o intro: trans)
    qed
    then show ?thesis by (auto simp: beside_http_def lock_runtime_def Cons o)
  qed (simp add: beside_http_def refl)
qed

lemma unlocked:
  assumes "op_moves R m" and "\<And>s s' r. m s = (s', r) \<Longrightarrow> nd_others s' = nd_others s"
  shows "op_moves (beside_http sv R) m"
  using assms by (auto simp: op_moves_def beside_http_def)

text \<open>A callback during which the HTTP thread does \<open>before\<close>.\<close>

lemma callback:
  assumes "op_moves (beside_http sv R) m" and "http_only sv before" and "m (s\<lparr>nd_others := before\<rparr>) = (s', r)" and "r \<noteq> Panic"
  shows "R s (s'\<lparr>nd_others := []\<rparr>)"
proof -
  from op_movesD [OF assms(1,3,4)] assms(2) have "R (s\<lparr>nd_others := before\<rparr>) s'" by (simp add: beside_http_def)
  with others [of s before] others [of s' "[]"] show ?thesis by (blast intro: trans)
qed

end

section \<open>The runtime machine under the network core\<close>

definition runs :: "service \<Rightarrow> node_state \<Rightarrow> node_state \<Rightarrow> bool" where
  "runs sv s t \<longleftrightarrow> (runtime_step (sv_platform sv) (sv_decode_witness sv) (sv_json sv))\<^sup>*\<^sup>*
     (nd_runtime s, nd_files s) (nd_runtime t, nd_files t)"

lemma produce_cases:
  assumes "node_produce_one_block sv cl s = (s', r)"
  obtains rt fs where "s' = (lock_runtime s)\<lparr>nd_runtime := rt, nd_files := fs\<rparr>"
    and "produce_one_block (sv_platform sv) (sv_decode_witness sv) (sv_json sv) (cl_io_blocks cl) (cl_io_state cl) (cl_poisoned cl)
      (cl_unix_time cl) (cl_rnd cl) (nd_runtime (lock_runtime s), nd_files (lock_runtime s)) = ((rt, fs), r)"
  using assms by (auto simp: node_produce_one_block_def Let_def split: prod.splits)

interpretation runs: http_preorder "runs sv" sv for sv
proof
  fix s t u :: node_state and rt fs others
  show "runs sv s s" "runs sv s (s\<lparr>nd_others := others\<rparr>)" by (simp_all add: runs_def)
  show "runs sv s t \<Longrightarrow> runs sv t u \<Longrightarrow> runs sv s u" by (auto simp: runs_def)
  show "http_step sv (nd_runtime s, nd_files s) (rt, fs) \<Longrightarrow> runs sv s (s\<lparr>nd_runtime := rt, nd_files := fs\<rparr>)"
    using http_step_runtime [OF r_into_rtranclp] by (simp add: runs_def)
qed

text \<open>Operations that do not lock the runtime.\<close>

lemma unlocked_ops:
  "set_sync f s = (s', r) \<Longrightarrow> nd_others s' = nd_others s"
  "send_wire sv cl target msg s = (s', r) \<Longrightarrow> nd_others s' = nd_others s"
  "send_block sv cl b e target s = (s', r) \<Longrightarrow> nd_others s' = nd_others s"
  by (auto simp: set_sync_def send_wire_def send_block_def split: res.splits option.splits)

text \<open>A preorder on states of a running node, beside the HTTP thread.\<close>

abbreviation running :: "service \<Rightarrow> node_state \<Rightarrow> node_state \<Rightarrow> bool" where
  "running sv \<equiv> beside_http sv (runs sv)"

lemma running_set_sync: "op_moves (running sv) (set_sync f)"
  by (rule runs.unlocked [OF _ unlocked_ops(1)]) (auto simp: op_moves_def set_sync_def runs_def)

lemma running_send_wire: "op_moves (running sv) (send_wire sv cl target msg)"
  by (rule runs.unlocked [OF _ unlocked_ops(2)]) (auto simp: op_moves_def send_wire_def runs_def split: res.splits option.splits)

lemma running_send_block: "op_moves (running sv) (send_block sv cl b e target)"
  by (rule runs.unlocked [OF _ unlocked_ops(3)]) (auto simp: op_moves_def send_block_def runs_def split: option.splits)

lemma running_step:
  assumes "runtime_step (sv_platform sv) (sv_decode_witness sv) (sv_json sv) (nd_runtime s, nd_files s) (rt, fs)"
  shows "running sv s (s\<lparr>nd_runtime := rt, nd_files := fs\<rparr>)"
  using assms by (simp add: beside_http_def runs_def r_into_rtranclp)

lemma running_apply_block: "op_moves (running sv) (apply_remote_block sv cl b)"
  unfolding apply_remote_block_def by (rule runs.beside.runtime_write) (blast intro: running_step step_block)

lemma running_accept: "op_moves (running sv) (node_accept_transaction sv cl tx)"
  unfolding node_accept_transaction_def
  by (rule runs.beside.runtime_write) (auto intro!: running_step step_transaction split: prod.splits)

lemma running_produce: "op_moves (running sv) (node_produce_one_block sv cl)"
proof (rule op_movesI)
  fix s s' r assume p: "node_produce_one_block sv cl s = (s', r)" "r \<noteq> Panic"
  from p(1) show "running sv s s'"
  proof (cases rule: produce_cases)
    case (1 rt fs)
    from running_step [OF step_produce [OF 1(2) p(2)]] show ?thesis
      unfolding 1(1) by (rule runs.beside.trans [OF runs.beside.lock])
  qed
qed

lemma running_broadcast_block: "op_moves (running sv) (broadcast_block sv cl b)"
  unfolding broadcast_block_def by (auto intro!: runs.beside.basic running_send_block)

lemmas queries = current_height_def current_chain_id_def tip_snapshot_def block_at_height_def has_transaction_def
  transaction_by_id_def node_local_info_def

lemmas handler_defs = handle_presence_announce_def handle_node_info_def request_announced_def handle_tip_response_def
  handle_block_response_def submit_block_reply_def handle_transaction_announce_def handle_transaction_request_def
  handle_transaction_response_def handle_submitted_transaction_def queries

section \<open>Relations kept by the network core\<close>

text \<open>The blocks in a message.\<close>

fun message_blocks :: "wire_message \<Rightarrow> block set" where
  "message_blocks (BlockResponse h (Some b)) = {b}"
| "message_blocks (SubmitBlock b) = {b}"
| "message_blocks msg = {}"

text \<open>The whole network core keeps a preorder if its elementary operations do, the reply to a block request and
  block production as a whole: these two send blocks.\<close>

locale network_moves = lock_preorder R for R :: "node_state \<Rightarrow> node_state \<Rightarrow> bool" +
  fixes sv :: service
  assumes sync_write: "op_moves R (set_sync f)"
    and sends: "message_blocks msg = {} \<Longrightarrow> op_moves R (send_wire sv cl target msg)"
    and applies: "op_moves R (apply_remote_block sv cl b)"
    and accepts: "op_moves R (node_accept_transaction sv cl tx)"
    and serves: "op_moves R (op_then (block_at_height cl h) (\<lambda>b. send_wire sv cl target (BlockResponse h b)))"
    and produces: "op_moves R (produce_now sv cl)"
begin

lemmas parts = elementary attempt sync_write sends applies accepts

lemma local_info: "op_moves R (send_local_node_info sv cl source)"
  unfolding send_local_node_info_def queries by (intro parts) simp

lemma exchange: "op_moves R (request_node_info_exchange sv cl source)"
  unfolding request_node_info_exchange_def by (auto intro!: parts local_info)

lemma gated: "op_moves R m \<Longrightarrow> op_moves R (if_compatible sv cl source m)"
  unfolding if_compatible_def ensure_compatible_peer_def
  by (auto intro!: parts exchange split: option.splits)

lemma next_block: "op_moves R (request_next_missing_block sv cl source h)"
  unfolding request_next_missing_block_def queries Let_def by (auto intro!: parts)

lemma follow_up: "op_moves R (request_follow_up_block sv cl source)"
  unfolding request_follow_up_block_def by (auto intro!: parts next_block)

lemma announces: "message_blocks msg = {} \<Longrightarrow> op_moves R (bootstrap_send sv cl msg target)"
  unfolding bootstrap_send_def by (auto intro!: parts split: res.splits)

lemma announcement: "op_moves R (broadcast_transaction_announce sv cl h)"
  unfolding broadcast_transaction_announce_def by (auto intro!: parts announces)

lemmas steps = parts local_info exchange gated next_block follow_up announcement

lemma message: "op_moves R (handle_message sv cl source msg)"
proof (cases msg)
  case (BlockRequest h)
  then show ?thesis by (auto intro!: gated serves)
qed (auto simp: handler_defs intro!: steps split: res.splits option.splits transaction_accept_status.splits prod.splits)

lemma frame: "op_moves R (handle_frame sv cl source frame)"
  unfolding handle_frame_def by (auto intro!: steps message split: res.splits)

lemma drain: "op_moves R (drain_frames sv inbox handled)"
proof (induction inbox arbitrary: handled)
  case (Cons x inbox)
  then show ?case by (cases x) (auto intro!: basic frame)
qed (simp add: return)

lemma jobs: "op_moves R (broadcast_presence_announces sv cl)" "op_moves R (broadcast_tip_requests sv cl)"
  "op_moves R (produce_now sv cl)"
  unfolding broadcast_presence_announces_def broadcast_tip_requests_def broadcast_best_effort_def
  by (auto intro!: parts announces produces)

end

interpretation running_net: network_moves "running sv" sv for sv
proof
  fix cl h target
  show "op_moves (running sv) (op_then (block_at_height cl h) (\<lambda>b. send_wire sv cl target (BlockResponse h b)))"
    unfolding block_at_height_def by (intro runs.beside.elementary running_send_wire)
  show "op_moves (running sv) (produce_now sv cl)"
    unfolding produce_now_def by (auto intro!: runs.beside.basic running_produce running_broadcast_block split: option.splits)
qed (simp_all add: running_set_sync running_send_wire running_apply_block running_accept)

section \<open>The invariant of the synchronisation state\<close>

definition peers_ok :: "u32 \<Rightarrow> service \<Rightarrow> sync_state \<Rightarrow> bool" where
  "peers_ok c sv ss \<longleftrightarrow>
     fmdom (ss_peer_node_info ss) = ss_known_peers ss \<and>
     (\<forall>p i. fmlookup (ss_peer_node_info ss) p = Some i \<longrightarrow> ensure_node_info_compatible c i = Ok ()) \<and>
     ss_known_peers ss |\<inter>| fmdom (ss_peer_rejections ss) = {||} \<and>
     ss_known_peers ss |\<inter>| fmdom (ss_pending_transaction_announcements ss) = {||} \<and>
     fmdom (ss_peer_rejections ss) |\<inter>| fmdom (ss_pending_transaction_announcements ss) = {||} \<and>
     ss_known_peers ss |\<inter>| sv_local_addrs sv = {||}"

definition node_ok :: "u32 \<Rightarrow> service \<Rightarrow> node_state \<Rightarrow> bool" where
  "node_ok c sv s \<longleftrightarrow> cs_chain_id (nr_chain (nd_runtime s)) = c \<and> peers_ok c sv (nd_sync s)"

definition keeps :: "u32 \<Rightarrow> service \<Rightarrow> node_state \<Rightarrow> node_state \<Rightarrow> bool" where
  "keeps c sv s t \<longleftrightarrow> (node_ok c sv s \<longrightarrow> node_ok c sv t)"


lemma peers_ok_new: "peers_ok c sv sync_state_new"
  by (simp add: peers_ok_def sync_state_new_def)

lemma peers_ok_reject: "peers_ok c sv ss \<Longrightarrow> peers_ok c sv (reject_peer source e ss)"
  by (auto simp: peers_ok_def reject_peer_def split: if_splits)

lemma peers_ok_admit:
  assumes "peers_ok c sv ss" and "ensure_node_info_compatible c info = Ok ()" and "source |\<notin>| sv_local_addrs sv"
  shows "peers_ok c sv (admit_peer now source info ss)"
  using assms by (auto simp: peers_ok_def admit_peer_def)

lemma peers_ok_note:
  assumes "peers_ok c sv ss" and "source |\<notin>| ss_known_peers ss" and "fmlookup (ss_peer_rejections ss) source = None"
  shows "peers_ok c sv (note_announcement source h ss)"
  using assms by (auto simp: peers_ok_def note_announcement_def fmlookup_dom_iff)

text \<open>The other writes do not touch the fields the invariant is about.\<close>

lemma peers_ok_clocks:
  "peers_ok c sv (ss\<lparr>ss_peer_last_presence_seen_at := a\<rparr>) = peers_ok c sv ss"
  "peers_ok c sv (ss\<lparr>ss_peer_last_node_info_sent_at := a\<rparr>) = peers_ok c sv ss"
  "peers_ok c sv (ss\<lparr>ss_peer_last_node_info_probe_at := a\<rparr>) = peers_ok c sv ss"
  "peers_ok c sv (ss\<lparr>ss_peer_tip_heights := b\<rparr>) = peers_ok c sv ss"
  "peers_ok c sv (ss\<lparr>ss_in_flight_blocks := b\<rparr>) = peers_ok c sv ss"
  by (simp_all add: peers_ok_def)

lemma step_chain_id:
  assumes "runtime_step pf dw js s t"
  shows "cs_chain_id (nr_chain (fst t)) = cs_chain_id (nr_chain (fst s))"
proof -
  have block: "cs_chain_id (nr_chain (fst t)) = cs_chain_id (nr_chain (fst s))"
    if "runtime_apply_block pf dw js io1 io2 b s = (t, r)" "r \<noteq> Panic" for io1 io2 b r
  proof -
    obtain rt fs rt' fs' where st: "s = (rt, fs)" "t = (rt', fs')" by (cases s; cases t)
    from that [unfolded st] have "cs_chain_id (nr_chain rt') = cs_chain_id (nr_chain rt)"
    proof (cases rule: runtime_apply_block_cases)
      case (2 C u)
      have "cs_chain_id C = cs_chain_id (nr_chain rt)"
        using 2(1,2) by (auto simp: validate_block_def elim!: validated_block_applies)
      then show ?thesis using reconcile_keeps [OF 2(3)] by simp
    qed simp
    then show ?thesis by (simp add: st)
  qed
  from assms show ?thesis
  proof (cases rule: runtime_step.cases)
    case (step_transaction tx rt rt' r fs)
    then show ?thesis by (elim accept_transaction_cases) auto
  next
    case (step_produce io1 io2 poisoned now rnd r)
    then have "t = s \<or> (\<exists>b r'. r' \<noteq> Panic \<and> runtime_apply_block pf dw js io1 io2 b s = (t, r'))"
      by (cases s) (auto simp: produce_one_block_def split: res.splits option.splits bool.splits if_splits prod.splits)
    with block show ?thesis by blast
  qed (use block in blast)
qed

lemma runs_chain_id:
  "runs sv s t \<Longrightarrow> cs_chain_id (nr_chain (nd_runtime t)) = cs_chain_id (nr_chain (nd_runtime s))"
proof -
  assume "runs sv s t"
  then have "(runtime_step (sv_platform sv) (sv_decode_witness sv) (sv_json sv))\<^sup>*\<^sup>*
     (nd_runtime s, nd_files s) (nd_runtime t, nd_files t)" by (simp add: runs_def)
  then have "cs_chain_id (nr_chain (fst (nd_runtime t, nd_files t))) = cs_chain_id (nr_chain (fst (nd_runtime s, nd_files s)))"
    by (induction rule: rtranclp_induct) (simp_all add: step_chain_id)
  then show ?thesis by simp
qed

interpretation keeps: http_preorder "keeps c sv" sv for c sv
proof
  fix s t u :: node_state and rt fs others
  show "keeps c sv s s" "keeps c sv s (s\<lparr>nd_others := others\<rparr>)" by (simp_all add: keeps_def node_ok_def)
  show "keeps c sv s t \<Longrightarrow> keeps c sv t u \<Longrightarrow> keeps c sv s u" by (simp add: keeps_def)
  assume "http_step sv (nd_runtime s, nd_files s) (rt, fs)"
  from runs_chain_id [OF runs.http [OF this]] show "keeps c sv s (s\<lparr>nd_runtime := rt, nd_files := fs\<rparr>)"
    by (simp add: keeps_def node_ok_def)
qed

abbreviation kept :: "u32 \<Rightarrow> service \<Rightarrow> node_state \<Rightarrow> node_state \<Rightarrow> bool" where
  "kept c sv \<equiv> beside_http sv (keeps c sv)"

text \<open>Operations on the runtime.\<close>

lemma lock_runtime_sel [simp]: "nd_sync (lock_runtime s) = nd_sync s" "nd_sent (lock_runtime s) = nd_sent s"
  by (simp_all add: lock_runtime_def split: list.splits prod.splits)

lemma keeps_runtime_op:
  assumes "op_moves (running sv) m" and "\<And>s s' r. m s = (s', r) \<Longrightarrow> nd_sync s' = nd_sync s"
  shows "op_moves (kept c sv) m"
proof (rule op_movesI)
  fix s s' r assume m: "m s = (s', r)" "r \<noteq> Panic"
  from op_movesD [OF assms(1) m] runs_chain_id assms(2) [OF m(1)] show "kept c sv s s'"
    by (auto simp: beside_http_def keeps_def node_ok_def)
qed

lemma runtime_ops_sync:
  "apply_remote_block sv cl b s = (s', r1) \<Longrightarrow> nd_sync s' = nd_sync s"
  "node_accept_transaction sv cl tx s = (s', r2) \<Longrightarrow> nd_sync s' = nd_sync s"
  "node_produce_one_block sv cl s = (s', r3) \<Longrightarrow> nd_sync s' = nd_sync s"
  "send_wire sv cl target msg s = (s', r4) \<Longrightarrow> nd_sync s' = nd_sync s"
  "send_block sv cl b e target s = (s', r5) \<Longrightarrow> nd_sync s' = nd_sync s"
  by (auto simp: apply_remote_block_def node_accept_transaction_def with_runtime_mut_def node_produce_one_block_def Let_def
      send_wire_def send_block_def split: option.splits prod.splits res.splits)

lemmas keeps_runtime_ops = keeps_runtime_op [OF running_apply_block runtime_ops_sync(1)]
  keeps_runtime_op [OF running_accept runtime_ops_sync(2)] keeps_runtime_op [OF running_produce runtime_ops_sync(3)]
  keeps_runtime_op [OF running_send_wire runtime_ops_sync(4)] keeps_runtime_op [OF running_send_block runtime_ops_sync(5)]

lemma keeps_set_sync:
  "(\<And>ss. peers_ok c sv ss \<Longrightarrow> peers_ok c sv (f ss)) \<Longrightarrow> op_moves (kept c sv) (set_sync f)"
  by (rule keeps.unlocked [OF _ unlocked_ops(1)]) (auto simp: op_moves_def set_sync_def keeps_def node_ok_def)

lemmas keeps_parts = keeps.beside.elementary keeps.beside.attempt keeps_runtime_ops keeps_set_sync

lemma keeps_local_info: "op_moves (kept c sv) (send_local_node_info sv cl source)"
  unfolding send_local_node_info_def queries by (intro keeps_parts) (simp add: peers_ok_clocks)

lemma keeps_exchange: "op_moves (kept c sv) (request_node_info_exchange sv cl source)"
  unfolding request_node_info_exchange_def by (auto simp: peers_ok_clocks intro!: keeps_parts keeps_local_info)

lemma keeps_if_compatible: "op_moves (kept c sv) m \<Longrightarrow> op_moves (kept c sv) (if_compatible sv cl source m)"
  unfolding if_compatible_def ensure_compatible_peer_def
  by (auto intro!: keeps_parts keeps_exchange split: option.splits)

lemma keeps_next_block: "op_moves (kept c sv) (request_next_missing_block sv cl source h)"
  unfolding request_next_missing_block_def queries Let_def by (auto simp: peers_ok_clocks intro!: keeps_parts)

lemma keeps_follow_up: "op_moves (kept c sv) (request_follow_up_block sv cl source)"
  unfolding request_follow_up_block_def by (auto intro!: keeps_parts keeps_next_block)

lemma keeps_bootstrap_send: "op_moves (kept c sv) (bootstrap_send sv cl msg target)"
  unfolding bootstrap_send_def by (auto intro!: keeps_parts split: res.splits)

lemma keeps_announce: "op_moves (kept c sv) (broadcast_transaction_announce sv cl h)"
  unfolding broadcast_transaction_announce_def by (auto intro!: keeps_parts keeps_bootstrap_send)

lemmas keeps_steps = keeps_parts keeps_local_info keeps_exchange keeps_if_compatible keeps_next_block keeps_follow_up
  keeps_bootstrap_send keeps_announce

text \<open>The two handlers whose writes depend on what they read before.\<close>

lemma keeps_node_info:
  assumes "source |\<notin>| sv_local_addrs sv"
  shows "op_moves (kept c sv) (handle_node_info sv cl source info)"
proof (rule op_movesI)
  fix s s' r assume h: "handle_node_info sv cl source info s = (s', r)" "r \<noteq> Panic"
  let ?u = "lock_runtime s"
  have lock: "kept c sv s ?u" by (rule keeps.beside.lock)
  have "op_moves (running sv) (handle_node_info sv cl source info)"
    using running_net.message [where cl = cl and source = source and msg = "NodeInfo info"] by simp
  from op_movesD [OF this h] have run: "running sv s s'" .
  show "kept c sv s s'"
  proof (cases "cl_poisoned cl = None \<and> http_only sv (nd_others s) \<and> node_ok c sv s")
    case True
    with lock have u: "node_ok c sv ?u" by (simp add: beside_http_def keeps_def)
    let ?m = "case ensure_node_info_compatible c info of
       Err e \<Rightarrow> set_sync (reject_peer source e)
     | Panic \<Rightarrow> (\<lambda>s. (s, Panic))
     | Ok _ \<Rightarrow>
         op_then (get_sync (\<lambda>ss. case fmlookup (ss_pending_transaction_announcements ss) source of
             Some ids \<Rightarrow> cl_hash_order cl ids | None \<Rightarrow> [])) (\<lambda>pending_tx_ids.
         op_then (set_sync (admit_peer (cl_now cl) source info)) (\<lambda>_.
         op_for (request_announced sv cl source) pending_tx_ids))"
    have m: "?m ?u = (s', r)"
      using h(1) True u by (simp add: handle_node_info_def op_then_def current_chain_id_def with_runtime_def node_ok_def Let_def)
    have "op_moves (kept c sv) ?m"
      unfolding request_announced_def queries
      using assms by (auto simp: peers_ok_reject peers_ok_admit intro!: keeps_parts split: res.splits)
    from keeps.beside.trans [OF lock op_movesD [OF this m h(2)]] show ?thesis .
  next
    case False
    then consider "s' = ?u" | "http_only sv (nd_others s) \<longrightarrow> \<not> node_ok c sv s"
      using h(1) by (auto simp: handle_node_info_def op_then_def current_chain_id_def with_runtime_def Let_def split: option.splits)
    then show ?thesis
      using run lock by cases (auto simp: beside_http_def keeps_def)
  qed
qed

lemma keeps_transaction_announce: "op_moves (kept c sv) (handle_transaction_announce sv cl source h)"
proof -
  let ?rest = "\<lambda>(known, rejected).
       if known then send_wire sv cl source (TransactionRequest h)
       else if rejected then op_return ()
       else op_then (set_sync (note_announcement source h)) (\<lambda>_.
         op_try (request_node_info_exchange sv cl source) (\<lambda>_. op_return ()))"
  have "op_moves (kept c sv) (op_then (get_sync (\<lambda>ss. (source |\<in>| ss_known_peers ss, fmlookup (ss_peer_rejections ss) source \<noteq> None))) ?rest)"
  proof (rule op_movesI)
    fix s s' r
    assume m: "op_then (get_sync (\<lambda>ss. (source |\<in>| ss_known_peers ss, fmlookup (ss_peer_rejections ss) source \<noteq> None))) ?rest s = (s', r)"
      "r \<noteq> Panic"
    let ?n = "source |\<notin>| ss_known_peers (nd_sync s) \<and> fmlookup (ss_peer_rejections (nd_sync s)) source = None"
    show "kept c sv s s'"
    proof (cases ?n)
      case True
      let ?t = "s\<lparr>nd_sync := note_announcement source h (nd_sync s)\<rparr>"
      have "op_try (request_node_info_exchange sv cl source) (\<lambda>_. op_return ()) ?t = (s', r)"
        using m(1) True by (simp add: op_then_def get_sync_def set_sync_def)
      moreover have "op_moves (kept c sv) (op_try (request_node_info_exchange sv cl source) (\<lambda>_. op_return ()))"
        by (intro keeps_steps)
      ultimately have "kept c sv ?t s'" using m(2) by (blast dest: op_movesD)
      moreover have "kept c sv s ?t" using True by (auto simp: beside_http_def keeps_def node_ok_def peers_ok_note)
      ultimately show ?thesis by (blast intro: keeps.beside.trans)
    next
      case False
      then have "(if source |\<in>| ss_known_peers (nd_sync s) then send_wire sv cl source (TransactionRequest h) else op_return ()) s = (s', r)"
        using m(1) by (auto simp: op_then_def get_sync_def)
      moreover have "op_moves (kept c sv) (if b then send_wire sv cl source (TransactionRequest h) else op_return ())" for b
        by (auto intro!: keeps_parts)
      ultimately show ?thesis using m(2) by (blast dest: op_movesD)
    qed
  qed
  then show ?thesis
    unfolding handle_transaction_announce_def queries by (auto intro!: keeps_parts)
qed

lemma keeps_message:
  assumes "source |\<notin>| sv_local_addrs sv"
  shows "op_moves (kept c sv) (handle_message sv cl source msg)"
proof (cases msg)
  case (NodeInfo info)
  with keeps_node_info [OF assms] show ?thesis by simp
next
  case (TransactionAnnounce h)
  with keeps_transaction_announce show ?thesis by simp
qed (auto simp: handle_presence_announce_def handle_tip_response_def
  handle_block_response_def submit_block_reply_def handle_transaction_request_def
  handle_transaction_response_def handle_submitted_transaction_def queries peers_ok_clocks
  intro!: keeps_steps split: res.splits option.splits transaction_accept_status.splits prod.splits)

lemma keeps_frame: "op_moves (kept c sv) (handle_frame sv cl source frame)"
  unfolding handle_frame_def by (auto intro!: keeps_steps keeps_message split: res.splits)

lemma keeps_jobs:
  "op_moves (kept c sv) (broadcast_presence_announces sv cl)" "op_moves (kept c sv) (broadcast_tip_requests sv cl)"
  "op_moves (kept c sv) (produce_now sv cl)"
  unfolding broadcast_presence_announces_def broadcast_tip_requests_def broadcast_best_effort_def produce_now_def
    broadcast_block_def
  by (auto intro!: keeps_steps split: option.splits)

end
