(* ===== verification/QC_Network.thy ===== *)
theory QC_Network
  imports QC_NodeFacts
begin

text \<open>
  The network core of \<open>qcoin-node/src/node.rs\<close> as a machine, and its properties: what a running node keeps,
  what it does for peers it has no handshake with, how it broadcasts, and how block synchronisation can
  stall.
\<close>

section \<open>The machine\<close>

text \<open>The steps of a running node: a frame, the three timed jobs, and a request on the HTTP thread, which
  shares the runtime. That thread can also serve requests in the middle of the other steps, between two
  lockings of the runtime.\<close>

inductive node_step :: "service \<Rightarrow> node_state \<Rightarrow> node_state \<Rightarrow> bool" for sv where
  node_frame: "http_only sv others \<Longrightarrow> handle_frame sv cl source frame (s\<lparr>nd_others := others\<rparr>) = (s', r) \<Longrightarrow> r \<noteq> Panic
    \<Longrightarrow> node_step sv s (s'\<lparr>nd_others := []\<rparr>)"
| node_presence: "http_only sv others \<Longrightarrow> broadcast_presence_announces sv cl (s\<lparr>nd_others := others\<rparr>) = (s', r) \<Longrightarrow> r \<noteq> Panic
    \<Longrightarrow> node_step sv s (s'\<lparr>nd_others := []\<rparr>)"
| node_tips: "http_only sv others \<Longrightarrow> broadcast_tip_requests sv cl (s\<lparr>nd_others := others\<rparr>) = (s', r) \<Longrightarrow> r \<noteq> Panic
    \<Longrightarrow> node_step sv s (s'\<lparr>nd_others := []\<rparr>)"
| node_produce: "http_only sv others \<Longrightarrow> produce_now sv cl (s\<lparr>nd_others := others\<rparr>) = (s', r') \<Longrightarrow> r' \<noteq> Panic
    \<Longrightarrow> node_step sv s (s'\<lparr>nd_others := []\<rparr>)"
| node_http: "http_step sv (nd_runtime s, nd_files s) (rt, fs) \<Longrightarrow> node_step sv s (s\<lparr>nd_runtime := rt, nd_files := fs\<rparr>)"

text \<open>A node enters the machine with a runtime that the start brought up.\<close>

inductive node_reachable :: "service \<Rightarrow> u32 \<Rightarrow> public_key list \<Rightarrow> node_state \<Rightarrow> bool" for sv chain_id validators where
  node_starts: "runtime_reachable (sv_platform sv) (sv_decode_witness sv) (sv_json sv) chain_id validators (rt, fs)
    \<Longrightarrow> node_reachable sv chain_id validators \<lparr>nd_runtime = rt, nd_files = fs, nd_sync = sync_state_new, nd_sent = [], nd_others = []\<rparr>"
| node_steps: "node_reachable sv chain_id validators s \<Longrightarrow> node_step sv s s' \<Longrightarrow> node_reachable sv chain_id validators s'"

lemma node_step_runs:
  assumes "node_step sv s s'"
  shows "runs sv s s'"
  using assms
proof (cases rule: node_step.cases)
  case (node_http rt fs)
  with runs.http show ?thesis by simp
qed (auto intro: runs.callback running_net.frame running_net.jobs)

lemma node_step_keeps:
  assumes "node_step sv s s'"
  shows "keeps c sv s s'"
  using assms
proof (cases rule: node_step.cases)
  case (node_http rt fs)
  with keeps.http show ?thesis by simp
qed (auto intro: keeps.callback keeps_frame keeps_jobs)

lemma node_reachable_ok:
  assumes "node_reachable sv chain_id vs s"
  shows "runtime_reachable (sv_platform sv) (sv_decode_witness sv) (sv_json sv) chain_id vs (nd_runtime s, nd_files s) \<and>
    node_ok chain_id sv s"
  using assms
proof induction
  case (node_starts rt fs)
  from reachable_ok [OF node_starts] have "cs_chain_id (nr_chain rt) = chain_id"
    using rebuild_facts by (auto simp: runtime_ok_def)
  with node_starts show ?case by (simp add: node_ok_def peers_ok_new)
next
  case (node_steps s s')
  then show ?case
    using reachable_run node_step_runs [OF node_steps(2)] node_step_keeps [OF node_steps(2), of chain_id]
    by (auto simp: runs_def keeps_def)
qed

lemma node_reachable_quiet: "node_reachable sv chain_id vs s \<Longrightarrow> nd_others s = []"
  by (induction rule: node_reachable.induct) (auto elim: node_step.cases)

section \<open>Peers without a handshake\<close>

text \<open>Runtime and files are what the HTTP thread made of them.\<close>

definition served :: "node_state \<Rightarrow> node_state \<Rightarrow> bool" where
  "served s t \<longleftrightarrow> (\<exists>others. nd_others s = others @ nd_others t \<and>
     (nd_runtime t, nd_files t) = fold id others (nd_runtime s, nd_files s))"

lemma served_trans: "served s t \<Longrightarrow> served t u \<Longrightarrow> served s u"
  by (force simp: served_def)

lemma served_lock: "served s (lock_runtime s)"
  by (cases "nd_others s") (auto simp: served_def lock_runtime_def split: prod.splits intro: exI [of _ "[x]" for x])

lemma served_same:
  "nd_others t = nd_others s \<Longrightarrow> nd_runtime t = nd_runtime s \<Longrightarrow> nd_files t = nd_files s \<Longrightarrow> served s t"
  by (simp add: served_def)

definition handshakes :: "socket_addr \<Rightarrow> node_state \<Rightarrow> node_state \<Rightarrow> bool" where
  "handshakes source s t \<longleftrightarrow>
     served s t \<and>
     ss_known_peers (nd_sync t) = ss_known_peers (nd_sync s) \<and>
     ss_peer_tip_heights (nd_sync t) = ss_peer_tip_heights (nd_sync s) \<and>
     ss_in_flight_blocks (nd_sync t) = ss_in_flight_blocks (nd_sync s) \<and>
     (\<exists>sent. nd_sent t = nd_sent s @ sent \<and> set sent \<subseteq> {source} \<times> ({PresenceAnnounce} \<union> range NodeInfo))"

interpretation handshakes: lock_preorder "handshakes source" for source
proof
  fix s t u :: node_state
  show "handshakes source s s" by (simp add: handshakes_def served_same)
  show "handshakes source s (lock_runtime s)" by (simp add: handshakes_def served_lock)
  assume "handshakes source s t" "handshakes source t u"
  then show "handshakes source s u" by (auto simp: handshakes_def intro: served_trans)
qed

lemma handshakes_send:
  "msg = PresenceAnnounce \<or> msg \<in> range NodeInfo \<Longrightarrow> op_moves (handshakes source) (send_wire sv cl source msg)"
  by (auto simp: op_moves_def send_wire_def handshakes_def served_same split: res.splits option.splits)

lemma handshakes_set_sync:
  "(\<And>ss. ss_known_peers (f ss) = ss_known_peers ss \<and> ss_peer_tip_heights (f ss) = ss_peer_tip_heights ss \<and>
       ss_in_flight_blocks (f ss) = ss_in_flight_blocks ss) \<Longrightarrow> op_moves (handshakes source) (set_sync f)"
  by (auto simp: op_moves_def set_sync_def handshakes_def served_same)

lemma handshakes_exchange: "op_moves (handshakes source) (request_node_info_exchange sv cl source)"
  unfolding request_node_info_exchange_def send_local_node_info_def node_local_info_def
  by (auto intro!: handshakes.elementary handshakes.attempt handshakes_set_sync handshakes_send)

lemma unknown_gets_handshake:
  assumes "if_compatible sv cl source m s = (s', r)" and "r \<noteq> Panic" and "source |\<notin>| ss_known_peers (nd_sync s)"
  shows "handshakes source s s'"
proof (cases "fmlookup (ss_peer_rejections (nd_sync s)) source")
  case None
  have "op_moves (handshakes source) (op_then (op_try (request_node_info_exchange sv cl source) (\<lambda>_. op_return False))
      (\<lambda>compatible. op_return ()))"
    by (intro handshakes.basic handshakes.attempt handshakes_exchange)
  moreover have "op_then (op_try (request_node_info_exchange sv cl source) (\<lambda>_. op_return False))
      (\<lambda>compatible. op_return ()) s = (s', r)"
    using assms(1,3) None
    by (auto simp: if_compatible_def ensure_compatible_peer_def op_then_def op_try_def get_sync_def op_return_def
        split: prod.splits res.splits)
  ultimately show ?thesis using assms(2) by (blast dest: op_movesD)
next
  case (Some e)
  with assms(1,3) show ?thesis
    by (auto simp: if_compatible_def ensure_compatible_peer_def op_then_def get_sync_def intro: handshakes.refl)
qed

fun requires_handshake :: "wire_message \<Rightarrow> bool" where
  "requires_handshake TipRequest = True"
| "requires_handshake (TipResponse tip) = True"
| "requires_handshake (BlockRequest h) = True"
| "requires_handshake (BlockResponse h b) = True"
| "requires_handshake (SubmitBlock b) = True"
| "requires_handshake (TransactionRequest h) = True"
| "requires_handshake (TransactionResponse h tx) = True"
| "requires_handshake msg = False"

lemma handle_message_gate:
  "requires_handshake msg \<Longrightarrow> \<exists>m. handle_message sv cl source msg = if_compatible sv cl source m"
  by (cases msg) (auto simp: handle_tip_response_def handle_block_response_def handle_transaction_request_def
      handle_transaction_response_def)

section \<open>Broadcasting\<close>

text \<open>A link that works or not for each peer.\<close>

lemma send_wire_link:
  assumes "encode_wire (sv_bincode sv) msg = Ok frame"
  shows "send_wire sv cl target msg s = (case cl_link cl target frame of
      None \<Rightarrow> (s\<lparr>nd_sent := nd_sent s @ [(target, msg)]\<rparr>, Ok ())
    | Some e \<Rightarrow> (s, Err (''failed to send qcoin wire message to '' @ addr_display target @ '': '' @ e)))"
  using assms by (simp add: send_wire_def split: option.splits)

lemma best_effort_sends:
  assumes "encode_wire (sv_bincode sv) msg = Ok frame"
  shows "\<exists>failures. best_effort_loop (\<lambda>peer. send_wire sv cl peer msg) peers k fs s =
    (s\<lparr>nd_sent := nd_sent s @ map (\<lambda>p. (p, msg)) (filter (\<lambda>p. cl_link cl p frame = None) peers)\<rparr>,
     Ok (k + length (filter (\<lambda>p. cl_link cl p frame = None) peers), failures)) \<and>
    (failures = [] \<longleftrightarrow> fs = [] \<and> (\<forall>p\<in>set peers. cl_link cl p frame = None))"
proof (induction peers arbitrary: k fs s)
  case (Cons p peers)
  show ?case
  proof (cases "cl_link cl p frame")
    case None
    with Cons [of "k + 1" fs "s\<lparr>nd_sent := nd_sent s @ [(p, msg)]\<rparr>"] show ?thesis
      by (simp add: op_try_def send_wire_link [OF assms])
  next
    case (Some e)
    with Cons [of k "fs @ [addr_display p @ '': '' @ (''failed to send qcoin wire message to '' @ addr_display p @ '': '' @ e)]" s]
    show ?thesis by (simp add: op_try_def send_wire_link [OF assms])
  qed
qed (simp add: op_return_def)

lemma send_block_sends:
  "op_for (send_block sv cl b frame) peers s =
    (s\<lparr>nd_sent := nd_sent s @ map (\<lambda>p. (p, SubmitBlock b)) (takeWhile (\<lambda>p. cl_link cl p frame = None) peers)\<rparr>,
     case dropWhile (\<lambda>p. cl_link cl p frame = None) peers of
       [] \<Rightarrow> Ok ()
     | p # ps \<Rightarrow> Err (''failed to broadcast block to '' @ addr_display p @ '': '' @ the (cl_link cl p frame)))"
  by (induction peers arbitrary: s) (auto simp: op_return_def op_then_def send_block_def split: option.splits)

lemma bootstrap_sends:
  assumes "encode_wire (sv_bincode sv) msg = Ok frame" and "\<forall>t\<in>set targets. cl_link cl t frame = None"
  shows "op_for (bootstrap_send sv cl msg) targets s = (s\<lparr>nd_sent := nd_sent s @ map (\<lambda>t. (t, msg)) targets\<rparr>, Ok ())"
  using assms(2)
  by (induction targets arbitrary: s)
    (simp_all add: op_return_def op_then_def bootstrap_send_def op_try_def send_wire_link [OF assms(1)])

section \<open>Presence\<close>

lemma local_info_quiet:
  assumes "node_local_info sv cl s = (s, r)"
  shows "nd_others s = []"
proof (cases "nd_others s")
  case (Cons other others)
  have "lock_runtime s = s" using assms by (auto simp: node_local_info_def with_runtime_def Let_def split: option.splits)
  then have "nd_others (lock_runtime s) = nd_others s" by simp
  then show ?thesis by (simp add: lock_runtime_def Cons split: prod.splits)
qed

lemma local_info_sends:
  assumes "node_local_info sv cl s = (s, Ok info)" and "encode_wire (sv_bincode sv) (NodeInfo info) = Ok frame"
    and "cl_link cl source frame = None" and "nd_runtime t = nd_runtime s" and "nd_others t = []"
  shows "\<exists>t'. send_local_node_info sv cl source t = (t', Ok ()) \<and> nd_sent t' = nd_sent t @ [(source, NodeInfo info)] \<and>
    nd_runtime t' = nd_runtime s \<and> nd_others t' = [] \<and> ss_known_peers (nd_sync t') = ss_known_peers (nd_sync t)"
proof -
  have i: "node_local_info sv cl u = (u, Ok info)" if "nd_runtime u = nd_runtime s" "nd_others u = []" for u
    using assms(1) local_info_quiet [OF assms(1)] that by (auto simp: node_local_info_def with_runtime_def split: option.splits)
  show ?thesis
    using assms(3-5)
    by (simp add: send_local_node_info_def op_then_def set_sync_def i send_wire_link [OF assms(2)])
qed

lemma presence_step:
  assumes "node_local_info sv cl s = (s, Ok info)" and "encode_wire (sv_bincode sv) (NodeInfo info) = Ok frame"
    and "cl_link cl source frame = None" and "nd_runtime t = nd_runtime s" and "nd_others t = []"
  shows "\<exists>t'. handle_message sv cl source PresenceAnnounce t = (t', Ok ()) \<and>
    nd_sent t' = nd_sent t @ (if source |\<notin>| ss_known_peers (nd_sync t) \<or>
        elapsed (cl_now cl) (fmlookup (ss_peer_last_node_info_sent_at (nd_sync t)) source) NODE_INFO_RESPONSE_MIN_INTERVAL
      then [(source, NodeInfo info)] else []) \<and>
    nd_runtime t' = nd_runtime s \<and> nd_others t' = [] \<and> ss_known_peers (nd_sync t') = ss_known_peers (nd_sync t)"
  using local_info_sends [OF assms(1-3), of "t\<lparr>nd_sync := (nd_sync t)\<lparr>ss_peer_last_presence_seen_at :=
      fmupd source (cl_now cl) (ss_peer_last_presence_seen_at (nd_sync t))\<rparr>\<rparr>"] assms(4,5)
  by (auto simp: handle_presence_announce_def op_then_def set_sync_def get_sync_def op_return_def)

lemma presence_flood:
  assumes "node_local_info sv cl s = (s, Ok info)" and "encode_wire (sv_bincode sv) (NodeInfo info) = Ok frame"
    and "cl_link cl source frame = None" and "nd_runtime t = nd_runtime s" and "nd_others t = []"
    and "source |\<notin>| ss_known_peers (nd_sync t)"
  shows "\<exists>t'. op_for (\<lambda>_. handle_message sv cl source PresenceAnnounce) xs t = (t', Ok ()) \<and>
    nd_sent t' = nd_sent t @ replicate (length xs) (source, NodeInfo info)"
  using assms(4-6)
proof (induction xs arbitrary: t)
  case (Cons x xs)
  from presence_step [OF assms(1-3) Cons.prems(1,2)] Cons.prems(3) obtain u where
    u: "handle_message sv cl source PresenceAnnounce t = (u, Ok ())" "nd_sent u = nd_sent t @ [(source, NodeInfo info)]"
      "nd_runtime u = nd_runtime s" "nd_others u = []" "ss_known_peers (nd_sync u) = ss_known_peers (nd_sync t)" by auto
  from Cons.IH [of u] Cons.prems(3) u show ?case by (auto simp: op_then_def simp del: handle_message.simps)
qed (simp add: op_return_def)

section \<open>Tip exchanges\<close>

definition awaiting_block :: "socket_addr \<Rightarrow> node_state \<Rightarrow> bool" where
  "awaiting_block source s \<longleftrightarrow> source |\<in>| ss_known_peers (nd_sync s) \<and>
     fmlookup (ss_in_flight_blocks (nd_sync s)) source = Some (cs_height (nr_chain (nd_runtime s)) + 1)"

lemma known_if_compatible:
  "source |\<in>| ss_known_peers (nd_sync s) \<Longrightarrow> if_compatible sv cl source m s = m s"
  by (simp add: if_compatible_def ensure_compatible_peer_def op_then_def get_sync_def op_return_def)

lemma awaiting_ignores_tips:
  assumes "awaiting_block source s" and "cl_poisoned cl = None" and "nd_others s = []"
  shows "handle_message sv cl source (TipResponse tip) s =
    (s\<lparr>nd_sync := (nd_sync s)\<lparr>ss_peer_tip_heights := fmupd source (tp_height tip) (ss_peer_tip_heights (nd_sync s))\<rparr>\<rparr>, Ok ())"
  using assms
  by (simp add: handle_tip_response_def known_if_compatible awaiting_block_def op_then_def set_sync_def
      request_next_missing_block_def current_height_def with_runtime_def get_sync_def op_return_def Let_def)

lemma awaiting_ignores_all_tips:
  assumes "awaiting_block source s" and "\<forall>(cl, tip)\<in>set exchanges. cl_poisoned cl = None" and "nd_others s = []"
  shows "\<exists>t. op_for (\<lambda>(cl, tip). handle_message sv cl source (TipResponse tip)) exchanges s = (t, Ok ()) \<and>
    awaiting_block source t \<and> nd_sent t = nd_sent s \<and> nd_runtime t = nd_runtime s"
  using assms
proof (induction exchanges arbitrary: s)
  case (Cons x exchanges)
  obtain cl tip where x: "x = (cl, tip)" by (cases x)
  let ?s = "s\<lparr>nd_sync := (nd_sync s)\<lparr>ss_peer_tip_heights := fmupd source (tp_height tip) (ss_peer_tip_heights (nd_sync s))\<rparr>\<rparr>"
  have a: "awaiting_block source ?s" using Cons.prems(1) by (simp add: awaiting_block_def)
  from awaiting_ignores_tips [OF Cons.prems(1), of cl sv tip] Cons.prems(2,3) have
    "handle_message sv cl source (TipResponse tip) s = (?s, Ok ())" by (simp add: x)
  with Cons.IH [OF a] Cons.prems(2,3) show ?case by (simp add: x op_then_def)
qed (simp add: op_return_def)

section \<open>Samples\<close>

definition sample_service :: service where
  "sample_service = \<lparr>sv_platform = sample_platform True, sv_decode_witness = sample_dw, sv_json = sample_write_js,
     sv_bincode = sample_bincode\<lparr>bc_message_to := (\<lambda>msg. Ok [1])\<rparr>, sv_bootstrap_targets = [SocketV4 9 1, SocketV4 8 1],
     sv_local_addrs = {||}, sv_multicast_enabled = False, sv_produce_enabled = True, sv_reliable_node_public_key_hex = {||}\<rparr>"

definition sample_call :: call where
  "sample_call = \<lparr>cl_now = 7, cl_now_send = 8, cl_link = (\<lambda>a f. None), cl_io_blocks = io_ok, cl_io_state = io_ok,
     cl_poisoned = None, cl_hash_order = (\<lambda>S. []), cl_peer_order = (\<lambda>S. if S = {||} then [] else [SocketV4 5 1]),
     cl_unix_time = Ok 7, cl_rnd = 0\<rparr>"

definition sample_node :: node_state where
  "sample_node = \<lparr>nd_runtime = sample_runtime, nd_files = fmempty, nd_sync = sync_state_new, nd_sent = [], nd_others = []\<rparr>"

lemma sample_node_quiet [simp]: "nd_others sample_node = []"
  by (simp add: sample_node_def)

lemma sample_node_reachable: "node_reachable sample_service 0 [] sample_node"
  unfolding sample_node_def by (rule node_starts) (simp add: sample_service_def sample_write_start)

lemma sample_encode: "encode_wire (sv_bincode sample_service) msg = Ok (QCOIN_WIRE_MAGIC @ [1])"
  by (simp add: encode_wire_eq_Ok sample_service_def)

section \<open>Properties\<close>

text \<open>C12. The network core refines the runtime machine: every step of a node (a frame of any content, a timed job
  with any outcome of the network, an HTTP request, also requests in the middle of the other steps) moves runtime and files by steps of the runtime machine
  or not at all, so the runtime of a reachable node is a reachable runtime.\<close>

theorem network_refines_runtime:
  assumes "node_reachable sv chain_id vs s"
  shows "runtime_reachable (sv_platform sv) (sv_decode_witness sv) (sv_json sv) chain_id vs (nd_runtime s, nd_files s) \<and>
    (\<forall>s'. node_step sv s s' \<longrightarrow> (runtime_step (sv_platform sv) (sv_decode_witness sv) (sv_json sv))\<^sup>*\<^sup>*
       (nd_runtime s, nd_files s) (nd_runtime s', nd_files s'))"
  using node_reachable_ok [OF assms] node_step_runs by (auto simp: runs_def)

theorem network_refines_runtime_witness:
  "runtime_reachable (sample_platform True) sample_dw sample_write_js 0 [] (sample_runtime, fmempty)"
  using network_refines_runtime [OF sample_node_reachable] by (simp add: sample_service_def sample_node_def)

text \<open>C19. The peer table of a reachable node is consistent: the known peers are exactly those with a stored
  description, and each description is of a compatible node on the same chain; no known peer is rejected or
  has announcements waiting for the handshake, no rejected peer has announcements waiting, and the node
  never knows itself.\<close>

theorem peer_table_invariant:
  assumes "node_reachable sv chain_id vs s" and "nd_sync s = ss"
  shows "cs_chain_id (nr_chain (nd_runtime s)) = chain_id \<and>
    fmdom (ss_peer_node_info ss) = ss_known_peers ss \<and>
    (\<forall>p i. fmlookup (ss_peer_node_info ss) p = Some i \<longrightarrow> ni_chain_id i = chain_id \<and> 1 \<le> ni_wire_version i \<and>
       ni_min_compatible_wire_version i \<le> 2) \<and>
    ss_known_peers ss |\<inter>| fmdom (ss_peer_rejections ss) = {||} \<and>
    ss_known_peers ss |\<inter>| fmdom (ss_pending_transaction_announcements ss) = {||} \<and>
    fmdom (ss_peer_rejections ss) |\<inter>| fmdom (ss_pending_transaction_announcements ss) = {||} \<and>
    ss_known_peers ss |\<inter>| sv_local_addrs sv = {||}"
  using node_reachable_ok [OF assms(1)] assms(2) by (simp add: node_ok_def peers_ok_def compatible_iff)

theorem peer_table_invariant_witness:
  "cs_chain_id (nr_chain (nd_runtime sample_node)) = 0 \<and>
    fmdom (ss_peer_node_info (nd_sync sample_node)) = ss_known_peers (nd_sync sample_node)"
  using peer_table_invariant [OF sample_node_reachable refl] by simp

text \<open>C20. No service without a handshake: a frame with a block, a tip, a request or a transaction response from a
  peer that is not known changes neither the runtime nor the files (they are what the HTTP thread made of
  them meanwhile) nor the synchronisation of blocks, and nothing is sent but presence and node info, to that
  peer only. (Submitted transactions are accepted from
  anyone, by design.)\<close>

theorem unknown_peers_not_served:
  assumes "handle_frame sv cl source frame s = (s', r)" and "r \<noteq> Panic"
    and "decode_wire (sv_bincode sv) frame = Ok msg" and "requires_handshake msg" and "source |\<notin>| ss_known_peers (nd_sync s)"
  shows "(\<exists>others. nd_others s = others @ nd_others s' \<and> (nd_runtime s', nd_files s') = fold id others (nd_runtime s, nd_files s)) \<and>
    ss_known_peers (nd_sync s') = ss_known_peers (nd_sync s) \<and>
    ss_peer_tip_heights (nd_sync s') = ss_peer_tip_heights (nd_sync s) \<and>
    ss_in_flight_blocks (nd_sync s') = ss_in_flight_blocks (nd_sync s) \<and>
    (\<exists>sent. nd_sent s' = nd_sent s @ sent \<and> set sent \<subseteq> {source} \<times> ({PresenceAnnounce} \<union> range NodeInfo))"
proof -
  have "handshakes source s s'"
  proof (cases "source |\<in>| sv_local_addrs sv")
    case True
    with assms(1) show ?thesis by (auto simp: handle_frame_def op_return_def intro: handshakes.refl)
  next
    case False
    obtain m where "handle_message sv cl source msg = if_compatible sv cl source m"
      using handle_message_gate [OF assms(4)] by blast
    with assms(1,3) False have "if_compatible sv cl source m s = (s', r)" by (simp add: handle_frame_def)
    then show ?thesis using assms(2,5) by (rule unknown_gets_handshake)
  qed
  then show ?thesis by (simp add: handshakes_def served_def)
qed

theorem unknown_peers_not_served_witness:
  "nd_runtime (fst (handle_frame sample_service sample_call (SocketV4 3 3) (QCOIN_WIRE_MAGIC @ [2]) sample_node)) = sample_runtime"
proof -
  obtain s' r where h: "handle_frame sample_service sample_call (SocketV4 3 3) (QCOIN_WIRE_MAGIC @ [2]) sample_node = (s', r)"
    by fastforce
  have d: "decode_wire (sv_bincode sample_service) (QCOIN_WIRE_MAGIC @ [2]) = Ok TipRequest"
    by (simp add: sample_service_def sample_bincode_def)
  have "r \<noteq> Panic"
    using h d
    by (simp add: handle_frame_def sample_service_def if_compatible_def ensure_compatible_peer_def op_then_def get_sync_def
        sample_node_def sync_state_new_def op_try_def request_node_info_exchange_def set_sync_def elapsed_def
        send_wire_def encode_wire_def sample_call_def send_local_node_info_def node_local_info_def with_runtime_def op_return_def)
      auto
  from unknown_peers_not_served [OF h this d] h show ?thesis by (simp add: sample_node_def sync_state_new_def)
qed

text \<open>C23. A block is requested from a peer only once: when a known peer reports a higher tip, the next block is
  marked as in flight before the request is sent, and only an answer of this peer removes the mark. If
  sending fails, or the datagram or its answer is lost, every later tip of that peer, whatever it says, is
  taken without an error and without a new request, as long as the chain has not grown otherwise (here, without
  an HTTP request): the node does not catch up from this peer any more.\<close>

theorem lost_request_stalls_sync:
  assumes "source |\<in>| ss_known_peers (nd_sync s)" and "cl_poisoned cl = None" and "nd_others s = []"
    and "cs_height (nr_chain (nd_runtime s)) < tp_height tip"
    and "fmlookup (ss_in_flight_blocks (nd_sync s)) source \<noteq> Some (cs_height (nr_chain (nd_runtime s)) + 1)"
    and "encode_wire (sv_bincode sv) (BlockRequest (cs_height (nr_chain (nd_runtime s)) + 1)) = Ok frame"
    and "handle_message sv cl source (TipResponse tip) s = (s1, r)"
  shows "(case cl_link cl source frame of
      None \<Rightarrow> r = Ok () \<and> nd_sent s1 = nd_sent s @ [(source, BlockRequest (cs_height (nr_chain (nd_runtime s)) + 1))]
    | Some e \<Rightarrow> (\<exists>e'. r = Err e') \<and> nd_sent s1 = nd_sent s) \<and>
    (\<forall>exchanges. (\<forall>(cl', tip')\<in>set exchanges. cl_poisoned cl' = None) \<longrightarrow>
       (\<exists>t. op_for (\<lambda>(cl', tip'). handle_message sv cl' source (TipResponse tip')) exchanges s1 = (t, Ok ()) \<and>
          nd_sent t = nd_sent s1 \<and> nd_runtime t = nd_runtime s))"
proof -
  have higher: "\<not> tp_height tip \<le> cs_height (nr_chain (nd_runtime s))" using assms(4) by simp
  have step: "(case cl_link cl source frame of
      None \<Rightarrow> r = Ok () \<and> nd_sent s1 = nd_sent s @ [(source, BlockRequest (cs_height (nr_chain (nd_runtime s)) + 1))]
    | Some e \<Rightarrow> (\<exists>e'. r = Err e') \<and> nd_sent s1 = nd_sent s) \<and> awaiting_block source s1 \<and> nd_runtime s1 = nd_runtime s \<and> nd_others s1 = []"
    using assms(1-3,5,7) higher
    by (cases "cl_link cl source frame")
      (auto simp: handle_tip_response_def known_if_compatible awaiting_block_def op_then_def set_sync_def
        request_next_missing_block_def current_height_def with_runtime_def get_sync_def op_return_def Let_def
        send_wire_link [OF assms(6)])
  with awaiting_ignores_all_tips [of source s1] show ?thesis by metis
qed

theorem lost_request_stalls_sync_witness:
  "\<exists>s1 t. handle_message sample_service (sample_call\<lparr>cl_link := (\<lambda>a f. Some ''no route'')\<rparr>) (SocketV4 5 1)
      (TipResponse \<lparr>tp_height = 4, tp_tip_hash_hex = [], tp_state_root_hex = [], tp_last_timestamp = 0\<rparr>)
      (sample_node\<lparr>nd_sync := sync_state_new\<lparr>ss_known_peers := {|SocketV4 5 1|}\<rparr>\<rparr>) = (s1, Err (''failed to send qcoin wire message to ''
        @ addr_display (SocketV4 5 1) @ '': no route'')) \<and>
    handle_message sample_service sample_call (SocketV4 5 1)
      (TipResponse \<lparr>tp_height = 9, tp_tip_hash_hex = [], tp_state_root_hex = [], tp_last_timestamp = 0\<rparr>) s1 = (t, Ok ()) \<and>
    nd_sent t = []"
proof -
  let ?s = "sample_node\<lparr>nd_sync := sync_state_new\<lparr>ss_known_peers := {|SocketV4 5 1|}\<rparr>\<rparr>"
  let ?cl = "sample_call\<lparr>cl_link := (\<lambda>a f. Some ''no route'')\<rparr>"
  let ?tip = "\<lambda>h. \<lparr>tp_height = h, tp_tip_hash_hex = [], tp_state_root_hex = [], tp_last_timestamp = 0\<rparr>"
  have s: "nd_runtime ?s = sample_runtime" "nd_sent ?s = []" "nd_others ?s = []" by (simp_all add: sample_node_def)
  obtain s1 r where h: "handle_message sample_service ?cl (SocketV4 5 1) (TipResponse (?tip 4)) ?s = (s1, r)" by fastforce
  have r: "r = Err (''failed to send qcoin wire message to '' @ addr_display (SocketV4 5 1) @ '': no route'')"
    using h
    by (simp add: handle_tip_response_def known_if_compatible op_then_def set_sync_def request_next_missing_block_def
        current_height_def with_runtime_def get_sync_def op_return_def Let_def send_wire_link [OF sample_encode]
        sample_call_def sample_node_def sample_runtime_sel sample_genesis_sel sync_state_new_def)
  have n: "cs_height (nr_chain (nd_runtime ?s)) = 0"
    by (simp add: sample_node_def sample_runtime_sel sample_genesis_sel)
  have a: "nd_sent s1 = []"
    "\<forall>exchanges. (\<forall>(cl', tip')\<in>set exchanges. cl_poisoned cl' = None) \<longrightarrow>
       (\<exists>t. op_for (\<lambda>(cl', tip'). handle_message sample_service cl' (SocketV4 5 1) (TipResponse tip')) exchanges s1 = (t, Ok ()) \<and>
          nd_sent t = nd_sent s1 \<and> nd_runtime t = nd_runtime ?s)"
    using lost_request_stalls_sync [OF _ _ _ _ _ sample_encode h] n s(2,3)
    by (simp add: sync_state_new_def sample_call_def del: handle_message.simps,
        fastforce simp: sync_state_new_def sample_call_def simp del: handle_message.simps)
  have "nd_sent s1 = [] \<and> (\<exists>t. op_for (\<lambda>(cl', tip'). handle_message sample_service cl' (SocketV4 5 1) (TipResponse tip'))
      [(sample_call, ?tip 9)] s1 = (t, Ok ()) \<and> nd_sent t = nd_sent s1)"
    using a(1) spec [OF a(2), of "[(sample_call, ?tip 9)]"] by (auto simp: sample_call_def simp del: handle_message.simps op_for.simps)
  then obtain t where t: "nd_sent s1 = []" "op_for (\<lambda>(cl', tip'). handle_message sample_service cl' (SocketV4 5 1) (TipResponse tip'))
      [(sample_call, ?tip 9)] s1 = (t, Ok ())" "nd_sent t = nd_sent s1" by blast
  then have "handle_message sample_service sample_call (SocketV4 5 1) (TipResponse (?tip 9)) s1 = (t, Ok ())"
    by (auto simp: op_then_def op_return_def simp del: handle_message.simps split: prod.splits res.splits)
  with h r t show ?thesis by metis
qed

text \<open>Presence, exactly: a known peer gets the node info at most once in 42 seconds of the monotonic clock; a
  peer without a finished handshake gets it for each of its announcements, however many arrive in the
  same instant.\<close>

theorem presence_replies:
  assumes "node_local_info sv cl s = (s, Ok info)" and "encode_wire (sv_bincode sv) (NodeInfo info) = Ok frame"
    and "cl_link cl source frame = None"
  shows "(\<exists>s'. handle_message sv cl source PresenceAnnounce s = (s', Ok ()) \<and>
      nd_sent s' = nd_sent s @ (if source |\<in>| ss_known_peers (nd_sync s) \<and>
          (\<exists>t. fmlookup (ss_peer_last_node_info_sent_at (nd_sync s)) source = Some t \<and> cl_now cl - t < 42 * 1000000000)
        then [] else [(source, NodeInfo info)])) \<and>
    (source |\<notin>| ss_known_peers (nd_sync s) \<longrightarrow>
      (\<forall>n. \<exists>s'. op_for (\<lambda>_. handle_message sv cl source PresenceAnnounce) [0..<n] s = (s', Ok ()) \<and>
        nd_sent s' = nd_sent s @ replicate n (source, NodeInfo info)))"
proof (intro conjI impI allI)
  have e: "\<not> elapsed (cl_now cl) x NODE_INFO_RESPONSE_MIN_INTERVAL \<longleftrightarrow> (\<exists>t. x = Some t \<and> cl_now cl - t < 42 * 1000000000)" for x
    by (auto simp: elapsed_def NODE_INFO_RESPONSE_MIN_INTERVAL_def second_def split: option.splits)
  show "\<exists>s'. handle_message sv cl source PresenceAnnounce s = (s', Ok ()) \<and>
      nd_sent s' = nd_sent s @ (if source |\<in>| ss_known_peers (nd_sync s) \<and>
          (\<exists>t. fmlookup (ss_peer_last_node_info_sent_at (nd_sync s)) source = Some t \<and> cl_now cl - t < 42 * 1000000000)
        then [] else [(source, NodeInfo info)])"
    using presence_step [OF assms refl local_info_quiet [OF assms(1)]] unfolding e [symmetric] by (auto simp del: handle_message.simps)
  show "\<exists>s'. op_for (\<lambda>_. handle_message sv cl source PresenceAnnounce) [0..<n] s = (s', Ok ()) \<and>
      nd_sent s' = nd_sent s @ replicate n (source, NodeInfo info)" if "source |\<notin>| ss_known_peers (nd_sync s)" for n
    using presence_flood [OF assms refl local_info_quiet [OF assms(1)] that, of "[0..<n]"] by (simp del: handle_message.simps)
qed

theorem presence_replies_witness:
  "\<exists>s' info. op_for (\<lambda>_. handle_message sample_service sample_call (SocketV4 3 3) PresenceAnnounce) [0..<1000] sample_node = (s', Ok ()) \<and>
    nd_sent s' = replicate 1000 (SocketV4 3 3, NodeInfo info)"
proof -
  obtain info where i: "node_local_info sample_service sample_call sample_node = (sample_node, Ok info)"
    by (simp add: node_local_info_def with_runtime_def sample_call_def)
  have l: "cl_link sample_call (SocketV4 3 3) (QCOIN_WIRE_MAGIC @ [1]) = None" by (simp add: sample_call_def)
  have k: "SocketV4 3 3 |\<notin>| ss_known_peers (nd_sync sample_node)" "nd_sent sample_node = []"
    by (simp_all add: sample_node_def sync_state_new_def)
  from presence_replies [OF i sample_encode l] k show ?thesis by (metis append_Nil)
qed

text \<open>C31. The two broadcasts differ in what one bad link does. The periodic tip request goes to every peer whose
  link works, and fails only if there are peers and no link works. A new block goes to the peers in their
  order up to the first whose link fails: the ones behind it do not get the block.\<close>

theorem broadcast_reach:
  assumes "encode_wire (sv_bincode sv) TipRequest = Ok ft" and "encode_wire (sv_bincode sv) (SubmitBlock b) = Ok fb"
    and "known_peers sv cl (nd_sync s) = peers"
    and "broadcast_tip_requests sv cl s = (s', r)" and "broadcast_block sv cl b s = (s'', r'')"
  shows "nd_sent s' = nd_sent s @ map (\<lambda>p. (p, TipRequest)) (filter (\<lambda>p. cl_link cl p ft = None) peers) \<and>
    (r = Ok () \<longleftrightarrow> peers = [] \<or> (\<exists>p\<in>set peers. cl_link cl p ft = None)) \<and>
    nd_sent s'' = nd_sent s @ map (\<lambda>p. (p, SubmitBlock b)) (takeWhile (\<lambda>p. cl_link cl p fb = None) peers) \<and>
    (r'' = Ok () \<longleftrightarrow> (\<forall>p\<in>set peers. cl_link cl p fb = None))"
proof -
  obtain failures where f: "best_effort_loop (\<lambda>peer. send_wire sv cl peer TipRequest) peers 0 [] s =
    (s\<lparr>nd_sent := nd_sent s @ map (\<lambda>p. (p, TipRequest)) (filter (\<lambda>p. cl_link cl p ft = None) peers)\<rparr>,
     Ok (0 + length (filter (\<lambda>p. cl_link cl p ft = None) peers), failures))"
    "failures = [] \<longleftrightarrow> (\<forall>p\<in>set peers. cl_link cl p ft = None)"
    using best_effort_sends [OF assms(1), of cl peers 0 "[]" s] by auto
  have tips: "nd_sent s' = nd_sent s @ map (\<lambda>p. (p, TipRequest)) (filter (\<lambda>p. cl_link cl p ft = None) peers)"
    "r = Ok () \<longleftrightarrow> peers = [] \<or> (\<exists>p\<in>set peers. cl_link cl p ft = None)"
    using assms(4) f
    by (auto simp: broadcast_tip_requests_def broadcast_best_effort_def op_then_def get_sync_def assms(3) op_return_def
        filter_empty_conv split: if_splits)
  have blocks: "nd_sent s'' = nd_sent s @ map (\<lambda>p. (p, SubmitBlock b)) (takeWhile (\<lambda>p. cl_link cl p fb = None) peers)"
    "r'' = Ok () \<longleftrightarrow> (\<forall>p\<in>set peers. cl_link cl p fb = None)"
  proof -
    have b: "nd_sent s'' = nd_sent s @ map (\<lambda>p. (p, SubmitBlock b)) (takeWhile (\<lambda>p. cl_link cl p fb = None) peers) \<and>
      (r'' = Ok () \<longleftrightarrow> dropWhile (\<lambda>p. cl_link cl p fb = None) peers = [])"
      using assms(5)
      by (auto simp: broadcast_block_def op_then_def get_sync_def assms(2,3) op_return_def send_block_sends
          simp del: dropWhile_eq_Nil_conv split: if_splits list.splits)
    then show "nd_sent s'' = nd_sent s @ map (\<lambda>p. (p, SubmitBlock b)) (takeWhile (\<lambda>p. cl_link cl p fb = None) peers)"
      by blast
    from b show "r'' = Ok () \<longleftrightarrow> (\<forall>p\<in>set peers. cl_link cl p fb = None)"
      using dropWhile_eq_Nil_conv [of "\<lambda>p. cl_link cl p fb = None" peers] by blast
  qed
  from tips blocks show ?thesis by blast
qed

theorem broadcast_reach_witness:
  "\<exists>s' r. broadcast_tip_requests sample_service sample_call
      (sample_node\<lparr>nd_sync := sync_state_new\<lparr>ss_known_peers := {|SocketV4 5 1|}\<rparr>\<rparr>) = (s', r) \<and>
    nd_sent s' = [(SocketV4 5 1, TipRequest)] \<and> r = Ok ()"
proof -
  let ?s = "sample_node\<lparr>nd_sync := sync_state_new\<lparr>ss_known_peers := {|SocketV4 5 1|}\<rparr>\<rparr>"
  obtain s' r s'' r'' where h: "broadcast_tip_requests sample_service sample_call ?s = (s', r)"
    "broadcast_block sample_service sample_call sample_block ?s = (s'', r'')" by fastforce
  have peers: "known_peers sample_service sample_call (nd_sync ?s) = [SocketV4 5 1]"
    by (simp add: known_peers_def sample_call_def sample_service_def)
  from broadcast_reach [OF sample_encode sample_encode peers h] show ?thesis
    using h(1) by (simp add: sample_call_def sample_node_def)
qed

end
