(* ===== verification/QC_History.thy ===== *)
theory QC_History
  imports QC_Network
begin

text \<open>
  The block history of a node over time: it only grows, every block a node sends is in it, and each height
  holds one block. So a node never sends two blocks for one height.
\<close>

section \<open>Growth\<close>

definition history :: "node_state \<Rightarrow> block list" where
  "history s = nr_blocks (nd_runtime s)"

definition sent_blocks :: "(socket_addr \<times> wire_message) list \<Rightarrow> block set" where
  "sent_blocks msgs = (\<Union>(target, msg)\<in>set msgs. message_blocks msg)"

lemma sent_blocks_simps [simp]:
  "sent_blocks [] = {}" "sent_blocks (x # xs) = message_blocks (snd x) \<union> sent_blocks xs"
  "sent_blocks (xs @ ys) = sent_blocks xs \<union> sent_blocks ys"
  by (auto simp: sent_blocks_def split: prod.splits)

definition publishes :: "node_state \<Rightarrow> node_state \<Rightarrow> bool" where
  "publishes s t \<longleftrightarrow> (\<exists>new sent. history t = history s @ new \<and> nd_sent t = nd_sent s @ sent \<and>
     sent_blocks sent \<subseteq> set (history t)) \<and>
     nr_state_path (nd_runtime t) = nr_state_path (nd_runtime s) \<and> nr_blocks_path (nd_runtime t) = nr_blocks_path (nd_runtime s)"

lemma publishesI:
  "history t = history s @ new \<Longrightarrow> nd_sent t = nd_sent s @ sent \<Longrightarrow> sent_blocks sent \<subseteq> set (history t) \<Longrightarrow>
   nr_state_path (nd_runtime t) = nr_state_path (nd_runtime s) \<Longrightarrow> nr_blocks_path (nd_runtime t) = nr_blocks_path (nd_runtime s) \<Longrightarrow>
   publishes s t"
  by (auto simp: publishes_def)

text \<open>An operation of the runtime alone, then what is sent.\<close>

lemma apply_block_grows:
  assumes "runtime_apply_block pf dw js io1 io2 b (rt, fs) = ((rt', fs'), r)" and "r \<noteq> Panic"
  shows "nr_blocks rt' = nr_blocks rt @ (if is_Ok r then [b] else [])"
  using assms
proof (cases rule: runtime_apply_block_cases)
  case (2 C u)
  then show ?thesis using reconcile_keeps [OF 2(3)] by (simp add: is_Ok_iff)
qed (auto simp: is_Ok_iff)

lemma accept_keeps:
  assumes "accept_transaction pf dw tx rt = (rt', r)"
  shows "nr_blocks rt' = nr_blocks rt \<and> nr_state_path rt' = nr_state_path rt \<and> nr_blocks_path rt' = nr_blocks_path rt"
  using assms by (elim accept_transaction_cases) auto

lemma produce_grows:
  assumes "produce_one_block pf dw js io1 io2 poisoned now rnd (rt, fs) = ((rt', fs'), r)" and "r \<noteq> Panic"
  shows "nr_state_path rt' = nr_state_path rt \<and> nr_blocks_path rt' = nr_blocks_path rt \<and>
    (nr_blocks rt' = nr_blocks rt \<and> (\<forall>h b. r \<noteq> Ok (Some (h, b))) \<or> (\<exists>h b. r = Ok (Some (h, b)) \<and> nr_blocks rt' = nr_blocks rt @ [b]))"
proof -
  have "(rt' = rt \<and> (\<forall>h b. r \<noteq> Ok (Some (h, b)))) \<or>
      (\<exists>b r'. r' \<noteq> Panic \<and> runtime_apply_block pf dw js io1 io2 b (rt, fs) = ((rt', fs'), r') \<and>
        (case r' of Ok h \<Rightarrow> r = Ok (Some (h, b)) | _ \<Rightarrow> \<forall>h b. r \<noteq> Ok (Some (h, b))))"
    using assms by (auto simp: produce_one_block_def split: res.splits option.splits bool.splits if_splits prod.splits)
  then show ?thesis
  proof
    assume "\<exists>b r'. r' \<noteq> Panic \<and> runtime_apply_block pf dw js io1 io2 b (rt, fs) = ((rt', fs'), r') \<and>
        (case r' of Ok h \<Rightarrow> r = Ok (Some (h, b)) | _ \<Rightarrow> \<forall>h b. r \<noteq> Ok (Some (h, b)))"
    then obtain b r' where a: "r' \<noteq> Panic" "runtime_apply_block pf dw js io1 io2 b (rt, fs) = ((rt', fs'), r')"
      "case r' of Ok h \<Rightarrow> r = Ok (Some (h, b)) | _ \<Rightarrow> \<forall>h b. r \<noteq> Ok (Some (h, b))" by blast
    from apply_block_grows [OF a(2,1)] apply_block_paths [OF a(2)] a(1,3) show ?thesis by (cases r') (auto simp: is_Ok_iff)
  qed simp
qed

lemma runtime_step_grows:
  assumes "runtime_step pf dw js (rt, fs) (rt', fs')"
  shows "\<exists>new. nr_blocks rt' = nr_blocks rt @ new \<and> nr_state_path rt' = nr_state_path rt \<and> nr_blocks_path rt' = nr_blocks_path rt"
  using assms
proof (cases rule: runtime_step.cases)
  case (step_block io1 io2 b r)
  from apply_block_grows [OF this] apply_block_paths [OF this(1)] show ?thesis by auto
next
  case (step_transaction tx r)
  then show ?thesis using accept_keeps by fastforce
next
  case (step_produce io1 io2 poisoned now rnd r)
  from produce_grows [OF this] show ?thesis by auto
qed

lemma publishes_quiet: "nd_runtime t = nd_runtime s \<Longrightarrow> nd_sent t = nd_sent s \<Longrightarrow> publishes s t"
  by (rule publishesI [of _ _ "[]" "[]"]) (simp_all add: history_def)

lemma publishes_runtime:
  assumes "runtime_step (sv_platform sv) (sv_decode_witness sv) (sv_json sv) (nd_runtime s, nd_files s) (rt, fs)"
  shows "publishes s (s\<lparr>nd_runtime := rt, nd_files := fs\<rparr>)"
  using runtime_step_grows [OF assms] by (auto simp: history_def intro!: publishesI [where sent = "[]"])

interpretation publishes: http_preorder publishes sv for sv
proof
  fix s t u :: node_state and rt fs others
  show "publishes s s" "publishes s (s\<lparr>nd_others := others\<rparr>)" by (simp_all add: publishes_quiet)
  assume "http_step sv (nd_runtime s, nd_files s) (rt, fs)"
  then have "(rt, fs) = (nd_runtime s, nd_files s) \<or>
      runtime_step (sv_platform sv) (sv_decode_witness sv) (sv_json sv) (nd_runtime s, nd_files s) (rt, fs)"
    by (cases rule: http_step.cases) (auto dest: handle_request_step)
  then show "publishes s (s\<lparr>nd_runtime := rt, nd_files := fs\<rparr>)"
    using publishes_runtime by (auto intro: publishes_quiet)
next
  fix s t u :: node_state
  assume "publishes s t" "publishes t u"
  then obtain new sent new' sent' where
    "history t = history s @ new" "nd_sent t = nd_sent s @ sent" "sent_blocks sent \<subseteq> set (history t)"
    "history u = history t @ new'" "nd_sent u = nd_sent t @ sent'" "sent_blocks sent' \<subseteq> set (history u)"
    "nr_state_path (nd_runtime u) = nr_state_path (nd_runtime s)" "nr_blocks_path (nd_runtime u) = nr_blocks_path (nd_runtime s)"
    unfolding publishes_def by auto
  then show "publishes s u" by (intro publishesI [of _ _ "new @ new'" "sent @ sent'"]) auto
qed

lemma publishes_send:
  "message_blocks msg \<subseteq> set (history s) \<Longrightarrow> send_wire sv cl target msg s = (t, r) \<Longrightarrow> publishes s t"
  by (auto simp: send_wire_def publishes.refl split: res.splits option.splits)
    (rule publishesI [of _ _ "[]" "[(target, msg)]"]; simp add: history_def)

lemma publishes_send_block: "op_moves (\<lambda>s t. b \<in> set (history s) \<longrightarrow> publishes s t) (send_block sv cl b e target)"
  by (auto simp: op_moves_def send_block_def history_def intro!: publishesI [of _ _ "[]" "[(target, SubmitBlock b)]"]
      publishes.refl split: option.splits)

interpretation publishes_block: state_preorder "\<lambda>s t. b \<in> set (history s) \<longrightarrow> publishes s t" for b
proof
  fix s t u :: node_state
  show "b \<in> set (history s) \<longrightarrow> publishes s s" by (simp add: publishes.refl)
  assume "b \<in> set (history s) \<longrightarrow> publishes s t" "b \<in> set (history t) \<longrightarrow> publishes t u"
  moreover have "b \<in> set (history s) \<longrightarrow> publishes s t \<longrightarrow> b \<in> set (history t)" by (auto simp: publishes_def)
  ultimately show "b \<in> set (history s) \<longrightarrow> publishes s u" by (blast intro: publishes.trans)
qed

lemma publishes_broadcast: "op_moves (\<lambda>s t. b \<in> set (history s) \<longrightarrow> publishes s t) (broadcast_block sv cl b)"
  unfolding broadcast_block_def by (auto intro!: publishes_block.basic publishes_send_block)

lemma broadcast_unlocked:
  assumes "broadcast_block sv cl b s = (t, r)"
  shows "nd_others t = nd_others s"
proof -
  have "op_for (send_block sv cl b e) ps s = (t, q) \<Longrightarrow> nd_others t = nd_others s" for e ps s t q
    by (induction ps arbitrary: s) (auto simp: op_return_def op_then_def dest: unlocked_ops(3) split: prod.splits res.splits)
  with assms show ?thesis
    by (auto simp: broadcast_block_def op_then_def get_sync_def op_return_def split: if_splits res.splits)
qed

interpretation publishes_net: network_moves "beside_http sv publishes" sv for sv
proof
  fix f cl target h b tx
  show "op_moves (beside_http sv publishes) (set_sync f)"
    by (rule publishes.unlocked [OF _ unlocked_ops(1)]) (auto simp: op_moves_def set_sync_def intro: publishes_quiet)
  show "op_moves (beside_http sv publishes) (send_wire sv cl target msg)" if "message_blocks msg = {}" for msg
    by (rule publishes.unlocked [OF op_movesI unlocked_ops(2)], rule publishes_send) (auto simp: that)
  show "op_moves (beside_http sv publishes) (apply_remote_block sv cl b)"
    unfolding apply_remote_block_def
    by (rule publishes.beside.runtime_write) (auto simp: beside_http_def intro!: publishes_runtime step_block)
  show "op_moves (beside_http sv publishes) (node_accept_transaction sv cl tx)"
    unfolding node_accept_transaction_def
    by (rule publishes.beside.runtime_write) (auto simp: beside_http_def intro!: publishes_runtime step_transaction split: prod.splits)
  show "op_moves (beside_http sv publishes) (op_then (block_at_height cl h) (\<lambda>b. send_wire sv cl target (BlockResponse h b)))"
  proof (rule op_movesI)
    fix s t r assume m: "op_then (block_at_height cl h) (\<lambda>b. send_wire sv cl target (BlockResponse h b)) s = (t, r)" "r \<noteq> Panic"
    let ?u = "lock_runtime s"
    let ?b = "list_get (history ?u) (unat (saturating_sub h 1))"
    have sub: "message_blocks (BlockResponse h ?b) \<subseteq> set (history ?u)"
      by (cases ?b) (auto simp: list_get_def split: if_splits)
    have "beside_http sv publishes ?u t"
    proof (cases "cl_poisoned cl")
      case None
      with m(1) have w: "send_wire sv cl target (BlockResponse h ?b) ?u = (t, r)"
        by (simp add: op_then_def block_at_height_def with_runtime_def history_def Let_def)
      from publishes_send [OF sub w] unlocked_ops(2) [OF w] show ?thesis by (simp add: beside_http_def)
    next
      case (Some e)
      with m(1) show ?thesis by (auto simp: op_then_def block_at_height_def with_runtime_def Let_def intro: publishes.beside.refl)
    qed
    then show "beside_http sv publishes s t" by (rule publishes.beside.trans [OF publishes.beside.lock])
  qed
  show "op_moves (beside_http sv publishes) (produce_now sv cl)"
  proof (rule op_movesI)
    fix s t r assume m: "produce_now sv cl s = (t, r)" "r \<noteq> Panic"
    obtain u q where u: "node_produce_one_block sv cl s = (u, q)" by fastforce
    with m have q: "q \<noteq> Panic" by (auto simp: produce_now_def op_then_def)
    have su: "beside_http sv publishes s u \<and> (\<forall>h b. q = Ok (Some (h, b)) \<longrightarrow> b \<in> set (history u))"
      using u
    proof (cases rule: produce_cases)
      case (1 rt fs)
      from publishes_runtime [OF step_produce [OF 1(2) q]] have "beside_http sv publishes (lock_runtime s) u"
        by (simp add: 1(1) beside_http_def)
      then have "beside_http sv publishes s u" by (rule publishes.beside.trans [OF publishes.beside.lock])
      with produce_grows [OF 1(2) q] show ?thesis by (auto simp: 1(1) history_def)
    qed
    show "beside_http sv publishes s t"
    proof (cases "\<exists>h b. q = Ok (Some (h, b))")
      case True
      then obtain h b where hb: "q = Ok (Some (h, b))" by blast
      obtain w p where w: "broadcast_block sv cl b u = (w, p)" by fastforce
      with m u hb have "p \<noteq> Panic \<and> t = w" by (auto simp: produce_now_def op_then_def op_return_def split: res.splits)
      with op_movesD [OF publishes_broadcast w] broadcast_unlocked [OF w] su hb
      have "beside_http sv publishes u t" by (auto simp: beside_http_def)
      with su show ?thesis by (blast intro: publishes.beside.trans)
    next
      case False
      with m u have "t = u" by (cases q) (auto simp: produce_now_def op_then_def op_return_def split: option.splits)
      with su show ?thesis by simp
    qed
  qed
qed

section \<open>Heights\<close>

text \<open>Rising 64-bit timestamps bound the length of a history, so that its heights do not wrap around.\<close>

lemma history_bound:
  assumes "history_linked pf bs"
  shows "length bs \<le> 2 ^ 64"
proof -
  let ?ts = "map (\<lambda>b. bh_timestamp (b_header b)) bs"
  from assms have "distinct ?ts" by (auto simp: history_linked_def strict_sorted_iff)
  then have "length bs = card (set ?ts)" by (metis distinct_card length_map)
  also have "\<dots> \<le> CARD(u64)" by (rule card_mono) simp_all
  finally show ?thesis by (simp add: card_word)
qed

lemma u64_of_nat_inj: "m < 2 ^ 64 \<Longrightarrow> n < 2 ^ 64 \<Longrightarrow> (of_nat m :: u64) = of_nat n \<longleftrightarrow> m = n"
  using u64_of_nat_le [of m n] u64_of_nat_le [of n m] by auto

lemma history_index:
  assumes "history_linked pf bs" and "i < length bs" and "j < length bs"
    and "bh_height (b_header (bs ! i)) = bh_height (b_header (bs ! j))"
  shows "i = j"
proof -
  have "(of_nat i :: u64) = of_nat j" using assms by (auto simp: history_linked_def)
  moreover have "i < 2 ^ 64" "j < 2 ^ 64" using history_bound [OF assms(1)] assms(2,3) by auto
  ultimately show ?thesis by (simp add: u64_of_nat_inj)
qed

lemma history_height_unique:
  assumes "history_linked pf bs" and "b \<in> set bs" and "c \<in> set bs" and "bh_height (b_header b) = bh_height (b_header c)"
  shows "b = c"
  using assms history_index by (metis in_set_conv_nth)

section \<open>Reachable nodes\<close>

lemma node_step_publishes:
  assumes "node_step sv s s'"
  shows "publishes s s'"
  using assms
proof (cases rule: node_step.cases)
  case (node_http rt fs)
  with publishes.http show ?thesis by simp
qed (auto intro: publishes.callback publishes_net.frame publishes_net.jobs)

lemma reachable_history:
  assumes "node_reachable sv chain_id vs s"
  shows "rebuild_chain_state_from_blocks (sv_platform sv) (sv_decode_witness sv) (history s) chain_id vs = Ok (nr_chain (nd_runtime s))"
    and "history_linked (sv_platform sv) (history s)"
proof -
  from node_reachable_ok [OF assms] have "runtime_reachable (sv_platform sv) (sv_decode_witness sv) (sv_json sv) chain_id vs
      (nd_runtime s, nd_files s)" by blast
  from reachable_ok [OF this] show r: "rebuild_chain_state_from_blocks (sv_platform sv) (sv_decode_witness sv) (history s) chain_id vs
      = Ok (nr_chain (nd_runtime s))" by (simp add: runtime_ok_def history_def)
  from rebuild_facts [OF r] show "history_linked (sv_platform sv) (history s)" by blast
qed

lemma reachable_sent:
  assumes "node_reachable sv chain_id vs s"
  shows "sent_blocks (nd_sent s) \<subseteq> set (history s)"
  using assms
proof induction
  case (node_steps s s')
  from node_step_publishes [OF node_steps(2)] node_steps.IH show ?case by (auto simp: publishes_def)
qed simp

section \<open>Properties\<close>

text \<open>C9. No equivocation: a block that a node sends, in a broadcast or as the answer to a request, is a block of its
  history, which no step shortens or changes; so a node never sends two different blocks for one height,
  whatever happens in between.\<close>

theorem no_equivocation:
  assumes "node_reachable sv chain_id vs s" and "(node_step sv)\<^sup>*\<^sup>* s t"
  shows "prefix (history s) (history t) \<and> sent_blocks (nd_sent s) \<subseteq> set (history s) \<and>
    (\<forall>b \<in> sent_blocks (nd_sent s). \<forall>c \<in> sent_blocks (nd_sent t).
       bh_height (b_header b) = bh_height (b_header c) \<longrightarrow> b = c)"
proof -
  from assms(2) have st: "publishes s t \<and> node_reachable sv chain_id vs t"
  proof (induction rule: rtranclp_induct)
    case (step t u)
    with node_step_publishes [OF step(2)] show ?case by (blast intro: publishes.trans node_steps)
  qed (simp add: publishes.refl assms(1))
  then have "prefix (history s) (history t)" by (auto simp: publishes_def)
  moreover from this reachable_sent [OF assms(1)] reachable_sent [of sv chain_id vs t] st
  have "\<forall>b \<in> sent_blocks (nd_sent s). \<forall>c \<in> sent_blocks (nd_sent t). b \<in> set (history t) \<and> c \<in> set (history t)"
    by (auto dest: set_mono_prefix)
  ultimately show ?thesis
    using reachable_sent [OF assms(1)] history_height_unique [OF reachable_history(2) [of sv chain_id vs t]] st by blast
qed

theorem no_equivocation_witness:
  "\<exists>t b. node_step sample_service sample_node t \<and> history t = [b] \<and> sent_blocks (nd_sent t) \<subseteq> {b}"
proof -
  have js: "json_writes sample_write_js" by (simp add: json_writes_def sample_write_js_def)
  from production_succeeds [OF reachable_ok [OF sample_write_start [of sample_dw], unfolded fst_conv], where ts = 7 and rnd = 0 and seed = 1
      and sch = "dilithium2_scheme (sample_platform True)" and fs = fmempty, unfolded sample_runtime_sel, OF sample_turn _ _ _ _ _ _ sample_keygen js]
  obtain rt' fs' b where p: "produce_one_block (sample_platform True) sample_dw sample_write_js io_ok io_ok None (Ok 7) 0 (sample_runtime, fmempty)
      = ((rt', fs'), Ok (Some (1, b)))" and b: "nr_blocks rt' = [b]"
    by (simp add: sample_genesis_sel sample_lib_correct default_registry_get sample_engine_sel path_file_name_def sample_runtime_sel) blast
  let ?t = "sample_node\<lparr>nd_runtime := rt', nd_files := fs'\<rparr>"
  have "produce_now sample_service sample_call sample_node = (?t, Ok (Some 1))"
    using p by (simp add: produce_now_def op_then_def node_produce_one_block_def sample_service_def sample_call_def sample_node_def
        broadcast_block_def get_sync_def known_peers_def sync_state_new_def op_return_def)
  then have "node_step sample_service sample_node (?t\<lparr>nd_others := []\<rparr>)"
    by (intro node_produce [where others = "[]" and r' = "Ok (Some 1)"]) (simp_all add: sample_node_def)
  then have step: "node_step sample_service sample_node ?t" by (simp add: sample_node_def)
  moreover have "history ?t = [b]" by (simp add: history_def b)
  moreover from no_equivocation [OF node_steps [OF sample_node_reachable step] rtranclp.rtrancl_refl] b
  have "sent_blocks (nd_sent ?t) \<subseteq> {b}" by (simp add: history_def)
  ultimately show ?thesis by blast
qed

end
