(* ===== verification/QC_Cluster.thy ===== *)
theory QC_Cluster
  imports QC_History
begin

text \<open>
  A cluster of nodes of one chain with one validator set: each node runs the machine of \<open>QC_Network\<close> with its own
  configuration, files and clocks, meets arbitrary messages, and may crash and restart from its files.

  The network and any other party may send everything but forged signatures of a node: \<open>owner\<close> tells which
  node holds a validator key, if a node of the cluster does. The machine records for each node the blocks it
  has published, in frames and through its HTTP interface, and a block that carries the key of another node is
  accepted only if that node has published a block with the same header. This is what an unforgeable signature
  gives, since all that a node signs and lets out are blocks. That a node publishes one block for a height at
  most is not assumed; it is proved, also across restarts. A key without an owner is unconstrained: its holder
  may sign whatever it likes.

  A start or restart may meet every failure of the system but one: it can read the metadata of the block
  history. Without, the node would take its history for missing (\<open>QC_Recovery.restart_recovers\<close>) and could sign
  a second block for a height. A step of a node is a whole callback or a request; the steps of different nodes
  are interleaved, not cut into each other.
\<close>

section \<open>The machine\<close>

definition headers :: "node_state \<Rightarrow> block_header set" where
  "headers s = b_header ` set (history s)"

text \<open>The blocks a node has let out: those in its messages, and those its HTTP interface serves.\<close>

definition served_blocks :: "service \<Rightarrow> node_state \<Rightarrow> block set" where
  "served_blocks sv s = {b. \<exists>io1 io2 info req s' payload.
     handle_request (sv_platform sv) (sv_decode_witness sv) (sv_json sv) (sv_bincode sv) io1 io2 info req (nd_runtime s, nd_files s)
       = (s', Some (RespondBinary 200 payload)) \<and> bc_block_from (sv_bincode sv) payload = Ok b}"

definition publications :: "service \<Rightarrow> node_state \<Rightarrow> block set" where
  "publications sv s = sent_blocks (nd_sent s) \<union> served_blocks sv s"

record 'n cluster =
  members :: "'n \<Rightarrow> node_state"
  published :: "'n \<Rightarrow> block set"

definition advance :: "('n \<Rightarrow> service) \<Rightarrow> 'n \<Rightarrow> node_state \<Rightarrow> 'n cluster \<Rightarrow> 'n cluster" where
  "advance svs i s' K = \<lparr>members = (members K)(i := s'),
     published = (published K)(i := published K i \<union> publications (svs i) s')\<rparr>"

text \<open>Signatures are not forged: the new blocks of a node with the key of another one have published headers.\<close>

definition genuine :: "(public_key \<Rightarrow> 'n option) \<Rightarrow> 'n cluster \<Rightarrow> 'n \<Rightarrow> node_state \<Rightarrow> bool" where
  "genuine owner K i s' \<longleftrightarrow> (\<forall>b \<in> set (drop (length (history (members K i))) (history s')). \<forall>j.
     owner (b_proposer_public_key b) = Some j \<and> j \<noteq> i \<longrightarrow> b_header b \<in> b_header ` published K j)"

text \<open>A start that can read the metadata of the block history; whatever else fails.\<close>

inductive boots :: "service \<Rightarrow> u32 \<Rightarrow> public_key list \<Rightarrow> path \<Rightarrow> path \<Rightarrow> file_system \<Rightarrow> node_state \<Rightarrow> bool"
  for sv chain_id vs sp bp fs0 where
  boots_up: "start_runtime (sv_platform sv) (sv_decode_witness sv) (sv_json sv) rd io sp bp chain_id vs pk sk v e fs0 = Some (rt, fs)
    \<Longrightarrow> rd bp \<noteq> Some StatFails
    \<Longrightarrow> boots sv chain_id vs sp bp fs0 \<lparr>nd_runtime = rt, nd_files = fs, nd_sync = sync_state_new, nd_sent = [], nd_others = []\<rparr>"

inductive cluster_step ::
  "('n \<Rightarrow> service) \<Rightarrow> (public_key \<Rightarrow> 'n option) \<Rightarrow> u32 \<Rightarrow> public_key list \<Rightarrow> 'n cluster \<Rightarrow> 'n cluster \<Rightarrow> bool"
  for svs owner chain_id vs where
  cluster_node: "node_step (svs i) (members K i) s' \<Longrightarrow> genuine owner K i s'
    \<Longrightarrow> cluster_step svs owner chain_id vs K (advance svs i s' K)"
| cluster_restart: "boots (svs i) chain_id vs (nr_state_path (nd_runtime (members K i))) (nr_blocks_path (nd_runtime (members K i)))
      (nd_files (members K i)) s' \<Longrightarrow> genuine owner K i s'
    \<Longrightarrow> cluster_step svs owner chain_id vs K (advance svs i s' K)"

text \<open>The cluster starts with empty histories.\<close>

inductive cluster_reachable ::
  "('n \<Rightarrow> service) \<Rightarrow> (public_key \<Rightarrow> 'n option) \<Rightarrow> u32 \<Rightarrow> public_key list \<Rightarrow> 'n cluster \<Rightarrow> bool"
  for svs owner chain_id vs where
  cluster_starts: "(\<And>i. history (c i) = [] \<and>
      (\<exists>sp bp fs0. storage_paths sp bp \<and> boots (svs i) chain_id vs sp bp fs0 (c i)))
    \<Longrightarrow> cluster_reachable svs owner chain_id vs \<lparr>members = c, published = (\<lambda>i. {})\<rparr>"
| cluster_steps: "cluster_reachable svs owner chain_id vs K \<Longrightarrow> cluster_step svs owner chain_id vs K K'
    \<Longrightarrow> cluster_reachable svs owner chain_id vs K'"

section \<open>A node and its files\<close>

text \<open>What holds of every node of a cluster: it is reachable and its files describe its runtime.\<close>

definition sound :: "service \<Rightarrow> u32 \<Rightarrow> public_key list \<Rightarrow> node_state \<Rightarrow> bool" where
  "sound sv chain_id vs s \<longleftrightarrow> node_reachable sv chain_id vs s \<and>
     storage_paths (nr_state_path (nd_runtime s)) (nr_blocks_path (nd_runtime s)) \<and>
     disk_ok (sv_platform sv) (sv_decode_witness sv) (sv_json sv) chain_id vs (nd_runtime s, nd_files s)"

lemma boots_sound:
  assumes "boots sv chain_id vs sp bp fs0 s" and "json_codec_ok (sv_json sv)" and "storage_paths sp bp"
  shows "sound sv chain_id vs s" and "nr_state_path (nd_runtime s) = sp" and "nr_blocks_path (nd_runtime s) = bp"
proof -
  from assms(1) obtain rd io pk sk v e rt fs where
    start: "start_runtime (sv_platform sv) (sv_decode_witness sv) (sv_json sv) rd io sp bp chain_id vs pk sk v e fs0 = Some (rt, fs)"
      "rd bp \<noteq> Some StatFails" and
    s: "s = \<lparr>nd_runtime = rt, nd_files = fs, nd_sync = sync_state_new, nd_sent = [], nd_others = []\<rparr>"
    by (cases rule: boots.cases) blast
  note disk = disk_ok_start [OF start(1) assms(2,3) start(2)]
  from disk(2,3) show "nr_state_path (nd_runtime s) = sp" and "nr_blocks_path (nd_runtime s) = bp" by (simp_all add: s)
  with disk assms(3) node_starts [OF reach_start [OF start(1)]] show "sound sv chain_id vs s" by (simp add: sound_def s)
qed

lemma sound_step:
  assumes "sound sv chain_id vs s" and "node_step sv s s'" and "json_codec_ok (sv_json sv)"
  shows "sound sv chain_id vs s'" and "\<exists>new. history s' = history s @ new"
proof -
  have reach: "runtime_reachable (sv_platform sv) (sv_decode_witness sv) (sv_json sv) chain_id vs (nd_runtime s, nd_files s)"
    using node_reachable_ok assms(1) by (auto simp: sound_def)
  have run: "(runtime_step (sv_platform sv) (sv_decode_witness sv) (sv_json sv))\<^sup>*\<^sup>* (nd_runtime s, nd_files s) (nd_runtime s', nd_files s')"
    using node_step_runs [OF assms(2)] by (simp add: runs_def)
  from disk_ok_steps [OF run reach] assms(1,3) node_steps [OF _ assms(2)] show "sound sv chain_id vs s'"
    by (simp add: sound_def)
  show "\<exists>new. history s' = history s @ new"
    using node_step_publishes [OF assms(2)] by (auto simp: publishes_def)
qed

text \<open>All that a node publishes is in its history.\<close>

lemma served_in_history:
  assumes "bincode_ok (sv_bincode sv)"
  shows "served_blocks sv s \<subseteq> set (history s)"
proof
  fix b assume "b \<in> served_blocks sv s"
  then obtain io1 io2 info req s' payload where
    r: "handle_request (sv_platform sv) (sv_decode_witness sv) (sv_json sv) (sv_bincode sv) io1 io2 info req (nd_runtime s, nd_files s)
       = (s', Some (RespondBinary 200 payload))" and b: "bc_block_from (sv_bincode sv) payload = Ok b"
    by (auto simp: served_blocks_def)
  from binary_response [OF r] obtain d where "d \<in> set (history s)" "bc_block_to (sv_bincode sv) d = Ok payload"
    by (auto simp: history_def)
  with assms b show "b \<in> set (history s)" by (auto simp: bincode_ok_def)
qed

lemma publications_in_history:
  assumes "sound sv chain_id vs s" and "bincode_ok (sv_bincode sv)"
  shows "publications sv s \<subseteq> set (history s)"
proof -
  have "sent_blocks (nd_sent s) \<subseteq> set (history s)" using assms(1) by (auto simp: sound_def intro!: reachable_sent)
  with served_in_history [OF assms(2)] show ?thesis by (auto simp: publications_def)
qed

section \<open>Restarts\<close>

lemma restart_extends:
  assumes "sound sv chain_id vs s" and "boots sv chain_id vs (nr_state_path (nd_runtime s)) (nr_blocks_path (nd_runtime s)) (nd_files s) s'"
  shows "\<exists>extra. history s' = history s @ extra"
  using assms(2)
proof (cases rule: boots.cases)
  case (boots_up rd io pk sk v e rt fs)
  from assms(1) obtain h where
    h: "load_block_history (sv_json sv) no_read_faults (nd_files s) (nr_blocks_path (nd_runtime s)) = Ok h"
      "\<exists>extra. blocks_or_none h = history s @ extra"
    by (auto simp: sound_def disk_ok_def history_def)
  from boots_up(2) obtain C bs where
    l: "load_or_repair_storage (sv_platform sv) (sv_decode_witness sv) (sv_json sv) rd io (nr_state_path (nd_runtime s))
      (nr_blocks_path (nd_runtime s)) chain_id vs (nd_files s) = (fs, Ok (C, bs))" and rt: "nr_blocks rt = bs"
    by (auto simp: start_runtime_def split: prod.splits res.splits)
  from iffD1 [OF load_or_repair_eq_Ok l] obtain h' where
    h': "load_block_history (sv_json sv) rd (nd_files s) (nr_blocks_path (nd_runtime s)) = Ok h'" "bs = blocks_or_none h'"
    by blast
  with load_blocks_no_fault [OF h'(1) boots_up(3)] h(1) have "bs = blocks_or_none h" by simp
  with h(2) rt show ?thesis by (simp add: boots_up(1) history_def)
qed

section \<open>The invariant\<close>

definition cluster_ok ::
  "('n \<Rightarrow> service) \<Rightarrow> (public_key \<Rightarrow> 'n option) \<Rightarrow> u32 \<Rightarrow> public_key list \<Rightarrow> 'n cluster \<Rightarrow> bool" where
  "cluster_ok svs owner chain_id vs K \<longleftrightarrow>
     (\<forall>i. sound (svs i) chain_id vs (members K i) \<and> published K i \<subseteq> set (history (members K i))) \<and>
     (\<forall>i j. \<forall>b \<in> set (history (members K i)). owner (b_proposer_public_key b) = Some j \<longrightarrow> b_header b \<in> headers (members K j))"

lemma cluster_ok_advance:
  assumes "cluster_ok svs owner chain_id vs K" and "sound (svs i) chain_id vs s'" and "genuine owner K i s'"
    and "history s' = history (members K i) @ new" and "bincode_ok (sv_bincode (svs i))"
  shows "cluster_ok svs owner chain_id vs (advance svs i s' K)"
proof -
  have grows: "headers (members K k) \<subseteq> headers (members (advance svs i s' K) k)" for k
    using assms(4) by (auto simp: headers_def advance_def)
  have "b_header b \<in> headers (members (advance svs i s' K) j)"
    if b: "b \<in> set (history (members (advance svs i s' K) k))" "owner (b_proposer_public_key b) = Some j" for k j b
  proof (cases "k = i \<and> b \<in> set new")
    case True
    show ?thesis
    proof (cases "j = i")
      case True
      with \<open>k = i \<and> b \<in> set new\<close> assms(4) show ?thesis by (simp add: headers_def advance_def)
    next
      case False
      have "b \<in> set (drop (length (history (members K i))) (history s'))" using True assms(4) by simp
      with assms(3) False b(2) have "b_header b \<in> b_header ` published K j" by (auto simp: genuine_def)
      moreover have "published K j \<subseteq> set (history (members K j))" using assms(1) by (simp add: cluster_ok_def)
      ultimately have "b_header b \<in> headers (members K j)" by (auto simp: headers_def)
      with grows show ?thesis by blast
    qed
  next
    case False
    with b(1) assms(4) have "b \<in> set (history (members K k))" by (auto simp: advance_def split: if_splits)
    with assms(1) b(2) have "b_header b \<in> headers (members K j)" by (auto simp: cluster_ok_def)
    with grows show ?thesis by blast
  qed
  moreover have "published (advance svs i s' K) k \<subseteq> set (history (members (advance svs i s' K) k))" for k
    using assms(1,4) publications_in_history [OF assms(2,5)] by (auto simp: cluster_ok_def advance_def)
  ultimately show ?thesis using assms(1,2) by (auto simp: cluster_ok_def) (auto simp: advance_def)
qed

lemma cluster_step_grows:
  assumes "cluster_step svs owner chain_id vs K K'" and "cluster_ok svs owner chain_id vs K"
    and "\<forall>i. json_codec_ok (sv_json (svs i)) \<and> bincode_ok (sv_bincode (svs i))"
  shows "cluster_ok svs owner chain_id vs K' \<and> (\<forall>i. prefix (history (members K i)) (history (members K' i)))"
proof -
  have sound: "sound (svs i) chain_id vs (members K i)" for i using assms(2) by (simp add: cluster_ok_def)
  have codecs: "json_codec_ok (sv_json (svs i))" "bincode_ok (sv_bincode (svs i))" for i using assms(3) by simp_all
  have adv: ?thesis if "K' = advance svs i s' K" "sound (svs i) chain_id vs s'" "genuine owner K i s'"
    "history s' = history (members K i) @ new" for i s' new
    using cluster_ok_advance [OF assms(2) that(2-4) codecs(2)] that(4) by (simp add: that(1)) (simp add: advance_def)
  from assms(1) show ?thesis
  proof (cases rule: cluster_step.cases)
    case (cluster_node i s')
    from sound_step [OF sound cluster_node(2) codecs(1)] adv cluster_node(1,3) show ?thesis by blast
  next
    case (cluster_restart i s')
    have "storage_paths (nr_state_path (nd_runtime (members K i))) (nr_blocks_path (nd_runtime (members K i)))"
      using sound [of i] by (simp add: sound_def)
    from boots_sound(1) [OF cluster_restart(2) codecs(1) this] restart_extends [OF sound cluster_restart(2)] adv cluster_restart(1,3)
    show ?thesis by blast
  qed
qed

lemma cluster_reachable_ok:
  assumes "cluster_reachable svs owner chain_id vs K"
    and "\<forall>i. json_codec_ok (sv_json (svs i)) \<and> bincode_ok (sv_bincode (svs i))"
  shows "cluster_ok svs owner chain_id vs K"
  using assms(1)
proof induction
  case (cluster_starts c)
  then have "sound (svs i) chain_id vs (c i)" for i using boots_sound(1) assms(2) by metis
  with cluster_starts show ?case by (simp add: cluster_ok_def)
next
  case (cluster_steps K K')
  with cluster_step_grows [OF _ _ assms(2)] show ?case by blast
qed

section \<open>Turns\<close>

lemma history_proposer:
  assumes "rebuild_chain_state_from_blocks pf dw bs chain_id vs = Ok C" and "vs \<noteq> []" and "n < length bs"
  shows "b_proposer_public_key (bs ! n) = vs ! (n mod length vs)"
  using assms(1,3)
proof (induction bs arbitrary: C rule: rev_induct)
  case (snoc b bs)
  from snoc.prems(1) obtain B where B: "rebuild_chain_state_from_blocks pf dw bs chain_id vs = Ok B"
    "replay_block pf dw vs (length bs, b) B = Ok C"
    by (auto simp: rebuild_append res_simps)
  show ?case
  proof (cases "n < length bs")
    case True
    with snoc.IH [OF B(1)] show ?thesis by (simp add: nth_append)
  next
    case False
    with snoc.prems(2) have n: "n = length bs" by simp
    have "length (bs @ [b]) \<le> 2 ^ 64" using rebuild_facts [OF snoc.prems(1)] history_bound by blast
    then have "unat (of_nat (length bs) :: u64) = length bs" by (simp add: unat_of_nat)
    moreover have "cs_height B = of_nat (length bs)" using rebuild_facts [OF B(1)] by (simp add: chain_tops_def)
    moreover have "expected_proposer_for_validators pf vs (cs_height B + 1) = Ok (b_proposer_public_key b)"
      using B(2) assms(2) by (auto simp: replay_block_eq_Ok is_Ok_iff validate_replayed_block_eq_Ok dest: add_chk_SomeD)
    ultimately show ?thesis by (simp add: expected_proposer_eq_Ok n)
  qed
qed simp

lemma chain_of_last:
  assumes "rebuild_chain_state_from_blocks pf dw (bs @ [b]) chain_id vs = Ok C"
  shows "cs_tip_hash C = header_hash pf (b_header b) \<and> cs_state_root C = bh_state_root (b_header b)"
proof -
  from assms obtain B u where "validate_replayed_block pf dw (default_registry pf) B b vs = Ok u"
    "chain_apply_block pf dw (default_script_engine pf) B b = (C, Ok ())"
    by (auto simp: rebuild_append res_simps replay_block_eq_Ok is_Ok_iff)
  then show ?thesis by (elim validated_block_applies) auto
qed

text \<open>The core of agreement: at a height whose turn is that of an owned key, every node has the header that the
  owner has.\<close>

lemma owner_decides:
  assumes "cluster_ok svs owner chain_id vs K" and "vs \<noteq> []" and "\<forall>i. sv_platform (svs i) = pf"
    and "n < length (history (members K i))" and "owner (vs ! (n mod length vs)) = Some k"
  shows "n < length (history (members K k)) \<and> b_header (history (members K i) ! n) = b_header (history (members K k) ! n)"
proof -
  have r: "node_reachable (svs j) chain_id vs (members K j)" for j using assms(1) by (simp add: cluster_ok_def sound_def)
  have linked: "history_linked pf (history (members K j))" for j using reachable_history(2) [OF r] assms(3) by metis
  let ?b = "history (members K i) ! n"
  have "b_proposer_public_key ?b = vs ! (n mod length vs)"
    by (rule history_proposer [OF reachable_history(1) [OF r] assms(2,4)])
  then have "owner (b_proposer_public_key ?b) = Some k" using assms(5) by simp
  moreover have "?b \<in> set (history (members K i))" using assms(4) by (rule nth_mem)
  ultimately have "b_header ?b \<in> headers (members K k)" using assms(1) unfolding cluster_ok_def by blast
  then obtain m where m: "m < length (history (members K k))" "b_header (history (members K k) ! m) = b_header ?b"
    by (auto simp: headers_def in_set_conv_nth)
  have "(of_nat (n + 1) :: u64) = of_nat (m + 1)"
    using linked [of i] linked [of k] assms(4) m by (metis history_linked_def)
  then have "(of_nat n :: u64) = of_nat m" by simp
  moreover have "n < 2 ^ 64" "m < 2 ^ 64" using history_bound [OF linked] assms(4) m(1) by (meson order_less_le_trans)+
  ultimately have "n = m" by (simp add: u64_of_nat_inj)
  with m show ?thesis by simp
qed

lemma of_nat_2_64: "(of_nat (2 ^ 64) :: u64) = 0"
  by (simp flip: unat_eq_zero add: unat_of_nat)

section \<open>A cluster of two\<close>

text \<open>Two nodes of one validator; both get the same first block by HTTP.\<close>

definition sample_member :: service where
  "sample_member = sample_service\<lparr>sv_json := sample_js, sv_bincode := sample_block_bincode\<rparr>"

lemma sample_member_sel [simp]: "sv_platform sample_member = sample_platform True" "sv_decode_witness sample_member = sample_dw"
  "sv_json sample_member = sample_js" "sv_bincode sample_member = sample_block_bincode"
  by (simp_all add: sample_member_def sample_service_def)

definition sample_grown :: node_state where
  "sample_grown = sample_node\<lparr>nd_runtime := sample_runtime\<lparr>nr_chain := sample_first_chain, nr_blocks := [sample_first_block]\<rparr>,
     nd_files := fmupd [''d'', ''s''] ''chain'' (fmupd [''d'', ''b''] ''blocks'' fmempty)\<rparr>"

lemma sample_histories [simp]: "history sample_node = []" "history sample_grown = [sample_first_block]"
  by (simp_all add: history_def sample_node_def sample_grown_def sample_runtime_sel)

lemma sample_member_step: "node_step sample_member sample_node sample_grown"
proof -
  let ?req = "\<lparr>rq_method = MethodPost, rq_url = ''/blocks'', rq_body = Ok [7]\<rparr>"
  have "\<exists>resp. handle_request (sv_platform sample_member) (sv_decode_witness sample_member) (sv_json sample_member)
      (sv_bincode sample_member) io_ok io_ok info ?req (nd_runtime sample_node, nd_files sample_node)
      = ((sample_runtime\<lparr>nr_chain := sample_first_chain, nr_blocks := [sample_first_block]\<rparr>,
          fmupd [''d'', ''s''] ''chain'' (fmupd [''d'', ''b''] ''blocks'' fmempty)), Some resp)" for info
    by (simp add: handle_request_def url_path_def post_block_def sample_node_def sample_block_bincode_def sample_accepts)
  then show ?thesis unfolding sample_grown_def by (blast intro: node_http http_serves)
qed

lemma sample_member_boots: "boots sample_member 0 sample_validators [''d'', ''s''] [''d'', ''b''] fmempty sample_node"
  unfolding sample_node_def by (rule boots_up [where rd = no_read_faults and io = io_ok
      and v = True and e = True and pk = "\<lparr>pk_scheme = Dilithium2, pk_bytes = [1]\<rparr>" and sk = "\<lparr>sk_scheme = Dilithium2, sk_bytes = [1]\<rparr>"])
    (simp_all add: start_runtime_def load_or_repair_storage_def load_chain_state_def load_block_history_def no_read_faults_def
      rebuild_chain_state_from_blocks_def default_chain_state_with_id_def sample_empty_root engine_from_keys_def
      sample_runtime_def sample_genesis_def sample_engine_def)

lemma sample_served: "sample_first_block \<in> publications sample_member sample_grown"
proof -
  have "handle_request (sample_platform True) sample_dw sample_js sample_block_bincode io_ok io_ok (local_node_info 0 False [] True True)
      (get_request (''/blocks/'' @ show_nat (unat (1 :: u64)))) (nd_runtime sample_grown, nd_files sample_grown)
    = ((nd_runtime sample_grown, nd_files sample_grown), Some (RespondBinary 200 [7]))"
    unfolding handle_get_block by (simp add: sample_grown_def sample_block_bincode_def list_get_def)
  moreover have "bc_block_from sample_block_bincode [7] = Ok sample_first_block" by (simp add: sample_block_bincode_def)
  ultimately show ?thesis unfolding publications_def served_blocks_def sample_member_sel by blast
qed

definition sample_cluster :: "bool cluster" where
  "sample_cluster = advance (\<lambda>i. sample_member) True sample_grown \<lparr>members = (\<lambda>i. sample_node), published = (\<lambda>i. {})\<rparr>"

lemma sample_cluster_reachable:
  "cluster_reachable (\<lambda>i. sample_member) (\<lambda>k. Some True) 0 sample_validators sample_cluster"
  unfolding sample_cluster_def
proof (rule cluster_steps [OF cluster_starts cluster_node])
  show "history sample_node = [] \<and> (\<exists>sp bp fs0. storage_paths sp bp \<and> boots sample_member 0 sample_validators sp bp fs0 sample_node)"
    for i :: bool using sample_storage sample_member_boots by auto
qed (simp_all add: sample_member_step genuine_def)

text \<open>Only now the other node may take the block of the first one: it has been published.\<close>

definition sample_agreed :: "bool cluster" where
  "sample_agreed = advance (\<lambda>i. sample_member) False sample_grown sample_cluster"

lemma sample_agreed_reachable:
  "cluster_reachable (\<lambda>i. sample_member) (\<lambda>k. Some True) 0 sample_validators sample_agreed"
  unfolding sample_agreed_def
proof (rule cluster_steps [OF sample_cluster_reachable cluster_node])
  show "node_step sample_member (members sample_cluster False) sample_grown" by (simp add: sample_cluster_def advance_def sample_member_step)
  show "genuine (\<lambda>k. Some True) sample_cluster False sample_grown"
    using sample_served by (auto simp: genuine_def sample_cluster_def advance_def)
qed

lemma sample_member_codecs: "json_codec_ok (sv_json sample_member) \<and> bincode_ok (sv_bincode sample_member)"
  by (simp add: sample_js_ok sample_block_bincode_ok)

section \<open>Properties\<close>

text \<open>C7. Agreement: in a cluster with one validator set, crashes and restarts included, two nodes have the same
  header at every height whose turn is that of a node of the cluster, whatever the holders of other
  validator keys sign and whatever messages are lost, repeated, delayed or made up; and no step takes back
  a block of any node. Assumed are unforgeable signatures (a block with the key of a node has a header which
  that node has published) and that every start can read the metadata of the block history; other system
  calls may fail. The codecs read back what they wrote.\<close>

theorem honest_turns_agree:
  assumes "cluster_reachable svs owner chain_id vs K" and "vs \<noteq> []" and "\<forall>i. sv_platform (svs i) = pf"
    and "\<forall>i. json_codec_ok (sv_json (svs i)) \<and> bincode_ok (sv_bincode (svs i))" and "owner (vs ! (n mod length vs)) \<noteq> None"
    and "n < length (history (members K i))" and "n < length (history (members K j))"
  shows "b_header (history (members K i) ! n) = b_header (history (members K j) ! n) \<and>
    (\<forall>K'. (cluster_step svs owner chain_id vs)\<^sup>*\<^sup>* K K' \<longrightarrow> prefix (history (members K i)) (history (members K' i)))"
proof -
  have ok: "cluster_ok svs owner chain_id vs K" by (rule cluster_reachable_ok [OF assms(1,4)])
  obtain k where k: "owner (vs ! (n mod length vs)) = Some k" using assms(5) by blast
  have "cluster_ok svs owner chain_id vs K' \<and> prefix (history (members K i)) (history (members K' i))"
    if "(cluster_step svs owner chain_id vs)\<^sup>*\<^sup>* K K'" for K'
    using that
  proof (induction rule: rtranclp_induct)
    case (step K1 K2)
    with cluster_step_grows [OF step(2) _ assms(4)] show ?case by (meson prefix_order.trans)
  qed (simp add: ok)
  with owner_decides [OF ok assms(2,3,6) k] owner_decides [OF ok assms(2,3,7) k] show ?thesis by simp
qed

theorem honest_turns_agree_witness:
  "b_header (history (members sample_agreed False) ! 0) = b_header (history (members sample_agreed True) ! 0)"
  using honest_turns_agree [OF sample_agreed_reachable, of "sample_platform True" 0 False True] sample_member_codecs
  by (simp add: sample_agreed_def sample_cluster_def advance_def)

text \<open>C8. If the nodes of the cluster hold all validator keys, there are no forks: of any two histories one is a
  beginning of the other, header by header, and nodes at the same height have the same tip hash and the same
  state root. The assumptions are those of agreement: signatures are not forged, and every start can read the
  metadata of the block history.\<close>

theorem honest_cluster_never_forks:
  assumes "cluster_reachable svs owner chain_id vs K" and "vs \<noteq> []" and "\<forall>i. sv_platform (svs i) = pf"
    and "\<forall>i. json_codec_ok (sv_json (svs i)) \<and> bincode_ok (sv_bincode (svs i))" and "\<forall>k \<in> set vs. owner k \<noteq> None"
  shows "(prefix (map b_header (history (members K i))) (map b_header (history (members K j))) \<or>
      prefix (map b_header (history (members K j))) (map b_header (history (members K i)))) \<and>
    (cs_height (nr_chain (nd_runtime (members K i))) = cs_height (nr_chain (nd_runtime (members K j))) \<and>
       0 < cs_height (nr_chain (nd_runtime (members K i))) \<longrightarrow>
     cs_tip_hash (nr_chain (nd_runtime (members K i))) = cs_tip_hash (nr_chain (nd_runtime (members K j))) \<and>
     cs_state_root (nr_chain (nd_runtime (members K i))) = cs_state_root (nr_chain (nd_runtime (members K j))))"
proof -
  have ok: "cluster_ok svs owner chain_id vs K" by (rule cluster_reachable_ok [OF assms(1,4)])
  have same: "b_header (history (members K a) ! n) = b_header (history (members K b) ! n)"
    if "n < length (history (members K a))" "n < length (history (members K b))" for a b n
  proof -
    obtain k where k: "owner (vs ! (n mod length vs)) = Some k" using assms(2,5) by fastforce
    with owner_decides [OF ok assms(2,3) that(1) k] owner_decides [OF ok assms(2,3) that(2) k] show ?thesis by simp
  qed
  have pre: "prefix (map b_header (history (members K a))) (map b_header (history (members K b)))" if "length (history (members K a)) \<le> length (history (members K b))" for a b
    using that same [of _ a b] by (auto simp: prefix_def intro!: exI [of _ "map b_header (drop (length (history (members K a))) (history (members K b)))"] nth_equalityI
        simp: nth_append)
  have r: "node_reachable (svs a) chain_id vs (members K a)" for a using ok by (simp add: cluster_ok_def sound_def)
  note chain = reachable_history(1) [OF r]
  have h: "cs_height (nr_chain (nd_runtime (members K a))) = of_nat (length (history (members K a)))" for a
    using rebuild_facts [OF chain] by (auto simp: chain_tops_def)
  show ?thesis
  proof (intro conjI impI)
    show "prefix (map b_header (history (members K i))) (map b_header (history (members K j))) \<or>
      prefix (map b_header (history (members K j))) (map b_header (history (members K i)))"
      using pre nat_le_linear by blast
    assume eq: "cs_height (nr_chain (nd_runtime (members K i))) = cs_height (nr_chain (nd_runtime (members K j))) \<and>
       0 < cs_height (nr_chain (nd_runtime (members K i)))"
    have small: "length (history (members K a)) < 2 ^ 64" if "a = i \<or> a = j" for a
    proof -
      have "(of_nat (length (history (members K a))) :: u64) \<noteq> 0" using eq that h [of a] by auto
      then have "length (history (members K a)) \<noteq> 2 ^ 64" by (metis of_nat_2_64)
      with history_bound [OF reachable_history(2) [OF r [of a]]] show ?thesis by simp
    qed
    have len: "length (history (members K i)) = length (history (members K j))"
      using eq h [of i] h [of j] small [of i] small [of j] by (simp add: u64_of_nat_inj)
    have "history (members K i) \<noteq> []" using eq h [of i] by auto
    with len obtain bi b bj d where bs: "history (members K i) = bi @ [b]" "history (members K j) = bj @ [d]"
      by (metis append_butlast_last_id length_0_conv)
    with len have n: "length bi = length bj" by simp
    with same [of "length bi" i j] have "b_header ((bi @ [b]) ! length bi) = b_header ((bj @ [d]) ! length bj)"
      by (simp add: bs)
    then have "b_header b = b_header d" by (simp only: nth_append_length)
    moreover have "rebuild_chain_state_from_blocks pf (sv_decode_witness (svs i)) (bi @ [b]) chain_id vs = Ok (nr_chain (nd_runtime (members K i)))"
      "rebuild_chain_state_from_blocks pf (sv_decode_witness (svs j)) (bj @ [d]) chain_id vs = Ok (nr_chain (nd_runtime (members K j)))"
      using chain [of i] chain [of j] bs assms(3) by simp_all
    ultimately show "cs_tip_hash (nr_chain (nd_runtime (members K i))) = cs_tip_hash (nr_chain (nd_runtime (members K j)))"
      "cs_state_root (nr_chain (nd_runtime (members K i))) = cs_state_root (nr_chain (nd_runtime (members K j)))"
      by (auto dest!: chain_of_last)
  qed
qed

theorem honest_cluster_never_forks_witness:
  "prefix (map b_header (history (members sample_agreed False))) (map b_header (history (members sample_agreed True))) \<and>
   cs_tip_hash (nr_chain (nd_runtime (members sample_agreed False))) = cs_tip_hash (nr_chain (nd_runtime (members sample_agreed True)))"
  using honest_cluster_never_forks [OF sample_agreed_reachable, of "sample_platform True" False True] sample_member_codecs
  by (simp add: sample_agreed_def sample_cluster_def advance_def)

end
