(* ===== verification/QC_Service.thy ===== *)
theory QC_Service
  imports QC_Network
begin

text \<open>
  From a prepared node to a running one: the resolution of peer addresses, the discovery targets and the
  UDP configuration of \<open>qcoin-node/src/node.rs\<close>, the rest of \<open>run_node\<close> in \<open>qcoin-node/src/main.rs\<close>, and the
  client \<open>submit-tx\<close>. Then the properties that span a node, its peers and the client.

  Parameters: the resolver of \<open>to_socket_addrs\<close>, and the additional bind addresses of the network library's
  default configuration.
\<close>

section \<open>Endpoints\<close>

definition normalize_peer_endpoint :: "string \<Rightarrow> string" where
  "normalize_peer_endpoint peer =
     (let s = trim_end_slashes (str_trim peer)
      in case strip_prefix ''http://'' s of
           Some rest \<Rightarrow> rest
         | None \<Rightarrow>
             (case strip_prefix ''https://'' s of
                Some rest \<Rightarrow> rest
              | None \<Rightarrow> (case strip_prefix ''udp://'' s of Some rest \<Rightarrow> rest | None \<Rightarrow> s)))"

definition resolve_endpoint_addr :: "(string \<Rightarrow> (string, socket_addr list) res) \<Rightarrow> string \<Rightarrow> (string, socket_addr) res" where
  "resolve_endpoint_addr lookup endpoint =
     and_then (map_err (\<lambda>e. ''failed to resolve endpoint '' @ endpoint @ '': '' @ e) (lookup (normalize_peer_endpoint endpoint))) (\<lambda>addrs.
     ok_or (''endpoint '' @ endpoint @ '' did not resolve to a socket address'') (list_get addrs 0))"

text \<open>\<open>if !targets.contains(&target) { targets.push(target) }\<close>.\<close>

definition push_target :: "socket_addr \<Rightarrow> socket_addr list \<Rightarrow> socket_addr list" where
  "push_target a targets = (if a \<in> set targets then targets else targets @ [a])"

definition resolve_peer_addrs ::
  "(string \<Rightarrow> (string, socket_addr list) res) \<Rightarrow> string list \<Rightarrow> socket_addr \<Rightarrow> (string, socket_addr list) res" where
  "resolve_peer_addrs lookup peers self_bind_addr =
     fold_res (\<lambda>peer resolved. and_then (resolve_endpoint_addr lookup peer) (\<lambda>addr.
       Ok (if addr \<noteq> self_bind_addr then push_target addr resolved else resolved))) peers []"

fun multicast_target :: "socket_addr \<Rightarrow> multicast_config \<Rightarrow> socket_addr" where
  "multicast_target bind_addr (MulticastV4 grp i) = SocketV4 grp (addr_port bind_addr)"
| "multicast_target bind_addr (MulticastV6 grp i) = SocketV6 grp (addr_port bind_addr) 0 i"

definition multicast_targets :: "socket_addr \<Rightarrow> multicast_config list \<Rightarrow> socket_addr list" where
  "multicast_targets bind_addr multicast = map (multicast_target bind_addr) multicast"

definition discovery_targets_for :: "socket_addr \<Rightarrow> socket_addr list \<Rightarrow> multicast_config list \<Rightarrow> socket_addr list" where
  "discovery_targets_for bind_addr peers multicast = fold push_target (peers @ multicast_targets bind_addr multicast) []"

section \<open>The UDP configuration\<close>

record udp_config =
  uc_bind_addr :: socket_addr
  uc_extra_bind_addrs :: "socket_addr list"
  uc_multicast :: "multicast_config list"
  uc_timeout_millis :: nat
  uc_retries :: nat

fun is_multicast_v4 :: "multicast_config \<Rightarrow> bool" where
  "is_multicast_v4 (MulticastV4 grp i) = True"
| "is_multicast_v4 (MulticastV6 grp i) = False"

definition build_network_config :: "socket_addr list \<Rightarrow> socket_addr \<Rightarrow> socket_addr list \<Rightarrow> multicast_config list \<Rightarrow> udp_config" where
  "build_network_config default_extra bind_addr peers multicast =
     (let need_v4 = is_ipv4 bind_addr \<or> list_ex is_ipv4 peers \<or> list_ex is_multicast_v4 multicast;
          need_v6 = \<not> is_ipv4 bind_addr \<or> list_ex (\<lambda>p. \<not> is_ipv4 p) peers \<or> list_ex (\<lambda>m. \<not> is_multicast_v4 m) multicast;
          extra =
            (if need_v4 \<and> need_v6
             then (if is_ipv4 bind_addr then [SocketV6 0 (addr_port bind_addr) 0 0] else [SocketV4 0 (addr_port bind_addr)])
             else [])
      in \<lparr>uc_bind_addr = bind_addr, uc_extra_bind_addrs = default_extra @ extra, uc_multicast = multicast,
          uc_timeout_millis = 200, uc_retries = 3\<rparr>)"

section \<open>The service\<close>

text \<open>Intervals in seconds.\<close>

record core_config =
  cc_bind_addr :: socket_addr
  cc_peers :: "socket_addr list"
  cc_multicast :: "multicast_config list"
  cc_sync_interval :: u64
  cc_produce_interval :: u64
  cc_produce :: bool
  cc_reliable_node_public_key_hex :: "string list"

text \<open>\<open>start_registered\<close>, up to the registration with the proactor; the codecs are those of the program.\<close>

definition start_service ::
  "platform \<Rightarrow> (bytes \<Rightarrow> input_witness option) \<Rightarrow> json_codec \<Rightarrow> bincode \<Rightarrow> core_config \<Rightarrow> (string, socket_addr list) res
     \<Rightarrow> (string, service) res" where
  "start_service pf dw js bc config local_addrs =
     and_then (map_err (\<lambda>e. ''failed to inspect qcoin UDP local addrs: '' @ e) local_addrs) (\<lambda>addrs.
     Ok \<lparr>sv_platform = pf, sv_decode_witness = dw, sv_json = js, sv_bincode = bc,
       sv_bootstrap_targets = discovery_targets_for (cc_bind_addr config) (cc_peers config) (cc_multicast config),
       sv_local_addrs = fset_of_list addrs, sv_multicast_enabled = (cc_multicast config \<noteq> []),
       sv_produce_enabled = cc_produce config,
       sv_reliable_node_public_key_hex = fset_of_list (cc_reliable_node_public_key_hex config)\<rparr>)"

text \<open>\<open>run_node\<close> with \<open>--once\<close>: nothing else runs, so the mutex cannot be poisoned; \<open>None\<close> is a panic.\<close>

definition run_once ::
  "platform \<Rightarrow> (bytes \<Rightarrow> input_witness option) \<Rightarrow> json_codec \<Rightarrow> bincode \<Rightarrow> (http_peer \<times> (u64 \<Rightarrow> io_outcome \<times> io_outcome)) list
     \<Rightarrow> bool \<Rightarrow> io_outcome \<Rightarrow> io_outcome \<Rightarrow> (string, u64) res \<Rightarrow> nat
     \<Rightarrow> node_runtime \<times> file_system \<Rightarrow> (node_runtime \<times> file_system) option" where
  "run_once pf dw js bc peers produce_enabled io1 io2 now rnd s =
     (case sync_all_peers_http pf dw js bc peers s of
        None \<Rightarrow> None
      | Some s' \<Rightarrow>
          if produce_enabled then
            (case produce_one_block pf dw js io1 io2 None now rnd s' of
               (s'', Panic) \<Rightarrow> None
             | (s'', _) \<Rightarrow> Some s'')
          else Some s')"

text \<open>\<open>run_node\<close> without it: the description served over HTTP, the service and the state it starts in.\<close>

record running_node =
  rn_http_node_info :: node_info
  rn_config :: core_config
  rn_service :: service
  rn_state :: node_state

definition node_core_config :: "u64 \<Rightarrow> u64 \<Rightarrow> node_start \<Rightarrow> socket_addr list \<Rightarrow> core_config" where
  "node_core_config interval_seconds sync_interval_seconds st peer_addrs =
     \<lparr>cc_bind_addr = ns_bind_addr st, cc_peers = peer_addrs, cc_multicast = sp_multicast (ns_profile st),
       cc_sync_interval = max sync_interval_seconds 1, cc_produce_interval = max interval_seconds 1,
       cc_produce = ns_produce_enabled st, cc_reliable_node_public_key_hex = sp_reliable_node_public_key_hex (ns_profile st)\<rparr>"

definition serve_node ::
  "platform \<Rightarrow> (bytes \<Rightarrow> input_witness option) \<Rightarrow> start_env \<Rightarrow> bincode \<Rightarrow> run_args \<Rightarrow> u64 \<Rightarrow> u64 \<Rightarrow> (string, unit) res
     \<Rightarrow> (string, socket_addr list) res \<Rightarrow> node_start \<Rightarrow> file_system \<Rightarrow> (string, running_node) res" where
  "serve_node pf dw env bc args interval_seconds sync_interval_seconds http_bind local_addrs st fs =
     (let rt = ns_runtime st; startup = ns_profile st;
          info = local_node_info (cs_chain_id (nr_chain rt)) (sp_multicast startup \<noteq> []) (nr_node_public_key_hex rt)
            (nr_node_is_validator rt) (ns_produce_enabled st)
      in and_then (map_err (\<lambda>e. ''Failed to bind HTTP server on '' @ ra_listen args @ '': '' @ e) http_bind) (\<lambda>_.
         and_then (resolve_peer_addrs (se_lookup env) (ns_peers st) (ns_bind_addr st)) (\<lambda>peer_addrs.
         let config = node_core_config interval_seconds sync_interval_seconds st peer_addrs
         in and_then (start_service pf dw (se_json env) bc config local_addrs) (\<lambda>sv.
            Ok \<lparr>rn_http_node_info = info, rn_config = config, rn_service = sv,
              rn_state = \<lparr>nd_runtime = rt, nd_files = fs, nd_sync = sync_state_new, nd_sent = [], nd_others = []\<rparr>\<rparr>))))"

section \<open>The client\<close>

text \<open>\<open>submit-tx\<close>: the wildcard address it binds, and the wait for the answer. The inbox is what \<open>recv_from\<close>
  gives until it fails with the error.\<close>

fun submit_bind_addr :: "socket_addr \<Rightarrow> socket_addr" where
  "submit_bind_addr (SocketV4 ip p) = SocketV4 0 0"
| "submit_bind_addr (SocketV6 ip p f s) = SocketV6 0 0 0 0"

fun await_response ::
  "bincode \<Rightarrow> socket_addr \<Rightarrow> (socket_addr \<times> bytes) list \<Rightarrow> string \<Rightarrow> (string, submit_transaction_response) res" where
  "await_response bc target_addr [] e =
     Err (''Timed out waiting for transaction response from '' @ addr_display target_addr @ '': '' @ e)"
| "await_response bc target_addr ((source, frame) # inbox) e =
     (if source \<noteq> target_addr then await_response bc target_addr inbox e
      else
        (case decode_wire bc frame of
           Err err \<Rightarrow> await_response bc target_addr inbox e
         | Panic \<Rightarrow> Panic
         | Ok (SubmitTransactionResponse response) \<Rightarrow> Ok response
         | Ok _ \<Rightarrow> await_response bc target_addr inbox e))"

definition load_transaction_json ::
  "(string \<Rightarrow> (string, transaction) res) \<Rightarrow> read_outcome \<Rightarrow> file_system \<Rightarrow> path \<Rightarrow> (string, transaction) res" where
  "load_transaction_json tx_from rd fs p =
     and_then (map_err (\<lambda>e. ''Failed to read transaction JSON '' @ path_display p @ '': '' @ e) (read_to_string rd fs p)) (\<lambda>text.
     map_err (\<lambda>e. ''Failed to parse transaction JSON '' @ path_display p @ '': '' @ e) (tx_from text))"

text \<open>The whole command, from the text of the file: what is sent (\<open>None\<close> if it stops before) and the answer.\<close>

definition submit_transaction_via_udp ::
  "(string \<Rightarrow> (string, transaction) res) \<Rightarrow> bincode \<Rightarrow> (string \<Rightarrow> (string, socket_addr list) res) \<Rightarrow> read_outcome \<Rightarrow> file_system
     \<Rightarrow> path \<Rightarrow> string \<Rightarrow> (socket_addr \<Rightarrow> (string, unit) res) \<Rightarrow> (string, unit) res \<Rightarrow> (socket_addr \<Rightarrow> bytes \<Rightarrow> (string, unit) res)
     \<Rightarrow> (socket_addr \<times> bytes) list \<Rightarrow> string \<Rightarrow> (socket_addr \<times> bytes) option \<times> (string, submit_transaction_response) res" where
  "submit_transaction_via_udp tx_from bc lookup rd fs tx_json target bind_socket set_timeout send inbox recv_error =
     (case
        and_then (load_transaction_json tx_from rd fs tx_json) (\<lambda>transaction.
        and_then (resolve_endpoint_addr lookup target) (\<lambda>target_addr.
        and_then (map_err (\<lambda>e. ''Failed to bind UDP submit socket on '' @ addr_display (submit_bind_addr target_addr) @ '': '' @ e)
          (bind_socket (submit_bind_addr target_addr))) (\<lambda>_.
        and_then (map_err (\<lambda>e. ''Failed to set UDP submit timeout: '' @ e) set_timeout) (\<lambda>_.
        and_then (map_err (\<lambda>e. ''Failed to encode transaction submission: '' @ e) (encode_wire bc (SubmitTransaction transaction))) (\<lambda>frame.
        and_then (map_err (\<lambda>e. ''Failed to submit transaction to '' @ addr_display target_addr @ '': '' @ e) (send target_addr frame)) (\<lambda>_.
        Ok (target_addr, frame))))))) of
        Ok (target_addr, frame) \<Rightarrow> (Some (target_addr, frame), await_response bc target_addr inbox recv_error)
      | Err e \<Rightarrow> (None, Err e)
      | Panic \<Rightarrow> (None, Panic))"

section \<open>Facts\<close>

lemma fold_push_target: "fold push_target xs [] = rev (remdups (rev xs))"
proof (induction xs rule: rev_induct)
  case (snoc x xs)
  then show ?case by (simp add: push_target_def)
qed simp

lemma discovery_targets_eq:
  "discovery_targets_for b ps ms = rev (remdups (rev (ps @ map (multicast_target b) ms)))"
  by (simp only: discovery_targets_for_def multicast_targets_def fold_push_target)

lemma multicast_target_family: "is_ipv4 (multicast_target b m) = is_multicast_v4 m"
  by (cases m) simp_all

text \<open>There is a socket for every target: of the same address family, and on the bind port.\<close>

lemma sockets_for_targets:
  assumes "t \<in> set ps \<union> set (map (multicast_target b) ms)"
  shows "\<exists>a \<in> set (uc_bind_addr (build_network_config dx b ps ms) # uc_extra_bind_addrs (build_network_config dx b ps ms)).
    is_ipv4 a = is_ipv4 t \<and> addr_port a = addr_port b"
proof (cases "is_ipv4 t = is_ipv4 b")
  case True
  then show ?thesis by (intro bexI [of _ b]) (auto simp: build_network_config_def Let_def)
next
  case False
  have "is_ipv4 t \<longrightarrow> list_ex is_ipv4 ps \<or> list_ex is_multicast_v4 ms"
    "\<not> is_ipv4 t \<longrightarrow> list_ex (\<lambda>p. \<not> is_ipv4 p) ps \<or> list_ex (\<lambda>m. \<not> is_multicast_v4 m) ms"
    using assms by (auto simp: list_ex_iff multicast_target_family)
  with False show ?thesis by (cases "is_ipv4 b") (auto simp: build_network_config_def Let_def)
qed

lemma resolve_peer_addrs_distinct:
  assumes "resolve_peer_addrs lookup peers b = Ok addrs"
  shows "distinct addrs \<and> b \<notin> set addrs \<and>
    set addrs = {a. \<exists>p\<in>set peers. resolve_endpoint_addr lookup p = Ok a} - {b}"
proof -
  have "distinct acc \<Longrightarrow> b \<notin> set acc \<Longrightarrow>
      fold_res (\<lambda>peer resolved. and_then (resolve_endpoint_addr lookup peer) (\<lambda>addr.
        Ok (if addr \<noteq> b then push_target addr resolved else resolved))) peers acc = Ok addrs \<Longrightarrow>
      distinct addrs \<and> b \<notin> set addrs \<and> set addrs = set acc \<union> ({a. \<exists>p\<in>set peers. resolve_endpoint_addr lookup p = Ok a} - {b})" for acc
  proof (induction peers arbitrary: acc)
    case (Cons p peers)
    from Cons.prems(3) obtain a where a: "resolve_endpoint_addr lookup p = Ok a" by (auto simp: res_simps)
    let ?acc = "if a \<noteq> b then push_target a acc else acc"
    have "distinct ?acc" "b \<notin> set ?acc" "set ?acc = set acc \<union> ({a} - {b})"
      using Cons.prems by (auto simp: push_target_def)
    with Cons.IH [of ?acc] Cons.prems(3) a show ?case by (auto simp: res_simps)
  qed auto
  from this [of "[]"] assms show ?thesis by (simp add: resolve_peer_addrs_def)
qed

lemma sync_all_run:
  "sync_all_peers_http pf dw js bc peers s = Some s' \<Longrightarrow> (runtime_step pf dw js)\<^sup>*\<^sup>* s s'"
proof (induction pf dw js bc peers s rule: sync_all_peers_http.induct)
  case (2 pf dw js bc peer io peers s)
  obtain t r where t: "sync_from_peer_http pf dw js bc io peer s = (t, r)" by fastforce
  with 2(3) have r: "r \<noteq> Panic" by (auto split: res.splits)
  have "(runtime_step pf dw js)\<^sup>*\<^sup>* s t"
    using t r sync_loop_run by (auto simp: sync_from_peer_http_def split: res.splits)
  moreover have "(runtime_step pf dw js)\<^sup>*\<^sup>* t s'" using 2 t r by (cases r) auto
  ultimately show ?case by (rule rtranclp_trans)
qed simp

lemma run_once_run:
  assumes "run_once pf dw js bc peers produce_enabled io1 io2 now rnd s = Some s'"
  shows "(runtime_step pf dw js)\<^sup>*\<^sup>* s s'"
  using assms
  by (auto simp: run_once_def dest!: sync_all_run split: option.splits if_splits prod.splits res.splits
      intro: rtranclp.rtrancl_into_rtrancl step_produce)

lemma await_skips_others:
  "\<forall>(source, frame)\<in>set noise. source \<noteq> target \<Longrightarrow>
    await_response bc target (noise @ inbox) e = await_response bc target inbox e"
  by (induction noise) auto

lemma with_runtime_ok: "cl_poisoned cl = None \<Longrightarrow> nd_others s = [] \<Longrightarrow> with_runtime cl f s = (s, f (nd_runtime s))"
  by (simp add: with_runtime_def)

lemma expect_tx_id: "expect x = Ok i \<longleftrightarrow> x = Some i"
  by (cases x) simp_all

section \<open>A sample transaction\<close>

definition sample_transfer :: transaction where
  "sample_transfer = \<lparr>tx_core = \<lparr>tc_kind = Transfer, tc_inputs = [], tc_outputs = []\<rparr>, tx_witness = \<lparr>tw_inputs = []\<rparr>\<rparr>"

lemma sample_transfer_id: "\<exists>i. tx_id (sample_platform oc) sample_transfer = Some i"
  using tx_id_eq_None [of "sample_platform oc" sample_transfer] by (auto simp: sample_transfer_def core_fits_def)

lemma sample_transfer_accepted:
  assumes "tx_id (sample_platform True) sample_transfer = Some i"
  shows "accept_transaction (sample_platform True) dw sample_transfer sample_runtime
    = (sample_runtime\<lparr>nr_pending := [sample_transfer]\<rparr>, Ok (AcceptedNew i))"
proof -
  have "admit_transaction (sample_platform True) dw sample_transfer sample_runtime = Ok (AcceptedNew i)"
    using assms
    by (simp add: admit_transaction_def transaction_is_committed_def sample_runtime_sel Let_def apply_transaction_def
        check_transaction_def scan_inputs_def initial_scan_def output_totals_def conserves_def sample_transfer_def)
  then show ?thesis by (simp add: accept_transaction_def sample_runtime_sel)
qed

section \<open>Properties\<close>

text \<open>\<open>run_node\<close> brings up a node of the network machine: a prepared node that gets as far as running is in a
  reachable state of its service, for the chain id and validators of its profile. It announces itself to
  each configured peer address and each multicast group once, never to its own bind address, and for each
  of these targets there is a socket of the same address family on the same port. Both timers run at
  least a second apart, and HTTP and UDP give the same description of the node.\<close>

theorem node_comes_up:
  assumes "prepare_node pf dw env args fs = (fs', Ok st)"
    and "serve_node pf dw env bc args interval sync_interval http_bind local_addrs st fs' = Ok rn"
  shows "node_reachable (rn_service rn) (sp_chain_id (ns_profile st)) (ns_validators st) (rn_state rn) \<and>
    distinct (sv_bootstrap_targets (rn_service rn)) \<and>
    set (sv_bootstrap_targets (rn_service rn)) =
      ({a. \<exists>p\<in>set (ns_peers st). resolve_endpoint_addr (se_lookup env) p = Ok a} - {ns_bind_addr st}) \<union>
      multicast_target (ns_bind_addr st) ` set (sp_multicast (ns_profile st)) \<and>
    (let uc = build_network_config dx (ns_bind_addr st) (cc_peers (rn_config rn)) (sp_multicast (ns_profile st))
     in \<forall>t\<in>set (sv_bootstrap_targets (rn_service rn)). \<exists>a\<in>set (uc_bind_addr uc # uc_extra_bind_addrs uc).
          is_ipv4 a = is_ipv4 t \<and> addr_port a = addr_port (ns_bind_addr st)) \<and>
    1 \<le> cc_sync_interval (rn_config rn) \<and> 1 \<le> cc_produce_interval (rn_config rn) \<and>
    (cl_poisoned cl = None \<longrightarrow> node_local_info (rn_service rn) cl (rn_state rn) = (rn_state rn, Ok (rn_http_node_info rn)))"
proof -
  from assms(2) obtain peers addrs where rn:
    "resolve_peer_addrs (se_lookup env) (ns_peers st) (ns_bind_addr st) = Ok peers" "local_addrs = Ok addrs"
    "rn_config rn = \<lparr>cc_bind_addr = ns_bind_addr st, cc_peers = peers, cc_multicast = sp_multicast (ns_profile st),
       cc_sync_interval = max sync_interval 1, cc_produce_interval = max interval 1,
       cc_produce = ns_produce_enabled st, cc_reliable_node_public_key_hex = sp_reliable_node_public_key_hex (ns_profile st)\<rparr>"
    "rn_service rn = \<lparr>sv_platform = pf, sv_decode_witness = dw, sv_json = se_json env, sv_bincode = bc,
       sv_bootstrap_targets = discovery_targets_for (ns_bind_addr st) peers (sp_multicast (ns_profile st)),
       sv_local_addrs = fset_of_list addrs, sv_multicast_enabled = (sp_multicast (ns_profile st) \<noteq> []),
       sv_produce_enabled = ns_produce_enabled st,
       sv_reliable_node_public_key_hex = fset_of_list (sp_reliable_node_public_key_hex (ns_profile st))\<rparr>"
    "rn_state rn = \<lparr>nd_runtime = ns_runtime st, nd_files = fs', nd_sync = sync_state_new, nd_sent = [], nd_others = []\<rparr>"
    "rn_http_node_info rn = local_node_info (cs_chain_id (nr_chain (ns_runtime st))) (sp_multicast (ns_profile st) \<noteq> [])
       (nr_node_public_key_hex (ns_runtime st)) (nr_node_is_validator (ns_runtime st)) (ns_produce_enabled st)"
    by (auto simp: serve_node_def node_core_config_def start_service_def res_simps Let_def)
  obtain pk sk v e fs1 where start:
    "start_runtime pf dw (se_json env) (se_reads env) (se_state_io env) (ra_state_path args)
       (case ra_blocks_path args of Some p \<Rightarrow> p | None \<Rightarrow> blocks_path_from_state_path (ra_state_path args))
       (sp_chain_id (ns_profile st)) (ns_validators st) pk sk v e fs1 = Some (ns_runtime st, fs')"
    by (rule prepare_node_starts [OF assms(1)])
  have "node_reachable (rn_service rn) (sp_chain_id (ns_profile st)) (ns_validators st) (rn_state rn)"
    unfolding rn(5) by (rule node_starts) (use reach_start [OF start] in \<open>simp add: rn(4)\<close>)
  moreover have targets: "distinct (sv_bootstrap_targets (rn_service rn))"
    "set (sv_bootstrap_targets (rn_service rn)) = set peers \<union> multicast_target (ns_bind_addr st) ` set (sp_multicast (ns_profile st))"
    by (auto simp: rn(4) discovery_targets_eq)
  moreover have "1 \<le> max (w :: u64) 1" for w by simp
  moreover note resolve_peer_addrs_distinct [OF rn(1)] sockets_for_targets [of _ peers "ns_bind_addr st" "sp_multicast (ns_profile st)" dx]
  ultimately show ?thesis
    by (auto simp: rn(3,6) Let_def node_local_info_def with_runtime_def) (auto simp: rn(4,5))
qed

theorem node_comes_up_witness:
  "\<exists>rn. serve_node (sample_platform True) sample_dw sample_start_env sample_bincode sample_args 0 0 (Ok ()) (Ok [SocketV4 0x7F000001 9700])
      sample_node_start fmempty = Ok rn \<and> node_reachable (rn_service rn) 0 [] (rn_state rn)"
proof -
  obtain rn where rn: "serve_node (sample_platform True) sample_dw sample_start_env sample_bincode sample_args 0 0 (Ok ())
      (Ok [SocketV4 0x7F000001 9700]) sample_node_start fmempty = Ok rn"
    by (simp add: serve_node_def start_service_def resolve_peer_addrs_def sample_node_start_def Let_def)
  from node_comes_up [OF sample_prepares this] rn show ?thesis by (auto simp: sample_node_start_def)
qed

text \<open>C15. Submitting a transaction works end to end: when the node takes a submitted transaction into its mempool
  (after what the HTTP thread may do before) and its links work, it answers the client first, announces the id to every bootstrap target in order,
  and keeps the transaction as the last of the mempool; and the client, whatever else arrives from other
  addresses before, prints exactly that answer.\<close>

theorem submission_roundtrip:
  assumes "bincode_ok (sv_bincode sv)" and "client |\<notin>| sv_local_addrs sv" and "cl_poisoned cl = None"
    and "encode_wire (sv_bincode sv) (SubmitTransaction tx) = Ok frame"
    and "accept_transaction (sv_platform sv) (sv_decode_witness sv) tx (nd_runtime (lock_runtime s)) = (rt', Ok (AcceptedNew i))"
    and "encode_wire (sv_bincode sv) (SubmitTransactionResponse
      \<lparr>st_accepted = True, st_tx_id_hex = to_hex (hash_slice i), st_message = ''transaction accepted into mempool''\<rparr>) = Ok reply"
    and "encode_wire (sv_bincode sv) (TransactionAnnounce i) = Ok announce"
    and "cl_link cl client reply = None" and "\<forall>t\<in>set (sv_bootstrap_targets sv). cl_link cl t announce = None"
    and "\<forall>(source, f)\<in>set noise. source \<noteq> node_addr"
  shows "(let response = \<lparr>st_accepted = True, st_tx_id_hex = to_hex (hash_slice i), st_message = ''transaction accepted into mempool''\<rparr>
    in handle_frame sv cl client frame s =
        ((lock_runtime s)\<lparr>nd_runtime := rt', nd_sent := nd_sent s @ (client, SubmitTransactionResponse response) #
            map (\<lambda>t. (t, TransactionAnnounce i)) (sv_bootstrap_targets sv)\<rparr>, Ok ()) \<and>
      tx_id (sv_platform sv) tx = Some i \<and> nr_pending rt' = nr_pending (nd_runtime (lock_runtime s)) @ [tx] \<and>
      await_response (sv_bincode sv) node_addr (noise @ (node_addr, reply) # rest) e = Ok response)"
proof -
  let ?r = "\<lparr>st_accepted = True, st_tx_id_hex = to_hex (hash_slice i), st_message = ''transaction accepted into mempool''\<rparr>"
  from assms(5) have rt': "rt' = (nd_runtime (lock_runtime s))\<lparr>nr_pending := nr_pending (nd_runtime (lock_runtime s)) @ [tx]\<rparr>" and
    a: "admit_transaction (sv_platform sv) (sv_decode_witness sv) tx (nd_runtime (lock_runtime s)) = Ok (AcceptedNew i)"
    by (auto elim: accept_transaction_cases)
  from a have id: "tx_id (sv_platform sv) tx = Some i"
    by (auto simp: admit_transaction_def res_simps expect_tx_id Let_def split: if_splits res.splits prod.splits)
  have d: "decode_wire (sv_bincode sv) frame = Ok (SubmitTransaction tx)"
    "decode_wire (sv_bincode sv) reply = Ok (SubmitTransactionResponse ?r)"
    using assms(1,4,6) by (auto simp: encode_wire_eq_Ok bincode_ok_def)
  let ?s1 = "(lock_runtime s)\<lparr>nd_runtime := rt'\<rparr>"
  let ?s2 = "?s1\<lparr>nd_sent := nd_sent s @ [(client, SubmitTransactionResponse ?r)]\<rparr>"
  have "node_accept_transaction sv cl tx s = (?s1, Ok (AcceptedNew i))"
    using assms(3,5) by (simp add: node_accept_transaction_def with_runtime_mut_def Let_def)
  moreover have "send_wire sv cl client (SubmitTransactionResponse ?r) ?s1 = (?s2, Ok ())"
    using assms(8) by (simp add: send_wire_link [OF assms(6)])
  moreover have "broadcast_transaction_announce sv cl i ?s2
      = (?s2\<lparr>nd_sent := nd_sent ?s2 @ map (\<lambda>t. (t, TransactionAnnounce i)) (sv_bootstrap_targets sv)\<rparr>, Ok ())"
    unfolding broadcast_transaction_announce_def by (rule bootstrap_sends [OF assms(7,9)])
  ultimately have "handle_submitted_transaction sv cl client tx s
      = (?s2\<lparr>nd_sent := nd_sent ?s2 @ map (\<lambda>t. (t, TransactionAnnounce i)) (sv_bootstrap_targets sv)\<rparr>, Ok ())"
    using id by (simp add: handle_submitted_transaction_def op_then_def op_try_def op_return_def)
  with assms(2) d id rt' await_skips_others [OF assms(10)] show ?thesis by (simp add: handle_frame_def Let_def)
qed

theorem submission_roundtrip_witness:
  "\<exists>sv s' r. handle_frame sv sample_call (SocketV4 3 3) (QCOIN_WIRE_MAGIC @ [11]) sample_node = (s', Ok ()) \<and>
    nr_pending (nd_runtime s') = [sample_transfer] \<and> length (nd_sent s') = 3 \<and>
    await_response (sv_bincode sv) (SocketV4 4 4) [(SocketV4 6 6, []), (SocketV4 4 4, QCOIN_WIRE_MAGIC @ [12])] ''late'' = Ok r"
proof -
  obtain i where i: "tx_id (sample_platform True) sample_transfer = Some i" using sample_transfer_id by blast
  define r where "r = \<lparr>st_accepted = True, st_tx_id_hex = to_hex (hash_slice i), st_message = ''transaction accepted into mempool''\<rparr>"
  define bc where "bc = \<lparr>bc_message_to = (\<lambda>m. if m = SubmitTransaction sample_transfer then Ok [11]
       else if m = SubmitTransactionResponse r then Ok [12] else if m = TransactionAnnounce i then Ok [13] else Err ''no''),
     bc_message_from = (\<lambda>p. if p = [11] then Ok (SubmitTransaction sample_transfer) else if p = [12] then Ok (SubmitTransactionResponse r)
       else if p = [13] then Ok (TransactionAnnounce i) else Err ''no''),
     bc_block_to = (\<lambda>b. Err ''no''), bc_block_from = (\<lambda>p. Err ''no'')\<rparr>"
  define sv where "sv = sample_service\<lparr>sv_bincode := bc\<rparr>"
  have ok: "bincode_ok (sv_bincode sv)" by (auto simp: sv_def bincode_ok_def bc_def)
  have enc: "encode_wire (sv_bincode sv) (SubmitTransaction sample_transfer) = Ok (QCOIN_WIRE_MAGIC @ [11])"
    "encode_wire (sv_bincode sv) (SubmitTransactionResponse r) = Ok (QCOIN_WIRE_MAGIC @ [12])"
    "encode_wire (sv_bincode sv) (TransactionAnnounce i) = Ok (QCOIN_WIRE_MAGIC @ [13])"
    by (simp_all add: sv_def encode_wire_eq_Ok bc_def)
  have acc: "accept_transaction (sv_platform sv) (sv_decode_witness sv) sample_transfer (nd_runtime (lock_runtime sample_node))
      = (sample_runtime\<lparr>nr_pending := [sample_transfer]\<rparr>, Ok (AcceptedNew i))"
    by (simp add: sv_def sample_service_def sample_node_def sample_transfer_accepted [OF i])
  have c: "SocketV4 3 3 |\<notin>| sv_local_addrs sv" "cl_poisoned sample_call = None"
    "cl_link sample_call (SocketV4 3 3) (QCOIN_WIRE_MAGIC @ [12]) = None"
    "\<forall>t\<in>set (sv_bootstrap_targets sv). cl_link sample_call t (QCOIN_WIRE_MAGIC @ [13]) = None"
    by (simp_all add: sv_def sample_service_def sample_call_def)
  have n: "\<forall>(source, f)\<in>set [(SocketV4 6 6, [])]. source \<noteq> SocketV4 4 4" by simp
  note res = submission_roundtrip [OF ok c(1,2) enc(1) acc enc(2) [unfolded r_def] enc(3) c(3,4) n, unfolded Let_def lock_runtime_idle [OF sample_node_quiet],
      folded r_def, where rest = "[]" and e = "''late''"]
  let ?s' = "sample_node\<lparr>nd_runtime := sample_runtime\<lparr>nr_pending := [sample_transfer]\<rparr>,
    nd_sent := nd_sent sample_node @ (SocketV4 3 3, SubmitTransactionResponse r) # map (\<lambda>t. (t, TransactionAnnounce i)) (sv_bootstrap_targets sv)\<rparr>"
  have "handle_frame sv sample_call (SocketV4 3 3) (QCOIN_WIRE_MAGIC @ [11]) sample_node = (?s', Ok ())" using res by blast
  moreover have "nr_pending (nd_runtime ?s') = [sample_transfer]" by simp
  moreover have "length (nd_sent ?s') = 3" by (simp add: sample_node_def sv_def sample_service_def)
  moreover have "await_response (sv_bincode sv) (SocketV4 4 4) [(SocketV4 6 6, []), (SocketV4 4 4, QCOIN_WIRE_MAGIC @ [12])] ''late'' = Ok r"
    using res by (simp del: await_response.simps)
  ultimately show ?thesis by blast
qed

text \<open>C14. Transactions spread: between two nodes that know each other, an announcement of a transaction that the
  first has and the second does not makes the second ask for it, the first answer with it, and the second
  put it through the same admission as a submitted one; if it is new and valid there, it is in the second
  mempool and announced onwards to every bootstrap target.\<close>

theorem transaction_gossip:
  assumes "a |\<in>| ss_known_peers (nd_sync B)" and "b |\<in>| ss_known_peers (nd_sync A)" and "cl_poisoned cl = None"
    and "nd_others A = []" and "nd_others B = []"
    and "find_tx_id (sv_platform svA) i (nr_pending (nd_runtime A)) = Some (Some tx)" and "tx_id (sv_platform svB) tx = Some i"
    and "has_transaction svB cl i B = (B, Ok False)"
    and "encode_wire (sv_bincode svB) (TransactionRequest i) = Ok f1" and "encode_wire (sv_bincode svA) (TransactionResponse i (Some tx)) = Ok f2"
    and "encode_wire (sv_bincode svB) (TransactionAnnounce i) = Ok f3"
    and "\<forall>t f. cl_link cl t f = None"
    and "accept_transaction (sv_platform svB) (sv_decode_witness svB) tx (nd_runtime B) = (rt', r)" and "r \<noteq> Panic"
  shows "(let A1 = A\<lparr>nd_sent := nd_sent A @ [(b, TransactionResponse i (Some tx))]\<rparr>;
      B1 = B\<lparr>nd_sent := nd_sent B @ [(a, TransactionRequest i)]\<rparr>
    in handle_message svB cl a (TransactionAnnounce i) B = (B1, Ok ()) \<and>
      handle_message svA cl b (TransactionRequest i) A = (A1, Ok ()) \<and>
      (case r of
         Ok (AcceptedNew j) \<Rightarrow> j = i \<and> nr_pending rt' = nr_pending (nd_runtime B) @ [tx] \<and>
           handle_message svB cl a (TransactionResponse i (Some tx)) B1 = (B1\<lparr>nd_runtime := rt',
             nd_sent := nd_sent B1 @ map (\<lambda>t. (t, TransactionAnnounce i)) (sv_bootstrap_targets svB)\<rparr>, Ok ())
       | Ok (AlreadyPending j) \<Rightarrow> handle_message svB cl a (TransactionResponse i (Some tx)) B1 = (B1, Ok ())
       | Err e \<Rightarrow> handle_message svB cl a (TransactionResponse i (Some tx)) B1 = (B1, Err e)
       | Panic \<Rightarrow> False))"
proof -
  let ?B1 = "B\<lparr>nd_sent := nd_sent B @ [(a, TransactionRequest i)]\<rparr>"
  have ann: "handle_message svB cl a (TransactionAnnounce i) B = (?B1, Ok ())"
    using assms(1,8,12)
    by (simp add: handle_transaction_announce_def op_then_def get_sync_def send_wire_link [OF assms(9)])
  have req: "handle_message svA cl b (TransactionRequest i) A = (A\<lparr>nd_sent := nd_sent A @ [(b, TransactionResponse i (Some tx))]\<rparr>, Ok ())"
    using assms(2,3,4,6,12)
    by (simp add: handle_transaction_request_def known_if_compatible op_then_def transaction_by_id_def with_runtime_ok
        send_wire_link [OF assms(10)])
  have known: "a |\<in>| ss_known_peers (nd_sync ?B1)" using assms(1) by simp
  have acc: "node_accept_transaction svB cl tx ?B1 = (?B1\<lparr>nd_runtime := rt'\<rparr>, r)"
    using assms(3,5,13) by (simp add: node_accept_transaction_def with_runtime_mut_def)
  have resp: "handle_message svB cl a (TransactionResponse i (Some tx)) ?B1 =
      (case r of
         Ok (AcceptedNew j) \<Rightarrow> broadcast_transaction_announce svB cl j (?B1\<lparr>nd_runtime := rt'\<rparr>)
       | Ok (AlreadyPending j) \<Rightarrow> (?B1\<lparr>nd_runtime := rt'\<rparr>, Ok ())
       | Err e \<Rightarrow> (?B1\<lparr>nd_runtime := rt'\<rparr>, Err e)
       | Panic \<Rightarrow> (?B1\<lparr>nd_runtime := rt'\<rparr>, Panic))"
    using assms(7) acc
    by (simp add: handle_transaction_response_def known_if_compatible [OF known] op_then_def op_return_def
        split: res.splits transaction_accept_status.splits)
  have send: "broadcast_transaction_announce svB cl i t
      = (t\<lparr>nd_sent := nd_sent t @ map (\<lambda>t. (t, TransactionAnnounce i)) (sv_bootstrap_targets svB)\<rparr>, Ok ())" for t
    unfolding broadcast_transaction_announce_def by (rule bootstrap_sends [OF assms(11)]) (simp add: assms(12))
  from assms(13) show ?thesis
  proof (cases rule: accept_transaction_cases)
    case 1
    then have "?B1\<lparr>nd_runtime := rt'\<rparr> = ?B1" by simp
    with 1(2) assms(14) ann req resp show ?thesis
      by (cases r) (auto simp: Let_def split: transaction_accept_status.splits)
  next
    case (2 j)
    then have "j = i"
      using assms(7) by (auto simp: admit_transaction_def res_simps expect_tx_id Let_def split: if_splits res.splits prod.splits)
    with 2 ann req resp send show ?thesis by (simp add: Let_def)
  qed
qed

theorem transaction_gossip_witness:
  "\<exists>sv B B' i. handle_message sv sample_call (SocketV4 9 9) (TransactionResponse i (Some sample_transfer)) B = (B', Ok ()) \<and>
    nr_pending (nd_runtime B') = [sample_transfer]"
proof -
  obtain i where i: "tx_id (sample_platform True) sample_transfer = Some i" using sample_transfer_id by blast
  let ?A = "sample_node\<lparr>nd_runtime := sample_runtime\<lparr>nr_pending := [sample_transfer]\<rparr>,
    nd_sync := sync_state_new\<lparr>ss_known_peers := {|SocketV4 5 1|}\<rparr>\<rparr>"
  let ?B = "sample_node\<lparr>nd_sync := sync_state_new\<lparr>ss_known_peers := {|SocketV4 9 9|}\<rparr>\<rparr>"
  have has: "has_transaction sample_service sample_call i ?B = (?B, Ok False)"
    by (simp add: has_transaction_def with_runtime_def sample_call_def sample_node_def sample_runtime_sel
        transaction_is_committed_def)
  have acc: "accept_transaction (sv_platform sample_service) (sv_decode_witness sample_service) sample_transfer (nd_runtime ?B)
      = (sample_runtime\<lparr>nr_pending := [sample_transfer]\<rparr>, Ok (AcceptedNew i))"
    by (simp add: sample_service_def sample_node_def sample_transfer_accepted [OF i])
  from transaction_gossip [OF _ _ _ _ _ _ _ has sample_encode sample_encode sample_encode _ acc, where a = "SocketV4 9 9"
      and b = "SocketV4 5 1" and A = ?A]
  have "\<exists>B1 B'. handle_message sample_service sample_call (SocketV4 9 9) (TransactionResponse i (Some sample_transfer)) B1 = (B', Ok ()) \<and>
    nr_pending (nd_runtime B') = [sample_transfer]"
    using i by (simp add: sample_service_def sample_call_def sample_node_def Let_def sync_state_new_def del: handle_message.simps)
      fastforce
  then show ?thesis by blast
qed

end
