(* ===== verification/QC_Schedule.thy ===== *)
theory QC_Schedule
  imports QC_Service QC_History
begin

text \<open>
  When the work of a node is done: the timers and socket registrations with which the network service of
  \<open>qcoin-node/src/node.rs\<close> drives the operations of \<open>QC_Node\<close>, and the HTTP thread of \<open>run_node\<close> beside it.

  The proactor (\<open>loadngo-proactor\<close>) is a library outside \<open>src/\<close>. What follows is the contract the code relies on,
  and it is an assumption of this theory: a deferred callback runs at most once, not before its delay is over,
  and callbacks run one after the other in the loop of \<open>run_until_stopped\<close>; a registered callback runs when its
  socket becomes readable; a call that fails leaves nothing queued or registered. Nothing is assumed about how
  late a callback runs, or that it runs at all, or which calls fail. Time is in nanoseconds of the monotonic clock. The HTTP
  thread serves requests between callbacks and, in the middle of a callback, whenever that waits for the lock
  of the runtime.
\<close>

section \<open>The proactor\<close>

datatype job = AnnouncePresence | RequestTips | ProduceBlock | PumpFrames

record proactor =
  pr_now :: nat
  pr_running :: bool
  pr_timers :: "(nat \<times> job) list"
  pr_readers :: "(nat \<times> u64) list"

definition proactor_new :: "nat \<Rightarrow> proactor" where
  "proactor_new now = \<lparr>pr_now = now, pr_running = True, pr_timers = [], pr_readers = []\<rparr>"

type_synonym proactor_op = "proactor \<Rightarrow> proactor \<times> (string, unit) res"

definition pr_then :: "proactor_op \<Rightarrow> proactor_op \<Rightarrow> proactor_op" where
  "pr_then m k = (\<lambda>p. case m p of (p', Ok u) \<Rightarrow> k p' | (p', Err e) \<Rightarrow> (p', Err e) | (p', Panic) \<Rightarrow> (p', Panic))"

definition pr_err :: "string \<Rightarrow> proactor_op \<Rightarrow> proactor_op" where
  "pr_err label m = (\<lambda>p. case m p of (p', r) \<Rightarrow> (p', map_err (\<lambda>e. label @ '': '' @ e) r))"

text \<open>\<open>defer_for\<close> and \<open>register_readable\<close> as the contract above has them, with the outcome of the call.\<close>

fun defer_for :: "string option \<Rightarrow> nat \<Rightarrow> job \<Rightarrow> proactor_op" where
  "defer_for None delay j p = (p\<lparr>pr_timers := pr_timers p @ [(pr_now p + delay, j)]\<rparr>, Ok ())"
| "defer_for (Some e) delay j p = (p, Err e)"

fun register_readable :: "string option \<Rightarrow> nat \<Rightarrow> u64 \<Rightarrow> proactor_op" where
  "register_readable None fd token p = (p\<lparr>pr_readers := pr_readers p @ [(fd, token)]\<rparr>, Ok ())"
| "register_readable (Some e) fd token p = (p, Err e)"

definition deregister_readable :: "nat \<Rightarrow> u64 \<Rightarrow> proactor \<Rightarrow> proactor" where
  "deregister_readable fd token p = p\<lparr>pr_readers := List.filter (\<lambda>x. x \<noteq> (fd, token)) (pr_readers p)\<rparr>"

section \<open>The jobs of a node\<close>

definition PRESENCE_ANNOUNCE_INTERVAL :: nat where
  "PRESENCE_ANNOUNCE_INTERVAL = 42 * second"

definition NETWORK_POLL_INTERVAL :: nat where
  "NETWORK_POLL_INTERVAL = 5 * 1000000"

definition READINESS_TOKEN_BASE :: u64 where
  "READINESS_TOKEN_BASE = 0x51434f494e5f4e45"

definition schedule_pump :: "string option \<Rightarrow> nat \<Rightarrow> proactor_op" where
  "schedule_pump fault delay = pr_err ''failed to schedule qcoin network pump'' (defer_for fault delay PumpFrames)"

definition schedule_sync :: "string option \<Rightarrow> nat \<Rightarrow> proactor_op" where
  "schedule_sync fault delay = pr_err ''failed to schedule qcoin sync'' (defer_for fault delay RequestTips)"

definition schedule_presence_announce :: "string option \<Rightarrow> nat \<Rightarrow> proactor_op" where
  "schedule_presence_announce fault delay =
     pr_err ''failed to schedule qcoin presence announce'' (defer_for fault delay AnnouncePresence)"

definition schedule_produce :: "string option \<Rightarrow> nat \<Rightarrow> proactor_op" where
  "schedule_produce fault delay = pr_err ''failed to schedule qcoin production'' (defer_for fault delay ProduceBlock)"

text \<open>What a callback does once it has run its job: it schedules the same job again, with the interval of the job.\<close>

fun reschedule :: "core_config \<Rightarrow> nat \<Rightarrow> string option \<Rightarrow> job \<Rightarrow> proactor_op" where
  "reschedule config idle fault PumpFrames = schedule_pump fault idle"
| "reschedule config idle fault RequestTips = schedule_sync fault (unat (cc_sync_interval config) * second)"
| "reschedule config idle fault AnnouncePresence = schedule_presence_announce fault PRESENCE_ANNOUNCE_INTERVAL"
| "reschedule config idle fault ProduceBlock = schedule_produce fault (unat (cc_produce_interval config) * second)"

text \<open>An operation whose error is only printed; \<open>None\<close> is a panic.\<close>

definition report :: "string \<Rightarrow> 'a node_op \<Rightarrow> node_state \<Rightarrow> (node_state \<times> string list) option" where
  "report label m s =
     (case m s of (s', Ok x) \<Rightarrow> Some (s', []) | (s', Err e) \<Rightarrow> Some (s', [label @ '': '' @ e]) | (s', Panic) \<Rightarrow> None)"

definition drain_and_report :: "service \<Rightarrow> received list \<Rightarrow> node_state \<Rightarrow> (node_state \<times> string list) option" where
  "drain_and_report sv inbox = report ''QCoin UDP dispatch failed'' (drain_frames sv inbox 0)"

fun run_job :: "service \<Rightarrow> call \<Rightarrow> received list \<Rightarrow> job \<Rightarrow> node_state \<Rightarrow> (node_state \<times> string list) option" where
  "run_job sv cl inbox PumpFrames = drain_and_report sv inbox"
| "run_job sv cl inbox RequestTips = report ''QCoin UDP sync request failed'' (broadcast_tip_requests sv cl)"
| "run_job sv cl inbox AnnouncePresence = report ''QCoin presence announce failed'' (broadcast_presence_announces sv cl)"
| "run_job sv cl inbox ProduceBlock = report ''QCoin block production failed'' (produce_now sv cl)"

section \<open>Starting and stopping\<close>

fun register_sockets :: "(nat \<Rightarrow> string option) \<Rightarrow> nat \<Rightarrow> nat list \<Rightarrow> proactor_op" where
  "register_sockets fault index [] = (\<lambda>p. (p, Ok ()))"
| "register_sockets fault index (fd # fds) =
     pr_then (pr_err ''failed to register qcoin UDP readiness'' (register_readable (fault index) fd (READINESS_TOKEN_BASE + of_nat index)))
       (register_sockets fault (index + 1) fds)"

text \<open>The calls to the proactor of \<open>start_registered\<close> and \<open>start_polling\<close>; \<open>fault\<close> gives the outcome of each.\<close>

definition start_jobs :: "core_config \<Rightarrow> (job \<Rightarrow> string option) \<Rightarrow> proactor_op" where
  "start_jobs config fault =
     pr_then (schedule_presence_announce (fault AnnouncePresence) 0)
     (pr_then (schedule_sync (fault RequestTips) 0)
     (if cc_produce config then schedule_produce (fault ProduceBlock) 0 else (\<lambda>p. (p, Ok ()))))"

definition start_registered ::
  "platform \<Rightarrow> (bytes \<Rightarrow> input_witness option) \<Rightarrow> json_codec \<Rightarrow> bincode \<Rightarrow> core_config \<Rightarrow> (string, socket_addr list) res
     \<Rightarrow> (string, nat list) res \<Rightarrow> (nat \<Rightarrow> string option) \<Rightarrow> (job \<Rightarrow> string option) \<Rightarrow> proactor \<Rightarrow> proactor \<times> (string, service) res" where
  "start_registered pf dw js bc config local_addrs socket_fds register_fault defer_fault p =
     (case
        and_then (start_service pf dw js bc config local_addrs) (\<lambda>sv.
        and_then (map_err (\<lambda>e. ''failed to inspect qcoin UDP sockets: '' @ e) socket_fds) (\<lambda>fds. Ok (sv, fds))) of
        Err e \<Rightarrow> (p, Err e)
      | Panic \<Rightarrow> (p, Panic)
      | Ok (sv, fds) \<Rightarrow>
          (case pr_then (register_sockets register_fault 0 fds) (start_jobs config defer_fault) p of
             (p', r) \<Rightarrow> (p', and_then r (\<lambda>_. Ok sv))))"

definition start_polling ::
  "platform \<Rightarrow> (bytes \<Rightarrow> input_witness option) \<Rightarrow> json_codec \<Rightarrow> bincode \<Rightarrow> core_config \<Rightarrow> (string, socket_addr list) res
     \<Rightarrow> (job \<Rightarrow> string option) \<Rightarrow> proactor \<Rightarrow> proactor \<times> (string, service) res" where
  "start_polling pf dw js bc config local_addrs defer_fault p =
     (case start_service pf dw js bc config local_addrs of
        Err e \<Rightarrow> (p, Err e)
      | Panic \<Rightarrow> (p, Panic)
      | Ok sv \<Rightarrow>
          (case pr_then (start_jobs config defer_fault) (schedule_pump (defer_fault PumpFrames) 0) p of
             (p', r) \<Rightarrow> (p', and_then r (\<lambda>_. Ok sv))))"

text \<open>
  \<open>run_network_core\<close> on a Unix system, up to the loop of the proactor. A network that has been initialised
  answers three questions, each of which may fail.
\<close>

record network =
  nw_binds :: "(string, socket_addr list) res"
  nw_local_addrs :: "(string, socket_addr list) res"
  nw_socket_fds :: "(string, nat list) res"

definition build_network_with_multicast ::
  "(udp_config \<Rightarrow> (string, network) res) \<Rightarrow> socket_addr list \<Rightarrow> socket_addr \<Rightarrow> socket_addr list \<Rightarrow> multicast_config list
     \<Rightarrow> (string, network) res" where
  "build_network_with_multicast init default_extra bind_addr peers multicast =
     and_then (map_err (\<lambda>e. ''failed to initialize qcoin UDP transport: '' @ e)
       (init (build_network_config default_extra bind_addr peers multicast))) (\<lambda>network.
     and_then (map_err (\<lambda>e. ''failed to inspect qcoin UDP binds: '' @ e) (nw_binds network)) (\<lambda>local_addrs. Ok network))"

record core_env =
  en_port :: "(string, unit) res"
  en_init :: "udp_config \<Rightarrow> (string, network) res"
  en_default_extra :: "socket_addr list"
  en_register_fault :: "nat \<Rightarrow> string option"
  en_defer_fault :: "job \<Rightarrow> string option"
  en_set_handler :: "(string, unit) res"
  en_now :: nat

definition install_shutdown_handler :: "(string, unit) res \<Rightarrow> (string, unit) res" where
  "install_shutdown_handler set_handler = map_err (\<lambda>e. ''failed to install shutdown handler: '' @ e) set_handler"

definition start_network_core ::
  "platform \<Rightarrow> (bytes \<Rightarrow> input_witness option) \<Rightarrow> json_codec \<Rightarrow> bincode \<Rightarrow> core_env \<Rightarrow> core_config
     \<Rightarrow> proactor \<times> (string, service \<times> nat list) res" where
  "start_network_core pf dw js bc env config =
     (let p = proactor_new (en_now env) in
      case and_then (map_err (\<lambda>e. ''failed to create epoll port: '' @ e) (en_port env)) (\<lambda>_.
           build_network_with_multicast (en_init env) (en_default_extra env) (cc_bind_addr config) (cc_peers config) (cc_multicast config)) of
        Err e \<Rightarrow> (p, Err e)
      | Panic \<Rightarrow> (p, Panic)
      | Ok network \<Rightarrow>
          (case start_registered pf dw js bc config (nw_local_addrs network) (nw_socket_fds network) (en_register_fault env)
              (en_defer_fault env) p of
             (p', r) \<Rightarrow> (p', and_then r (\<lambda>sv. and_then (nw_socket_fds network) (\<lambda>fds.
               and_then (install_shutdown_handler (en_set_handler env)) (\<lambda>_. Ok (sv, fds)))))))"

text \<open>The same on a system without a port that reports readiness: the sockets are polled.\<close>

definition start_network_core_polling ::
  "platform \<Rightarrow> (bytes \<Rightarrow> input_witness option) \<Rightarrow> json_codec \<Rightarrow> bincode \<Rightarrow> core_env \<Rightarrow> core_config
     \<Rightarrow> proactor \<times> (string, service) res" where
  "start_network_core_polling pf dw js bc env config =
     (let p = proactor_new (en_now env) in
      case build_network_with_multicast (en_init env) (en_default_extra env) (cc_bind_addr config) (cc_peers config) (cc_multicast config) of
        Err e \<Rightarrow> (p, Err e)
      | Panic \<Rightarrow> (p, Panic)
      | Ok network \<Rightarrow>
          (case start_polling pf dw js bc config (nw_local_addrs network) (en_defer_fault env) p of
             (p', r) \<Rightarrow> (p', and_then r (\<lambda>sv. and_then (install_shutdown_handler (en_set_handler env)) (\<lambda>_. Ok sv)))))"

text \<open>
  \<open>Drop\<close> of the service. Each timer and each registration holds a callback with a reference to the inner
  service, beside the reference of the service itself.
\<close>

definition strong_count :: "proactor \<Rightarrow> nat" where
  "strong_count p = 1 + length (pr_timers p) + length (pr_readers p)"

fun cleanup :: "nat \<Rightarrow> nat list \<Rightarrow> proactor \<Rightarrow> proactor" where
  "cleanup index [] p = p"
| "cleanup index (fd # fds) p = cleanup (index + 1) fds (deregister_readable fd (READINESS_TOKEN_BASE + of_nat index) p)"

definition drop_service :: "nat list \<Rightarrow> proactor \<Rightarrow> proactor" where
  "drop_service cleanup_fds p = (if strong_count p \<noteq> 1 then p else cleanup 0 cleanup_fds p)"

section \<open>The running program\<close>

text \<open>
  The node, the proactor, whether the HTTP thread still serves, the shutdown flag, and what has been printed
  to the error stream. Two components only record: the start time of each callback that ran, and the jobs
  whose rescheduling failed.
\<close>

record core =
  co_node :: node_state
  co_proactor :: proactor
  co_serving :: bool
  co_shutdown_requested :: bool
  co_printed :: "string list"
  co_ran :: "(nat \<times> job) list"
  co_lost :: "job set"

text \<open>A timer that is due leaves the proactor and its callback runs: the job, which takes some time, then the
  rescheduling unless the proactor was stopped before or during the job. A failed rescheduling is ignored.\<close>

definition fire_timer ::
  "service \<Rightarrow> core_config \<Rightarrow> nat \<Rightarrow> job \<Rightarrow> call \<Rightarrow> received list \<Rightarrow> nat \<Rightarrow> bool \<Rightarrow> string option \<Rightarrow> core \<Rightarrow> core option" where
  "fire_timer sv config idle j cl inbox duration stopped fault c =
     (case run_job sv cl inbox j (co_node c) of
        None \<Rightarrow> None
      | Some (s, lines) \<Rightarrow>
          (let p = co_proactor c;
               p' = p\<lparr>pr_now := pr_now p + duration, pr_running := pr_running p \<and> \<not> stopped\<rparr>
           in Some (c\<lparr>co_node := s,
                co_proactor := if pr_running p' then fst (reschedule config idle fault j p') else p',
                co_shutdown_requested := co_shutdown_requested c \<or> stopped,
                co_printed := co_printed c @ lines,
                co_ran := co_ran c @ [(pr_now p, j)],
                co_lost := if pr_running p' \<and> fault \<noteq> None then insert j (co_lost c) else co_lost c\<rparr>)))"

text \<open>What the HTTP thread does in the middle of the next callback.\<close>

definition disturb :: "(node_runtime \<times> file_system \<Rightarrow> node_runtime \<times> file_system) list \<Rightarrow> core \<Rightarrow> core" where
  "disturb others c = c\<lparr>co_node := (co_node c)\<lparr>nd_others := others\<rparr>\<rparr>"

definition may_disturb :: "service \<Rightarrow> core \<Rightarrow> (node_runtime \<times> file_system \<Rightarrow> node_runtime \<times> file_system) list \<Rightarrow> bool" where
  "may_disturb sv c others \<longleftrightarrow> http_only sv others \<and> (co_serving c \<or> others = [])"

inductive core_step :: "service \<Rightarrow> core_config \<Rightarrow> nat \<Rightarrow> core \<Rightarrow> core \<Rightarrow> bool" for sv config idle where
  core_tick: "core_step sv config idle c (c\<lparr>co_proactor := (co_proactor c)\<lparr>pr_now := pr_now (co_proactor c) + d\<rparr>\<rparr>)"
| core_timer: "pr_running (co_proactor c) \<Longrightarrow> pr_timers (co_proactor c) = before @ (deadline, j) # later
    \<Longrightarrow> deadline \<le> pr_now (co_proactor c) \<Longrightarrow> may_disturb sv c others
    \<Longrightarrow> fire_timer sv config idle j cl inbox duration stopped fault
          (disturb others (c\<lparr>co_proactor := (co_proactor c)\<lparr>pr_timers := before @ later\<rparr>\<rparr>)) = Some c'
    \<Longrightarrow> core_step sv config idle c (disturb [] c')"
| core_readable: "pr_running (co_proactor c) \<Longrightarrow> (fd, token) \<in> set (pr_readers (co_proactor c)) \<Longrightarrow> may_disturb sv c others
    \<Longrightarrow> drain_and_report sv inbox (co_node (disturb others c)) = Some (s, lines)
    \<Longrightarrow> core_step sv config idle c (disturb [] (c\<lparr>co_node := s, co_printed := co_printed c @ lines\<rparr>))"
| core_http: "co_serving c
    \<Longrightarrow> handle_request (sv_platform sv) (sv_decode_witness sv) (sv_json sv) (sv_bincode sv) io1 io2 info req
          (nd_runtime (co_node c), nd_files (co_node c)) = ((rt, fs), Some resp)
    \<Longrightarrow> core_step sv config idle c (c\<lparr>co_node := (co_node c)\<lparr>nd_runtime := rt, nd_files := fs\<rparr>\<rparr>)"
| core_http_ends: "co_serving c
    \<Longrightarrow> lines = [] \<and> co_shutdown_requested c \<or> lines = [''HTTP server error: '' @ e] \<or>
          lines = [''Failed to lock runtime for request handling: '' @ e]
    \<Longrightarrow> core_step sv config idle c (c\<lparr>co_serving := False, co_printed := co_printed c @ lines\<rparr>)"
| core_signal: "core_step sv config idle c
    (c\<lparr>co_proactor := (co_proactor c)\<lparr>pr_running := False\<rparr>, co_shutdown_requested := True\<rparr>)"

lemma disturb_sel [simp]:
  "co_node (disturb others c) = (co_node c)\<lparr>nd_others := others\<rparr>" "co_proactor (disturb others c) = co_proactor c"
  "co_serving (disturb others c) = co_serving c" "co_shutdown_requested (disturb others c) = co_shutdown_requested c"
  "co_printed (disturb others c) = co_printed c" "co_ran (disturb others c) = co_ran c" "co_lost (disturb others c) = co_lost c"
  by (simp_all add: disturb_def)

lemma disturb_idle: "nd_others (co_node c) = [] \<Longrightarrow> disturb [] c = c"
  by (cases c; cases "co_node c") (simp add: disturb_def)

lemma disturb_proactor: "disturb others (c\<lparr>co_proactor := p\<rparr>) = (disturb others c)\<lparr>co_proactor := p\<rparr>"
  by (simp add: disturb_def)

definition core_new :: "node_state \<Rightarrow> proactor \<Rightarrow> core" where
  "core_new s p = \<lparr>co_node = s, co_proactor = p, co_serving = True, co_shutdown_requested = False, co_printed = [],
     co_ran = [], co_lost = {}\<rparr>"

text \<open>The program runs once its service has been started, on either kind of port.\<close>

inductive core_reachable ::
  "service \<Rightarrow> core_config \<Rightarrow> nat \<Rightarrow> bool \<Rightarrow> nat list \<Rightarrow> nat \<Rightarrow> node_state \<Rightarrow> core \<Rightarrow> bool"
  for sv config idle polled fds now s where
  core_registered: "\<not> polled
    \<Longrightarrow> start_registered pf dw js bc config local_addrs (Ok fds) register_fault defer_fault (proactor_new now) = (p, Ok sv)
    \<Longrightarrow> core_reachable sv config idle polled fds now s (core_new s p)"
| core_polled: "polled \<Longrightarrow> fds = []
    \<Longrightarrow> start_polling pf dw js bc config local_addrs defer_fault (proactor_new now) = (p, Ok sv)
    \<Longrightarrow> core_reachable sv config idle polled fds now s (core_new s p)"
| core_steps: "core_reachable sv config idle polled fds now s c \<Longrightarrow> core_step sv config idle c c'
    \<Longrightarrow> core_reachable sv config idle polled fds now s c'"

text \<open>\<open>run_network_core\<close> after the loop, with the result of \<open>run_until_stopped\<close>: the flag is set only after a
  result without an error; then the service is dropped. In both cases \<open>run_node\<close> sets the flag and waits for
  the HTTP thread.\<close>

definition end_network_core :: "nat list \<Rightarrow> (string, unit) res \<Rightarrow> core \<Rightarrow> core \<times> (string, unit) res" where
  "end_network_core fds stopped c =
     (let r = map_err (\<lambda>e. ''qcoin network core exited with error: '' @ e) stopped in
      (c\<lparr>co_shutdown_requested := co_shutdown_requested c \<or> is_Ok r, co_proactor := drop_service fds (co_proactor c)\<rparr>, r))"

definition end_run_node :: "core \<times> (string, unit) res \<Rightarrow> core option" where
  "end_run_node = (\<lambda>(c, r). case r of
     Panic \<Rightarrow> None
   | Ok u \<Rightarrow> Some (c\<lparr>co_shutdown_requested := True, co_serving := False\<rparr>)
   | Err e \<Rightarrow> Some (c\<lparr>co_printed := co_printed c @ [e], co_shutdown_requested := True, co_serving := False\<rparr>))"

section \<open>Starting\<close>

lemma pr_then_eq_Ok: "pr_then m k p = (p', Ok u) \<longleftrightarrow> (\<exists>q. m p = (q, Ok ()) \<and> k q = (p', Ok u))"
  by (auto simp: pr_then_def split: prod.splits res.splits)

lemma pr_err_eq_Ok: "pr_err label m p = (p', Ok u) \<longleftrightarrow> m p = (p', Ok u)"
  by (auto simp: pr_err_def map_err_eq_Ok split: prod.splits)

lemma defer_eq_Ok: "defer_for fault delay j p = (p', Ok u) \<longleftrightarrow>
    fault = None \<and> p' = p\<lparr>pr_timers := pr_timers p @ [(pr_now p + delay, j)]\<rparr>"
  by (cases fault) auto

lemma register_eq_Ok: "register_readable fault fd token p = (p', Ok u) \<longleftrightarrow>
    fault = None \<and> p' = p\<lparr>pr_readers := pr_readers p @ [(fd, token)]\<rparr>"
  by (cases fault) auto

lemmas schedule_defs = schedule_pump_def schedule_sync_def schedule_presence_announce_def schedule_produce_def

lemmas proactor_Ok = pr_then_eq_Ok pr_err_eq_Ok defer_eq_Ok register_eq_Ok

definition tokens :: "nat \<Rightarrow> nat list \<Rightarrow> (nat \<times> u64) list" where
  "tokens index fds = map (\<lambda>(i, fd). (fd, READINESS_TOKEN_BASE + of_nat i)) (enumerate index fds)"

lemma register_sockets_eq_Ok:
  "register_sockets fault index fds p = (p', Ok u) \<Longrightarrow> p' = p\<lparr>pr_readers := pr_readers p @ tokens index fds\<rparr>"
proof (induction fds arbitrary: index p)
  case (Cons fd fds)
  from Cons.prems Cons.IH show ?case by (fastforce simp: proactor_Ok tokens_def)
qed (simp add: tokens_def)

definition enabled_jobs :: "core_config \<Rightarrow> bool \<Rightarrow> job set" where
  "enabled_jobs config polled =
     {AnnouncePresence, RequestTips} \<union> (if cc_produce config then {ProduceBlock} else {}) \<union> (if polled then {PumpFrames} else {})"

definition started :: "core_config \<Rightarrow> bool \<Rightarrow> nat list \<Rightarrow> nat \<Rightarrow> proactor \<Rightarrow> bool" where
  "started config polled fds now p \<longleftrightarrow> pr_now p = now \<and> pr_running p \<and> pr_readers p = tokens 0 fds \<and>
     (\<exists>js. distinct js \<and> set js = enabled_jobs config polled \<and> pr_timers p = map (Pair now) js)"

lemma start_jobs_eq_Ok:
  "start_jobs config fault p = (p', Ok u) \<Longrightarrow>
    p' = p\<lparr>pr_timers := pr_timers p @ map (Pair (pr_now p)) ([AnnouncePresence, RequestTips] @ (if cc_produce config then [ProduceBlock] else []))\<rparr>"
  by (auto simp: start_jobs_def schedule_defs proactor_Ok split: if_splits)

lemma start_registered_started:
  assumes "start_registered pf dw js bc config local_addrs (Ok fds) register_fault defer_fault (proactor_new now) = (p, Ok sv)"
  shows "started config False fds now p \<and> start_service pf dw js bc config local_addrs = Ok sv"
proof -
  from assms obtain q u where q: "register_sockets register_fault 0 fds (proactor_new now) = (q, Ok ())"
    "start_jobs config defer_fault q = (p, Ok u)" and sv: "start_service pf dw js bc config local_addrs = Ok sv"
    by (auto simp: start_registered_def pr_then_eq_Ok res_simps split: prod.splits res.splits)
  from register_sockets_eq_Ok [OF q(1)] start_jobs_eq_Ok [OF q(2)]
  have p: "p = (proactor_new now)\<lparr>pr_readers := tokens 0 fds, pr_timers :=
      map (Pair now) ([AnnouncePresence, RequestTips] @ (if cc_produce config then [ProduceBlock] else []))\<rparr>"
    by (simp add: proactor_new_def)
  show ?thesis unfolding started_def p
    by (intro conjI exI [of _ "[AnnouncePresence, RequestTips] @ (if cc_produce config then [ProduceBlock] else [])"])
      (auto simp: proactor_new_def enabled_jobs_def sv)
qed

lemma start_polling_started:
  assumes "start_polling pf dw js bc config local_addrs defer_fault (proactor_new now) = (p, Ok sv)"
  shows "started config True [] now p \<and> start_service pf dw js bc config local_addrs = Ok sv"
proof -
  from assms obtain q u where q: "start_jobs config defer_fault (proactor_new now) = (q, Ok ())"
    "schedule_pump (defer_fault PumpFrames) 0 q = (p, Ok u)" and sv: "start_service pf dw js bc config local_addrs = Ok sv"
    by (auto simp: start_polling_def pr_then_eq_Ok res_simps split: prod.splits res.splits)
  from start_jobs_eq_Ok [OF q(1)] q(2)
  have p: "p = (proactor_new now)\<lparr>pr_timers :=
      map (Pair now) ([AnnouncePresence, RequestTips] @ (if cc_produce config then [ProduceBlock] else []) @ [PumpFrames])\<rparr>"
    by (auto simp: proactor_new_def schedule_defs proactor_Ok)
  show ?thesis unfolding started_def p
    by (intro conjI exI [of _ "[AnnouncePresence, RequestTips] @ (if cc_produce config then [ProduceBlock] else []) @ [PumpFrames]"])
      (auto simp: proactor_new_def enabled_jobs_def sv tokens_def)
qed

section \<open>Pace\<close>

fun job_interval :: "core_config \<Rightarrow> nat \<Rightarrow> job \<Rightarrow> nat" where
  "job_interval config idle PumpFrames = idle"
| "job_interval config idle RequestTips = unat (cc_sync_interval config) * second"
| "job_interval config idle AnnouncePresence = PRESENCE_ANNOUNCE_INTERVAL"
| "job_interval config idle ProduceBlock = unat (cc_produce_interval config) * second"

lemma reschedule_effect:
  "fst (reschedule config idle fault j p) = (case fault of
     None \<Rightarrow> p\<lparr>pr_timers := pr_timers p @ [(pr_now p + job_interval config idle j, j)]\<rparr> | Some e \<Rightarrow> p)"
  by (cases j; cases fault) (auto simp: schedule_defs pr_err_def)

definition times_of :: "job \<Rightarrow> (nat \<times> job) list \<Rightarrow> nat list" where
  "times_of j xs = map fst (List.filter (\<lambda>x. snd x = j) xs)"

lemma times_of_simps [simp]: "times_of j [] = []" "times_of j (xs @ ys) = times_of j xs @ times_of j ys"
  "times_of j (x # xs) = (if snd x = j then [fst x] else []) @ times_of j xs"
  by (simp_all add: times_of_def)

lemma times_of_distinct: "distinct js \<Longrightarrow> times_of j (map (Pair now) js) = (if j \<in> set js then [now] else [])"
  by (induction js) auto

definition paced :: "core_config \<Rightarrow> nat \<Rightarrow> nat \<Rightarrow> job set \<Rightarrow> core \<Rightarrow> bool" where
  "paced config idle now jobs c \<longleftrightarrow> now \<le> pr_now (co_proactor c) \<and>
     (\<forall>j. let I = job_interval config idle j; ran = times_of j (co_ran c); due = times_of j (pr_timers (co_proactor c))
        in length due \<le> 1 \<and> (j \<notin> jobs \<longrightarrow> due = [] \<and> ran = []) \<and>
           (\<forall>t \<in> set ran. now \<le> t \<and> t \<le> pr_now (co_proactor c) \<and> (\<forall>d \<in> set due. t + I \<le> d)) \<and>
           (\<forall>d \<in> set due. now \<le> d \<and> d \<le> pr_now (co_proactor c) + I) \<and>
           sorted_wrt (\<lambda>t u. t + I \<le> u) ran \<and>
           (pr_running (co_proactor c) \<and> j \<in> jobs \<and> j \<notin> co_lost c \<longrightarrow> due \<noteq> []))"

lemma paced_start:
  "started config polled fds now p \<Longrightarrow> paced config idle now (enabled_jobs config polled) (core_new s p)"
  by (auto simp: started_def paced_def core_new_def times_of_distinct)

lemma fire_timer_effect:
  assumes "fire_timer sv config idle j cl inbox duration stopped fault (c\<lparr>co_proactor := p\<rparr>) = Some c'"
  shows "\<exists>lines. run_job sv cl inbox j (co_node c) = Some (co_node c', lines)"
    and "pr_now (co_proactor c') = pr_now p + duration"
    and "pr_running (co_proactor c') = (pr_running p \<and> \<not> stopped)"
    and "pr_timers (co_proactor c') = pr_timers p @ (if pr_running p \<and> \<not> stopped \<and> fault = None
      then [(pr_now p + duration + job_interval config idle j, j)] else [])"
    and "co_ran c' = co_ran c @ [(pr_now p, j)]"
    and "co_lost c' = (if pr_running p \<and> \<not> stopped \<and> fault \<noteq> None then insert j (co_lost c) else co_lost c)"
    and "pr_readers (co_proactor c') = pr_readers p"
  using assms
  by (cases "pr_running p \<and> \<not> stopped"; cases fault;
      auto simp: fire_timer_def Let_def reschedule_effect split: option.splits)+

lemma paced_disturb [simp]: "paced config idle now jobs (disturb others c) \<longleftrightarrow> paced config idle now jobs c"
  by (simp add: paced_def)

lemma paced_timer:
  assumes "paced config idle now jobs c" and "pr_timers (co_proactor c) = before @ (deadline, j) # later"
    and "deadline \<le> pr_now (co_proactor c)"
    and "fire_timer sv config idle j cl inbox duration stopped fault
          (c\<lparr>co_proactor := (co_proactor c)\<lparr>pr_timers := before @ later\<rparr>\<rparr>) = Some c'"
  shows "paced config idle now jobs c'"
proof -
  note old = assms(1) [unfolded paced_def Let_def]
  note c' = fire_timer_effect(2-6) [OF assms(4), unfolded proactor.simps]
  have own: "times_of j before = []" "times_of j later = []"
    using spec [OF conjunct2 [OF old], of j] by (auto simp: assms(2))
  have due: "times_of k (pr_timers (co_proactor c)) = times_of k (before @ later)" if "k \<noteq> j" for k
    using that by (simp add: assms(2))
  have now: "now \<le> pr_now (co_proactor c')" using old c'(1) by simp
  show ?thesis
    unfolding paced_def Let_def
  proof (intro conjI [OF now] allI)
    fix k
    have k: "k = j \<or> k \<noteq> j \<and> times_of k (pr_timers (co_proactor c')) = times_of k (pr_timers (co_proactor c)) \<and>
        times_of k (co_ran c') = times_of k (co_ran c) \<and> (k \<in> co_lost c' \<longleftrightarrow> k \<in> co_lost c)"
      by (auto simp: c' due)
    show "length (times_of k (pr_timers (co_proactor c'))) \<le> 1 \<and>
         (k \<notin> jobs \<longrightarrow> times_of k (pr_timers (co_proactor c')) = [] \<and> times_of k (co_ran c') = []) \<and>
         (\<forall>t\<in>set (times_of k (co_ran c')). now \<le> t \<and> t \<le> pr_now (co_proactor c') \<and>
            (\<forall>d\<in>set (times_of k (pr_timers (co_proactor c'))). t + job_interval config idle k \<le> d)) \<and>
         (\<forall>d\<in>set (times_of k (pr_timers (co_proactor c'))). now \<le> d \<and> d \<le> pr_now (co_proactor c') + job_interval config idle k) \<and>
         sorted_wrt (\<lambda>t u. t + job_interval config idle k \<le> u) (times_of k (co_ran c')) \<and>
         (pr_running (co_proactor c') \<and> k \<in> jobs \<and> k \<notin> co_lost c' \<longrightarrow> times_of k (pr_timers (co_proactor c')) \<noteq> [])"
    proof (cases "k = j")
      case True
      have in_jobs: "j \<in> jobs" using spec [OF conjunct2 [OF old], of j] by (auto simp: assms(2))
      have ran: "\<forall>t\<in>set (times_of j (co_ran c)). now \<le> t \<and> t \<le> pr_now (co_proactor c) \<and> t + job_interval config idle j \<le> deadline"
        using spec [OF conjunct2 [OF old], of j] by (simp add: assms(2))
      moreover have "sorted_wrt (\<lambda>t u. t + job_interval config idle j \<le> u) (times_of j (co_ran c))"
        using spec [OF conjunct2 [OF old], of j] by blast
      moreover have "times_of j (co_ran c') = times_of j (co_ran c) @ [pr_now (co_proactor c)]" by (simp add: c'(4))
      moreover have "times_of j (pr_timers (co_proactor c')) = (if pr_running (co_proactor c) \<and> \<not> stopped \<and> fault = None
          then [pr_now (co_proactor c') + job_interval config idle j] else [])"
        by (simp add: c'(1,3) own)
      moreover have "j \<in> co_lost c' \<or> \<not> pr_running (co_proactor c') \<or> pr_running (co_proactor c) \<and> \<not> stopped \<and> fault = None"
        by (simp add: c'(2,5))
      moreover have "now \<le> pr_now (co_proactor c)" "pr_now (co_proactor c) \<le> pr_now (co_proactor c')"
        using old c'(1) by simp_all
      ultimately show ?thesis
        unfolding True using assms(3) in_jobs by (auto simp: sorted_wrt_append)
    next
      case False
      with k have same: "times_of k (pr_timers (co_proactor c')) = times_of k (pr_timers (co_proactor c))"
        "times_of k (co_ran c') = times_of k (co_ran c)" "k \<in> co_lost c' \<longleftrightarrow> k \<in> co_lost c" by simp_all
      show ?thesis unfolding same using spec [OF conjunct2 [OF old], of k] by (auto simp: c'(1,2) intro: order_trans add_le_mono)
    qed
  qed
qed

lemma paced_step:
  assumes "core_step sv config idle c c'" and "paced config idle now jobs c"
  shows "paced config idle now jobs c'"
  using assms(1)
proof (cases rule: core_step.cases)
  case (core_tick d)
  with assms(2) show ?thesis by (fastforce simp: paced_def Let_def)
next
  case (core_timer before deadline j later others cl inbox duration stopped fault c')
  from paced_timer [of config idle now jobs "disturb others c"] assms(2) core_timer(3,4) core_timer(6) [unfolded disturb_proactor]
  show ?thesis by (simp add: core_timer(1))
qed (use assms(2) in \<open>simp_all add: paced_def Let_def\<close>)

lemma core_reachable_started:
  assumes "core_reachable sv config idle polled fds now s c"
  shows "\<exists>p. started config polled fds now p \<and> (core_step sv config idle)\<^sup>*\<^sup>* (core_new s p) c"
  using assms
proof induction
  case (core_registered pf dw js bc local_addrs register_fault defer_fault p)
  then show ?case using start_registered_started by (metis (full_types) rtranclp.rtrancl_refl)
next
  case (core_polled pf dw js bc local_addrs defer_fault p)
  then show ?case using start_polling_started by (metis (full_types) rtranclp.rtrancl_refl)
next
  case (core_steps c c')
  then show ?case by (meson rtranclp.rtrancl_into_rtrancl)
qed

lemma core_reachable_paced:
  assumes "core_reachable sv config idle polled fds now s c"
  shows "paced config idle now (enabled_jobs config polled) c"
proof -
  from core_reachable_started [OF assms] obtain p where p: "started config polled fds now p"
    "(core_step sv config idle)\<^sup>*\<^sup>* (core_new s p) c" by blast
  from p(2) show ?thesis by (induction rule: rtranclp_induct) (auto intro: paced_start [OF p(1)] paced_step)
qed

lemma spaced_count:
  fixes I :: nat
  assumes "sorted_wrt (\<lambda>t u. t + I \<le> u) ts" and "\<forall>t \<in> set ts. a \<le> t \<and> t \<le> b" and "0 < I"
  shows "length ts \<le> (b - a) div I + 1"
proof (cases ts rule: rev_cases)
  case (snoc us u)
  have "a + length us * I \<le> u" if "sorted_wrt (\<lambda>t u. t + I \<le> u) (us @ [u])" "\<forall>t \<in> set (us @ [u]). a \<le> t" for us u
    using that
  proof (induction us arbitrary: u rule: rev_induct)
    case (snoc v us)
    then have "a + length us * I \<le> v" by (simp add: sorted_wrt_append)
    moreover have "v + I \<le> u" using snoc.prems(1) by (simp add: sorted_wrt_append)
    ultimately show ?case by simp
  qed simp
  with assms snoc have "length us * I \<le> b - a" by fastforce
  then have "length us \<le> (b - a) div I" using assms(3) by (simp add: less_eq_div_iff_mult_less_eq)
  with snoc show ?thesis by simp
qed simp

section \<open>Refinement of the node machine\<close>

text \<open>Reading the socket until it is empty is one step of the node for each frame. The node between two steps
  does not hold what the HTTP thread will do in a callback.\<close>

definition quiet :: "node_state \<Rightarrow> node_state" where
  "quiet s = s\<lparr>nd_others := []\<rparr>"

lemma quiet_idle: "nd_others s = [] \<Longrightarrow> quiet s = s"
  by (simp add: quiet_def)

definition node_run :: "service \<Rightarrow> node_state \<Rightarrow> node_state \<Rightarrow> bool" where
  "node_run sv s t \<longleftrightarrow> (node_step sv)\<^sup>*\<^sup>* (quiet s) (quiet t)"

interpretation node_run: http_preorder "node_run sv" sv for sv
proof
  fix s t u :: node_state and rt fs others
  show "node_run sv s s" "node_run sv s (s\<lparr>nd_others := others\<rparr>)" by (simp_all add: node_run_def quiet_def)
  show "node_run sv s t \<Longrightarrow> node_run sv t u \<Longrightarrow> node_run sv s u" by (simp add: node_run_def)
  assume "http_step sv (nd_runtime s, nd_files s) (rt, fs)"
  then have "node_step sv (quiet s) ((quiet s)\<lparr>nd_runtime := rt, nd_files := fs\<rparr>)" by (intro node_http) (simp add: quiet_def)
  moreover have "(quiet s)\<lparr>nd_runtime := rt, nd_files := fs\<rparr> = quiet (s\<lparr>nd_runtime := rt, nd_files := fs\<rparr>)"
    by (cases s) (simp add: quiet_def)
  ultimately show "node_run sv s (s\<lparr>nd_runtime := rt, nd_files := fs\<rparr>)" by (simp add: node_run_def r_into_rtranclp)
qed

lemma step_moves:
  assumes "op_moves (running sv) m"
    and "\<And>others s s' r. http_only sv others \<Longrightarrow> m (s\<lparr>nd_others := others\<rparr>) = (s', r) \<Longrightarrow> r \<noteq> Panic \<Longrightarrow> node_step sv s (s'\<lparr>nd_others := []\<rparr>)"
  shows "op_moves (beside_http sv (node_run sv)) m"
proof (rule op_movesI)
  fix s s' r assume m: "m s = (s', r)" "r \<noteq> Panic"
  have "node_step sv (quiet s) (quiet s')" if "http_only sv (nd_others s)"
    using assms(2) [OF that, of "quiet s" s' r] m by (simp add: quiet_def)
  with op_movesD [OF assms(1) m] show "beside_http sv (node_run sv) s s'"
    by (auto simp: beside_http_def node_run_def)
qed

lemma drain_runs: "op_moves (beside_http sv (node_run sv)) (drain_frames sv inbox handled)"
proof (induction inbox arbitrary: handled)
  case (Cons x inbox)
  show ?case
  proof (cases x)
    case (ReceivedFrame cl source frame)
    have "op_moves (beside_http sv (node_run sv)) (handle_frame sv cl source frame)"
      by (rule step_moves [OF running_net.frame]) (rule node_frame)
    with Cons ReceivedFrame show ?thesis by (auto intro!: node_run.beside.bind)
  qed (simp add: node_run.beside.pure)
qed (simp add: node_run.beside.return)

lemma report_moves: "op_moves R m \<Longrightarrow> report label m s = Some (s', lines) \<Longrightarrow> R s s'"
  by (auto simp: report_def dest: op_movesD split: prod.splits res.splits)

lemma job_runs:
  assumes "run_job sv cl inbox j s = Some (s', lines)"
  shows "beside_http sv (node_run sv) s s'"
proof (cases j)
  case AnnouncePresence
  from report_moves [OF step_moves [OF running_net.jobs(1) node_presence]] assms AnnouncePresence show ?thesis by simp
next
  case RequestTips
  from report_moves [OF step_moves [OF running_net.jobs(2) node_tips]] assms RequestTips show ?thesis by simp
next
  case ProduceBlock
  from report_moves [OF step_moves [OF running_net.jobs(3) node_produce]] assms ProduceBlock show ?thesis by simp
qed (use assms in \<open>auto simp: drain_and_report_def intro: report_moves drain_runs\<close>)

lemma core_step_runs:
  assumes "core_step sv config idle c c'" and "nd_others (co_node c) = []"
  shows "(node_step sv)\<^sup>*\<^sup>* (co_node c) (co_node c') \<and> nd_others (co_node c') = []"
proof -
  have idle: "(co_node c)\<lparr>nd_others := []\<rparr> = co_node c" using quiet_idle [OF assms(2)] by (simp add: quiet_def)
  show ?thesis
    using assms(1)
  proof (cases rule: core_step.cases)
    case (core_timer before deadline j later others cl inbox duration stopped fault c'')
    from fire_timer_effect(1) [OF core_timer(6) [unfolded disturb_proactor]] obtain lines
      where "run_job sv cl inbox j (co_node (disturb others c)) = Some (co_node c'', lines)" by auto
    from job_runs [OF this] core_timer(5) have "node_run sv ((co_node c)\<lparr>nd_others := others\<rparr>) (co_node c'')"
      by (simp add: may_disturb_def beside_http_def)
    then show ?thesis by (simp add: core_timer(1) node_run_def quiet_def idle)
  next
    case (core_readable fd token others inbox s lines)
    from report_moves [OF drain_runs core_readable(5) [unfolded drain_and_report_def]] core_readable(4)
    have "node_run sv ((co_node c)\<lparr>nd_others := others\<rparr>) s" by (simp add: may_disturb_def beside_http_def)
    then show ?thesis by (simp add: core_readable(1) node_run_def quiet_def idle)
  next
    case (core_http io1 io2 info req rt fs resp)
    from node_http [OF http_serves [OF core_http(3)]] show ?thesis by (simp add: core_http(1) assms(2) r_into_rtranclp)
  qed (simp_all add: assms(2))
qed

lemma core_steps_run:
  assumes "(core_step sv config idle)\<^sup>*\<^sup>* c c'" and "nd_others (co_node c) = []"
  shows "(node_step sv)\<^sup>*\<^sup>* (co_node c) (co_node c') \<and> nd_others (co_node c') = []"
  using assms(1)
proof (induction rule: rtranclp_induct)
  case (step y z)
  with core_step_runs [OF step(2)] show ?case by (meson rtranclp_trans)
qed (simp add: assms(2))

lemma node_run_reachable:
  "(node_step sv)\<^sup>*\<^sup>* s t \<Longrightarrow> node_reachable sv chain_id vs s \<Longrightarrow> node_reachable sv chain_id vs t"
  by (induction rule: rtranclp_induct) (auto intro: node_steps)

section \<open>Lost jobs, stopped proactors, registrations\<close>

definition lost_idle :: "core \<Rightarrow> bool" where
  "lost_idle c \<longleftrightarrow> (\<forall>j \<in> co_lost c. times_of j (pr_timers (co_proactor c)) = [])"

lemma lost_step:
  assumes "core_step sv config idle c c'" and "paced config idle now jobs c" and "lost_idle c"
  shows "lost_idle c' \<and> co_lost c \<subseteq> co_lost c' \<and> (\<forall>j \<in> co_lost c. times_of j (co_ran c') = times_of j (co_ran c))"
  using assms(1)
proof (cases rule: core_step.cases)
  case (core_timer before deadline j later others cl inbox duration stopped fault c'')
  have "length (times_of j (pr_timers (co_proactor c))) \<le> 1" using assms(2) unfolding paced_def Let_def by blast
  then have own: "times_of j before = []" "times_of j later = []" by (simp_all add: core_timer(3))
  have j: "j \<notin> co_lost c"
  proof
    assume "j \<in> co_lost c"
    with assms(3) have "times_of j (pr_timers (co_proactor c)) = []" by (simp add: lost_idle_def)
    then show False by (simp add: core_timer(3))
  qed
  have others: "times_of k (before @ later) = []" if "k \<in> co_lost c" for k
    using bspec [OF assms(3) [unfolded lost_idle_def] that] by (simp add: core_timer(3))
  define again where "again \<longleftrightarrow> pr_running (co_proactor c) \<and> \<not> stopped"
  have timers: "pr_timers (co_proactor c') = (before @ later) @ (if again \<and> fault = None
      then [(pr_now (co_proactor c) + duration + job_interval config idle j, j)] else [])"
    and ran: "co_ran c' = co_ran c @ [(pr_now (co_proactor c), j)]"
    and lost: "co_lost c' = (if again \<and> fault \<noteq> None then insert j (co_lost c) else co_lost c)"
    using fire_timer_effect(4-6) [OF core_timer(6) [unfolded disturb_proactor], unfolded proactor.simps]
    by (auto simp: again_def core_timer(1))
  have "times_of k (pr_timers (co_proactor c')) = []" if k: "k \<in> co_lost c'" for k
  proof (cases "k = j")
    case True
    with k j lost have "again \<and> fault \<noteq> None" by (simp split: if_splits)
    then show ?thesis by (simp add: True timers own)
  next
    case False
    with k lost have "k \<in> co_lost c" by (simp split: if_splits)
    from others [OF this] False show ?thesis by (simp add: timers)
  qed
  moreover have "times_of k (co_ran c') = times_of k (co_ran c)" if "k \<in> co_lost c" for k
    using that j by (auto simp: ran)
  ultimately show ?thesis by (simp add: lost_idle_def lost subset_insertI)
qed (use assms(3) in \<open>simp_all add: lost_idle_def\<close>)

lemma lost_steps:
  assumes "core_reachable sv config idle polled fds now s c" and "(core_step sv config idle)\<^sup>*\<^sup>* c c'"
  shows "core_reachable sv config idle polled fds now s c' \<and> lost_idle c' \<and> co_lost c \<subseteq> co_lost c' \<and>
    (\<forall>j \<in> co_lost c. times_of j (co_ran c') = times_of j (co_ran c))"
proof -
  have idle: "lost_idle c"
    using assms(1)
  proof induction
    case (core_steps c c')
    with lost_step core_reachable_paced [OF core_steps(1)] show ?case by blast
  qed (simp_all add: core_new_def lost_idle_def)
  from assms(2) show ?thesis
  proof (induction rule: rtranclp_induct)
    case (step y z)
    have y: "core_reachable sv config idle polled fds now s y" "lost_idle y" "co_lost c \<subseteq> co_lost y"
      "\<forall>j \<in> co_lost c. times_of j (co_ran y) = times_of j (co_ran c)" using step(3) by simp_all
    have z: "lost_idle z" "co_lost y \<subseteq> co_lost z" "\<forall>j \<in> co_lost y. times_of j (co_ran z) = times_of j (co_ran y)"
      using lost_step [OF step(2) core_reachable_paced [OF y(1)] y(2)] by simp_all
    have "times_of j (co_ran z) = times_of j (co_ran c)" if "j \<in> co_lost c" for j
      using z(3) y(3,4) that by (metis subsetD)
    with z(1,2) y(3) core_steps [OF y(1) step(2)] show ?case by simp
  qed (simp add: assms(1) idle)
qed

lemma stopped_step:
  "core_step sv config idle c c' \<Longrightarrow> \<not> pr_running (co_proactor c) \<Longrightarrow>
    \<not> pr_running (co_proactor c') \<and> co_ran c' = co_ran c \<and> nd_sent (co_node c') = nd_sent (co_node c) \<and>
    nd_sync (co_node c') = nd_sync (co_node c)"
  by (erule core_step.cases) auto

lemma stopped_steps:
  assumes "(core_step sv config idle)\<^sup>*\<^sup>* c c'" and "\<not> pr_running (co_proactor c)"
  shows "\<not> pr_running (co_proactor c') \<and> co_ran c' = co_ran c \<and> nd_sent (co_node c') = nd_sent (co_node c) \<and>
    nd_sync (co_node c') = nd_sync (co_node c)"
  using assms(1)
proof (induction rule: rtranclp_induct)
  case (step y z)
  with stopped_step [OF step(2)] show ?case by simp
qed (simp add: assms(2))

lemma readers_step:
  "core_step sv config idle c c' \<Longrightarrow> pr_readers (co_proactor c') = pr_readers (co_proactor c)"
  by (erule core_step.cases) (auto simp: disturb_proactor dest: fire_timer_effect(7))

lemma core_reachable_readers:
  assumes "core_reachable sv config idle polled fds now s c"
  shows "pr_readers (co_proactor c) = tokens 0 fds"
proof -
  from core_reachable_started [OF assms] obtain p where p: "started config polled fds now p"
    "(core_step sv config idle)\<^sup>*\<^sup>* (core_new s p) c" by blast
  from p(2) show ?thesis
    by (induction rule: rtranclp_induct) (use p(1) in \<open>auto simp: core_new_def started_def dest: readers_step\<close>)
qed

section \<open>Production from the timer\<close>

lemma sends_only:
  assumes "op_for (send_block sv cl b e) ts s = (s', r)"
  shows "r \<noteq> Panic \<and> nd_runtime s' = nd_runtime s"
  using assms
  by (induction ts arbitrary: s) (auto simp: op_return_def op_then_def send_block_def split: option.splits prod.splits res.splits)

lemma broadcast_only:
  assumes "broadcast_block sv cl b s = (s', r)" and "bincode_ok (sv_bincode sv)"
  shows "r \<noteq> Panic \<and> nd_runtime s' = nd_runtime s"
proof -
  have "encode_wire (sv_bincode sv) msg \<noteq> Panic" for msg
    using assms(2) by (auto simp: encode_wire_def bincode_ok_def and_then_eq_Panic)
  with assms(1) show ?thesis
    by (auto simp: broadcast_block_def op_then_def get_sync_def op_return_def dest: sends_only split: if_splits res.splits)
qed

lemma start_network_core_reachable:
  assumes "start_network_core pf dw js bc env config = (p, Ok (sv, fds))"
  shows "core_reachable sv config idle False fds (en_now env) s (core_new s p) \<and>
    (\<exists>addrs. start_service pf dw js bc config addrs = Ok sv)"
proof -
  from assms obtain network :: network where
    "start_registered pf dw js bc config (nw_local_addrs network) (Ok fds) (en_register_fault env)
      (en_defer_fault env) (proactor_new (en_now env)) = (p, Ok sv)"
    by (auto simp: start_network_core_def Let_def res_simps split: res.splits prod.splits)
  with start_registered_started show ?thesis by (metis core_registered)
qed

lemma start_network_core_polling_reachable:
  assumes "start_network_core_polling pf dw js bc env config = (p, Ok sv)"
  shows "core_reachable sv config NETWORK_POLL_INTERVAL True [] (en_now env) s (core_new s p)"
proof -
  from assms obtain network :: network where
    "start_polling pf dw js bc config (nw_local_addrs network) (en_defer_fault env) (proactor_new (en_now env)) = (p, Ok sv)"
    by (auto simp: start_network_core_polling_def Let_def res_simps split: res.splits prod.splits)
  then show ?thesis by (intro core_polled) simp_all
qed

lemma core_start_timers:
  assumes "start_network_core pf dw js bc env config = (p, Ok (sv, fds))"
  shows "started config False fds (en_now env) p"
proof -
  from assms obtain network :: network where
    "start_registered pf dw js bc config (nw_local_addrs network) (Ok fds) (en_register_fault env)
      (en_defer_fault env) (proactor_new (en_now env)) = (p, Ok sv)"
    by (auto simp: start_network_core_def Let_def res_simps split: res.splits prod.splits)
  with start_registered_started show ?thesis by blast
qed

section \<open>A sample program\<close>

definition sample_core_config :: core_config where
  "sample_core_config = \<lparr>cc_bind_addr = SocketV4 4 4, cc_peers = [SocketV4 9 1, SocketV4 8 1], cc_multicast = [],
     cc_sync_interval = 3, cc_produce_interval = 5, cc_produce = True, cc_reliable_node_public_key_hex = []\<rparr>"

definition sample_timed_service :: service where
  "sample_timed_service = sample_service\<lparr>sv_bincode := sample_bincode\<rparr>"

definition sample_proactor :: "(nat \<times> job) list \<Rightarrow> proactor" where
  "sample_proactor timers = \<lparr>pr_now = 0, pr_running = True, pr_timers = timers, pr_readers = [(3, READINESS_TOKEN_BASE)]\<rparr>"

definition sample_core :: core where
  "sample_core = core_new sample_node (sample_proactor [(0, AnnouncePresence), (0, RequestTips), (0, ProduceBlock)])"

lemma sample_core_reachable:
  "core_reachable sample_timed_service sample_core_config NETWORK_POLL_INTERVAL False [3] 0 sample_node sample_core"
proof -
  have "start_registered (sample_platform True) sample_dw sample_write_js sample_bincode sample_core_config (Ok []) (Ok [3])
      (\<lambda>i. None) (\<lambda>j. None) (proactor_new 0)
    = (sample_proactor [(0, AnnouncePresence), (0, RequestTips), (0, ProduceBlock)], Ok sample_timed_service)"
    by (simp add: start_registered_def start_service_def sample_core_config_def proactor_new_def start_jobs_def schedule_defs
        pr_then_def pr_err_def sample_proactor_def sample_timed_service_def sample_service_def discovery_targets_for_def
        multicast_targets_def push_target_def)
  then show ?thesis unfolding sample_core_def by (rule core_registered [rotated]) simp
qed

lemma sample_timed_node: "node_reachable sample_timed_service 0 [] sample_node"
  unfolding sample_node_def by (rule node_starts) (simp add: sample_timed_service_def sample_service_def sample_write_start)

text \<open>The first request for tips, after which the proactor is full.\<close>

definition sample_lost_core :: core where
  "sample_lost_core = sample_core\<lparr>co_proactor := sample_proactor [(0, AnnouncePresence), (0, ProduceBlock)],
     co_ran := [(0, RequestTips)], co_lost := {RequestTips}\<rparr>"

lemma sample_lost_reachable:
  "core_reachable sample_timed_service sample_core_config NETWORK_POLL_INTERVAL False [3] 0 sample_node sample_lost_core"
proof (rule core_steps [OF sample_core_reachable])
  have t: "broadcast_tip_requests sample_timed_service sample_call sample_node = (sample_node, Ok ())"
    by (simp add: broadcast_tip_requests_def broadcast_best_effort_def op_then_def get_sync_def known_peers_def sample_node_def
        sync_state_new_def sample_call_def op_return_def)
  then have "fire_timer sample_timed_service sample_core_config NETWORK_POLL_INTERVAL RequestTips sample_call [] 0 False (Some ''full'')
      (sample_core\<lparr>co_proactor := (co_proactor sample_core)\<lparr>pr_timers := [(0, AnnouncePresence)] @ [(0, ProduceBlock)]\<rparr>\<rparr>)
      = Some sample_lost_core"
    by (simp add: fire_timer_def sample_core_def core_new_def report_def Let_def sample_proactor_def schedule_sync_def pr_err_def
        sample_lost_core_def)
  then have f: "fire_timer sample_timed_service sample_core_config NETWORK_POLL_INTERVAL RequestTips sample_call [] 0 False (Some ''full'')
      (disturb [] (sample_core\<lparr>co_proactor := (co_proactor sample_core)\<lparr>pr_timers := [(0, AnnouncePresence)] @ [(0, ProduceBlock)]\<rparr>\<rparr>))
      = Some sample_lost_core"
    by (subst disturb_idle) (simp_all add: sample_core_def core_new_def)
  have "core_step sample_timed_service sample_core_config NETWORK_POLL_INTERVAL sample_core (disturb [] sample_lost_core)"
    by (rule core_timer [OF _ _ _ _ f]) (simp_all add: sample_core_def core_new_def sample_proactor_def may_disturb_def)
  moreover have "disturb [] sample_lost_core = sample_lost_core"
    by (rule disturb_idle) (simp add: sample_lost_core_def sample_core_def core_new_def)
  ultimately show "core_step sample_timed_service sample_core_config NETWORK_POLL_INTERVAL sample_core sample_lost_core" by simp
qed

section \<open>Properties\<close>

text \<open>C16. Every job keeps its pace. While the program runs, a job has never two timers, two runs of it start at
  least its interval apart, however long jobs take and however late the proactor is, so it has run at most
  once per interval; a job that is not enabled never runs; and each enabled job whose rescheduling never
  failed has a timer, due at most one interval from now. The intervals are 42 seconds for announcements, the
  configured seconds for tip requests and production.\<close>

theorem jobs_keep_pace:
  assumes "core_reachable sv config idle polled fds now s c"
  shows "let interval = job_interval config idle j; ran = times_of j (co_ran c); due = times_of j (pr_timers (co_proactor c))
    in length due \<le> 1 \<and> sorted_wrt (\<lambda>t u. t + interval \<le> u) ran \<and>
      (0 < interval \<longrightarrow> length ran \<le> (pr_now (co_proactor c) - now) div interval + 1) \<and>
      (j \<notin> enabled_jobs config polled \<longrightarrow> ran = [] \<and> due = []) \<and>
      (pr_running (co_proactor c) \<and> j \<in> enabled_jobs config polled \<and> j \<notin> co_lost c \<longrightarrow>
         (\<exists>d. due = [d] \<and> d \<le> pr_now (co_proactor c) + interval))"
proof -
  let ?ran = "times_of j (co_ran c)" and ?due = "times_of j (pr_timers (co_proactor c))" and ?I = "job_interval config idle j"
  from core_reachable_paced [OF assms] have p: "length ?due \<le> 1" "sorted_wrt (\<lambda>t u. t + ?I \<le> u) ?ran"
    "\<forall>t \<in> set ?ran. now \<le> t \<and> t \<le> pr_now (co_proactor c)" "j \<notin> enabled_jobs config polled \<longrightarrow> ?ran = [] \<and> ?due = []"
    "\<forall>d \<in> set ?due. d \<le> pr_now (co_proactor c) + ?I"
    "pr_running (co_proactor c) \<and> j \<in> enabled_jobs config polled \<and> j \<notin> co_lost c \<longrightarrow> ?due \<noteq> []"
    unfolding paced_def Let_def by blast+
  have "\<exists>d. ?due = [d] \<and> d \<le> pr_now (co_proactor c) + ?I" if "?due \<noteq> []"
    using that p(1,5) by (cases ?due) auto
  with p spaced_count [OF p(2,3)] show ?thesis by (simp add: Let_def)
qed

theorem jobs_keep_pace_witness:
  "length (times_of RequestTips (co_ran sample_lost_core)) = 1 \<and>
   (\<exists>d \<le> 42 * second. times_of AnnouncePresence (pr_timers (co_proactor sample_lost_core)) = [d]) \<and>
   times_of PumpFrames (co_ran sample_lost_core) = []"
  using jobs_keep_pace [OF sample_lost_reachable, of AnnouncePresence]
  by (auto simp: sample_lost_core_def sample_core_def core_new_def sample_proactor_def enabled_jobs_def PRESENCE_ANNOUNCE_INTERVAL_def)

text \<open>C18. A rescheduling that fails ends the job for good: the callbacks drop the error of \<open>defer_for\<close>, nothing
  else schedules the job, and so it never runs again, although the program goes on running and does not
  print anything about it.\<close>

theorem lost_deferral_ends_job:
  assumes "core_reachable sv config idle polled fds now s c" and "j \<in> co_lost c" and "(core_step sv config idle)\<^sup>*\<^sup>* c c'"
  shows "times_of j (co_ran c') = times_of j (co_ran c) \<and> times_of j (pr_timers (co_proactor c')) = []"
proof -
  from lost_steps [OF assms(1,3)] assms(2) have "lost_idle c'" "j \<in> co_lost c'" "times_of j (co_ran c') = times_of j (co_ran c)"
    by blast+
  then show ?thesis by (simp add: lost_idle_def)
qed

theorem lost_deferral_ends_job_witness:
  "pr_running (co_proactor sample_lost_core) \<and> co_printed sample_lost_core = [] \<and>
   times_of RequestTips (pr_timers (co_proactor
     (sample_lost_core\<lparr>co_proactor := (co_proactor sample_lost_core)\<lparr>pr_now := pr_now (co_proactor sample_lost_core) + 99 * second\<rparr>\<rparr>))) = []"
proof -
  have "RequestTips \<in> co_lost sample_lost_core" by (simp add: sample_lost_core_def)
  from lost_deferral_ends_job [OF sample_lost_reachable this r_into_rtranclp [where r = "core_step _ _ _", OF core_tick [where d = "99 * second"]]]
  show ?thesis by (simp add: sample_lost_core_def sample_core_def core_new_def sample_proactor_def)
qed

text \<open>The running program refines the node machine: with all its timers, sockets, the HTTP thread and the
  signal handler, it only ever moves the node by steps of that machine. After a shutdown, at any moment, no
  callback runs and nothing is sent any more; only HTTP requests are still served until the thread ends.\<close>

theorem program_refines_node:
  assumes "core_reachable sv config idle polled fds now s c" and "node_reachable sv chain_id vs s"
    and "(core_step sv config idle)\<^sup>*\<^sup>* c c'"
  shows "node_reachable sv chain_id vs (co_node c) \<and> (node_step sv)\<^sup>*\<^sup>* (co_node c) (co_node c') \<and>
    (\<not> pr_running (co_proactor c) \<longrightarrow> \<not> pr_running (co_proactor c') \<and> co_ran c' = co_ran c \<and>
       nd_sent (co_node c') = nd_sent (co_node c) \<and> nd_sync (co_node c') = nd_sync (co_node c))"
proof -
  from core_reachable_started [OF assms(1)] obtain p where "(core_step sv config idle)\<^sup>*\<^sup>* (core_new s p) c" by blast
  from core_steps_run [OF this] node_reachable_quiet [OF assms(2)]
  have c: "(node_step sv)\<^sup>*\<^sup>* s (co_node c)" "nd_others (co_node c) = []" by (simp_all add: core_new_def)
  from node_run_reachable [OF c(1) assms(2)] core_steps_run [OF assms(3) c(2)] stopped_steps [OF assms(3)] show ?thesis by blast
qed

theorem program_refines_node_witness:
  "node_reachable sample_timed_service 0 [] (co_node sample_lost_core) \<and>
   (node_step sample_timed_service)\<^sup>*\<^sup>* (co_node sample_lost_core) (co_node sample_lost_core)"
  using program_refines_node [OF sample_lost_reachable sample_timed_node rtranclp.rtrancl_refl] by blast



text \<open>The cleanup of the service never runs: each callback that the proactor holds keeps a reference to the
  inner service, so when the service is dropped after the loop its count is not one, and the registrations
  of the sockets stay in the proactor.\<close>

theorem cleanup_never_runs:
  assumes "core_reachable sv config idle False fds now s c" and "fds \<noteq> []"
  shows "end_network_core fds stopped c = (c\<lparr>co_shutdown_requested := co_shutdown_requested c \<or> is_Ok stopped\<rparr>,
      map_err (\<lambda>e. ''qcoin network core exited with error: '' @ e) stopped) \<and>
    pr_readers (co_proactor c) = tokens 0 fds"
proof -
  have "strong_count (co_proactor c) \<noteq> 1"
    using core_reachable_readers [OF assms(1)] assms(2) by (simp add: strong_count_def tokens_def)
  with core_reachable_readers [OF assms(1)] show ?thesis
    by (cases stopped) (simp_all add: end_network_core_def drop_service_def)
qed

theorem cleanup_never_runs_witness:
  "end_network_core [3] (Ok ()) sample_core = (sample_core\<lparr>co_shutdown_requested := True\<rparr>, Ok ())"
  using cleanup_never_runs [OF sample_core_reachable, of "Ok ()"] by simp

end
