(* ===== verification/QC_Sync.thy ===== *)
theory QC_Sync
  imports QC_Schedule
begin

text \<open>
  Two nodes that talk over UDP: the block synchronisation of \<open>qcoin-node/src/node.rs\<close> from the first request for
  a tip to the last block, and a new block on its way to a peer. The handlers are those of \<open>QC_Node\<close>; what is
  new here is the exchange of datagrams between two nodes.
\<close>

section \<open>The exchange of datagrams\<close>

text \<open>A message arrives as the frame of it; both nodes run the same program, so they have one codec.\<close>

definition deliver :: "service \<Rightarrow> call \<Rightarrow> socket_addr \<Rightarrow> wire_message \<Rightarrow> unit node_op" where
  "deliver sv cl source msg = op_then (\<lambda>s. (s, encode_wire (sv_bincode sv) msg)) (handle_frame sv cl source)"

text \<open>What a node sent to an address between two states.\<close>

definition outbox :: "socket_addr \<Rightarrow> node_state \<Rightarrow> node_state \<Rightarrow> wire_message list" where
  "outbox target s s' = map snd (filter (\<lambda>(t, msg). t = target) (drop (length (nd_sent s)) (nd_sent s')))"

text \<open>A node handles messages of a peer in turn. The second component is what it sent to that peer.\<close>

definition receive :: "service \<Rightarrow> call \<Rightarrow> socket_addr \<Rightarrow> wire_message list \<Rightarrow> node_state \<Rightarrow> node_state \<times> wire_message list" where
  "receive sv cl source msgs s =
     (let s' = fold (\<lambda>msg s. fst (deliver sv cl source msg s)) msgs s
      in (s', outbox source s s'))"

text \<open>Rounds of a dialogue: the node at \<open>a\<close> gets messages of the node at \<open>b\<close>, which gets the answers.\<close>

fun dialogue ::
  "service \<Rightarrow> call \<Rightarrow> socket_addr \<Rightarrow> service \<Rightarrow> call \<Rightarrow> socket_addr \<Rightarrow> nat \<Rightarrow> wire_message list \<Rightarrow> node_state \<times> node_state
     \<Rightarrow> node_state \<times> node_state" where
  "dialogue svA clA a svB clB b 0 msgs (A, B) = (A, B)"
| "dialogue svA clA a svB clB b (Suc n) msgs (A, B) =
     (case receive svA clA b msgs A of
        (A', answers) \<Rightarrow>
          (case receive svB clB a answers B of
             (B', msgs') \<Rightarrow> dialogue svA clA a svB clB b n msgs' (A', B')))"

text \<open>A call in which the machine and the network work.\<close>

definition working :: "call \<Rightarrow> bool" where
  "working cl \<longleftrightarrow> cl_poisoned cl = None \<and> (\<forall>target frame. cl_link cl target frame = None) \<and> cl_io_blocks cl = io_ok \<and> cl_io_state cl = io_ok"

section \<open>Facts\<close>

lemma deliver_handles:
  assumes "bincode_ok (sv_bincode sv)" and "is_Ok (bc_message_to (sv_bincode sv) msg)" and "source |\<notin>| sv_local_addrs sv"
  shows "deliver sv cl source msg s = handle_message sv cl source msg s"
proof -
  obtain p where "bc_message_to (sv_bincode sv) msg = Ok p" using assms(2) by (auto simp: is_Ok_iff)
  moreover from this assms(1) have "bc_message_from (sv_bincode sv) p = Ok msg" by (auto simp: bincode_ok_def)
  ultimately show ?thesis using assms(3) by (simp add: deliver_def op_then_def encode_wire_def handle_frame_def)
qed

lemma sends:
  assumes "is_Ok (bc_message_to (sv_bincode sv) msg)" and "working cl"
  shows "send_wire sv cl target msg s = (s\<lparr>nd_sent := nd_sent s @ [(target, msg)]\<rparr>, Ok ())"
  using assms by (auto simp: is_Ok_iff working_def send_wire_def encode_wire_def)

lemma receive_none [simp]: "receive sv cl source [] s = (s, [])"
  by (simp add: receive_def outbox_def)

lemma outbox_one: "nd_sent s' = nd_sent s @ map (Pair target) msgs \<Longrightarrow> outbox target s s' = msgs"
  by (simp add: outbox_def filter_map comp_def)

lemma receive_one:
  assumes "deliver sv cl source msg s = (s', r)" and "nd_sent s' = nd_sent s @ map (Pair source) answers"
  shows "receive sv cl source [msg] s = (s', answers)"
  using assms outbox_one by (simp add: receive_def)

lemma dialogue_silent: "dialogue svA clA a svB clB b n [] (A, B) = (A, B)"
  by (induction n) simp_all

text \<open>A working node answers peers it knows.\<close>

lemma serves_tip:
  assumes "b |\<in>| ss_known_peers (nd_sync A)" and "nd_others A = []" and "working cl"
    and "is_Ok (bc_message_to (sv_bincode sv) (TipResponse (tip_of_runtime (nd_runtime A))))"
  shows "handle_message sv cl b TipRequest A
    = (A\<lparr>nd_sent := nd_sent A @ [(b, TipResponse (tip_of_runtime (nd_runtime A)))]\<rparr>, Ok ())"
  using assms(3)
  by (simp add: known_if_compatible [OF assms(1)] op_then_def tip_snapshot_def with_runtime_ok assms(2) sends [OF assms(4,3)] working_def)

lemma serves_block:
  assumes "b |\<in>| ss_known_peers (nd_sync A)" and "nd_others A = []" and "working cl"
    and "is_Ok (bc_message_to (sv_bincode sv) (BlockResponse h (list_get (history A) (unat (saturating_sub h 1)))))"
  shows "handle_message sv cl b (BlockRequest h) A
    = (A\<lparr>nd_sent := nd_sent A @ [(b, BlockResponse h (list_get (history A) (unat (saturating_sub h 1))))]\<rparr>, Ok ())"
  using assms(3)
  by (simp add: known_if_compatible [OF assms(1)] op_then_def block_at_height_def with_runtime_ok assms(2)
      sends [OF assms(4,3)] working_def history_def [symmetric])

text \<open>A node asks for the next block if it does not have it and has not asked for it.\<close>

definition asked :: "socket_addr \<Rightarrow> node_state \<Rightarrow> node_state" where
  "asked source s =
     (let h = cs_height (nr_chain (nd_runtime s)) + 1
      in s\<lparr>nd_sync := (nd_sync s)\<lparr>ss_in_flight_blocks := fmupd source h (ss_in_flight_blocks (nd_sync s))\<rparr>,
           nd_sent := nd_sent s @ [(source, BlockRequest h)]\<rparr>)"

lemma asks_next:
  assumes "nd_others s = []" and "working cl"
    and "fmlookup (ss_in_flight_blocks (nd_sync s)) source \<noteq> Some (cs_height (nr_chain (nd_runtime s)) + 1)"
    and "cs_height (nr_chain (nd_runtime s)) < tip \<Longrightarrow>
      is_Ok (bc_message_to (sv_bincode sv) (BlockRequest (cs_height (nr_chain (nd_runtime s)) + 1)))"
  shows "request_next_missing_block sv cl source tip s =
    (if cs_height (nr_chain (nd_runtime s)) < tip then asked source s else s, Ok ())"
proof (cases "cs_height (nr_chain (nd_runtime s)) < tip")
  case True
  from assms(2) have "cl_poisoned cl = None" by (simp add: working_def)
  moreover from True have "\<not> tip \<le> cs_height (nr_chain (nd_runtime s))" by (simp add: not_le)
  ultimately show ?thesis
    using True assms(1,3)
    by (simp add: request_next_missing_block_def op_then_def current_height_def with_runtime_ok get_sync_def set_sync_def Let_def
        sends [OF assms(4) [OF True] assms(2)] asked_def)
next
  case False
  from assms(2) have "cl_poisoned cl = None" by (simp add: working_def)
  moreover from False have "tip \<le> cs_height (nr_chain (nd_runtime s))" by (simp add: not_less)
  ultimately show ?thesis
    using False assms(1)
    by (simp add: request_next_missing_block_def op_then_def current_height_def with_runtime_ok op_return_def)
qed

lemma takes_tip:
  assumes "a |\<in>| ss_known_peers (nd_sync B)" and "nd_others B = []" and "working cl"
    and "fmlookup (ss_in_flight_blocks (nd_sync B)) a \<noteq> Some (cs_height (nr_chain (nd_runtime B)) + 1)"
    and "cs_height (nr_chain (nd_runtime B)) < tp_height tip \<Longrightarrow>
      is_Ok (bc_message_to (sv_bincode sv) (BlockRequest (cs_height (nr_chain (nd_runtime B)) + 1)))"
  shows "handle_message sv cl a (TipResponse tip) B =
    (let s = B\<lparr>nd_sync := (nd_sync B)\<lparr>ss_peer_tip_heights := fmupd a (tp_height tip) (ss_peer_tip_heights (nd_sync B))\<rparr>\<rparr>
     in (if cs_height (nr_chain (nd_runtime B)) < tp_height tip then asked a s else s, Ok ()))"
proof -
  let ?s = "B\<lparr>nd_sync := (nd_sync B)\<lparr>ss_peer_tip_heights := fmupd a (tp_height tip) (ss_peer_tip_heights (nd_sync B))\<rparr>\<rparr>"
  have "request_next_missing_block sv cl a (tp_height tip) ?s =
      (if cs_height (nr_chain (nd_runtime B)) < tp_height tip then asked a ?s else ?s, Ok ())"
    by (subst asks_next) (use assms in simp_all)
  with assms(1) show ?thesis by (simp add: handle_tip_response_def known_if_compatible op_then_def set_sync_def Let_def)
qed

lemma takes_block:
  assumes "a |\<in>| ss_known_peers (nd_sync B)" and "nd_others B = []" and "working cl"
    and "cs_height (nr_chain (nd_runtime B)) < h" and "fmlookup (ss_peer_tip_heights (nd_sync B)) a = Some tip"
    and "runtime_apply_block (sv_platform sv) (sv_decode_witness sv) (sv_json sv) io_ok io_ok blk (nd_runtime B, nd_files B)
      = ((rt, fs), Ok h')"
    and "cs_height (nr_chain rt) < tip \<Longrightarrow> is_Ok (bc_message_to (sv_bincode sv) (BlockRequest (cs_height (nr_chain rt) + 1)))"
  shows "handle_message sv cl a (BlockResponse h (Some blk)) B =
    (let s = B\<lparr>nd_sync := (nd_sync B)\<lparr>ss_in_flight_blocks := fmdrop a (ss_in_flight_blocks (nd_sync B))\<rparr>,
         nd_runtime := rt, nd_files := fs\<rparr>
     in (if cs_height (nr_chain rt) < tip then asked a s else s, Ok ()))"
proof -
  let ?s = "B\<lparr>nd_sync := (nd_sync B)\<lparr>ss_in_flight_blocks := fmdrop a (ss_in_flight_blocks (nd_sync B))\<rparr>,
         nd_runtime := rt, nd_files := fs\<rparr>"
  have p: "cl_poisoned cl = None" "cl_io_blocks cl = io_ok" "cl_io_state cl = io_ok" using assms(3) by (simp_all add: working_def)
  have "request_next_missing_block sv cl a tip ?s = (if cs_height (nr_chain rt) < tip then asked a ?s else ?s, Ok ())"
    by (subst asks_next) (use assms in simp_all)
  moreover from assms(4) have "\<not> h \<le> cs_height (nr_chain (nd_runtime B))" by (simp add: not_le)
  ultimately show ?thesis
    using assms(1,2,5,6) p
    by (simp add: handle_block_response_def known_if_compatible op_then_def op_try_def set_sync_def get_sync_def current_height_def
        with_runtime_ok apply_remote_block_def with_runtime_mut_def request_follow_up_block_def Let_def)
qed

text \<open>Nodes of one program, between whose addresses datagrams pass.\<close>

definition can_talk :: "service \<Rightarrow> call \<Rightarrow> socket_addr \<Rightarrow> service \<Rightarrow> call \<Rightarrow> socket_addr \<Rightarrow> bool" where
  "can_talk svA clA a svB clB b \<longleftrightarrow>
     sv_platform svB = sv_platform svA \<and> sv_decode_witness svB = sv_decode_witness svA \<and> sv_bincode svB = sv_bincode svA \<and>
     bincode_ok (sv_bincode svA) \<and> json_writes (sv_json svB) \<and> working clA \<and> working clB \<and>
     a |\<notin>| sv_local_addrs svB \<and> b |\<notin>| sv_local_addrs svA"

section \<open>The handshake\<close>

text \<open>A node answers an announcement with its description, by which the other node admits it.\<close>

lemma announcement_admits:
  assumes "can_talk svA clA a svB clB b" and "nd_others A = []" and "nd_others B = []"
    and "cs_chain_id (nr_chain (nd_runtime B)) = cs_chain_id (nr_chain (nd_runtime A))"
    and "b |\<notin>| ss_known_peers (nd_sync A) \<or>
      elapsed (cl_now clA) (fmlookup (ss_peer_last_node_info_sent_at (nd_sync A)) b) NODE_INFO_RESPONSE_MIN_INTERVAL"
    and "fmlookup (ss_pending_transaction_announcements (nd_sync B)) a = None"
    and "info = local_node_info (cs_chain_id (nr_chain (nd_runtime A))) (sv_multicast_enabled svA)
      (nr_node_public_key_hex (nd_runtime A)) (nr_node_is_validator (nd_runtime A)) (sv_produce_enabled svA)"
    and "is_Ok (bc_message_to (sv_bincode svA) PresenceAnnounce)" and "is_Ok (bc_message_to (sv_bincode svA) (NodeInfo info))"
  shows "receive svA clA b [PresenceAnnounce] A =
      (A\<lparr>nd_sync := (nd_sync A)\<lparr>ss_peer_last_presence_seen_at := fmupd b (cl_now clA) (ss_peer_last_presence_seen_at (nd_sync A)),
           ss_peer_last_node_info_sent_at := fmupd b (cl_now_send clA) (ss_peer_last_node_info_sent_at (nd_sync A))\<rparr>,
         nd_sent := nd_sent A @ [(b, NodeInfo info)]\<rparr>, [NodeInfo info])"
    and "receive svB clB a [NodeInfo info] B = (B\<lparr>nd_sync := admit_peer (cl_now clB) a info (nd_sync B)\<rparr>, [])"
proof -
  note t = assms(1) [unfolded can_talk_def]
  have w: "cl_poisoned clA = None" "cl_poisoned clB = None" "working clA" using t by (simp_all add: working_def)
  have "handle_message svA clA b PresenceAnnounce A =
      (A\<lparr>nd_sync := (nd_sync A)\<lparr>ss_peer_last_presence_seen_at := fmupd b (cl_now clA) (ss_peer_last_presence_seen_at (nd_sync A)),
           ss_peer_last_node_info_sent_at := fmupd b (cl_now_send clA) (ss_peer_last_node_info_sent_at (nd_sync A))\<rparr>,
         nd_sent := nd_sent A @ [(b, NodeInfo info)]\<rparr>, Ok ())"
    using assms(2,5) w(1)
    by (simp add: handle_presence_announce_def op_then_def set_sync_def get_sync_def send_local_node_info_def node_local_info_def
        with_runtime_ok assms(7) [symmetric] sends [OF assms(9) w(3)])
  then show "receive svA clA b [PresenceAnnounce] A =
      (A\<lparr>nd_sync := (nd_sync A)\<lparr>ss_peer_last_presence_seen_at := fmupd b (cl_now clA) (ss_peer_last_presence_seen_at (nd_sync A)),
           ss_peer_last_node_info_sent_at := fmupd b (cl_now_send clA) (ss_peer_last_node_info_sent_at (nd_sync A))\<rparr>,
         nd_sent := nd_sent A @ [(b, NodeInfo info)]\<rparr>, [NodeInfo info])"
    using t assms(8) by (intro receive_one) (simp_all add: deliver_handles)
  have "ensure_node_info_compatible (cs_chain_id (nr_chain (nd_runtime B))) info = Ok ()"
    using assms(4) compatible_iff [of _ info "()"] by (simp add: assms(7) local_node_info_def WIRE_VERSION_def MIN_COMPATIBLE_WIRE_VERSION_def)
  then have "handle_message svB clB a (NodeInfo info) B = (B\<lparr>nd_sync := admit_peer (cl_now clB) a info (nd_sync B)\<rparr>, Ok ())"
    using assms(3,6) w(2)
    by (simp add: handle_node_info_def op_then_def set_sync_def get_sync_def current_chain_id_def with_runtime_ok op_return_def)
  then show "receive svB clB a [NodeInfo info] B = (B\<lparr>nd_sync := admit_peer (cl_now clB) a info (nd_sync B)\<rparr>, [])"
    using t assms(9) by (intro receive_one) (simp_all add: deliver_handles)
qed

section \<open>Block synchronisation\<close>

text \<open>The messages about the blocks of a history.\<close>

definition block_messages :: "block list \<Rightarrow> wire_message set" where
  "block_messages bs = (\<Union>i < length bs. {BlockRequest (of_nat i + 1), BlockResponse (of_nat i + 1) (Some (bs ! i))})"

lemma height_word:
  assumes "k < n" and "n < 2 ^ 64"
  shows "unat (of_nat k + 1 :: u64) = k + 1" and "saturating_sub (of_nat k + 1 :: u64) 1 = of_nat k"
    and "(of_nat k :: u64) < of_nat k + 1" and "unat (of_nat k :: u64) = k" and "(of_nat (Suc k) :: u64) < of_nat n \<longleftrightarrow> Suc k < n"
proof -
  have k: "unat (of_nat k :: u64) = k" using assms by (simp add: unat_of_nat)
  then show "unat (of_nat k :: u64) = k" .
  show s: "unat (of_nat k + 1 :: u64) = k + 1" using assms k by (subst unat_add_small) auto
  then show "saturating_sub (of_nat k + 1 :: u64) 1 = of_nat k" by (auto simp: saturating_sub_def word_less_nat_alt)
  show "(of_nat k :: u64) < of_nat k + 1" using s k by (simp add: word_less_nat_alt)
  show "(of_nat (Suc k) :: u64) < of_nat n \<longleftrightarrow> Suc k < n"
    using assms by (simp add: word_less_nat_alt unat_of_nat del: of_nat_Suc)
qed

text \<open>What one block does: the request is answered, the block applied, and the next one asked for.\<close>

lemma one_block:
  assumes "can_talk svA clA a svB clB b" and "vs \<noteq> []" and "length (history A) < 2 ^ 64"
    and "rebuild_chain_state_from_blocks (sv_platform svA) (sv_decode_witness svA) (history A) chain_id vs = Ok D"
    and "\<forall>msg \<in> block_messages (history A). is_Ok (bc_message_to (sv_bincode svA) msg)"
    and "b |\<in>| ss_known_peers (nd_sync A)" and "nd_others A = []"
    and "runtime_ok (sv_platform svA) (sv_decode_witness svA) chain_id vs (nd_runtime B)" and "nr_pending (nd_runtime B) = []"
    and "savable (nr_state_path (nd_runtime B))" and "savable (nr_blocks_path (nd_runtime B))"
    and "history A = history B @ blk # rest" and "a |\<in>| ss_known_peers (nd_sync B)" and "nd_others B = []"
    and "fmlookup (ss_peer_tip_heights (nd_sync B)) a = Some (of_nat (length (history A)))"
  obtains A1 B1 where
    "receive svA clA b [BlockRequest (of_nat (length (history B)) + 1)] A
       = (A1, [BlockResponse (of_nat (length (history B)) + 1) (Some blk)])"
    "nd_runtime A1 = nd_runtime A" "nd_sync A1 = nd_sync A" "nd_others A1 = []"
    "receive svB clB a [BlockResponse (of_nat (length (history B)) + 1) (Some blk)] B
       = (B1, if rest = [] then [] else [BlockRequest (of_nat (length (history B1)) + 1)])"
    "history B1 = history B @ [blk]" "runtime_ok (sv_platform svA) (sv_decode_witness svA) chain_id vs (nd_runtime B1)"
    "nr_pending (nd_runtime B1) = []" "nr_state_path (nd_runtime B1) = nr_state_path (nd_runtime B)"
    "nr_blocks_path (nd_runtime B1) = nr_blocks_path (nd_runtime B)" "ss_known_peers (nd_sync B1) = ss_known_peers (nd_sync B)"
    "nd_others B1 = []" "ss_peer_tip_heights (nd_sync B1) = ss_peer_tip_heights (nd_sync B)"
proof -
  let ?k = "length (history B)" and ?rt = "nd_runtime B" and ?N = "length (history A)"
  let ?h = "of_nat ?k + 1 :: u64"
  note t = assms(1) [unfolded can_talk_def]
  have k: "?k < ?N" by (simp add: assms(12))
  note w = height_word [OF k assms(3)]
  have blk: "history A ! ?k = blk" by (simp add: assms(12))
  have enc: "is_Ok (bc_message_to (sv_bincode svA) (BlockRequest (of_nat i + 1)))"
    "is_Ok (bc_message_to (sv_bincode svA) (BlockResponse (of_nat i + 1) (Some (history A ! i))))" if "i < ?N" for i
    using assms(5) that by (auto simp: block_messages_def)
  have served: "list_get (history A) (unat (saturating_sub ?h 1)) = Some blk" using k blk by (simp add: w list_get_def)
  let ?A1 = "A\<lparr>nd_sent := nd_sent A @ [(b, BlockResponse ?h (Some blk))]\<rparr>"
  have "handle_message svA clA b (BlockRequest ?h) A = (?A1, Ok ())"
    using serves_block [OF assms(6,7), of clA svA ?h] t enc(2) [OF k] by (simp only: served blk)
  then have 1: "receive svA clA b [BlockRequest ?h] A = (?A1, [BlockResponse ?h (Some blk)])"
    using t enc(1) [OF k] by (intro receive_one) (simp_all add: deliver_handles)
  obtain E where E: "rebuild_chain_state_from_blocks (sv_platform svA) (sv_decode_witness svA) (nr_blocks ?rt @ [blk]) chain_id vs = Ok E"
  proof -
    have "rebuild_chain_state_from_blocks (sv_platform svA) (sv_decode_witness svA) ((history B @ [blk]) @ rest) chain_id vs = Ok D"
      using assms(4) unfolding assms(12) by simp
    from rebuild_prefix [OF this] show ?thesis using that by (auto simp: history_def)
  qed
  have js: "json_writes (sv_json svB)" using t by simp
  from replayable_block_accepted [OF assms(8,2,9) E js assms(10,11)] obtain fs rt where
    r: "runtime_apply_block (sv_platform svA) (sv_decode_witness svA) (sv_json svB) io_ok io_ok blk (?rt, nd_files B)
        = ((rt, fs), Ok (cs_height E))"
      "rt = ?rt\<lparr>nr_chain := E, nr_blocks := nr_blocks ?rt @ [blk]\<rparr>"
      "runtime_ok (sv_platform svA) (sv_decode_witness svA) chain_id vs rt" by blast
  have hB: "cs_height (nr_chain ?rt) = of_nat ?k"
    using rebuild_facts assms(8) by (auto simp: runtime_ok_def chain_tops_def history_def)
  have hE: "cs_height (nr_chain rt) = of_nat (Suc ?k)"
    using rebuild_facts [OF E] r(2) by (simp add: chain_tops_def history_def)
  have more: "cs_height (nr_chain rt) < of_nat ?N \<longleftrightarrow> rest \<noteq> []"
    using w(5) assms(12) hE by (auto simp del: of_nat_Suc)
  let ?s = "B\<lparr>nd_sync := (nd_sync B)\<lparr>ss_in_flight_blocks := fmdrop a (ss_in_flight_blocks (nd_sync B))\<rparr>, nd_runtime := rt, nd_files := fs\<rparr>"
  let ?B1 = "if rest = [] then ?s else asked a ?s"
  have "handle_message svB clB a (BlockResponse ?h (Some blk)) B = (?B1, Ok ())"
  proof (subst takes_block [OF assms(13,14) _ _ assms(15), where rt = rt and fs = fs and h' = "cs_height E"])
    show "working clB" using t by simp
    show "cs_height (nr_chain (nd_runtime B)) < ?h" using w(3) by (simp add: hB)
    show "runtime_apply_block (sv_platform svB) (sv_decode_witness svB) (sv_json svB) io_ok io_ok blk (nd_runtime B, nd_files B)
        = ((rt, fs), Ok (cs_height E))" using r(1) t by simp
    show "is_Ok (bc_message_to (sv_bincode svB) (BlockRequest (cs_height (nr_chain rt) + 1)))"
      if "cs_height (nr_chain rt) < of_nat ?N"
      using enc(1) [of "Suc ?k"] that w(5) hE t by (simp del: of_nat_Suc)
  qed (simp add: more Let_def)
  then have 2: "receive svB clB a [BlockResponse ?h (Some blk)] B
      = (?B1, if rest = [] then [] else [BlockRequest (of_nat (length (history ?B1)) + 1)])"
    using t enc(2) [OF k] blk hE r(2)
    by (intro receive_one) (auto simp: deliver_handles asked_def Let_def history_def)
  show ?thesis
    by (rule that [OF 1 _ _ _ 2])
      (use r(2,3) assms(7,9,14) in \<open>simp_all add: asked_def Let_def history_def\<close>)
qed

lemma dialogue_blocks:
  assumes "can_talk svA clA a svB clB b" and "vs \<noteq> []" and "length (history A) < 2 ^ 64"
    and "rebuild_chain_state_from_blocks (sv_platform svA) (sv_decode_witness svA) (history A) chain_id vs = Ok D"
    and "\<forall>msg \<in> block_messages (history A). is_Ok (bc_message_to (sv_bincode svA) msg)"
    and "b |\<in>| ss_known_peers (nd_sync A)" and "nd_others A = []"
    and "runtime_ok (sv_platform svA) (sv_decode_witness svA) chain_id vs (nd_runtime B)" and "nr_pending (nd_runtime B) = []"
    and "savable (nr_state_path (nd_runtime B))" and "savable (nr_blocks_path (nd_runtime B))"
    and "history A = history B @ blk # rest" and "a |\<in>| ss_known_peers (nd_sync B)" and "nd_others B = []"
    and "fmlookup (ss_peer_tip_heights (nd_sync B)) a = Some (of_nat (length (history A)))" and "length rest < n"
    and "dialogue svA clA a svB clB b n [BlockRequest (of_nat (length (history B)) + 1)] (A, B) = (A', B')"
  shows "history B' = history A \<and> nr_chain (nd_runtime B') = D \<and> nd_runtime A' = nd_runtime A"
  using assms
proof (induction rest arbitrary: A B blk n)
  case Nil
  show ?case
  proof (rule one_block [OF Nil.prems(1-15)])
    fix A1 B1
    assume o: "receive svA clA b [BlockRequest (of_nat (length (history B)) + 1)] A
         = (A1, [BlockResponse (of_nat (length (history B)) + 1) (Some blk)])" "nd_runtime A1 = nd_runtime A"
      "receive svB clB a [BlockResponse (of_nat (length (history B)) + 1) (Some blk)] B
         = (B1, if [] = [] then [] else [BlockRequest (of_nat (length (history B1)) + 1)])"
      "history B1 = history B @ [blk]" "runtime_ok (sv_platform svA) (sv_decode_witness svA) chain_id vs (nd_runtime B1)"
    obtain m where n: "n = Suc m" using Nil.prems(16) by (cases n) auto
    from Nil.prems(17) o(1,3) have "A' = A1" "B' = B1" by (simp_all add: n dialogue_silent)
    with o(2,4,5) Nil.prems(4,12) show ?thesis by (simp add: runtime_ok_def history_def)
  qed
next
  case (Cons c rest)
  obtain A1 B1 where o: "receive svA clA b [BlockRequest (of_nat (length (history B)) + 1)] A
       = (A1, [BlockResponse (of_nat (length (history B)) + 1) (Some blk)])"
    "nd_runtime A1 = nd_runtime A" "nd_sync A1 = nd_sync A" "nd_others A1 = []"
    "receive svB clB a [BlockResponse (of_nat (length (history B)) + 1) (Some blk)] B
       = (B1, [BlockRequest (of_nat (length (history B1)) + 1)])"
    "history B1 = history B @ [blk]" "runtime_ok (sv_platform svA) (sv_decode_witness svA) chain_id vs (nd_runtime B1)"
    "nr_pending (nd_runtime B1) = []" "nr_state_path (nd_runtime B1) = nr_state_path (nd_runtime B)"
    "nr_blocks_path (nd_runtime B1) = nr_blocks_path (nd_runtime B)" "ss_known_peers (nd_sync B1) = ss_known_peers (nd_sync B)"
    "nd_others B1 = []" "ss_peer_tip_heights (nd_sync B1) = ss_peer_tip_heights (nd_sync B)"
    by (rule one_block [OF Cons.prems(1-15)]) simp
  obtain m where n: "n = Suc m" "length rest < m" using Cons.prems(16) by (cases n) auto
  have hA: "history A1 = history A" using o(2) by (simp add: history_def)
  have hB: "history A1 = history B1 @ c # rest" using Cons.prems(12) o(6) hA by simp
  have "dialogue svA clA a svB clB b m [BlockRequest (of_nat (length (history B1)) + 1)] (A1, B1) = (A', B')"
    using Cons.prems(17) o(1,5) by (simp add: n)
  from Cons.IH [OF Cons.prems(1,2) _ _ _ _ o(4,7,8) _ _ hB _ o(12) _ n(2) this] Cons.prems(3-6,10,11,13,15) o(2,3,9-11,13) hA
  show ?case by simp
qed

text \<open>The exchange of tips: the node that is behind asks for its next block.\<close>

lemma tip_exchange:
  assumes "can_talk svA clA a svB clB b" and "b |\<in>| ss_known_peers (nd_sync A)" and "a |\<in>| ss_known_peers (nd_sync B)"
    and "nd_others A = []" and "nd_others B = []" and "tip = tip_of_runtime (nd_runtime A)"
    and "is_Ok (bc_message_to (sv_bincode svA) TipRequest)" and "is_Ok (bc_message_to (sv_bincode svA) (TipResponse tip))"
    and "height = cs_height (nr_chain (nd_runtime B))" and "fmlookup (ss_in_flight_blocks (nd_sync B)) a \<noteq> Some (height + 1)"
    and "height < tp_height tip \<Longrightarrow> is_Ok (bc_message_to (sv_bincode svA) (BlockRequest (height + 1)))"
  shows "receive svA clA b [TipRequest] A = (A\<lparr>nd_sent := nd_sent A @ [(b, TipResponse tip)]\<rparr>, [TipResponse tip])"
    and "receive svB clB a [TipResponse tip] B =
      (let s = B\<lparr>nd_sync := (nd_sync B)\<lparr>ss_peer_tip_heights := fmupd a (tp_height tip) (ss_peer_tip_heights (nd_sync B))\<rparr>\<rparr>
       in if height < tp_height tip then (asked a s, [BlockRequest (height + 1)]) else (s, []))"
proof -
  note t = assms(1) [unfolded can_talk_def]
  show "receive svA clA b [TipRequest] A = (A\<lparr>nd_sent := nd_sent A @ [(b, TipResponse tip)]\<rparr>, [TipResponse tip])"
    using t assms(6,7) serves_tip [OF assms(2,4) _ assms(8) [unfolded assms(6)]] by (intro receive_one) (simp_all add: deliver_handles)
  have "working clB" using t by simp
  from takes_tip [OF assms(3,5) this, of tip svB] assms(9-11) t
  show "receive svB clB a [TipResponse tip] B =
      (let s = B\<lparr>nd_sync := (nd_sync B)\<lparr>ss_peer_tip_heights := fmupd a (tp_height tip) (ss_peer_tip_heights (nd_sync B))\<rparr>\<rparr>
       in if height < tp_height tip then (asked a s, [BlockRequest (height + 1)]) else (s, []))"
    using assms(8) by (cases "height < tp_height tip") (auto intro!: receive_one simp: deliver_handles asked_def Let_def)
qed

section \<open>A new block\<close>

text \<open>A block that extends the history to a replayable one is accepted, whatever is in the mempool, and empties
  the mempool if it has all its transactions.\<close>

lemma replayable_block_extends:
  assumes "runtime_ok pf dw chain_id vs rt" and "vs \<noteq> []"
    and "rebuild_chain_state_from_blocks pf dw (nr_blocks rt @ [blk]) chain_id vs = Ok D" and "json_writes js"
    and "savable (nr_state_path rt)" and "savable (nr_blocks_path rt)"
  shows "\<exists>rt' fs' r. runtime_apply_block pf dw js io_ok io_ok blk (rt, fs) = ((rt', fs'), r) \<and>
    nr_chain rt' = D \<and> nr_blocks rt' = nr_blocks rt @ [blk] \<and> (r = Ok (cs_height D) \<or> r = Panic) \<and>
    (ids_of pf (nr_pending rt) \<subseteq> ids_of pf (b_transactions blk) \<longrightarrow> r = Ok (cs_height D) \<and> nr_pending rt' = [])"
proof -
  note ok = assms(1) [unfolded runtime_ok_def]
  from assms(3) ok have "replay_block pf dw vs (length (nr_blocks rt), blk) (nr_chain rt) = Ok D"
    by (simp add: rebuild_append)
  then obtain u where v: "validate_block pf dw (nr_consensus rt) (nr_chain rt) blk = Ok u"
    and a: "chain_apply_block pf dw (default_script_engine pf) (nr_chain rt) blk = (D, Ok ())"
    using ok assms(2) by (auto simp: replay_block_eq_Ok is_Ok_iff validate_block_def)
  let ?rt = "rt\<lparr>nr_chain := D, nr_blocks := nr_blocks rt @ [blk]\<rparr>"
  have txs: "committed_txs ?rt = concat (map b_transactions (nr_blocks rt @ [blk]))" by (simp add: committed_txs_def)
  have "None \<notin> tx_id pf ` set (committed_txs ?rt)"
    unfolding txs using rebuild_keys [OF assms(3)] by (metis (no_types, lifting) imageE)
  moreover have "None \<notin> tx_id pf ` set (nr_pending ?rt)" using ok by (simp add: distinct_ids_def)
  ultimately have clears: "reconcile_pending_transactions pf dw ?rt = Some (?rt\<lparr>nr_pending := []\<rparr>)"
    if "ids_of pf (nr_pending rt) \<subseteq> ids_of pf (b_transactions blk)"
    using that by (intro reconcile_clears) (auto simp: committed_txs_def ids_of_append)
  from apply_block_persists [OF v a assms(4-6), of fs] obtain fs' where
    r: "runtime_apply_block pf dw js io_ok io_ok blk (rt, fs) =
      (case reconcile_pending_transactions pf dw ?rt of Some rt' \<Rightarrow> ((rt', fs'), Ok (cs_height D)) | None \<Rightarrow> ((?rt, fs'), Panic))"
    by (auto simp: Let_def)
  show ?thesis
  proof (cases "reconcile_pending_transactions pf dw ?rt")
    case None
    with r clears show ?thesis by auto
  next
    case (Some rt')
    with r clears reconcile_keeps [OF Some] show ?thesis by auto
  qed
qed

text \<open>A produced block at the peers.\<close>

lemma produced_block_reaches:
  assumes "runtime_ok (sv_platform svA) (sv_decode_witness svA) chain_id vs (nd_runtime A)"
    and "runtime_ok (sv_platform svA) (sv_decode_witness svA) chain_id vs (nd_runtime B)" and "vs \<noteq> []"
    and "can_talk svA clA a svB clB b" and "a |\<in>| ss_known_peers (nd_sync B)" and "b \<in> set (cl_peer_order clA (ss_known_peers (nd_sync A)))"
    and "history B = history A"
    and "savable (nr_state_path (nd_runtime B))" and "savable (nr_blocks_path (nd_runtime B))"
    and "produce_now svA clA A = (A', Ok (Some h))" and "nd_others A = []" and "nd_others B = []"
  obtains blk where "history A' = history A @ [blk]" "b_transactions blk = nr_pending (nd_runtime A)"
    "(b, SubmitBlock blk) \<in> set (drop (length (nd_sent A)) (nd_sent A'))"
    "\<And>B' r. deliver svB clB a (SubmitBlock blk) B = (B', r) \<Longrightarrow>
       history B' = history A' \<and> nr_chain (nd_runtime B') = nr_chain (nd_runtime A') \<and>
       (ids_of (sv_platform svA) (nr_pending (nd_runtime B)) \<subseteq> ids_of (sv_platform svA) (nr_pending (nd_runtime A)) \<longrightarrow>
         nr_pending (nd_runtime B') = [])"
proof -
  note t = assms(4) [unfolded can_talk_def]
  note quiet = assms(11,12) and okB = assms(2)
  have bc: "bincode_ok (sv_bincode svA)" using t by simp
  from assms(10) obtain u blk where u: "node_produce_one_block svA clA A = (u, Ok (Some (h, blk)))"
    and w: "broadcast_block svA clA blk u = (A', Ok ())"
    by (auto simp: produce_now_def op_then_def op_return_def split: prod.splits res.splits option.splits)
  from u obtain rt fs where rt: "u = A\<lparr>nd_runtime := rt, nd_files := fs\<rparr>"
    and p: "produce_one_block (sv_platform svA) (sv_decode_witness svA) (sv_json svA) (cl_io_blocks clA) (cl_io_state clA)
      (cl_poisoned clA) (cl_unix_time clA) (cl_rnd clA) (nd_runtime A, nd_files A) = ((rt, fs), Ok (Some (h, blk)))"
    using produce_cases [OF u] quiet(1) by (metis lock_runtime_idle)
  have run: "nd_runtime A' = rt" using broadcast_only [OF w bc] by (simp add: rt)
  have grown: "history A' = history A @ [blk]" using produce_grows [OF p] run by (simp add: history_def)
  have txs: "b_transactions blk = nr_pending (nd_runtime A)"
    using p by (auto simp: produce_one_block_def map_err_eq_Ok propose_block_eq_Ok split: res.splits option.splits bool.splits if_splits prod.splits)
  have member: "b \<in> set (known_peers svA clA (nd_sync u))" using assms(6) t by (simp add: known_peers_def rt)
  with w obtain frame where "encode_wire (sv_bincode svA) (SubmitBlock blk) = Ok frame"
    and f: "op_for (send_block svA clA blk frame) (known_peers svA clA (nd_sync u)) u = (A', Ok ())"
    by (auto simp: broadcast_block_def op_then_def get_sync_def op_return_def split: if_splits res.splits)
  moreover have "\<forall>t. cl_link clA t frame = None" using t by (simp add: working_def)
  ultimately have sent: "(b, SubmitBlock blk) \<in> set (drop (length (nd_sent A)) (nd_sent A'))"
    "is_Ok (bc_message_to (sv_bincode svA) (SubmitBlock blk))"
    using member by (auto simp: send_block_sends rt is_Ok_iff encode_wire_eq_Ok takeWhile_eq_all_conv [THEN iffD2])
  have "runtime_ok (sv_platform svA) (sv_decode_witness svA) chain_id vs rt" by (rule runtime_ok_produce [OF assms(1) p]) simp
  then have D: "rebuild_chain_state_from_blocks (sv_platform svA) (sv_decode_witness svA) (nr_blocks (nd_runtime B) @ [blk]) chain_id vs = Ok (nr_chain rt)"
    using grown run assms(7) by (simp add: runtime_ok_def history_def)
  have js: "json_writes (sv_json svB)" using t by simp
  from replayable_block_extends [OF okB assms(3) D js assms(8,9), of "nd_files B"] obtain rt' fs' q where
    acc: "runtime_apply_block (sv_platform svA) (sv_decode_witness svA) (sv_json svB) io_ok io_ok blk (nd_runtime B, nd_files B)
      = ((rt', fs'), q)" "q = Ok (cs_height (nr_chain rt)) \<or> q = Panic" and
    new: "nr_chain rt' = nr_chain rt" "nr_blocks rt' = nr_blocks (nd_runtime B) @ [blk]"
      "ids_of (sv_platform svA) (nr_pending (nd_runtime B)) \<subseteq> ids_of (sv_platform svA) (nr_pending (nd_runtime A)) \<longrightarrow> nr_pending rt' = []"
    by (auto simp: txs)
  have "nd_runtime B' = rt'" if d: "deliver svB clB a (SubmitBlock blk) B = (B', r)" for B' r
  proof -
    have "handle_message svB clB a (SubmitBlock blk) B = (B', r)"
      using d deliver_handles [of svB "SubmitBlock blk" a clB B] t sent(2) by simp
    then have "op_then (submit_block_reply svB clB blk) (\<lambda>response. send_wire svB clB a (SubmitBlockResponse response)) B = (B', r)"
      by (simp add: known_if_compatible [OF assms(5)])
    moreover have "submit_block_reply svB clB blk B = (B\<lparr>nd_runtime := rt', nd_files := fs'\<rparr>,
        if q = Panic then Panic else Ok \<lparr>sb_accepted = True, sb_height = cs_height (nr_chain rt), sb_message = ''block accepted''\<rparr>)"
      using acc t quiet(2)
      by (auto simp: submit_block_reply_def op_try_def apply_remote_block_def with_runtime_mut_def Let_def working_def op_return_def)
    ultimately show ?thesis by (auto simp: op_then_def send_wire_def split: res.splits option.splits if_splits)
  qed
  then have "history B' = history A' \<and> nr_chain (nd_runtime B') = nr_chain (nd_runtime A') \<and>
      (ids_of (sv_platform svA) (nr_pending (nd_runtime B)) \<subseteq> ids_of (sv_platform svA) (nr_pending (nd_runtime A)) \<longrightarrow>
        nr_pending (nd_runtime B') = [])"
    if "deliver svB clB a (SubmitBlock blk) B = (B', r)" for B' r
    using that grown assms(7) new by (simp add: run history_def)
  with that [OF grown txs sent(1)] show ?thesis by blast
qed

section \<open>Samples\<close>

text \<open>A codec of the listed messages, and two nodes that use it and know each other.\<close>

definition sample_codec :: "wire_message list \<Rightarrow> bincode" where
  "sample_codec msgs = \<lparr>
     bc_message_to = (\<lambda>msg. case List.find (\<lambda>i. msgs ! i = msg) [0..<length msgs] of Some i \<Rightarrow> Ok (replicate i 0) | None \<Rightarrow> Err ''no''),
     bc_message_from = (\<lambda>p. if length p < length msgs then Ok (msgs ! length p) else Err ''no''),
     bc_block_to = (\<lambda>b. Err ''no''), bc_block_from = (\<lambda>p. Err ''no'')\<rparr>"

lemma sample_codec_ok: "bincode_ok (sample_codec msgs)"
  by (auto simp: bincode_ok_def sample_codec_def find_Some_iff split: option.splits)

lemma sample_codec_encodes: "msg \<in> set msgs \<Longrightarrow> is_Ok (bc_message_to (sample_codec msgs) msg)"
  by (auto simp: sample_codec_def find_None_iff in_set_conv_nth split: option.splits)

definition sample_info :: node_info where
  "sample_info = local_node_info 0 False [] True True"

definition sample_talker :: "wire_message list \<Rightarrow> service" where
  "sample_talker msgs = sample_service\<lparr>sv_bincode := sample_codec (NodeInfo sample_info # msgs)\<rparr>"

definition sample_peer :: "socket_addr \<Rightarrow> node_runtime \<Rightarrow> file_system \<Rightarrow> node_state" where
  "sample_peer source rt fs =
     \<lparr>nd_runtime = rt, nd_files = fs, nd_sync = admit_peer 7 source sample_info sync_state_new, nd_sent = [], nd_others = []\<rparr>"

lemma sample_talker_sel [simp]: "sv_platform (sample_talker msgs) = sample_platform True"
  "sv_decode_witness (sample_talker msgs) = sample_dw" "sv_json (sample_talker msgs) = sample_write_js"
  "sv_bincode (sample_talker msgs) = sample_codec (NodeInfo sample_info # msgs)" "sv_local_addrs (sample_talker msgs) = {||}"
  by (simp_all add: sample_talker_def sample_service_def)

lemma sample_peer_sel [simp]: "nd_runtime (sample_peer source rt fs) = rt" "nd_files (sample_peer source rt fs) = fs"
  "ss_known_peers (nd_sync (sample_peer source rt fs)) = {|source|}" "ss_in_flight_blocks (nd_sync (sample_peer source rt fs)) = fmempty"
  "history (sample_peer source rt fs) = nr_blocks rt" "nd_others (sample_peer source rt fs) = []" "nd_sent (sample_peer source rt fs) = []"
  by (simp_all add: sample_peer_def admit_peer_def sync_state_new_def history_def)

lemma sample_write_json: "json_writes sample_write_js"
  by (simp add: json_writes_def sample_write_js_def)

lemma sample_working: "working sample_call"
  by (simp add: working_def sample_call_def)

lemma sample_can_talk: "can_talk (sample_talker msgs) sample_call a (sample_talker msgs) sample_call b"
  by (simp add: can_talk_def sample_codec_ok sample_write_json sample_working)

lemma sample_peer_reachable:
  assumes "runtime_reachable (sample_platform True) sample_dw sample_write_js 0 vs (rt, fs)"
  shows "node_reachable (sample_talker msgs) 0 vs (sample_peer source rt fs)"
proof -
  let ?sv = "sample_talker msgs"
    and ?s = "\<lparr>nd_runtime = rt, nd_files = fs, nd_sync = sync_state_new, nd_sent = [], nd_others = []\<rparr>"
  have "cs_chain_id (nr_chain rt) = 0" using reachable_ok [OF assms] rebuild_facts by (auto simp: runtime_ok_def)
  then have "handle_frame ?sv sample_call source QCOIN_WIRE_MAGIC ?s = (sample_peer source rt fs, Ok ())"
    by (simp add: handle_frame_def decode_wire_def sample_codec_def handle_node_info_def current_chain_id_def with_runtime_ok sample_call_def
        op_then_def op_return_def get_sync_def set_sync_def sample_peer_def sync_state_new_def ensure_node_info_compatible_def sample_info_def
        local_node_info_def ensure_version_compatible_def WIRE_VERSION_def MIN_COMPATIBLE_WIRE_VERSION_def)
  then have "node_step ?sv ?s ((sample_peer source rt fs)\<lparr>nd_others := []\<rparr>)"
    by (intro node_frame [where others = "[]" and r = "Ok ()"]) simp_all
  moreover have "node_reachable ?sv 0 vs ?s" by (rule node_starts) (use assms in simp)
  ultimately show ?thesis by (auto simp: sample_peer_def intro: node_steps)
qed

section \<open>Properties\<close>

text \<open>C21. Block synchronisation over UDP converges: between two nodes of one chain and validator set that know each
  other, of which one has more blocks and the one behind an empty mempool, on a network that loses nothing and
  without a request pending from before, one request for the tip is enough. One round later for each missing block the node that was
  behind has the history and the chain state of the other, and asks for nothing more.\<close>

theorem udp_sync_converges:
  assumes "node_reachable svA chain_id vs A" and "node_reachable svB chain_id vs B" and "vs \<noteq> []"
    and "can_talk svA clA a svB clB b" and "b |\<in>| ss_known_peers (nd_sync A)" and "a |\<in>| ss_known_peers (nd_sync B)"
    and "history A = history B @ rest" and "length (history A) < 2 ^ 64" and "nr_pending (nd_runtime B) = []"
    and "savable (nr_state_path (nd_runtime B))" and "savable (nr_blocks_path (nd_runtime B))"
    and "\<forall>msg \<in> {TipRequest, TipResponse (tip_of_runtime (nd_runtime A))} \<union> block_messages (history A).
      is_Ok (bc_message_to (sv_bincode svA) msg)"
    and "fmlookup (ss_in_flight_blocks (nd_sync B)) a \<noteq> Some (of_nat (length (history B)) + 1)"
    and "length rest < n" and "dialogue svA clA a svB clB b n [TipRequest] (A, B) = (A', B')"
  shows "history B' = history A \<and> nr_chain (nd_runtime B') = nr_chain (nd_runtime A) \<and> nd_runtime A' = nd_runtime A"
proof -
  note t = assms(4) [unfolded can_talk_def]
  note quiet = node_reachable_quiet [OF assms(1)] node_reachable_quiet [OF assms(2)]
  let ?tip = "tip_of_runtime (nd_runtime A)" and ?N = "length (history A)" and ?k = "length (history B)"
  note rA = reachable_history(1) [OF assms(1)] and rB = reachable_history(1) [OF assms(2)]
  have hA: "tp_height ?tip = of_nat ?N" and hB: "cs_height (nr_chain (nd_runtime B)) = of_nat ?k"
    using rebuild_facts [OF rA] rebuild_facts [OF rB] by (simp_all add: tip_of_runtime_def chain_tops_def)
  have enc: "is_Ok (bc_message_to (sv_bincode svA) TipRequest)" "is_Ok (bc_message_to (sv_bincode svA) (TipResponse ?tip))"
    "\<forall>msg \<in> block_messages (history A). is_Ok (bc_message_to (sv_bincode svA) msg)"
    using assms(12) by simp_all
  have more: "(of_nat ?k :: u64) < of_nat ?N \<longleftrightarrow> rest \<noteq> []"
  proof -
    have "?k < 2 ^ 64" using assms(7,8) by simp
    from u64_of_nat_le [OF assms(8) this] assms(7) show ?thesis by (auto simp: not_le [symmetric] simp del: of_nat_add)
  qed
  let ?A1 = "A\<lparr>nd_sent := nd_sent A @ [(b, TipResponse ?tip)]\<rparr>"
  let ?s = "B\<lparr>nd_sync := (nd_sync B)\<lparr>ss_peer_tip_heights := fmupd a (of_nat ?N) (ss_peer_tip_heights (nd_sync B))\<rparr>\<rparr>"
  let ?B1 = "if rest = [] then ?s else asked a ?s"
  have "is_Ok (bc_message_to (sv_bincode svA) (BlockRequest (of_nat ?k + 1)))" if "rest \<noteq> []"
    using enc(3) that assms(7) by (auto simp: block_messages_def)
  with tip_exchange [OF assms(4-6) quiet refl enc(1,2) hB [symmetric] assms(13)] have
    1: "receive svA clA b [TipRequest] A = (?A1, [TipResponse ?tip])" and
    2: "receive svB clB a [TipResponse ?tip] B = (?B1, if rest = [] then [] else [BlockRequest (of_nat ?k + 1)])"
    by (simp_all add: hA more Let_def)
  obtain m where n: "n = Suc m" using assms(14) by (cases n) auto
  with assms(15) 1 2 have d: "dialogue svA clA a svB clB b m (if rest = [] then [] else [BlockRequest (of_nat ?k + 1)]) (?A1, ?B1) = (A', B')"
    by simp
  show ?thesis
  proof (cases rest)
    case Nil
    with d have "A' = ?A1" "B' = ?B1" by (simp_all add: dialogue_silent)
    moreover have "nr_chain (nd_runtime B) = nr_chain (nd_runtime A)" using rA rB t assms(7) Nil by simp
    ultimately show ?thesis using Nil assms(7) by (simp add: history_def)
  next
    case (Cons blk more)
    have same: "history ?B1 = history B" "history ?A1 = history A" "nd_runtime ?B1 = nd_runtime B"
      by (simp_all add: history_def asked_def Let_def Cons)
    have okB: "runtime_ok (sv_platform svA) (sv_decode_witness svA) chain_id vs (nd_runtime ?B1)"
      using node_reachable_ok [OF assms(2)] reachable_ok t unfolding same by fastforce
    have "length more < m" using assms(14) by (simp add: n Cons)
    from dialogue_blocks [OF assms(4,3) _ _ _ _ _ okB _ _ _ _ _ _ _ this, of ?A1 "nr_chain (nd_runtime A)" blk A' B'] d
    show ?thesis
      using assms(5-11) rA enc(3) quiet
      by (simp add: Cons asked_def Let_def history_def hB)
  qed
qed

theorem udp_sync_converges_witness:
  "\<exists>sv A B A' B'. history A = [sample_first_block] \<and> history B = [] \<and>
     dialogue sv sample_call (SocketV4 5 2) sv sample_call (SocketV4 5 1) 2 [TipRequest] (A, B) = (A', B') \<and>
     history B' = [sample_first_block] \<and> nr_chain (nd_runtime B') = sample_first_chain"
proof -
  obtain fs where r: "runtime_reachable (sample_platform True) sample_dw sample_write_js 0 sample_validators (sample_ahead, fs)"
    using sample_ahead_reachable by blast
  let ?sv = "sample_talker [TipRequest, TipResponse (tip_of_runtime sample_ahead), BlockRequest 1, BlockResponse 1 (Some sample_first_block)]"
    and ?A = "sample_peer (SocketV4 5 1) sample_ahead fs" and ?B = "sample_peer (SocketV4 5 2) sample_runtime fmempty"
  have h: "history ?A = [sample_first_block]" "history ?B = []" "nr_chain sample_ahead = sample_first_chain"
    "nr_blocks sample_ahead = [sample_first_block]"
    by (simp_all add: sample_ahead_def sample_runtime_sel)
  obtain A' B' where d: "dialogue ?sv sample_call (SocketV4 5 2) ?sv sample_call (SocketV4 5 1) 2 [TipRequest] (?A, ?B) = (A', B')"
    by fastforce
  have "history B' = history ?A \<and> nr_chain (nd_runtime B') = nr_chain (nd_runtime ?A) \<and> nd_runtime A' = nd_runtime ?A"
    by (rule udp_sync_converges [OF sample_peer_reachable [OF r] sample_peer_reachable [OF sample_validator_start] _ sample_can_talk
          _ _ _ _ _ _ _ _ _ _ d, where rest = "[sample_first_block]"])
      (simp_all add: h sample_runtime_sel path_file_name_def block_messages_def sample_codec_encodes)
  with d h show ?thesis by (intro exI [of _ ?sv] exI [of _ ?A] exI [of _ ?B] exI [of _ A'] exI [of _ B']) simp
qed

text \<open>C22. A new block reaches the peers, if no message is lost and no system call fails: when a node produces a
  block and the broadcast succeeds, the block holds its mempool and is sent to every peer it knows; a peer
  that knows the node, runs with the same validators and had the same history then has the same history and
  chain state again, whatever is in its mempool. Its mempool is empty then if it had no transactions beyond
  those of the producer. (One failing link is enough to keep the block from other peers, too:
  \<open>QC_Network.broadcast_reach\<close>.)\<close>

theorem block_propagates:
  assumes "node_reachable svA chain_id vs A" and "node_reachable svB chain_id vs B" and "vs \<noteq> []"
    and "can_talk svA clA a svB clB b" and "a |\<in>| ss_known_peers (nd_sync B)" and "b \<in> set (cl_peer_order clA (ss_known_peers (nd_sync A)))"
    and "history B = history A"
    and "savable (nr_state_path (nd_runtime B))" and "savable (nr_blocks_path (nd_runtime B))"
    and "produce_now svA clA A = (A', Ok (Some h))"
  shows "\<exists>blk. history A' = history A @ [blk] \<and> b_transactions blk = nr_pending (nd_runtime A) \<and>
    (b, SubmitBlock blk) \<in> set (drop (length (nd_sent A)) (nd_sent A')) \<and>
    (\<forall>B' r. deliver svB clB a (SubmitBlock blk) B = (B', r) \<longrightarrow>
       history B' = history A' \<and> nr_chain (nd_runtime B') = nr_chain (nd_runtime A') \<and>
       (ids_of (sv_platform svA) (nr_pending (nd_runtime B)) \<subseteq> ids_of (sv_platform svA) (nr_pending (nd_runtime A)) \<longrightarrow>
         nr_pending (nd_runtime B') = []))"
proof -
  have ok: "runtime_ok (sv_platform svA) (sv_decode_witness svA) chain_id vs (nd_runtime A)"
    "runtime_ok (sv_platform svA) (sv_decode_witness svA) chain_id vs (nd_runtime B)"
    using node_reachable_ok [OF assms(1)] node_reachable_ok [OF assms(2)] reachable_ok assms(4) unfolding can_talk_def by fastforce+
  show ?thesis
    by (rule produced_block_reaches [OF ok assms(3-10) node_reachable_quiet [OF assms(1)] node_reachable_quiet [OF assms(2)]]) blast
qed

theorem block_propagates_witness:
  "\<exists>sv A A' B b. produce_now sv sample_call A = (A', Ok (Some 1)) \<and> history A' = [b] \<and> nd_sent A' = [(SocketV4 5 1, SubmitBlock b)] \<and>
     history B = [] \<and> history (fst (deliver sv sample_call (SocketV4 5 2) (SubmitBlock b) B)) = [b]"
proof -
  from production_succeeds [OF reachable_ok [OF sample_validator_start [of sample_dw], unfolded fst_conv], where ts = 7 and rnd = 0 and seed = 1
      and sch = "dilithium2_scheme (sample_platform True)" and fs = fmempty, unfolded sample_runtime_sel, OF sample_turn _ _ _ _ _ _ sample_keygen
      sample_write_json]
  obtain rt' fs' b where p: "produce_one_block (sample_platform True) sample_dw sample_write_js io_ok io_ok None (Ok 7) 0 (sample_runtime, fmempty)
      = ((rt', fs'), Ok (Some (1, b)))" and b: "nr_blocks rt' = [b]"
    by (simp add: sample_genesis_sel sample_lib_correct default_registry_get sample_engine_sel path_file_name_def sample_runtime_sel) blast
  let ?sv = "sample_talker [SubmitBlock b]"
    and ?A = "sample_peer (SocketV4 5 1) sample_runtime fmempty" and ?B = "sample_peer (SocketV4 5 2) sample_runtime fmempty"
  let ?A' = "?A\<lparr>nd_runtime := rt', nd_files := fs', nd_sent := [(SocketV4 5 1, SubmitBlock b)]\<rparr>"
  have "known_peers ?sv sample_call (nd_sync ?A) = [SocketV4 5 1]" by (simp add: known_peers_def sample_call_def)
  moreover obtain f where "encode_wire (sv_bincode ?sv) (SubmitBlock b) = Ok f"
    using sample_codec_encodes [of "SubmitBlock b" "[NodeInfo sample_info, SubmitBlock b]"] by (auto simp: encode_wire_eq_Ok is_Ok_iff)
  ultimately have n: "produce_now ?sv sample_call ?A = (?A', Ok (Some 1))"
    using p
    by (simp add: produce_now_def op_then_def node_produce_one_block_def sample_call_def broadcast_block_def get_sync_def
        op_return_def send_block_def)
  obtain blk where "history ?A' = history ?A @ [blk]"
    "\<forall>B' r. deliver ?sv sample_call (SocketV4 5 2) (SubmitBlock blk) ?B = (B', r) \<longrightarrow>
       history B' = history ?A' \<and> nr_chain (nd_runtime B') = nr_chain (nd_runtime ?A')"
    using block_propagates [OF sample_peer_reachable [OF sample_validator_start] sample_peer_reachable [OF sample_validator_start] _
        sample_can_talk _ _ _ _ _ n, where b = "SocketV4 5 1" and a = "SocketV4 5 2"]
    by (auto simp: sample_call_def sample_runtime_sel path_file_name_def)
  moreover have "history ?A' = [b]" "history ?B = []" by (simp_all add: history_def b sample_runtime_sel)
  ultimately have "history (fst (deliver ?sv sample_call (SocketV4 5 2) (SubmitBlock b) ?B)) = [b]"
    by (cases "deliver ?sv sample_call (SocketV4 5 2) (SubmitBlock b) ?B") (auto simp: sample_runtime_sel)
  with n \<open>history ?A' = [b]\<close> \<open>history ?B = []\<close> show ?thesis by (intro exI [of _ ?sv] exI [of _ ?A] exI [of _ ?A'] exI [of _ ?B] exI [of _ b]) simp
qed

end
