(* ===== verification/QC_Cli.thy ===== *)
theory QC_Cli
  imports QC_Schedule
begin

text \<open>
  The command line of \<open>qcoin-node/src/main.rs\<close>: the commands with their options and default values, \<open>main\<close>,
  the whole of \<open>run_node\<close> from the options to a running program, and \<open>keygen\<close>. Parsing the arguments is left to
  the \<open>clap\<close> library: the model starts from the parsed command.
\<close>

section \<open>Commands\<close>

datatype scheme_arg = ArgDilithium2 | ArgFalcon512

fun scheme_of_arg :: "scheme_arg \<Rightarrow> signature_scheme_id" where
  "scheme_of_arg ArgDilithium2 = Dilithium2"
| "scheme_of_arg ArgFalcon512 = Falcon512"

record run_options =
  ro_interval_seconds :: u64
  ro_sync_interval_seconds :: u64
  ro_state_path :: path
  ro_blocks_path :: "path option"
  ro_peer :: "string list"
  ro_listen :: string
  ro_once :: bool
  ro_produce :: "bool option"
  ro_produce_empty_blocks :: bool
  ro_scheme :: scheme_arg
  ro_keypair_json :: "path option"
  ro_network_config_json :: "path option"
  ro_cluster_manifest_json :: "path option"
  ro_validator_public_key_hex :: "string list"

text \<open>The options that are not given.\<close>

definition run_defaults :: run_options where
  "run_defaults = \<lparr>ro_interval_seconds = 5, ro_sync_interval_seconds = 3,
     ro_state_path = [''data'', ''qcoin-chain-state.json''], ro_blocks_path = None, ro_peer = [],
     ro_listen = ''127.0.0.1:9700'', ro_once = False, ro_produce = None, ro_produce_empty_blocks = False,
     ro_scheme = ArgDilithium2, ro_keypair_json = None, ro_network_config_json = None, ro_cluster_manifest_json = None,
     ro_validator_public_key_hex = []\<rparr>"

datatype commands =
    Run run_options
  | SubmitTx (tx_json: path) (target: string) (timeout_seconds: u64)
  | Keygen scheme_arg

definition run_args_of :: "run_options \<Rightarrow> run_args" where
  "run_args_of opts =
     \<lparr>ra_state_path = ro_state_path opts, ra_blocks_path = ro_blocks_path opts, ra_peers = ro_peer opts,
      ra_listen = ro_listen opts, ra_produce = ro_produce opts, ra_produce_empty_blocks = ro_produce_empty_blocks opts,
      ra_scheme = scheme_of_arg (ro_scheme opts), ra_keypair_json = ro_keypair_json opts,
      ra_network_config_json = ro_network_config_json opts, ra_cluster_manifest_json = ro_cluster_manifest_json opts,
      ra_validator_public_key_hex = ro_validator_public_key_hex opts\<rparr>"

section \<open>Running a node\<close>

text \<open>What is printed once the runtime exists, and for the tip.\<close>

definition node_banner :: "node_start \<Rightarrow> string list" where
  "node_banner st =
     (let rt = ns_runtime st in
      [''Node signer pubkey (hex): '' @ nr_node_public_key_hex rt,
       ''Node role: '' @ (if nr_node_is_validator rt then (if ns_produce_enabled st then ''validator+producer'' else ''validator'')
          else ''observer''),
       ''Chain ID: '' @ show_nat (unat (sp_chain_id (ns_profile st)))] @
      (if sp_default_multicast_enabled (ns_profile st)
       then [''Using embedded IPv6 multicast discovery group '' @ ipv6_display (unat DEFAULT_IPV6_MULTICAST_GROUP)] else []) @
      [''Node state path: '' @ path_display (nr_state_path rt), ''Node blocks path: '' @ path_display (nr_blocks_path rt)])"

definition print_tip :: "node_runtime \<Rightarrow> string" where
  "print_tip rt = ''Height: '' @ show_nat (unat (cs_height (nr_chain rt))) @ '' Tip: '' @ to_hex (hash_slice (cs_tip_hash (nr_chain rt))) @
     '' State root: '' @ to_hex (hash_slice (cs_state_root (nr_chain rt)))"

text \<open>What a run meets outside the program, beside what its start and its network core meet: the codec of the
  wire, HTTP peers by their URL, the production of a single run, and the binding of the HTTP server.\<close>

record run_env =
  re_start :: start_env
  re_core :: core_env
  re_bincode :: bincode
  re_http_peer :: "string \<Rightarrow> http_peer \<times> (u64 \<Rightarrow> io_outcome \<times> io_outcome)"
  re_produce_io :: "io_outcome \<times> io_outcome"
  re_unix_time :: "(string, u64) res"
  re_rnd :: nat
  re_http_bind :: "(string, unit) res"

text \<open>A run stops with an error message, ends after \<open>--once\<close> with the lines it printed, or serves.\<close>

datatype node_run =
    RunPanics
  | RunFails file_system string
  | RunEnds file_system node_runtime "string list"
  | RunServes "string list" node_start core_config service "nat list" core

definition run_node :: "platform \<Rightarrow> (bytes \<Rightarrow> input_witness option) \<Rightarrow> run_env \<Rightarrow> run_options \<Rightarrow> file_system \<Rightarrow> node_run" where
  "run_node pf dw env opts fs =
     (let js = se_json (re_start env); bc = re_bincode env in
      case prepare_node pf dw (re_start env) (run_args_of opts) fs of
        (fs', Err e) \<Rightarrow> RunFails fs' e
      | (fs', Panic) \<Rightarrow> RunPanics
      | (fs', Ok st) \<Rightarrow>
          if ro_once opts then
            (case run_once pf dw js bc (map (re_http_peer env) (ns_peers st)) (ns_produce_enabled st) (fst (re_produce_io env))
                (snd (re_produce_io env)) (re_unix_time env) (re_rnd env) (ns_runtime st, fs') of
               None \<Rightarrow> RunPanics
             | Some (rt, fs'') \<Rightarrow> RunEnds fs'' rt (node_banner st @ [print_tip rt]))
          else
            (case
               and_then (map_err (\<lambda>e. ''Failed to bind HTTP server on '' @ ro_listen opts @ '': '' @ e) (re_http_bind env)) (\<lambda>_.
               resolve_peer_addrs (se_lookup (re_start env)) (ns_peers st) (ns_bind_addr st)) of
               Err e \<Rightarrow> RunFails fs' e
             | Panic \<Rightarrow> RunPanics
             | Ok peer_addrs \<Rightarrow>
                 (let config = node_core_config (ro_interval_seconds opts) (ro_sync_interval_seconds opts) st peer_addrs in
                  case start_network_core pf dw js bc (re_core env) config of
                    (p, Err e) \<Rightarrow> RunFails fs' e
                  | (p, Panic) \<Rightarrow> RunPanics
                  | (p, Ok (sv, fds)) \<Rightarrow>
                      RunServes (node_banner st @ [''HTTP API listening on http://'' @ ro_listen opts]) st config sv fds
                        (core_new \<lparr>nd_runtime = ns_runtime st, nd_files = fs', nd_sync = sync_state_new, nd_sent = [], nd_others = []\<rparr> p))))"

section \<open>Key generation\<close>

text \<open>\<open>keygen\<close>: what it prints, with the newline of \<open>println!\<close>; \<open>None\<close> is a panic of one of its \<open>expect\<close>s.\<close>

definition generate_keypair :: "platform \<Rightarrow> keypair_codec \<Rightarrow> scheme_arg \<Rightarrow> nat \<Rightarrow> string option" where
  "generate_keypair pf kj scheme seed =
     (case registry_get (default_registry pf) (scheme_of_arg scheme) of
        None \<Rightarrow> None
      | Some selected \<Rightarrow>
          (case ps_keygen selected seed of
             Ok (pk, sk) \<Rightarrow> (case kj_to kj (keypair_output_of pk sk) of Ok json \<Rightarrow> Some (json @ [CHR 0x0A]) | _ \<Rightarrow> None)
           | _ \<Rightarrow> None))"

section \<open>Main\<close>

record submit_env =
  su_transaction_from :: "string \<Rightarrow> (string, transaction) res"
  su_bind_socket :: "socket_addr \<Rightarrow> (string, unit) res"
  su_set_read_timeout :: "u64 \<Rightarrow> (string, unit) res"
  su_send :: "socket_addr \<Rightarrow> bytes \<Rightarrow> (string, unit) res"
  su_inbox :: "(socket_addr \<times> bytes) list"
  su_recv_error :: string

datatype main_outcome =
    MainRun node_run
  | MainSubmit "(socket_addr \<times> bytes) option" "(string, submit_transaction_response) res"
  | MainKeygen "string option"

definition main_command ::
  "platform \<Rightarrow> (bytes \<Rightarrow> input_witness option) \<Rightarrow> run_env \<Rightarrow> submit_env \<Rightarrow> file_system \<Rightarrow> commands \<Rightarrow> main_outcome" where
  "main_command pf dw env submit fs command =
     (case command of
        Run opts \<Rightarrow> MainRun (run_node pf dw env opts fs)
      | SubmitTx json to timeout \<Rightarrow>
          (case submit_transaction_via_udp (su_transaction_from submit) (re_bincode env) (se_lookup (re_start env)) (se_reads (re_start env))
              fs json to (su_bind_socket submit) (su_set_read_timeout submit (max timeout 1)) (su_send submit) (su_inbox submit)
              (su_recv_error submit) of
             (sent, r) \<Rightarrow> MainSubmit sent r)
      | Keygen scheme \<Rightarrow> MainKeygen (generate_keypair pf (se_keypair_json (re_start env)) scheme (se_seed (re_start env))))"

section \<open>Facts\<close>

lemma serving_start:
  assumes "run_node pf dw env opts fs = RunServes lines st config sv fds c"
  obtains fs' p where "prepare_node pf dw (re_start env) (run_args_of opts) fs = (fs', Ok st)" "\<not> ro_once opts"
    "start_network_core pf dw (se_json (re_start env)) (re_bincode env) (re_core env) config = (p, Ok (sv, fds))"
    "\<exists>peers. resolve_peer_addrs (se_lookup (re_start env)) (ns_peers st) (ns_bind_addr st) = Ok peers \<and>
       config = node_core_config (ro_interval_seconds opts) (ro_sync_interval_seconds opts) st peers"
    "c = core_new \<lparr>nd_runtime = ns_runtime st, nd_files = fs', nd_sync = sync_state_new, nd_sent = [], nd_others = []\<rparr> p"
  using assms by (auto simp: run_node_def Let_def res_simps split: prod.splits res.splits if_splits option.splits)

lemma single_run:
  assumes "run_node pf dw env opts fs = RunEnds fs'' rt lines"
  obtains fs' st where "prepare_node pf dw (re_start env) (run_args_of opts) fs = (fs', Ok st)" "ro_once opts"
    "(runtime_step pf dw (se_json (re_start env)))\<^sup>*\<^sup>* (ns_runtime st, fs') (rt, fs'')" "lines = node_banner st @ [print_tip rt]"
  using assms by (auto simp: run_node_def Let_def split: prod.splits res.splits if_splits option.splits dest!: run_once_run)

lemma prepared_reachable:
  assumes "prepare_node pf dw env args fs = (fs', Ok st)"
  shows "runtime_reachable pf dw (se_json env) (sp_chain_id (ns_profile st)) (ns_validators st) (ns_runtime st, fs')"
proof -
  obtain pk sk v e fs1 where "start_runtime pf dw (se_json env) (se_reads env) (se_state_io env) (ra_state_path args)
       (case ra_blocks_path args of Some p \<Rightarrow> p | None \<Rightarrow> blocks_path_from_state_path (ra_state_path args))
       (sp_chain_id (ns_profile st)) (ns_validators st) pk sk v e fs1 = Some (ns_runtime st, fs')"
    by (rule prepare_node_starts [OF assms])
  then show ?thesis by (rule reach_start)
qed

section \<open>A sample run\<close>

definition sample_core_env :: core_env where
  "sample_core_env = \<lparr>en_port = Ok (), en_init = (\<lambda>config. Ok \<lparr>nw_binds = Ok [], nw_local_addrs = Ok [], nw_socket_fds = Ok [3]\<rparr>),
     en_default_extra = [], en_register_fault = (\<lambda>i. None), en_defer_fault = (\<lambda>j. None), en_set_handler = Ok (), en_now = 0\<rparr>"

definition sample_run_env :: run_env where
  "sample_run_env = \<lparr>re_start = sample_start_env, re_core = sample_core_env, re_bincode = sample_bincode,
     re_http_peer = (\<lambda>url. (\<lparr>hp_node_info = Err ''no'', hp_tip = Err ''no'', hp_block = (\<lambda>h. Err ''no'')\<rparr>, \<lambda>h. (io_ok, io_ok))),
     re_produce_io = (io_ok, io_ok), re_unix_time = Ok 7, re_rnd = 0, re_http_bind = Ok ()\<rparr>"

definition sample_options :: run_options where
  "sample_options = run_defaults\<lparr>ro_state_path := [''d'', ''s''], ro_blocks_path := Some [''d'', ''b''], ro_produce_empty_blocks := True\<rparr>"

lemma sample_run:
  "\<exists>lines config sv c. run_node (sample_platform True) sample_dw sample_run_env sample_options fmempty
     = RunServes lines sample_node_start config sv [3] c"
proof -
  have "run_args_of sample_options = sample_args"
    by (simp add: run_args_of_def sample_options_def run_defaults_def sample_args_def)
  then show ?thesis
    by (simp add: run_node_def sample_run_env_def sample_prepares sample_options_def run_defaults_def resolve_peer_addrs_def
        sample_node_start_def start_network_core_def sample_core_env_def build_network_with_multicast_def start_registered_def
        start_service_def proactor_new_def start_jobs_def schedule_defs pr_then_def pr_err_def node_core_config_def
        install_shutdown_handler_def)
qed

section \<open>Properties\<close>

text \<open>C10. From the command line to every later state: when \<open>run_node\<close> gets as far as serving, its state, and
  every state the program reaches from it by timers, sockets, HTTP requests and signals, is a reachable state
  of the node machine for the chain id and the validators of its profile. All its sockets are registered, the
  announcement, the request for tips and, if it produces, the production are due at once, and the intervals
  are at least a second.\<close>

theorem program_runs_node:
  assumes "run_node pf dw env opts fs = RunServes lines st config sv fds c" and "(core_step sv config idle)\<^sup>*\<^sup>* c c'"
  shows "node_reachable sv (sp_chain_id (ns_profile st)) (ns_validators st) (co_node c') \<and>
    core_reachable sv config idle False fds (en_now (re_core env)) (co_node c) c' \<and>
    pr_readers (co_proactor c') = tokens 0 fds \<and>
    (\<forall>j. times_of j (pr_timers (co_proactor c)) =
       (if j \<in> {AnnouncePresence, RequestTips} \<or> j = ProduceBlock \<and> ns_produce_enabled st then [en_now (re_core env)] else [])) \<and>
    1 \<le> cc_sync_interval config \<and> 1 \<le> cc_produce_interval config"
proof -
  obtain fs' p where s: "prepare_node pf dw (re_start env) (run_args_of opts) fs = (fs', Ok st)"
    "start_network_core pf dw (se_json (re_start env)) (re_bincode env) (re_core env) config = (p, Ok (sv, fds))"
    "\<exists>peers. resolve_peer_addrs (se_lookup (re_start env)) (ns_peers st) (ns_bind_addr st) = Ok peers \<and>
       config = node_core_config (ro_interval_seconds opts) (ro_sync_interval_seconds opts) st peers"
    "c = core_new \<lparr>nd_runtime = ns_runtime st, nd_files = fs', nd_sync = sync_state_new, nd_sent = [], nd_others = []\<rparr> p"
    by (rule serving_start [OF assms(1)])
  have c: "core_reachable sv config idle False fds (en_now (re_core env)) (co_node c) c"
    and "\<exists>addrs. start_service pf dw (se_json (re_start env)) (re_bincode env) config addrs = Ok sv"
    using start_network_core_reachable [OF s(2), of idle "co_node c"] by (simp_all add: s(4) core_new_def)
  then have sv: "sv_platform sv = pf" "sv_decode_witness sv = dw" "sv_json sv = se_json (re_start env)"
    by (auto simp: start_service_def res_simps)
  have "node_reachable sv (sp_chain_id (ns_profile st)) (ns_validators st) (co_node c)"
    unfolding s(4) core_new_def core.simps
    by (rule node_starts) (use prepared_reachable [OF s(1)] sv in simp)
  then have "node_reachable sv (sp_chain_id (ns_profile st)) (ns_validators st) (co_node c')"
    using node_run_reachable [OF conjunct1 [OF core_steps_run [OF assms(2) node_reachable_quiet]]] by blast
  moreover have c': "core_reachable sv config idle False fds (en_now (re_core env)) (co_node c) c'"
    using lost_steps [OF c assms(2)] by blast
  moreover note core_reachable_readers [OF c']
  moreover have "1 \<le> cc_sync_interval config \<and> 1 \<le> cc_produce_interval config" "cc_produce config = ns_produce_enabled st"
    using s(3) by (auto simp: node_core_config_def)
  moreover have "\<exists>js. distinct js \<and> set js = enabled_jobs config False \<and> pr_timers p = map (Pair (en_now (re_core env))) js"
    using core_start_timers [OF s(2)] by (simp add: started_def)
  ultimately show ?thesis
    by (auto simp: s(4) core_new_def times_of_distinct enabled_jobs_def)
qed

theorem program_runs_node_witness:
  "\<exists>lines config sv c. run_node (sample_platform True) sample_dw sample_run_env sample_options fmempty
     = RunServes lines sample_node_start config sv [3] c \<and> node_reachable sv 0 [] (co_node c) \<and>
     times_of ProduceBlock (pr_timers (co_proactor c)) = [0]"
proof -
  from sample_run obtain lines config sv c where
    r: "run_node (sample_platform True) sample_dw sample_run_env sample_options fmempty
      = RunServes lines sample_node_start config sv [3] c" by blast
  from program_runs_node [OF r rtranclp.rtrancl_refl] r show ?thesis
    by (fastforce simp: sample_node_start_def sample_run_env_def sample_core_env_def)
qed

text \<open>A single run with \<open>--once\<close> leaves a reachable runtime with its files, and prints its tip last.\<close>

lemma single_run_reachable:
  assumes "run_node pf dw env opts fs = RunEnds fs'' rt lines"
  shows "(\<exists>chain_id vs. runtime_reachable pf dw (se_json (re_start env)) chain_id vs (rt, fs'')) \<and> last lines = print_tip rt"
proof -
  obtain fs' st where s: "prepare_node pf dw (re_start env) (run_args_of opts) fs = (fs', Ok st)"
    "(runtime_step pf dw (se_json (re_start env)))\<^sup>*\<^sup>* (ns_runtime st, fs') (rt, fs'')" "lines = node_banner st @ [print_tip rt]"
    by (rule single_run [OF assms])
  from reachable_run [OF s(2) prepared_reachable [OF s(1)]] s(3) show ?thesis by auto
qed

text \<open>C28. Keys from \<open>keygen\<close> work: when its output is put into a file, a node that is run with this keypair
  file and the same scheme, at any later time and with any randomness, uses exactly the generated keys and
  leaves the file alone, if it can read the file; run with another scheme it refuses the file.\<close>

theorem keygen_output_loads:
  assumes "generate_keypair pf kj scheme seed = Some out" and "keypair_codec_ok kj" and "fmlookup fs p = Some out"
    and "se_keypair_json env = kj" and "se_reads env = no_read_faults" and "ra_keypair_json args = Some p"
  shows "\<exists>sch pk sk. registry_get (default_registry pf) (scheme_of_arg scheme) = Some sch \<and> ps_keygen sch seed = Ok (pk, sk) \<and>
    (if ra_scheme args = scheme_of_arg scheme then node_keys pf env args fs = (fs, Ok (pk, sk))
     else \<exists>e. node_keys pf env args fs = (fs, Err e))"
proof -
  from assms(1) obtain sch pk sk json where sch: "registry_get (default_registry pf) (scheme_of_arg scheme) = Some sch"
    "ps_keygen sch seed = Ok (pk, sk)" and json: "kj_to kj (keypair_output_of pk sk) = Ok json" "out = json @ [CHR 0x0A]"
    by (auto simp: generate_keypair_def split: option.splits res.splits prod.splits)
  obtain pkb skb where keys: "public_key_new pf (scheme_of_arg scheme) pkb = Ok pk" "private_key_new pf (scheme_of_arg scheme) skb = Ok sk"
    "\<forall>n. scheme_of_arg scheme \<noteq> Unknown n"
    by (rule keygen_keys [OF sch])
  have "kj_from kj out = Ok (keypair_output_of pk sk)" using assms(2) json by (simp add: keypair_codec_ok_def)
  then have "node_keys pf env args fs = (fs, map_err (\<lambda>e. ''Failed to load keypair '' @ path_display p @ '': '' @ e)
      (keys_of_keypair_output pf (keypair_output_of pk sk) (ra_scheme args)))"
    using assms(3-6) by (simp add: node_keys_def load_or_create_keypair_from_json_def load_keypair_from_json_def read_to_string_def
        no_read_faults_def)
  with keypair_roundtrip [OF keys] sch show ?thesis by (cases "ra_scheme args = scheme_of_arg scheme") fastforce+
qed

theorem keygen_output_loads_witness:
  "\<exists>kj json. generate_keypair (sample_platform True) kj ArgDilithium2 1 = Some json \<and>
     node_keys (sample_platform True) (sample_start_env\<lparr>se_keypair_json := kj, se_seed := 77\<rparr>) (sample_args\<lparr>ra_keypair_json := Some [''d'', ''k'']\<rparr>)
       (fmupd [''d'', ''k''] json fmempty)
     = (fmupd [''d'', ''k''] json fmempty, Ok (\<lparr>pk_scheme = Dilithium2, pk_bytes = [1]\<rparr>, \<lparr>sk_scheme = Dilithium2, sk_bytes = [1]\<rparr>))"
proof -
  define k where "k = keypair_output_of \<lparr>pk_scheme = Dilithium2, pk_bytes = [1]\<rparr> \<lparr>sk_scheme = Dilithium2, sk_bytes = [1]\<rparr>"
  define kj where "kj = \<lparr>kj_to = (\<lambda>x. if x = k then Ok ''keys'' else Err ''no''), kj_from = (\<lambda>t. if t = ''keys'' \<or> t = ''keys'' @ [CHR 0x0A] then Ok k else Err ''no'')\<rparr>"
  have ok: "keypair_codec_ok kj" by (simp add: keypair_codec_ok_def kj_def)
  have sch: "registry_get (default_registry (sample_platform True)) (scheme_of_arg ArgDilithium2) = Some (dilithium2_scheme (sample_platform True))"
    "ps_keygen (dilithium2_scheme (sample_platform True)) 1 = Ok (\<lparr>pk_scheme = Dilithium2, pk_bytes = [1]\<rparr>, \<lparr>sk_scheme = Dilithium2, sk_bytes = [1]\<rparr>)"
    by (simp_all add: default_registry_get dilithium2_scheme_def dilithium2_keygen_def sample_lib_def crypto_new_defs validate_key_size_def)
  then have g: "generate_keypair (sample_platform True) kj ArgDilithium2 1 = Some (''keys'' @ [CHR 0x0A])"
    by (simp add: generate_keypair_def kj_def k_def)
  from keygen_output_loads [OF g ok, of "fmupd [''d'', ''k''] (''keys'' @ [CHR 0x0A]) fmempty" "[''d'', ''k'']" "sample_start_env\<lparr>se_keypair_json := kj, se_seed := 77\<rparr>"
      "sample_args\<lparr>ra_keypair_json := Some [''d'', ''k'']\<rparr>"] g sch
  show ?thesis by (auto simp: sample_start_env_def sample_args_def)
qed

end
