(* ===== verification/QC_LedgerTests.thy ===== *)
theory QC_LedgerTests
  imports QC_Consensus
begin

text \<open>
  The test module of \<open>qcoin-ledger/src/lib.rs\<close>, test by test, on the model: a check of the definitions of
  \<open>QC_Ledger\<close> against what the authors expect of the code, for every platform instead of one.

  A test is an \<open>option\<close>: \<open>None\<close> is a failing \<open>expect\<close>, \<open>Some b\<close> tells whether the assertions hold. \<open>ew\<close> and \<open>dw\<close>
  are \<open>bincode::serialize\<close> and \<open>bincode::deserialize\<close> of a witness. A test that compares hashes of different
  data has the hypothesis that the hash tells just these apart; the last section shows that a hash can.
\<close>

section \<open>Fixtures\<close>

definition TEST_CHAIN_ID :: u32 where
  "TEST_CHAIN_ID = 0"

definition simple_script :: script where
  "simple_script = Script [Nop]"

definition script_hash :: "platform \<Rightarrow> script \<Rightarrow> hash256 option" where
  "script_hash pf s = map_option (pf_blake3 pf) (encode_script s)"

definition build_witness :: "(input_witness \<Rightarrow> bytes) \<Rightarrow> script \<Rightarrow> bytes option \<Rightarrow> bytes" where
  "build_witness ew s metadata = ew \<lparr>iw_script = s, iw_metadata = metadata\<rparr>"

definition simple_asset_id :: asset_id where
  "simple_asset_id = AssetId (hash_fill 1)"

definition utxo_with_metadata :: "platform \<Rightarrow> bytes option \<Rightarrow> tx_output option" where
  "utxo_with_metadata pf metadata = do {
     owner \<leftarrow> script_hash pf simple_script;
     Some \<lparr>out_owner_script_hash = owner, out_assets = [\<lparr>aa_asset_id = simple_asset_id, aa_amount = 100\<rparr>],
       out_metadata_hash = map_option (pf_blake3 pf) metadata\<rparr>
   }"

definition simple_output :: "platform \<Rightarrow> tx_output option" where
  "simple_output pf = utxo_with_metadata pf None"

definition tracked :: "tx_output \<Rightarrow> tracked_output" where
  "tracked out = \<lparr>tr_output = out, tr_created_height = 0\<rparr>"

definition simple_utxo :: "platform \<Rightarrow> tracked_output option" where
  "simple_utxo pf = map_option tracked (simple_output pf)"

definition insert_utxo :: "utxo_key \<Rightarrow> tracked_output \<Rightarrow> ledger_state \<Rightarrow> ledger_state" where
  "insert_utxo key out L = L\<lparr>ls_utxos := fmupd key out (ls_utxos L)\<rparr>"

definition insert_issuer_utxo :: "platform \<Rightarrow> script \<Rightarrow> utxo_key \<Rightarrow> ledger_state \<Rightarrow> ledger_state option" where
  "insert_issuer_utxo pf s key L = do {
     owner \<leftarrow> script_hash pf s;
     Some (insert_utxo key \<lparr>tr_output = \<lparr>out_owner_script_hash = owner, out_assets = [], out_metadata_hash = None\<rparr>,
       tr_created_height = 0\<rparr> L)
   }"

definition build_create_asset_transaction ::
  "platform \<Rightarrow> (input_witness \<Rightarrow> bytes) \<Rightarrow> script \<Rightarrow> hash256 \<Rightarrow> hash256 \<Rightarrow> u128 \<Rightarrow> u128 option \<Rightarrow> u8 \<Rightarrow> u32 \<Rightarrow> utxo_key
     \<Rightarrow> (asset_definition \<times> transaction) option" where
  "build_create_asset_transaction pf ew issuer_script destination_script_hash metadata_root initial_supply max_supply decimals
       chain_id issuer_key = do {
     issuer_script_hash \<leftarrow> script_hash pf issuer_script;
     let (d, tx) = create_asset_transaction pf issuer_script_hash Fungible metadata_root max_supply decimals initial_supply
           destination_script_hash chain_id;
     Some (d, tx\<lparr>tx_core := (tx_core tx)\<lparr>tc_inputs := tc_inputs (tx_core tx) @
            [\<lparr>ti_tx_id = uk_tx_id issuer_key, ti_index = uk_index issuer_key\<rparr>]\<rparr>,
          tx_witness := (tx_witness tx)\<lparr>tw_inputs := tw_inputs (tx_witness tx) @ [build_witness ew issuer_script None]\<rparr>\<rparr>)
   }"

text \<open>A transfer, as the tests write it out; and applying a transaction that should succeed.\<close>

definition transfer :: "transaction_input list \<Rightarrow> tx_output list \<Rightarrow> bytes list \<Rightarrow> transaction" where
  "transfer inputs outputs witnesses =
     \<lparr>tx_core = \<lparr>tc_kind = Transfer, tc_inputs = inputs, tc_outputs = outputs\<rparr>, tx_witness = \<lparr>tw_inputs = witnesses\<rparr>\<rparr>"

definition applied_ledger :: "ledger_state \<times> (ledger_error, unit) res \<Rightarrow> ledger_state option" where
  "applied_ledger = (\<lambda>(L, r). case r of Ok u \<Rightarrow> Some L | _ \<Rightarrow> None)"

section \<open>Creating assets\<close>

text \<open>The first lines of each test that creates an asset: a ledger with an output of the issuer, the definition and the
  transaction.\<close>

definition issuing ::
  "platform \<Rightarrow> (input_witness \<Rightarrow> bytes) \<Rightarrow> hash256 \<Rightarrow> hash256 \<Rightarrow> u128 \<Rightarrow> u128 option \<Rightarrow> u8
     \<Rightarrow> (ledger_state \<times> asset_definition \<times> transaction) option" where
  "issuing pf ew issuer_tx_id metadata_root initial_supply max_supply decimals = do {
     destination \<leftarrow> script_hash pf simple_script;
     L \<leftarrow> insert_issuer_utxo pf simple_script (UtxoKey issuer_tx_id 0) default_ledger_state;
     (d, tx) \<leftarrow> build_create_asset_transaction pf ew simple_script destination metadata_root initial_supply max_supply decimals
       TEST_CHAIN_ID (UtxoKey issuer_tx_id 0);
     Some (L, d, tx)
   }"

definition spend_minted_tx :: "platform \<Rightarrow> (input_witness \<Rightarrow> bytes) \<Rightarrow> hash256 \<Rightarrow> asset_amount list \<Rightarrow> transaction option" where
  "spend_minted_tx pf ew minted_tx_id assets = do {
     destination \<leftarrow> script_hash pf simple_script;
     Some (transfer [\<lparr>ti_tx_id = minted_tx_id, ti_index = 0\<rparr>]
       [\<lparr>out_owner_script_hash = destination, out_assets = assets, out_metadata_hash = None\<rparr>]
       [build_witness ew simple_script None])
   }"

definition create_asset_transaction_mints_supply_and_is_spendable ::
  "platform \<Rightarrow> (bytes \<Rightarrow> input_witness option) \<Rightarrow> (input_witness \<Rightarrow> bytes) \<Rightarrow> bool option" where
  "create_asset_transaction_mints_supply_and_is_spendable pf dw ew = do {
     (L, d, create_tx) \<leftarrow> issuing pf ew (hash_fill 1) (hash_fill 22) 75 (Some 1000) 2;
     destination \<leftarrow> script_hash pf simple_script;
     L1 \<leftarrow> applied_ledger (apply_transaction pf dw (default_script_engine pf) L create_tx 0 TEST_CHAIN_ID);
     create_id \<leftarrow> tx_id pf create_tx;
     minted_output \<leftarrow> fmlookup (ls_utxos L1) (UtxoKey create_id 0);
     minted_asset \<leftarrow> list_get (out_assets (tr_output minted_output)) 0;
     spend_tx \<leftarrow> spend_minted_tx pf ew create_id (out_assets (tr_output minted_output));
     L2 \<leftarrow> applied_ledger (apply_transaction pf dw (default_script_engine pf) L1 spend_tx 1 TEST_CHAIN_ID);
     spend_id \<leftarrow> tx_id pf spend_tx;
     Some (out_owner_script_hash (tr_output minted_output) = destination \<and>
       length (out_assets (tr_output minted_output)) = 1 \<and>
       aa_asset_id minted_asset = derive_asset_id pf d TEST_CHAIN_ID \<and> aa_amount minted_asset = 75 \<and>
       fmlookup (ls_utxos L2) (UtxoKey create_id 0) = None \<and> fmlookup (ls_utxos L2) (UtxoKey spend_id 0) \<noteq> None)
   }"

text \<open>An assignment to a field of \<open>create_tx.core.outputs[0].assets[0]\<close>.\<close>

definition change_first_asset :: "(asset_amount \<Rightarrow> asset_amount) \<Rightarrow> transaction \<Rightarrow> transaction option" where
  "change_first_asset f tx = (case tc_outputs (tx_core tx) of
     out # outs \<Rightarrow> (case out_assets out of
       a # assets \<Rightarrow> Some (tx\<lparr>tx_core := (tx_core tx)\<lparr>tc_outputs := out\<lparr>out_assets := f a # assets\<rparr> # outs\<rparr>\<rparr>)
     | [] \<Rightarrow> None)
   | [] \<Rightarrow> None)"

definition create_asset_rejects_wrong_asset_id ::
  "platform \<Rightarrow> (bytes \<Rightarrow> input_witness option) \<Rightarrow> (input_witness \<Rightarrow> bytes) \<Rightarrow> bool option" where
  "create_asset_rejects_wrong_asset_id pf dw ew = do {
     (L, d, tx) \<leftarrow> issuing pf ew (hash_fill 2) (hash_fill 1) 10 (Some 100) 0;
     create_tx \<leftarrow> change_first_asset (\<lambda>a. a\<lparr>aa_asset_id := AssetId (hash_fill 9)\<rparr>) tx;
     let (L', result) = apply_transaction pf dw (default_script_engine pf) L create_tx 0 TEST_CHAIN_ID;
     Some (result = Err AssetConservationViolation \<and> fmlookup (ls_assets L') (derive_asset_id pf d TEST_CHAIN_ID) = None)
   }"

definition create_asset_rejects_initial_supply_mismatch ::
  "platform \<Rightarrow> (bytes \<Rightarrow> input_witness option) \<Rightarrow> (input_witness \<Rightarrow> bytes) \<Rightarrow> bool option" where
  "create_asset_rejects_initial_supply_mismatch pf dw ew = do {
     (L, d, tx) \<leftarrow> issuing pf ew (hash_fill 4) (hash_fill 3) 10 None 0;
     create_tx \<leftarrow> change_first_asset (\<lambda>a. a\<lparr>aa_amount := 5\<rparr>) tx;
     let (L', result) = apply_transaction pf dw (default_script_engine pf) L create_tx 0 TEST_CHAIN_ID;
     Some (result = Err AssetConservationViolation)
   }"

definition create_asset_rejects_additional_asset_minting ::
  "platform \<Rightarrow> (bytes \<Rightarrow> input_witness option) \<Rightarrow> (input_witness \<Rightarrow> bytes) \<Rightarrow> bool option" where
  "create_asset_rejects_additional_asset_minting pf dw ew = do {
     (L, d, tx) \<leftarrow> issuing pf ew (hash_fill 6) (hash_fill 5) 10 None 0;
     destination \<leftarrow> script_hash pf simple_script;
     let create_tx = tx\<lparr>tx_core := (tx_core tx)\<lparr>tc_outputs := tc_outputs (tx_core tx) @
       [\<lparr>out_owner_script_hash = destination, out_assets = [\<lparr>aa_asset_id = AssetId (hash_fill 7), aa_amount = 1\<rparr>],
         out_metadata_hash = None\<rparr>]\<rparr>\<rparr>;
     let (L', result) = apply_transaction pf dw (default_script_engine pf) L create_tx 0 TEST_CHAIN_ID;
     Some (result = Err AssetConservationViolation)
   }"

definition create_asset_rejects_duplicate_definition ::
  "platform \<Rightarrow> (bytes \<Rightarrow> input_witness option) \<Rightarrow> (input_witness \<Rightarrow> bytes) \<Rightarrow> bool option" where
  "create_asset_rejects_duplicate_definition pf dw ew = do {
     (L, d, create_tx) \<leftarrow> issuing pf ew (hash_fill 9) (hash_fill 8) 10 None 0;
     L1 \<leftarrow> applied_ledger (apply_transaction pf dw (default_script_engine pf) L create_tx 0 TEST_CHAIN_ID);
     let second_tx = create_tx\<lparr>tx_core := (tx_core create_tx)\<lparr>tc_inputs := []\<rparr>,
       tx_witness := (tx_witness create_tx)\<lparr>tw_inputs := []\<rparr>\<rparr>;
     let (L', result) = apply_transaction pf dw (default_script_engine pf) L1 second_tx 0 TEST_CHAIN_ID;
     Some (result = Err AssetAlreadyExists \<and> fmlookup (ls_assets L') (derive_asset_id pf d TEST_CHAIN_ID) \<noteq> None)
   }"

definition create_asset_rejects_supply_over_maximum ::
  "platform \<Rightarrow> (bytes \<Rightarrow> input_witness option) \<Rightarrow> (input_witness \<Rightarrow> bytes) \<Rightarrow> bool option" where
  "create_asset_rejects_supply_over_maximum pf dw ew = do {
     (L, d, create_tx) \<leftarrow> issuing pf ew (hash_fill 11) (hash_fill 10) 20 (Some 10) 0;
     let (L', result) = apply_transaction pf dw (default_script_engine pf) L create_tx 0 TEST_CHAIN_ID;
     Some (result = Err MaxSupplyExceeded)
   }"

definition create_asset_requires_issuer_authorization :: "platform \<Rightarrow> (bytes \<Rightarrow> input_witness option) \<Rightarrow> bool option" where
  "create_asset_requires_issuer_authorization pf dw = do {
     destination \<leftarrow> script_hash pf simple_script;
     let (d, create_tx) = create_asset_transaction pf (hash_fill 13) Fungible (hash_fill 12) (Some 1000) 0 5 destination TEST_CHAIN_ID;
     let (L', result) = apply_transaction pf dw (default_script_engine pf) default_ledger_state create_tx 0 TEST_CHAIN_ID;
     Some (result = Err MissingIssuerAuthorization \<and> fmlookup (ls_assets L') (derive_asset_id pf d TEST_CHAIN_ID) = None)
   }"

section \<open>Transfers\<close>

definition test_missing_input_fails :: "platform \<Rightarrow> (bytes \<Rightarrow> input_witness option) \<Rightarrow> bool option" where
  "test_missing_input_fails pf dw = do {
     let tx = transfer [\<lparr>ti_tx_id = hash_fill 9, ti_index = 0\<rparr>] [] (tw_inputs default_transaction_witness);
     let (L', result) = apply_transaction pf dw (default_script_engine pf) default_ledger_state tx 0 TEST_CHAIN_ID;
     Some (result = Err MissingInput)
   }"

definition test_asset_conservation_violated ::
  "platform \<Rightarrow> (bytes \<Rightarrow> input_witness option) \<Rightarrow> (input_witness \<Rightarrow> bytes) \<Rightarrow> bool option" where
  "test_asset_conservation_violated pf dw ew = do {
     utxo \<leftarrow> simple_utxo pf;
     owner \<leftarrow> script_hash pf simple_script;
     let L = insert_utxo (UtxoKey (hash_fill 7) 0) utxo default_ledger_state;
     let tx = transfer [\<lparr>ti_tx_id = hash_fill 7, ti_index = 0\<rparr>]
       [\<lparr>out_owner_script_hash = owner, out_assets = [\<lparr>aa_asset_id = simple_asset_id, aa_amount = 200\<rparr>], out_metadata_hash = None\<rparr>]
       [build_witness ew simple_script None];
     let (L', result) = apply_transaction pf dw (default_script_engine pf) L tx 0 TEST_CHAIN_ID;
     Some (result = Err AssetConservationViolation)
   }"

definition test_double_spend_rejected_within_transaction ::
  "platform \<Rightarrow> (bytes \<Rightarrow> input_witness option) \<Rightarrow> (input_witness \<Rightarrow> bytes) \<Rightarrow> bool option" where
  "test_double_spend_rejected_within_transaction pf dw ew = do {
     utxo \<leftarrow> simple_utxo pf;
     out \<leftarrow> simple_output pf;
     let L = insert_utxo (UtxoKey (hash_fill 5) 0) utxo default_ledger_state;
     let tx = transfer [\<lparr>ti_tx_id = hash_fill 5, ti_index = 0\<rparr>, \<lparr>ti_tx_id = hash_fill 5, ti_index = 0\<rparr>] [out]
       [build_witness ew simple_script None, build_witness ew simple_script None];
     let (L', result) = apply_transaction pf dw (default_script_engine pf) L tx 0 TEST_CHAIN_ID;
     Some (result = Err DoubleSpend \<and> fmlookup (ls_utxos L') (UtxoKey (hash_fill 5) 0) \<noteq> None)
   }"

definition test_script_hash_mismatch_rejected ::
  "platform \<Rightarrow> (bytes \<Rightarrow> input_witness option) \<Rightarrow> (input_witness \<Rightarrow> bytes) \<Rightarrow> bool option" where
  "test_script_hash_mismatch_rejected pf dw ew = do {
     utxo \<leftarrow> simple_utxo pf;
     out \<leftarrow> simple_output pf;
     let L = insert_utxo (UtxoKey (hash_fill 13) 0) utxo default_ledger_state;
     let incorrect_script = Script [Nop, Nop];
     let tx = transfer [\<lparr>ti_tx_id = hash_fill 13, ti_index = 0\<rparr>] [out] [build_witness ew incorrect_script None];
     let (L', result) = apply_transaction pf dw (default_script_engine pf) L tx 0 TEST_CHAIN_ID;
     Some (result = Err ScriptHashMismatch \<and> fmlookup (ls_utxos L') (UtxoKey (hash_fill 13) 0) \<noteq> None)
   }"

definition test_metadata_hash_mismatch_rejected ::
  "platform \<Rightarrow> (bytes \<Rightarrow> input_witness option) \<Rightarrow> (input_witness \<Rightarrow> bytes) \<Rightarrow> bool option" where
  "test_metadata_hash_mismatch_rejected pf dw ew = do {
     utxo \<leftarrow> utxo_with_metadata pf (Some (ascii ''expected''));
     out \<leftarrow> simple_output pf;
     let L = insert_utxo (UtxoKey (hash_fill 14) 0) (tracked utxo) default_ledger_state;
     let tx = transfer [\<lparr>ti_tx_id = hash_fill 14, ti_index = 0\<rparr>] [out]
       [build_witness ew simple_script (Some (ascii ''different''))];
     let (L', result) = apply_transaction pf dw (default_script_engine pf) L tx 0 TEST_CHAIN_ID;
     Some (result = Err MetadataHashMismatch \<and> fmlookup (ls_utxos L') (UtxoKey (hash_fill 14) 0) \<noteq> None)
   }"

definition test_valid_spend_with_metadata_succeeds ::
  "platform \<Rightarrow> (bytes \<Rightarrow> input_witness option) \<Rightarrow> (input_witness \<Rightarrow> bytes) \<Rightarrow> bool option" where
  "test_valid_spend_with_metadata_succeeds pf dw ew = do {
     utxo \<leftarrow> utxo_with_metadata pf (Some (ascii ''game-asset''));
     out \<leftarrow> simple_output pf;
     let L = insert_utxo (UtxoKey (hash_fill 15) 0) (tracked utxo) default_ledger_state;
     let tx = transfer [\<lparr>ti_tx_id = hash_fill 15, ti_index = 0\<rparr>] [out]
       [build_witness ew simple_script (Some (ascii ''game-asset''))];
     L' \<leftarrow> applied_ledger (apply_transaction pf dw (default_script_engine pf) L tx 0 TEST_CHAIN_ID);
     Some (fmlookup (ls_utxos L') (UtxoKey (hash_fill 15) 0) = None)
   }"

definition chain_state_apply_block_updates_height_and_tip_hash ::
  "platform \<Rightarrow> (bytes \<Rightarrow> input_witness option) \<Rightarrow> (input_witness \<Rightarrow> bytes) \<Rightarrow> bool option" where
  "chain_state_apply_block_updates_height_and_tip_hash pf dw ew = do {
     utxo \<leftarrow> simple_utxo pf;
     out \<leftarrow> simple_output pf;
     let chain = default_chain_state\<lparr>cs_ledger := insert_utxo (UtxoKey (hash_fill 11) 0) utxo (cs_ledger default_chain_state)\<rparr>;
     let spend_tx = transfer [\<lparr>ti_tx_id = hash_fill 11, ti_index = 0\<rparr>] [out] [build_witness ew simple_script None];
     spend_id \<leftarrow> tx_id pf spend_tx;
     let b = \<lparr>b_header = \<lparr>bh_parent_hash = cs_tip_hash chain, bh_state_root = hash_fill 0, bh_tx_root = spend_id,
         bh_height = 1, bh_timestamp = 42\<rparr>, b_transactions = [spend_tx],
       b_proposer_public_key = \<lparr>pk_scheme = Dilithium2, pk_bytes = []\<rparr>,
       b_signature = \<lparr>sig_scheme = Dilithium2, sig_bytes = []\<rparr>\<rparr>;
     let expected_tip_hash = pf_blake3 pf (encode_block_header (b_header b));
     chain' \<leftarrow> (case chain_apply_block pf dw (default_script_engine pf) chain b of
       (C, Ok u) \<Rightarrow> Some C | _ \<Rightarrow> None);
     Some (cs_height chain' = 1 \<and> cs_tip_hash chain' = expected_tip_hash \<and>
       fmlookup (ls_utxos (cs_ledger chain')) (UtxoKey (hash_fill 11) 0) = None \<and>
       fmlookup (ls_utxos (cs_ledger chain')) (UtxoKey spend_id 0) \<noteq> None)
   }"

section \<open>Evaluation\<close>

definition witness_codec_ok :: "(input_witness \<Rightarrow> bytes) \<Rightarrow> (bytes \<Rightarrow> input_witness option) \<Rightarrow> bool" where
  "witness_codec_ok ew dw \<longleftrightarrow> (\<forall>w. dw (ew w) = Some w)"

lemma witness_codec [simp]: "witness_codec_ok ew dw \<Longrightarrow> dw (ew w) = Some w"
  by (simp add: witness_codec_ok_def)

abbreviation nop_hash :: "platform \<Rightarrow> hash256" where
  "nop_hash pf \<equiv> pf_blake3 pf [1, 0, 0, 0, 6]"

lemma encode_nop: "encode_script (Script [Nop]) = Some [1, 0, 0, 0, 6]"
  by (simp add: encode_script_def encode_vec_def encode_len_def to_le_bytes_def)

lemma simple_hash [simp]: "script_hash pf simple_script = Some (nop_hash pf)"
  by (simp add: script_hash_def simple_script_def encode_nop)

lemma eval_nop: "default_script_engine pf (Script [Nop]) ctx host = Ok \<lparr>sr_gas_consumed = 1\<rparr>"
  by (simp add: default_script_engine_def eval_def eval_step_def gas_consume_def gas_new_def gas_used_def default_vm_config_def
      DEFAULT_MAX_SCRIPT_LEN_def DEFAULT_MAX_GAS_def)

text \<open>One input whose owner is the script of a single \<open>Nop\<close>.\<close>

lemma scan_nop:
  assumes "witness_codec_ok ew dw" and "tc_inputs (tx_core tx) = [\<lparr>ti_tx_id = t, ti_index = 0\<rparr>]"
    and "tw_inputs (tx_witness tx) = build_witness ew simple_script m # ws"
    and "fmlookup (ls_utxos L) (UtxoKey t 0) = Some utxo" and "out_owner_script_hash (tr_output utxo) = nop_hash pf"
    and "metadata_matches pf (out_metadata_hash (tr_output utxo)) m"
    and "accumulate_assets (pf_overflow_checks pf) (out_assets (tr_output utxo)) fmempty = Some totals"
  shows "scan_inputs pf dw (default_script_engine pf) L tx height chain_id created =
    Ok \<lparr>sc_seen = {|UtxoKey t 0|}, sc_consumed = [UtxoKey t 0], sc_totals = totals,
      sc_issuer_authorized = authorizes_issue created (tr_output utxo)\<rparr>"
  using assms
  by (simp add: scan_inputs_def scan_input_def initial_scan_def input_key_def list_get_def build_witness_def simple_script_def
      encode_nop eval_nop)

lemma single_asset_totals:
  "accumulate_assets oc [\<lparr>aa_asset_id = i, aa_amount = n\<rparr>] fmempty = Some (fmupd (asset_id_hash i) n fmempty)"
  using unsigned_less [of n, where 'a = nat] by (simp add: accumulate_asset_def add_chk_def)

lemmas fixture_defs = utxo_with_metadata_def simple_output_def simple_utxo_def tracked_def insert_utxo_def transfer_def
  default_ledger_state_def simple_asset_id_def

text \<open>The transaction of the tests that create an asset.\<close>

definition test_asset :: "platform \<Rightarrow> hash256 \<Rightarrow> u128 option \<Rightarrow> u8 \<Rightarrow> asset_definition" where
  "test_asset pf metadata_root max_supply decimals = \<lparr>ad_issuer_script_hash = nop_hash pf, ad_metadata_root = metadata_root,
     ad_max_supply = max_supply, ad_decimals = decimals, ad_kind = Fungible\<rparr>"

definition test_asset_output :: "platform \<Rightarrow> asset_amount list \<Rightarrow> tx_output" where
  "test_asset_output pf assets = \<lparr>out_owner_script_hash = nop_hash pf, out_assets = assets, out_metadata_hash = None\<rparr>"

definition test_issue :: "platform \<Rightarrow> (input_witness \<Rightarrow> bytes) \<Rightarrow> hash256 \<Rightarrow> asset_definition \<Rightarrow> u128 \<Rightarrow> tx_output list \<Rightarrow> transaction" where
  "test_issue pf ew issuer_tx_id d supply outs = \<lparr>tx_core = \<lparr>tc_kind = CreateAsset d supply,
     tc_inputs = [\<lparr>ti_tx_id = issuer_tx_id, ti_index = 0\<rparr>], tc_outputs = outs\<rparr>,
     tx_witness = \<lparr>tw_inputs = [build_witness ew simple_script None]\<rparr>\<rparr>"

definition test_issuer_ledger :: "platform \<Rightarrow> hash256 \<Rightarrow> ledger_state" where
  "test_issuer_ledger pf issuer_tx_id = \<lparr>ls_utxos = fmupd (UtxoKey issuer_tx_id 0)
     \<lparr>tr_output = test_asset_output pf [], tr_created_height = 0\<rparr> fmempty, ls_assets = fmempty\<rparr>"

lemma issuing_eq:
  "issuing pf ew issuer_tx_id root supply max_supply decimals =
     (let d = test_asset pf root max_supply decimals in
      Some (test_issuer_ledger pf issuer_tx_id, d, test_issue pf ew issuer_tx_id d supply
        [test_asset_output pf [\<lparr>aa_asset_id = derive_asset_id pf d 0, aa_amount = supply\<rparr>]]))"
  by (simp add: issuing_def insert_issuer_utxo_def build_create_asset_transaction_def create_asset_transaction_def Let_def
      TEST_CHAIN_ID_def test_asset_def test_issue_def test_issuer_ledger_def test_asset_output_def fixture_defs
      default_transaction_witness_def)

lemma check_issue:
  assumes "witness_codec_ok ew dw" and "derive_asset_id pf d 0 \<noteq> QCOIN_ASSET_ID" and "ad_issuer_script_hash d = nop_hash pf"
    and "output_totals pf outs = Some ot"
  shows "check_transaction pf dw (default_script_engine pf) (test_issuer_ledger pf t) (test_issue pf ew t d supply outs) height 0 =
    (let created = Some (derive_asset_id pf d 0, d, supply)
     in and_then (check_mint created True fmempty ot) (\<lambda>(ins, outs). Ok (created, [UtxoKey t 0], ins, outs)))"
proof -
  have "scan_inputs pf dw (default_script_engine pf) (test_issuer_ledger pf t) (test_issue pf ew t d supply outs) height 0 created =
      Ok \<lparr>sc_seen = {|UtxoKey t 0|}, sc_consumed = [UtxoKey t 0], sc_totals = fmempty,
        sc_issuer_authorized = authorizes_issue created (test_asset_output pf [])\<rparr>" for created
    using scan_nop [OF assms(1), of "test_issue pf ew t d supply outs" t None "[]" "test_issuer_ledger pf t" _ pf fmempty]
    by (simp add: test_issue_def test_issuer_ledger_def test_asset_output_def)
  with assms(2-4) show ?thesis
    by (simp add: check_transaction_def test_issue_def announced_asset.simps Let_def is_qcoin_asset_id_iff test_issuer_ledger_def
        authorizes_issue_def test_asset_output_def)
qed

lemma test_wrong_asset_id:
  assumes "witness_codec_ok ew dw"
    and "derive_asset_id pf (test_asset pf (hash_fill 1) (Some 100) 0) 0 \<notin> {QCOIN_ASSET_ID, AssetId (hash_fill 9)}"
  shows "create_asset_rejects_wrong_asset_id pf dw ew = Some True"
proof -
  let ?d = "test_asset pf (hash_fill 1) (Some 100) 0"
  let ?outs = "[test_asset_output pf [\<lparr>aa_asset_id = AssetId (hash_fill 9), aa_amount = 10\<rparr>]]"
  have "output_totals pf ?outs = Some (fmupd (hash_fill 9) 10 fmempty)"
    by (simp add: output_totals_def test_asset_output_def single_asset_totals del: accumulate_assets.simps)
  from check_issue [OF assms(1) _ _ this, of ?d "hash_fill 2" 10 0] assms(2)
  have "check_transaction pf dw (default_script_engine pf) (test_issuer_ledger pf (hash_fill 2))
      (test_issue pf ew (hash_fill 2) ?d 10 ?outs) 0 0 = Err AssetConservationViolation"
    by (cases "derive_asset_id pf ?d 0") (auto simp: test_asset_def Let_def)
  moreover have "change_first_asset (\<lambda>a. a\<lparr>aa_asset_id := AssetId (hash_fill 9)\<rparr>)
      (test_issue pf ew (hash_fill 2) ?d 10 [test_asset_output pf [\<lparr>aa_asset_id = i, aa_amount = 10\<rparr>]])
      = Some (test_issue pf ew (hash_fill 2) ?d 10 ?outs)" for i
    by (simp add: change_first_asset_def test_issue_def test_asset_output_def)
  ultimately show ?thesis
    by (simp add: create_asset_rejects_wrong_asset_id_def issuing_eq Let_def TEST_CHAIN_ID_def apply_transaction_def)
      (simp add: test_issuer_ledger_def)
qed

lemma test_supply_mismatch:
  assumes "witness_codec_ok ew dw" and "derive_asset_id pf (test_asset pf (hash_fill 3) None 0) 0 \<noteq> QCOIN_ASSET_ID"
  shows "create_asset_rejects_initial_supply_mismatch pf dw ew = Some True"
proof -
  let ?d = "test_asset pf (hash_fill 3) None 0"
  let ?i = "derive_asset_id pf ?d 0"
  let ?outs = "[test_asset_output pf [\<lparr>aa_asset_id = ?i, aa_amount = 5\<rparr>]]"
  have "output_totals pf ?outs = Some (fmupd (asset_id_hash ?i) 5 fmempty)"
    by (simp add: output_totals_def test_asset_output_def single_asset_totals del: accumulate_assets.simps)
  from check_issue [OF assms(1) _ _ this, of ?d "hash_fill 4" 10 0] assms(2)
  have "check_transaction pf dw (default_script_engine pf) (test_issuer_ledger pf (hash_fill 4))
      (test_issue pf ew (hash_fill 4) ?d 10 ?outs) 0 0 = Err AssetConservationViolation"
    by (simp add: test_asset_def Let_def)
  moreover have "change_first_asset (\<lambda>a. a\<lparr>aa_amount := 5\<rparr>)
      (test_issue pf ew (hash_fill 4) ?d 10 [test_asset_output pf [\<lparr>aa_asset_id = ?i, aa_amount = 10\<rparr>]])
      = Some (test_issue pf ew (hash_fill 4) ?d 10 ?outs)"
    by (simp add: change_first_asset_def test_issue_def test_asset_output_def)
  ultimately show ?thesis
    by (simp add: create_asset_rejects_initial_supply_mismatch_def issuing_eq Let_def TEST_CHAIN_ID_def apply_transaction_def)
qed

lemma test_additional_asset:
  assumes "witness_codec_ok ew dw"
    and "derive_asset_id pf (test_asset pf (hash_fill 5) None 0) 0 \<notin> {QCOIN_ASSET_ID, AssetId (hash_fill 7)}"
  shows "create_asset_rejects_additional_asset_minting pf dw ew = Some True"
proof -
  let ?d = "test_asset pf (hash_fill 5) None 0"
  let ?i = "derive_asset_id pf ?d 0"
  let ?more = "test_asset_output pf [\<lparr>aa_asset_id = AssetId (hash_fill 7), aa_amount = 1\<rparr>]"
  let ?outs = "[test_asset_output pf [\<lparr>aa_asset_id = ?i, aa_amount = 10\<rparr>], ?more]"
  have i: "asset_id_hash ?i \<noteq> hash_fill 7" using assms(2) by (cases ?i) auto
  then have "output_totals pf ?outs = Some (fmupd (hash_fill 7) 1 (fmupd (asset_id_hash ?i) 10 fmempty))"
    by (simp add: output_totals_def test_asset_output_def accumulate_asset_def add_chk_def)
  from check_issue [OF assms(1) _ _ this, of ?d "hash_fill 6" 10 0] assms(2) i
  have "check_transaction pf dw (default_script_engine pf) (test_issuer_ledger pf (hash_fill 6))
      (test_issue pf ew (hash_fill 6) ?d 10 ?outs) 0 0 = Ok (Some (?i, ?d, 10), [UtxoKey (hash_fill 6) 0],
        fmdrop (asset_id_hash ?i) fmempty, fmdrop (asset_id_hash ?i) (fmupd (hash_fill 7) 1 (fmupd (asset_id_hash ?i) 10 fmempty)))"
    by (simp add: test_asset_def Let_def)
  moreover have "\<not> conserves (fmdrop (asset_id_hash ?i) fmempty)
      (fmdrop (asset_id_hash ?i) (fmupd (hash_fill 7) 1 (fmupd (asset_id_hash ?i) 10 fmempty)))"
    using i by (auto simp: conserves_iff intro!: exI [of _ "hash_fill 7"])
  moreover have "(test_issue pf ew (hash_fill 6) ?d 10 [o1])\<lparr>tx_core := (tx_core (test_issue pf ew (hash_fill 6) ?d 10 [o1]))
      \<lparr>tc_outputs := [o1, o2]\<rparr>\<rparr> = test_issue pf ew (hash_fill 6) ?d 10 [o1, o2]" for o1 o2
    by (simp add: test_issue_def)
  moreover have "tc_outputs (tx_core (test_issue pf ew t d n outs)) = outs" for t d n outs by (simp add: test_issue_def)
  ultimately show ?thesis
    by (simp add: create_asset_rejects_additional_asset_minting_def issuing_eq Let_def TEST_CHAIN_ID_def apply_transaction_def
        test_asset_output_def)
qed

lemma test_over_maximum:
  assumes "witness_codec_ok ew dw" and "derive_asset_id pf (test_asset pf (hash_fill 10) (Some 10) 0) 0 \<noteq> QCOIN_ASSET_ID"
  shows "create_asset_rejects_supply_over_maximum pf dw ew = Some True"
proof -
  let ?d = "test_asset pf (hash_fill 10) (Some 10) 0"
  let ?i = "derive_asset_id pf ?d 0"
  have "output_totals pf [test_asset_output pf [\<lparr>aa_asset_id = ?i, aa_amount = 20\<rparr>]] = Some (fmupd (asset_id_hash ?i) 20 fmempty)"
    by (simp add: output_totals_def test_asset_output_def single_asset_totals del: accumulate_assets.simps)
  from check_issue [OF assms(1) _ _ this, of ?d "hash_fill 11" 20 0] assms(2)
  show ?thesis
    by (simp add: create_asset_rejects_supply_over_maximum_def issuing_eq Let_def TEST_CHAIN_ID_def apply_transaction_def)
      (simp add: test_asset_def)
qed

lemma apply_issue:
  assumes "witness_codec_ok ew dw" and "derive_asset_id pf d 0 \<noteq> QCOIN_ASSET_ID" and "ad_issuer_script_hash d = nop_hash pf"
    and "case ad_max_supply d of Some m \<Rightarrow> supply \<le> m | None \<Rightarrow> True"
  defines "outs \<equiv> [test_asset_output pf [\<lparr>aa_asset_id = derive_asset_id pf d 0, aa_amount = supply\<rparr>]]"
  shows "\<exists>h. tx_id pf (test_issue pf ew t d supply outs) = Some h \<and>
    apply_transaction pf dw (default_script_engine pf) (test_issuer_ledger pf t) (test_issue pf ew t d supply outs) height 0 =
      (\<lparr>ls_utxos = insert_outputs h height outs fmempty, ls_assets = fmupd (derive_asset_id pf d 0) d fmempty\<rparr>, Ok ())"
proof -
  let ?i = "derive_asset_id pf d 0"
  have "output_totals pf outs = Some (fmupd (asset_id_hash ?i) supply fmempty)"
    unfolding outs_def by (simp add: output_totals_def test_asset_output_def single_asset_totals del: accumulate_assets.simps)
  from check_issue [OF assms(1-3) this, of t "supply" height] assms(4)
  have c: "check_transaction pf dw (default_script_engine pf) (test_issuer_ledger pf t) (test_issue pf ew t d supply outs) height 0
      = Ok (Some (?i, d, supply), [UtxoKey t 0], fmempty, fmempty)"
    by (auto simp: Let_def fmdrop_fmupd_same split: option.splits)
  obtain h where "tx_id pf (test_issue pf ew t d supply outs) = Some h"
    using tx_id_eq_None [of pf "test_issue pf ew t d supply outs"]
    by (auto simp: test_issue_def core_fits_def outs_def test_asset_output_def output_fits_def)
  with c show ?thesis
    by (simp add: apply_transaction_def Let_def conserves_iff) (simp add: test_issuer_ledger_def remove_consumed_def fmdrop_fmupd_same test_issue_def)
qed

lemma test_duplicate_definition:
  assumes "witness_codec_ok ew dw" and "derive_asset_id pf (test_asset pf (hash_fill 8) None 0) 0 \<noteq> QCOIN_ASSET_ID"
  shows "create_asset_rejects_duplicate_definition pf dw ew = Some True"
proof -
  let ?d = "test_asset pf (hash_fill 8) None 0"
  have "ad_issuer_script_hash ?d = nop_hash pf" "case ad_max_supply ?d of Some m \<Rightarrow> 10 \<le> m | None \<Rightarrow> True"
    by (simp_all add: test_asset_def)
  from apply_issue [OF assms this, of "hash_fill 9" 0] show ?thesis
    by (auto simp: create_asset_rejects_duplicate_definition_def issuing_eq Let_def TEST_CHAIN_ID_def applied_ledger_def)
      (auto simp: apply_transaction_def check_transaction_def test_issue_def is_qcoin_asset_id_iff assms(2) Let_def)
qed

lemma test_issuer_authorization:
  assumes "derive_asset_id pf \<lparr>ad_issuer_script_hash = hash_fill 13, ad_metadata_root = hash_fill 12, ad_max_supply = Some 1000,
      ad_decimals = 0, ad_kind = Fungible\<rparr> 0 \<noteq> QCOIN_ASSET_ID"
  shows "create_asset_requires_issuer_authorization pf dw = Some True"
  using assms
  by (simp add: create_asset_requires_issuer_authorization_def create_asset_transaction_def Let_def TEST_CHAIN_ID_def
      apply_transaction_def check_transaction_def scan_inputs_def initial_scan_def is_qcoin_asset_id_iff output_totals_def
      single_asset_totals default_ledger_state_def del: accumulate_assets.simps)

section \<open>The transfers\<close>

lemma test_missing_input: "test_missing_input_fails pf dw = Some True"
  by (simp add: test_missing_input_fails_def Let_def apply_transaction_def check_transaction_def scan_inputs_def scan_input_def
      transfer_def default_ledger_state_def initial_scan_def)

definition test_out :: "platform \<Rightarrow> hash256 option \<Rightarrow> u128 \<Rightarrow> tx_output" where
  "test_out pf m n = \<lparr>out_owner_script_hash = nop_hash pf, out_assets = [\<lparr>aa_asset_id = simple_asset_id, aa_amount = n\<rparr>],
     out_metadata_hash = m\<rparr>"

definition test_ledger :: "platform \<Rightarrow> hash256 \<Rightarrow> hash256 option \<Rightarrow> ledger_state" where
  "test_ledger pf t m = \<lparr>ls_utxos = fmupd (UtxoKey t 0) \<lparr>tr_output = test_out pf m 100, tr_created_height = 0\<rparr> fmempty,
     ls_assets = fmempty\<rparr>"

definition test_spend :: "platform \<Rightarrow> (input_witness \<Rightarrow> bytes) \<Rightarrow> hash256 \<Rightarrow> bytes option \<Rightarrow> u128 \<Rightarrow> transaction" where
  "test_spend pf ew t m n = transfer [\<lparr>ti_tx_id = t, ti_index = 0\<rparr>] [test_out pf None n] [build_witness ew simple_script m]"

lemma test_output [simp]: "utxo_with_metadata pf m = Some (test_out pf (map_option (pf_blake3 pf) m) 100)"
  "simple_output pf = Some (test_out pf None 100)"
  by (simp_all add: test_out_def utxo_with_metadata_def simple_output_def)

lemma test_utxo [simp]: "insert_utxo (UtxoKey t 0) (tracked (test_out pf m 100)) default_ledger_state = test_ledger pf t m"
  by (simp add: insert_utxo_def tracked_def test_ledger_def default_ledger_state_def)

lemma check_spend:
  assumes "witness_codec_ok ew dw" and "metadata_matches pf mh m"
  shows "check_transaction pf dw (default_script_engine pf) (test_ledger pf t mh) (test_spend pf ew t m n) height chain_id =
    Ok (None, [UtxoKey t 0], fmupd (hash_fill 1) 100 fmempty, fmupd (hash_fill 1) n fmempty)"
proof -
  have "scan_inputs pf dw (default_script_engine pf) (test_ledger pf t mh) (test_spend pf ew t m n) height chain_id None =
      Ok \<lparr>sc_seen = {|UtxoKey t 0|}, sc_consumed = [UtxoKey t 0], sc_totals = fmupd (hash_fill 1) 100 fmempty,
        sc_issuer_authorized = authorizes_issue None (test_out pf mh 100)\<rparr>"
    using scan_nop [OF assms(1), of "test_spend pf ew t m n" t m "[]" "test_ledger pf t mh" _ pf "fmupd (hash_fill 1) 100 fmempty"] assms(2)
    by (simp add: test_spend_def transfer_def test_ledger_def test_out_def single_asset_totals simple_asset_id_def
        del: accumulate_assets.simps)
  then show ?thesis
    by (simp add: check_transaction_def test_spend_def transfer_def output_totals_def test_out_def single_asset_totals
        simple_asset_id_def authorizes_issue_def del: accumulate_assets.simps)
qed

lemma test_conservation:
  assumes "witness_codec_ok ew dw"
  shows "test_asset_conservation_violated pf dw ew = Some True"
proof -
  have "transfer [\<lparr>ti_tx_id = hash_fill 7, ti_index = 0\<rparr>] [\<lparr>out_owner_script_hash = nop_hash pf,
      out_assets = [\<lparr>aa_asset_id = simple_asset_id, aa_amount = 200\<rparr>], out_metadata_hash = None\<rparr>]
      [build_witness ew simple_script None] = test_spend pf ew (hash_fill 7) None 200"
    by (simp add: test_spend_def test_out_def)
  moreover have "\<not> conserves (fmupd (hash_fill 1) (100 :: u128) fmempty) (fmupd (hash_fill 1) 200 fmempty)"
    by (auto simp: conserves_iff)
  ultimately show ?thesis
    using check_spend [OF assms, of pf None None "hash_fill 7" 200 0 0]
    by (simp add: test_asset_conservation_violated_def simple_utxo_def Let_def TEST_CHAIN_ID_def apply_transaction_def)
qed

lemma apply_spend:
  assumes "witness_codec_ok ew dw" and "metadata_matches pf mh m"
  shows "\<exists>h. tx_id pf (test_spend pf ew t m 100) = Some h \<and>
    apply_transaction pf dw (default_script_engine pf) (test_ledger pf t mh) (test_spend pf ew t m 100) height chain_id =
      (\<lparr>ls_utxos = fmupd (UtxoKey h 0) \<lparr>tr_output = test_out pf None 100, tr_created_height = height\<rparr> fmempty,
        ls_assets = fmempty\<rparr>, Ok ())"
proof -
  obtain h where h: "tx_id pf (test_spend pf ew t m 100) = Some h"
    using tx_id_eq_None [of pf "test_spend pf ew t m 100"]
    by (auto simp: test_spend_def transfer_def core_fits_def test_out_def output_fits_def)
  have outs: "tc_outputs (tx_core (test_spend pf ew t m 100)) = [test_out pf None 100]" by (simp add: test_spend_def transfer_def)
  have "register_asset None L = L" for L by simp
  with h check_spend [OF assms, of t 100 height chain_id] show ?thesis
    by (simp add: apply_transaction_def Let_def conserves_iff outs insert_outputs_def)
      (simp add: test_ledger_def remove_consumed_def fmdrop_fmupd_same)
qed

lemma test_valid_spend:
  assumes "witness_codec_ok ew dw"
    and "tx_id pf (test_spend pf ew (hash_fill 15) (Some (ascii ''game-asset'')) 100) \<noteq> Some (hash_fill 15)"
  shows "test_valid_spend_with_metadata_succeeds pf dw ew = Some True"
proof -
  have "metadata_matches pf (Some (pf_blake3 pf (ascii ''game-asset''))) (Some (ascii ''game-asset''))" by simp
  from apply_spend [OF assms(1) this, of "hash_fill 15" 0 0] assms(2) show ?thesis
    by (auto simp: test_valid_spend_with_metadata_succeeds_def Let_def TEST_CHAIN_ID_def applied_ledger_def)
      (auto simp: test_spend_def)
qed

lemma test_double_spend:
  assumes "witness_codec_ok ew dw"
  shows "test_double_spend_rejected_within_transaction pf dw ew = Some True"
proof -
  have "fmlookup (ls_utxos (test_ledger pf t m)) (UtxoKey t 0) = Some \<lparr>tr_output = test_out pf m 100, tr_created_height = 0\<rparr>" for t m
    by (simp add: test_ledger_def)
  with assms show ?thesis
    by (simp add: test_double_spend_rejected_within_transaction_def simple_utxo_def Let_def TEST_CHAIN_ID_def apply_transaction_def
        check_transaction_def scan_inputs_def scan_input_def initial_scan_def transfer_def list_get_def build_witness_def
        simple_script_def encode_nop eval_nop input_key_def)
      (simp add: test_out_def simple_asset_id_def accumulate_asset_def add_chk_def insert_utxo_def tracked_def)
qed

lemma test_script_mismatch:
  assumes "witness_codec_ok ew dw" and "pf_blake3 pf [2, 0, 0, 0, 6, 6] \<noteq> nop_hash pf"
  shows "test_script_hash_mismatch_rejected pf dw ew = Some True"
proof -
  have "fmlookup (ls_utxos (test_ledger pf t m)) (UtxoKey t 0) = Some \<lparr>tr_output = test_out pf m 100, tr_created_height = 0\<rparr>" for t m
    by (simp add: test_ledger_def)
  moreover have "encode_script (Script [Nop, Nop]) = Some [2, 0, 0, 0, 6, 6]"
    by (simp add: encode_script_def encode_vec_def encode_len_def to_le_bytes_def)
  ultimately show ?thesis
    using assms
    by (simp add: test_script_hash_mismatch_rejected_def simple_utxo_def Let_def TEST_CHAIN_ID_def apply_transaction_def
        check_transaction_def scan_inputs_def scan_input_def initial_scan_def transfer_def list_get_def build_witness_def
        input_key_def) (simp add: test_out_def insert_utxo_def tracked_def)
qed

lemma test_metadata_mismatch:
  assumes "witness_codec_ok ew dw" and "pf_blake3 pf (ascii ''expected'') \<noteq> pf_blake3 pf (ascii ''different'')"
  shows "test_metadata_hash_mismatch_rejected pf dw ew = Some True"
proof -
  have "fmlookup (ls_utxos (test_ledger pf t m)) (UtxoKey t 0) = Some \<lparr>tr_output = test_out pf m 100, tr_created_height = 0\<rparr>" for t m
    by (simp add: test_ledger_def)
  with assms show ?thesis
    by (simp add: test_metadata_hash_mismatch_rejected_def simple_utxo_def Let_def TEST_CHAIN_ID_def apply_transaction_def
        check_transaction_def scan_inputs_def scan_input_def initial_scan_def transfer_def list_get_def build_witness_def
        simple_script_def encode_nop input_key_def) (simp add: test_out_def insert_utxo_def tracked_def)
qed

lemma test_mints_and_spends:
  assumes "witness_codec_ok ew dw" and "derive_asset_id pf (test_asset pf (hash_fill 22) (Some 1000) 2) 0 \<noteq> QCOIN_ASSET_ID"
  defines "assets \<equiv> [\<lparr>aa_asset_id = derive_asset_id pf (test_asset pf (hash_fill 22) (Some 1000) 2) 0, aa_amount = 75\<rparr>]"
  defines "create_tx \<equiv> test_issue pf ew (hash_fill 1) (test_asset pf (hash_fill 22) (Some 1000) 2) 75 [test_asset_output pf assets]"
  assumes "\<And>h spend_tx. tx_id pf create_tx = Some h \<Longrightarrow> spend_minted_tx pf ew h assets = Some spend_tx \<Longrightarrow> tx_id pf spend_tx \<noteq> Some h"
  shows "create_asset_transaction_mints_supply_and_is_spendable pf dw ew = Some True"
proof -
  let ?d = "test_asset pf (hash_fill 22) (Some 1000) 2"
  let ?i = "derive_asset_id pf ?d 0"
  let ?out = "test_asset_output pf assets"
  have "ad_issuer_script_hash ?d = nop_hash pf" "case ad_max_supply ?d of Some m \<Rightarrow> 75 \<le> m | None \<Rightarrow> True"
    by (simp_all add: test_asset_def)
  from apply_issue [OF assms(1,2) this, of "hash_fill 1" 0] obtain h where
    h: "tx_id pf create_tx = Some h" and a: "apply_transaction pf dw (default_script_engine pf) (test_issuer_ledger pf (hash_fill 1)) create_tx 0 0
      = (\<lparr>ls_utxos = fmupd (UtxoKey h 0) \<lparr>tr_output = ?out, tr_created_height = 0\<rparr> fmempty, ls_assets = fmupd ?i ?d fmempty\<rparr>, Ok ())"
    by (auto simp: create_tx_def assets_def insert_outputs_def)
  let ?L = "\<lparr>ls_utxos = fmupd (UtxoKey h 0) \<lparr>tr_output = ?out, tr_created_height = 0\<rparr> fmempty, ls_assets = fmupd ?i ?d fmempty\<rparr>"
  let ?spend = "transfer [\<lparr>ti_tx_id = h, ti_index = 0\<rparr>] [?out] [build_witness ew simple_script None]"
  have spend: "spend_minted_tx pf ew h assets = Some ?spend" by (simp add: spend_minted_tx_def test_asset_output_def)
  have totals: "accumulate_assets oc assets fmempty = Some (fmupd (asset_id_hash ?i) 75 fmempty)" for oc
    unfolding assets_def by (rule single_asset_totals)
  have scan: "scan_inputs pf dw (default_script_engine pf) ?L ?spend 1 0 None = Ok \<lparr>sc_seen = {|UtxoKey h 0|}, sc_consumed = [UtxoKey h 0],
      sc_totals = fmupd (asset_id_hash ?i) 75 fmempty, sc_issuer_authorized = authorizes_issue None ?out\<rparr>"
    using scan_nop [OF assms(1), of ?spend h None "[]" ?L _ pf "fmupd (asset_id_hash ?i) 75 fmempty"]
    by (simp add: transfer_def test_asset_output_def totals)
  then have check: "check_transaction pf dw (default_script_engine pf) ?L ?spend 1 0
      = Ok (None, [UtxoKey h 0], fmupd (asset_id_hash ?i) 75 fmempty, fmupd (asset_id_hash ?i) 75 fmempty)"
    by (simp add: check_transaction_def authorizes_issue_def) (simp add: transfer_def output_totals_def test_asset_output_def totals)
  obtain g where g: "tx_id pf ?spend = Some g"
    using tx_id_eq_None [of pf ?spend] by (auto simp: transfer_def core_fits_def test_asset_output_def output_fits_def assets_def)
  have apply2: "apply_transaction pf dw (default_script_engine pf) ?L ?spend 1 0
      = (\<lparr>ls_utxos = fmupd (UtxoKey g 0) \<lparr>tr_output = ?out, tr_created_height = 1\<rparr> fmempty, ls_assets = fmupd ?i ?d fmempty\<rparr>, Ok ())"
    using check g by (simp add: apply_transaction_def Let_def conserves_iff remove_consumed_def fmdrop_fmupd_same insert_outputs_def)
      (simp add: transfer_def)
  have "g \<noteq> h" using assms(5) [OF h spend] g by simp
  moreover have out: "out_assets ?out = assets" "out_owner_script_hash ?out = nop_hash pf" by (simp_all add: test_asset_output_def)
  moreover have "list_get assets 0 = Some \<lparr>aa_asset_id = ?i, aa_amount = 75\<rparr>" "length assets = 1" by (simp_all add: assets_def list_get_def)
  ultimately show ?thesis
    using a h spend apply2 g
    by (simp add: create_asset_transaction_mints_supply_and_is_spendable_def issuing_eq Let_def TEST_CHAIN_ID_def applied_ledger_def
        flip: create_tx_def assets_def)
qed

lemma test_apply_block:
  assumes "witness_codec_ok ew dw" and "tx_id pf (test_spend pf ew (hash_fill 11) None 100) \<noteq> Some (hash_fill 11)"
  shows "chain_state_apply_block_updates_height_and_tip_hash pf dw ew = Some True"
proof -
  have "metadata_matches pf None None" by simp
  from apply_spend [OF assms(1) this, of "hash_fill 11" 1 0] obtain h where h: "tx_id pf (test_spend pf ew (hash_fill 11) None 100) = Some h"
    "apply_transaction pf dw (default_script_engine pf) (test_ledger pf (hash_fill 11) None) (test_spend pf ew (hash_fill 11) None 100) 1 0
      = (\<lparr>ls_utxos = fmupd (UtxoKey h 0) \<lparr>tr_output = test_out pf None 100, tr_created_height = 1\<rparr> fmempty, ls_assets = fmempty\<rparr>, Ok ())"
    by auto
  let ?L = "\<lparr>ls_utxos = fmupd (UtxoKey h 0) \<lparr>tr_output = test_out pf None 100, tr_created_height = 1\<rparr> fmempty, ls_assets = fmempty\<rparr>"
  obtain root where "state_root pf ?L = Some root"
    using state_root_eq_None [of pf ?L] by (auto simp: ledger_fits_def test_out_def output_fits_def)
  moreover have "transfer [\<lparr>ti_tx_id = hash_fill 11, ti_index = 0\<rparr>] [test_out pf None 100] [build_witness ew simple_script None]
      = test_spend pf ew (hash_fill 11) None 100"
    by (simp add: test_spend_def)
  moreover have "insert_utxo (UtxoKey (hash_fill 11) 0) (tracked (test_out pf None 100)) (cs_ledger default_chain_state)
      = test_ledger pf (hash_fill 11) None"
    by (simp add: default_chain_state_def)
  ultimately show ?thesis
    using h assms(2)
    by (simp add: chain_state_apply_block_updates_height_and_tip_hash_def simple_utxo_def Let_def chain_apply_block_def
        default_chain_state_def header_hash_def)
qed

section \<open>The whole module\<close>

text \<open>All tests pass on the sample platform, whose hash only tells apart data of different lengths.\<close>

lemma sample_asset_id: "derive_asset_id (sample_platform oc) d chain_id = AssetId (hash_fill (of_nat (length (asset_id_preimage d chain_id))))"
  by (simp add: derive_asset_id_def)

lemma ledger_tests_pass:
  assumes "witness_codec_ok ew dw"
  and "pf = sample_platform oc"
  shows "create_asset_transaction_mints_supply_and_is_spendable pf dw ew = Some True"
    and "create_asset_rejects_wrong_asset_id pf dw ew = Some True"
    and "create_asset_rejects_initial_supply_mismatch pf dw ew = Some True"
    and "create_asset_rejects_additional_asset_minting pf dw ew = Some True"
    and "create_asset_rejects_duplicate_definition pf dw ew = Some True"
    and "create_asset_rejects_supply_over_maximum pf dw ew = Some True"
    and "create_asset_requires_issuer_authorization pf dw = Some True"
    and "test_missing_input_fails pf dw = Some True"
    and "test_asset_conservation_violated pf dw ew = Some True"
    and "test_double_spend_rejected_within_transaction pf dw ew = Some True"
    and "test_script_hash_mismatch_rejected pf dw ew = Some True"
    and "test_metadata_hash_mismatch_rejected pf dw ew = Some True"
    and "test_valid_spend_with_metadata_succeeds pf dw ew = Some True"
    and "chain_state_apply_block_updates_height_and_tip_hash pf dw ew = Some True"
proof -
  note fill = hash_fill_eq_iff
  have q: "AssetId (hash_fill b) \<noteq> QCOIN_ASSET_ID" for b
    using qcoin_neq_fill [of b] by (auto simp: QCOIN_ASSET_ID_def)
  note d = sample_asset_id asset_id_preimage_def encode_asset_definition_def test_asset_def assms(2) fill q
  note i = tx_id_def core_tx_id_def encode_tx_core_def encode_vec_def encode_len_total encode_output_def encode_asset_amount_def
    encode_transaction_input_def fill transfer_def
  show "create_asset_transaction_mints_supply_and_is_spendable pf dw ew = Some True"
    by (rule test_mints_and_spends [OF assms(1)])
      (auto simp: d i test_issue_def test_asset_output_def spend_minted_tx_def)
  show "create_asset_rejects_wrong_asset_id pf dw ew = Some True" by (rule test_wrong_asset_id [OF assms(1)]) (simp add: d)
  show "create_asset_rejects_initial_supply_mismatch pf dw ew = Some True" by (rule test_supply_mismatch [OF assms(1)]) (simp add: d)
  show "create_asset_rejects_additional_asset_minting pf dw ew = Some True" by (rule test_additional_asset [OF assms(1)]) (simp add: d)
  show "create_asset_rejects_duplicate_definition pf dw ew = Some True" by (rule test_duplicate_definition [OF assms(1)]) (simp add: d)
  show "create_asset_rejects_supply_over_maximum pf dw ew = Some True" by (rule test_over_maximum [OF assms(1)]) (simp add: d)
  show "create_asset_requires_issuer_authorization pf dw = Some True" by (rule test_issuer_authorization) (simp add: d)
  show "test_script_hash_mismatch_rejected pf dw ew = Some True" by (rule test_script_mismatch [OF assms(1)]) (simp add: d)
  show "test_metadata_hash_mismatch_rejected pf dw ew = Some True"
    by (rule test_metadata_mismatch [OF assms(1)]) (simp add: d ascii_def)
  show "test_valid_spend_with_metadata_succeeds pf dw ew = Some True"
    by (rule test_valid_spend [OF assms(1)]) (auto simp: d i test_spend_def test_out_def)
  show "chain_state_apply_block_updates_height_and_tip_hash pf dw ew = Some True"
    by (rule test_apply_block [OF assms(1)]) (auto simp: d i test_spend_def test_out_def)
qed (rule test_missing_input test_conservation [OF assms(1)] test_double_spend [OF assms(1)])+

end
