(* ===== verification/QC_BaseTests.thy ===== *)
theory QC_BaseTests
  imports QC_Types
begin

text \<open>
  The test modules of \<open>qcoin-crypto/src/lib.rs\<close> and \<open>qcoin-types/src/lib.rs\<close>, test by test, on the model. A test is an
  \<open>option\<close>: \<open>None\<close> is a failing \<open>expect\<close>, \<open>Some b\<close> tells whether the assertions hold. The signature libraries are
  arbitrary ones that satisfy their contract; a test that relies on a library refusing a value has that as its
  hypothesis. The last section shows that one platform passes every test.
\<close>

section \<open>Tests of the crypto crate\<close>

definition passed :: "('e, 'a) res \<Rightarrow> 'a option" where
  "passed r = (case r of Ok x \<Rightarrow> Some x | _ \<Rightarrow> None)"

lemma passed_simps [simp]: "passed (Ok x) = Some x" "passed (Err e) = None" "passed Panic = None"
  by (simp_all add: passed_def)

definition MESSAGE :: bytes where
  "MESSAGE = ascii ''qcoin-pq-test''"

text \<open>The first two lines of each test: a fresh pair of keys and its signature of the message.\<close>

definition signed_message :: "pq_scheme \<Rightarrow> nat \<Rightarrow> nat \<Rightarrow> (public_key \<times> private_key \<times> signature) option" where
  "signed_message sch seed rnd = do {
     (pk, sk) \<leftarrow> passed (ps_keygen sch seed);
     s \<leftarrow> passed (ps_sign sch rnd sk MESSAGE);
     Some (pk, sk, s)
   }"

definition dilithium_roundtrip :: "platform \<Rightarrow> nat \<Rightarrow> nat \<Rightarrow> bool option" where
  "dilithium_roundtrip pf seed rnd = do {
     (pk, sk, s) \<leftarrow> signed_message (dilithium2_scheme pf) seed rnd;
     Some (is_Ok (ps_verify (dilithium2_scheme pf) pk MESSAGE s))
   }"

definition falcon_roundtrip :: "platform \<Rightarrow> nat \<Rightarrow> nat \<Rightarrow> bool option" where
  "falcon_roundtrip pf seed rnd = do {
     (pk, sk, s) \<leftarrow> signed_message (falcon512_scheme pf) seed rnd;
     Some (is_Ok (ps_verify (falcon512_scheme pf) pk MESSAGE s))
   }"

definition signing_rejects_wrong_scheme_key :: "platform \<Rightarrow> nat \<Rightarrow> nat \<Rightarrow> bool option" where
  "signing_rejects_wrong_scheme_key pf seed rnd = do {
     (pk, sk) \<leftarrow> passed (ps_keygen (dilithium2_scheme pf) seed);
     Some (ps_sign (falcon512_scheme pf) rnd sk MESSAGE = Err WrongScheme)
   }"

definition verify_rejects_wrong_scheme_signature :: "platform \<Rightarrow> nat \<Rightarrow> nat \<Rightarrow> nat \<Rightarrow> bool option" where
  "verify_rejects_wrong_scheme_signature pf seed seed' rnd = do {
     (dili_pk, dili_sk) \<leftarrow> passed (ps_keygen (dilithium2_scheme pf) seed);
     (pk, sk) \<leftarrow> passed (ps_keygen (falcon512_scheme pf) seed');
     falcon_sig \<leftarrow> passed (ps_sign (falcon512_scheme pf) rnd sk MESSAGE);
     let sig_from_wrong_scheme = \<lparr>sig_scheme = Dilithium2, sig_bytes = sig_bytes falcon_sig\<rparr>;
     Some (ps_verify (dilithium2_scheme pf) dili_pk MESSAGE falcon_sig = Err WrongScheme \<and>
       ps_verify (dilithium2_scheme pf) dili_pk MESSAGE sig_from_wrong_scheme = Err InvalidSignature)
   }"

definition verify_rejects_corrupted_public_key :: "platform \<Rightarrow> nat \<Rightarrow> nat \<Rightarrow> bool option" where
  "verify_rejects_corrupted_public_key pf seed rnd = do {
     (pk, sk, s) \<leftarrow> signed_message (dilithium2_scheme pf) seed rnd;
     let corrupted_pk = \<lparr>pk_scheme = pk_scheme pk, pk_bytes = pk_bytes pk @ [0]\<rparr>;
     Some (ps_verify (dilithium2_scheme pf) corrupted_pk MESSAGE s = Err InvalidPublicKey)
   }"

definition verify_rejects_corrupted_signature :: "platform \<Rightarrow> nat \<Rightarrow> nat \<Rightarrow> bool option" where
  "verify_rejects_corrupted_signature pf seed rnd = do {
     (pk, sk, s) \<leftarrow> signed_message (falcon512_scheme pf) seed rnd;
     Some (ps_verify (falcon512_scheme pf) pk MESSAGE (s\<lparr>sig_bytes := sig_bytes s @ [1]\<rparr>) = Err InvalidSignature)
   }"

definition verify_rejects_corrupted_message :: "platform \<Rightarrow> nat \<Rightarrow> nat \<Rightarrow> bool option" where
  "verify_rejects_corrupted_message pf seed rnd = do {
     (pk, sk, s) \<leftarrow> signed_message (dilithium2_scheme pf) seed rnd;
     Some (ps_verify (dilithium2_scheme pf) pk (ascii ''tampered'') s = Err InvalidSignature)
   }"

definition roundtrip_serialization_is_canonical :: "platform \<Rightarrow> nat \<Rightarrow> nat \<Rightarrow> bool option" where
  "roundtrip_serialization_is_canonical pf seed rnd = do {
     (pk, sk, s) \<leftarrow> signed_message (falcon512_scheme pf) seed rnd;
     encoded_pk \<leftarrow> passed (public_key_to_bytes pf pk);
     decoded_pk \<leftarrow> passed (public_key_from_bytes pf encoded_pk);
     encoded_sig \<leftarrow> passed (signature_to_bytes pf s);
     decoded_sig \<leftarrow> passed (signature_from_bytes pf encoded_sig);
     Some (pk = decoded_pk \<and> s = decoded_sig)
   }"

text \<open>\<open>serde_json\<close> writes a byte string as an array of numbers (\<open>write_array\<close>) and reads an array element by element
  (\<open>read_array\<close>).\<close>

definition json_roundtrip_accepts_byte_array_encoding ::
  "platform \<Rightarrow> (bytes \<Rightarrow> string) \<Rightarrow> (string \<Rightarrow> (string, u8) res list) \<Rightarrow> nat \<Rightarrow> nat \<Rightarrow> bool option" where
  "json_roundtrip_accepts_byte_array_encoding pf write_array read_array seed rnd = do {
     (pk, sk, s) \<leftarrow> signed_message (dilithium2_scheme pf) seed rnd;
     encoded_pk \<leftarrow> passed (map_ok write_array (public_key_serialize pf pk));
     decoded_pk \<leftarrow> passed (public_key_visit_seq pf (read_array encoded_pk));
     encoded_sig \<leftarrow> passed (map_ok write_array (signature_serialize pf s));
     decoded_sig \<leftarrow> passed (signature_visit_seq pf (read_array encoded_sig));
     Some (pk = decoded_pk \<and> s = decoded_sig)
   }"

section \<open>Tests of the types crate\<close>

definition base_transaction :: transaction where
  "base_transaction = \<lparr>tx_core = \<lparr>tc_kind = Transfer, tc_inputs = [],
     tc_outputs = [\<lparr>out_owner_script_hash = hash_fill 0,
       out_assets = [\<lparr>aa_asset_id = AssetId (hash_fill 2), aa_amount = 10\<rparr>], out_metadata_hash = None\<rparr>]\<rparr>,
     tx_witness = default_transaction_witness\<rparr>"

definition transaction_id_changes_when_payload_changes :: "platform \<Rightarrow> bool option" where
  "transaction_id_changes_when_payload_changes pf = do {
     original_id \<leftarrow> tx_id pf base_transaction;
     let tx = base_transaction\<lparr>tx_core := (tx_core base_transaction)\<lparr>tc_outputs := tc_outputs (tx_core base_transaction) @
       [\<lparr>out_owner_script_hash = hash_fill 1,
         out_assets = [\<lparr>aa_asset_id = AssetId (hash_fill 3), aa_amount = 1\<rparr>], out_metadata_hash = None\<rparr>]\<rparr>\<rparr>;
     mutated_id \<leftarrow> tx_id pf tx;
     Some (original_id \<noteq> mutated_id)
   }"

definition create_asset_transaction_derives_expected_asset_id_and_supply :: "platform \<Rightarrow> bool option" where
  "create_asset_transaction_derives_expected_asset_id_and_supply pf = do {
     let (d, tx) = create_asset_transaction pf (hash_fill 4) SemiFungible (hash_fill 9) (Some 1000) 2 500 (hash_fill 8) 42;
     let new_id = derive_asset_id pf d 42;
     minted_output \<leftarrow> list_get (tc_outputs (tx_core tx)) 0;
     minted_asset \<leftarrow> list_get (out_assets minted_output) 0;
     Some ((case tc_kind (tx_core tx) of CreateAsset _ _ \<Rightarrow> True | _ \<Rightarrow> False) \<and>
       tc_inputs (tx_core tx) = [] \<and> length (tc_outputs (tx_core tx)) = 1 \<and>
       ad_kind d = SemiFungible \<and> ad_issuer_script_hash d = hash_fill 4 \<and> ad_metadata_root d = hash_fill 9 \<and>
       ad_max_supply d = Some 1000 \<and> ad_decimals d = 2 \<and>
       out_owner_script_hash minted_output = hash_fill 8 \<and> length (out_assets minted_output) = 1 \<and>
       aa_asset_id minted_asset = new_id \<and> \<not> is_qcoin_asset_id new_id \<and> aa_amount minted_asset = 500 \<and>
       out_metadata_hash minted_output = None)
   }"

definition qcoin_asset_id_is_loadngo_ascii_padded :: bool where
  "qcoin_asset_id_is_loadngo_ascii_padded \<longleftrightarrow>
     take 7 (hash_slice (asset_id_hash QCOIN_ASSET_ID)) = ascii ''loadngo'' \<and>
     list_all (\<lambda>b. b = 0) (drop 7 (hash_slice (asset_id_hash QCOIN_ASSET_ID))) \<and> is_qcoin_asset_id QCOIN_ASSET_ID"

section \<open>Their results\<close>

context signature_scheme_contract
begin

lemma signed_message_works:
  assumes "pq_lib_correct lib"
  obtains pk sk s where "signed_message sch seed rnd = Some (pk, sk, s)" "ps_keygen sch seed = Ok (pk, sk)"
    "ps_sign sch rnd sk MESSAGE = Ok s" "ps_verify sch pk MESSAGE s = Ok ()"
proof -
  from fresh_keys_sign [OF assms, of seed rnd MESSAGE] obtain pk sk s where
    m: "ps_keygen sch seed = Ok (pk, sk)" "ps_sign sch rnd sk MESSAGE = Ok s" "ps_verify sch pk MESSAGE s = Ok ()" .
  then have "signed_message sch seed rnd = Some (pk, sk, s)" by (simp add: signed_message_def)
  with m show ?thesis by (rule that [rotated])
qed

end

lemma test_roundtrips:
  "pq_lib_correct (pf_dilithium2 pf) \<Longrightarrow> dilithium_roundtrip pf seed rnd = Some True"
  "pq_lib_correct (pf_falcon512 pf) \<Longrightarrow> falcon_roundtrip pf seed rnd = Some True"
proof -
  assume "pq_lib_correct (pf_dilithium2 pf)"
  from dilithium.signed_message_works [OF this, of seed rnd] obtain pk sk s where
    "signed_message (dilithium2_scheme pf) seed rnd = Some (pk, sk, s)"
    "ps_verify (dilithium2_scheme pf) pk MESSAGE s = Ok ()" .
  then show "dilithium_roundtrip pf seed rnd = Some True" by (simp add: dilithium_roundtrip_def)
next
  assume "pq_lib_correct (pf_falcon512 pf)"
  from falcon.signed_message_works [OF this, of seed rnd] obtain pk sk s where
    "signed_message (falcon512_scheme pf) seed rnd = Some (pk, sk, s)"
    "ps_verify (falcon512_scheme pf) pk MESSAGE s = Ok ()" .
  then show "falcon_roundtrip pf seed rnd = Some True" by (simp add: falcon_roundtrip_def)
qed

lemma scheme_ids [simp]: "ps_id (dilithium2_scheme pf) = Dilithium2" "ps_id (falcon512_scheme pf) = Falcon512"
  by (simp_all add: dilithium2_scheme_def falcon512_scheme_def)

lemma test_signing_wrong_scheme:
  assumes "pq_lib_correct (pf_dilithium2 pf)"
  shows "signing_rejects_wrong_scheme_key pf seed rnd = Some True"
proof -
  from dilithium.keygen_total [OF assms] obtain pk sk where keys: "ps_keygen (dilithium2_scheme pf) seed = Ok (pk, sk)"
    by blast
  with dilithium.keygen_scheme [OF keys] falcon.sign_wrong_scheme [of sk pf rnd MESSAGE] show ?thesis
    by (simp add: signing_rejects_wrong_scheme_key_def)
qed

text \<open>What the second part of the next test relies on: a Falcon signature is no Dilithium signature of the message.\<close>

definition foreign_signature_refused :: "platform \<Rightarrow> nat \<Rightarrow> nat \<Rightarrow> nat \<Rightarrow> bool" where
  "foreign_signature_refused pf seed seed' rnd \<longleftrightarrow>
     (let s = pl_detached_sign (pf_falcon512 pf) rnd MESSAGE (snd (pl_keypair (pf_falcon512 pf) seed'))
      in \<not> (pl_signature_ok (pf_dilithium2 pf) s \<and>
        pl_verify_detached (pf_dilithium2 pf) s MESSAGE (fst (pl_keypair (pf_dilithium2 pf) seed))))"

lemma dilithium_keys:
  assumes "pq_lib_correct (pf_dilithium2 pf)" and "ps_keygen (dilithium2_scheme pf) seed = Ok (pk, sk)"
  shows "pk = \<lparr>pk_scheme = Dilithium2, pk_bytes = fst (pl_keypair (pf_dilithium2 pf) seed)\<rparr>"
    and "pl_public_key_ok (pf_dilithium2 pf) (pk_bytes pk)"
  using assms by (auto simp: dilithium2_scheme_def dilithium2_keygen_def crypto_new_defs res_simps pq_lib_correct_def
      split: prod.splits)

lemma falcon_signature:
  assumes "ps_keygen (falcon512_scheme pf) seed = Ok (pk, sk)" and "ps_sign (falcon512_scheme pf) rnd sk msg = Ok s"
  shows "s = \<lparr>sig_scheme = Falcon512,
    sig_bytes = pl_detached_sign (pf_falcon512 pf) rnd msg (snd (pl_keypair (pf_falcon512 pf) seed))\<rparr>"
  using assms by (auto simp: falcon512_scheme_def falcon512_keygen_def falcon512_sign_def crypto_new_defs res_simps
      split: prod.splits if_splits)

lemma test_verify_wrong_scheme:
  assumes "pq_lib_correct (pf_dilithium2 pf)" and "pq_lib_correct (pf_falcon512 pf)"
    and "foreign_signature_refused pf seed seed' rnd"
  shows "verify_rejects_wrong_scheme_signature pf seed seed' rnd = Some True"
proof -
  from dilithium.keygen_total [OF assms(1)] obtain pk sk where keys: "ps_keygen (dilithium2_scheme pf) seed = Ok (pk, sk)"
    by blast
  from falcon.fresh_keys_sign [OF assms(2), of seed' rnd MESSAGE] obtain pk' sk' s where
    f: "ps_keygen (falcon512_scheme pf) seed' = Ok (pk', sk')" "ps_sign (falcon512_scheme pf) rnd sk' MESSAGE = Ok s" .
  have "ps_verify (dilithium2_scheme pf) pk MESSAGE s = Err WrongScheme"
    using falcon_signature [OF f] by (simp add: dilithium.verify_wrong_scheme)
  moreover have "ps_verify (dilithium2_scheme pf) pk MESSAGE \<lparr>sig_scheme = Dilithium2, sig_bytes = sig_bytes s\<rparr>
      = Err InvalidSignature"
    using dilithium_keys [OF assms(1) keys] falcon_signature [OF f] assms(3)
    by (auto simp: dilithium2_scheme_def dilithium2_verify_def foreign_signature_refused_def Let_def)
  ultimately show ?thesis using keys f by (simp add: verify_rejects_wrong_scheme_signature_def)
qed

lemma test_corrupted_public_key:
  assumes "pq_lib_correct (pf_dilithium2 pf)"
    and "\<And>bs. length bs \<noteq> pl_public_key_bytes (pf_dilithium2 pf) \<Longrightarrow> \<not> pl_public_key_ok (pf_dilithium2 pf) bs"
  shows "verify_rejects_corrupted_public_key pf seed rnd = Some True"
proof -
  from dilithium.signed_message_works [OF assms(1), of seed rnd] obtain pk sk s where
    m: "signed_message (dilithium2_scheme pf) seed rnd = Some (pk, sk, s)"
    "ps_keygen (dilithium2_scheme pf) seed = Ok (pk, sk)" "ps_verify (dilithium2_scheme pf) pk MESSAGE s = Ok ()"
    by metis
  have "length (pk_bytes pk) = pl_public_key_bytes (pf_dilithium2 pf)" "pk_scheme pk = Dilithium2"
    using dilithium_keys [OF assms(1) m(2)] assms(1) by (auto simp: pq_lib_correct_def) (metis prod.collapse)
  with assms(2) [of "pk_bytes pk @ [0]"] m(1) dilithium.verify_Ok_scheme [OF m(3)] show ?thesis
    by (simp add: verify_rejects_corrupted_public_key_def dilithium2_scheme_def dilithium2_verify_def)
qed

text \<open>The libraries refuse a signature with a byte appended, and one of another message.\<close>

definition signature_refused :: "pq_lib \<Rightarrow> nat \<Rightarrow> nat \<Rightarrow> bytes \<Rightarrow> bytes \<Rightarrow> bool" where
  "signature_refused l seed rnd suff msg \<longleftrightarrow>
     (let s = pl_detached_sign l rnd MESSAGE (snd (pl_keypair l seed)) @ suff
      in \<not> (pl_signature_ok l s \<and> pl_verify_detached l s msg (fst (pl_keypair l seed))))"

lemma test_corrupted_signature:
  assumes "pq_lib_correct (pf_falcon512 pf)" and "signature_refused (pf_falcon512 pf) seed rnd [1] MESSAGE"
  shows "verify_rejects_corrupted_signature pf seed rnd = Some True"
  using assms unfolding pq_lib_correct_def
  by (cases "pl_keypair (pf_falcon512 pf) seed")
    (auto simp: verify_rejects_corrupted_signature_def signed_message_def falcon512_scheme_def falcon512_keygen_def
      falcon512_sign_def falcon512_verify_def crypto_new_defs validate_key_size_def signature_refused_def Let_def)

lemma test_corrupted_message:
  assumes "pq_lib_correct (pf_dilithium2 pf)" and "signature_refused (pf_dilithium2 pf) seed rnd [] (ascii ''tampered'')"
  shows "verify_rejects_corrupted_message pf seed rnd = Some True"
  using assms unfolding pq_lib_correct_def
  by (cases "pl_keypair (pf_dilithium2 pf) seed")
    (auto simp: verify_rejects_corrupted_message_def signed_message_def dilithium2_scheme_def dilithium2_keygen_def
      dilithium2_sign_def dilithium2_verify_def crypto_new_defs validate_key_size_def signature_refused_def Let_def)

text \<open>Keys and signatures that a scheme made can be encoded, so both round trips are those of the byte form.\<close>

lemma made_values_encode:
  assumes "registry_get (default_registry pf) i = Some sch" and "ps_keygen sch seed = Ok (pk, sk)"
    and "ps_sign sch rnd sk msg = Ok s"
  obtains pkb sb where "public_key_to_bytes pf pk = Ok pkb" "signature_to_bytes pf s = Ok sb"
  using keygen_sized [OF assms(1,2)] sign_sized [OF assms(1,3)]
  by (auto simp: public_key_to_bytes_def signature_to_bytes_def encode_with_scheme_def validate_key_size_def)

lemma test_canonical:
  assumes "pq_lib_correct (pf_falcon512 pf)" and "pq_sizes_ok pf"
  shows "roundtrip_serialization_is_canonical pf seed rnd = Some True"
proof -
  from falcon.signed_message_works [OF assms(1), of seed rnd] obtain pk sk s where
    m: "signed_message (falcon512_scheme pf) seed rnd = Some (pk, sk, s)"
    "ps_keygen (falcon512_scheme pf) seed = Ok (pk, sk)" "ps_sign (falcon512_scheme pf) rnd sk MESSAGE = Ok s" by metis
  from made_values_encode [OF _ m(2,3), where i = Falcon512] obtain pkb sb where
    "public_key_to_bytes pf pk = Ok pkb" "signature_to_bytes pf s = Ok sb" by (auto simp: default_registry_get)
  moreover from this have "public_key_from_bytes pf pkb = Ok pk" "signature_from_bytes pf sb = Ok s"
    using from_bytes_iff_to_bytes [OF assms(2)] by blast+
  ultimately show ?thesis using m(1) by (simp add: roundtrip_serialization_is_canonical_def)
qed

lemma test_json:
  assumes "pq_lib_correct (pf_dilithium2 pf)" and "pq_sizes_ok pf" and "\<And>bs. read_array (write_array bs) = map Ok bs"
  shows "json_roundtrip_accepts_byte_array_encoding pf write_array read_array seed rnd = Some True"
proof -
  from dilithium.signed_message_works [OF assms(1), of seed rnd] obtain pk sk s where
    m: "signed_message (dilithium2_scheme pf) seed rnd = Some (pk, sk, s)"
    "ps_keygen (dilithium2_scheme pf) seed = Ok (pk, sk)" "ps_sign (dilithium2_scheme pf) rnd sk MESSAGE = Ok s" by metis
  from made_values_encode [OF _ m(2,3), where i = Dilithium2] obtain pkb sb where
    b: "public_key_to_bytes pf pk = Ok pkb" "signature_to_bytes pf s = Ok sb" by (auto simp: default_registry_get)
  then have "public_key_from_bytes pf pkb = Ok pk" "signature_from_bytes pf sb = Ok s"
    using from_bytes_iff_to_bytes [OF assms(2)] by blast+
  with m(1) b show ?thesis
    by (simp add: json_roundtrip_accepts_byte_array_encoding_def public_key_serialize_def signature_serialize_def assms(3)
        public_key_visit_seq_def signature_visit_seq_def)
qed

lemma test_asset_id_and_supply:
  assumes "derive_asset_id pf \<lparr>ad_issuer_script_hash = hash_fill 4, ad_metadata_root = hash_fill 9,
    ad_max_supply = Some 1000, ad_decimals = 2, ad_kind = SemiFungible\<rparr> 42 \<noteq> QCOIN_ASSET_ID"
  shows "create_asset_transaction_derives_expected_asset_id_and_supply pf = Some True"
  using assms by (simp add: create_asset_transaction_derives_expected_asset_id_and_supply_def create_asset_transaction_def
      list_get_def is_qcoin_asset_id_iff Let_def)

lemma test_qcoin_id: qcoin_asset_id_is_loadngo_ascii_padded
  by (simp add: qcoin_asset_id_is_loadngo_ascii_padded_def QCOIN_ASSET_ID_def qcoin_asset_id_bytes.rep_eq is_qcoin_asset_id_def
      ascii_def list_all_iff numeral_eq_Suc)

definition mutated_outputs :: "tx_output list" where
  "mutated_outputs = tc_outputs (tx_core base_transaction) @ [\<lparr>out_owner_script_hash = hash_fill 1,
     out_assets = [\<lparr>aa_asset_id = AssetId (hash_fill 3), aa_amount = 1\<rparr>], out_metadata_hash = None\<rparr>]"

lemma test_id_changes:
  assumes "tx_id pf base_transaction = Some i" and "core_tx_id pf ((tx_core base_transaction)\<lparr>tc_outputs := mutated_outputs\<rparr>) = Some j"
    and "i \<noteq> j"
  shows "transaction_id_changes_when_payload_changes pf = Some True"
  using assms by (simp add: transaction_id_changes_when_payload_changes_def tx_id_def mutated_outputs_def Let_def)

section \<open>One platform that passes\<close>

text \<open>A signature is the key with the length of the message, and a hash tells apart data of different lengths.\<close>

definition tagging_lib :: pq_lib where
  "tagging_lib = \<lparr>pl_public_key_bytes = 1, pl_secret_key_bytes = 1, pl_signature_bytes = 2,
     pl_keypair = (\<lambda>seed. ([of_nat seed], [of_nat seed])),
     pl_public_key_ok = (\<lambda>bs. length bs = 1), pl_secret_key_ok = (\<lambda>bs. length bs = 1),
     pl_signature_ok = (\<lambda>bs. length bs = 2),
     pl_detached_sign = (\<lambda>rnd msg sk. of_nat (length msg) # sk),
     pl_verify_detached = (\<lambda>sig msg pk. sig = of_nat (length msg) # pk)\<rparr>"

definition tagging_platform :: platform where
  "tagging_platform = (sample_platform True)\<lparr>pf_dilithium2 := tagging_lib, pf_falcon512 := tagging_lib\<rparr>"

lemma tagging_correct [simp]: "pq_lib_correct tagging_lib"
  by (auto simp: pq_lib_correct_def tagging_lib_def pq_sizes_fit_def)

lemma tagging_platform_simps [simp]:
  "pf_dilithium2 tagging_platform = tagging_lib" "pf_falcon512 tagging_platform = tagging_lib"
  "pf_blake3 tagging_platform bs = hash_fill (of_nat (length bs))" "pq_sizes_ok tagging_platform"
  using tagging_correct by (simp_all add: tagging_platform_def pq_sizes_ok_def pq_lib_correct_def sample_platform_def)

lemma tagging_refuses:
  "foreign_signature_refused tagging_platform 1 2 0" "signature_refused tagging_lib 1 0 [1] MESSAGE"
  "signature_refused tagging_lib 1 0 [] (ascii ''tampered'')"
  "length bs \<noteq> pl_public_key_bytes tagging_lib \<Longrightarrow> \<not> pl_public_key_ok tagging_lib bs"
  by (simp_all add: foreign_signature_refused_def signature_refused_def tagging_lib_def MESSAGE_def)

lemma byte_char: "of_nat (of_char (char_of (unat b) :: char)) = (b :: u8)"
  using u8_bound [of b] by simp

lemma tagging_json:
  "json_roundtrip_accepts_byte_array_encoding tagging_platform (map (\<lambda>b. char_of (unat b)))
     (map (\<lambda>c. Ok (of_nat (of_char c)))) 1 0 = Some True"
proof (rule test_json)
  show "map (\<lambda>c. Ok (of_nat (of_char c))) (map (\<lambda>b. char_of (unat b)) bs) = map Ok bs" for bs :: bytes
    by (simp only: list.map_comp o_def byte_char)
qed simp_all

lemma base_tests_pass:
  "dilithium_roundtrip tagging_platform 1 0 = Some True"
  "falcon_roundtrip tagging_platform 1 0 = Some True"
  "signing_rejects_wrong_scheme_key tagging_platform 1 0 = Some True"
  "verify_rejects_wrong_scheme_signature tagging_platform 1 2 0 = Some True"
  "verify_rejects_corrupted_public_key tagging_platform 1 0 = Some True"
  "verify_rejects_corrupted_signature tagging_platform 1 0 = Some True"
  "verify_rejects_corrupted_message tagging_platform 1 0 = Some True"
  "roundtrip_serialization_is_canonical tagging_platform 1 0 = Some True"
  "json_roundtrip_accepts_byte_array_encoding tagging_platform (map (\<lambda>b. char_of (unat b))) (map (\<lambda>c. Ok (of_nat (of_char c)))) 1 0 = Some True"
  "transaction_id_changes_when_payload_changes tagging_platform = Some True"
proof -
  show "transaction_id_changes_when_payload_changes tagging_platform = Some True"
    by (rule test_id_changes, simp_all add: tx_id_def core_tx_id_def encode_tx_core_def base_transaction_def mutated_outputs_def encode_vec_def
        encode_len_total encode_output_def encode_asset_amount_def, simp)
  show "verify_rejects_corrupted_public_key tagging_platform 1 0 = Some True"
    by (rule test_corrupted_public_key) (simp_all add: tagging_refuses)
qed (simp_all add: test_roundtrips test_signing_wrong_scheme test_verify_wrong_scheme tagging_refuses test_corrupted_signature
    test_corrupted_message test_canonical tagging_json del: One_nat_def)

end
