(* ===== verification/QC_ScriptTests.thy ===== *)
theory QC_ScriptTests
  imports QC_Script QC_BaseTests
begin

text \<open>
  The test module of \<open>qcoin-script/src/lib.rs\<close>, test by test, on the model; tests are values as in \<open>QC_BaseTests\<close>.
  \<open>is_evaluation_error\<close> is the pattern \<open>Err(ScriptError::Evaluation(_))\<close>.
\<close>

section \<open>Fixtures\<close>

record static_host =
  sth_current_height :: "u64 option"
  sth_inputs :: "(hash256 \<times> u32, resolved_input) fmap"

definition static_host_new :: "u64 option \<Rightarrow> static_host" where
  "static_host_new height = \<lparr>sth_current_height = height, sth_inputs = fmempty\<rparr>"

definition with_input :: "transaction_input \<Rightarrow> resolved_input \<Rightarrow> static_host \<Rightarrow> static_host" where
  "with_input inp resolved host = host\<lparr>sth_inputs := fmupd (ti_tx_id inp, ti_index inp) resolved (sth_inputs host)\<rparr>"

definition static_script_host :: "static_host \<Rightarrow> script_host" where
  "static_script_host host = \<lparr>sh_current_height = sth_current_height host,
     sh_input_utxo = (\<lambda>inp. fmlookup (sth_inputs host) (ti_tx_id inp, ti_index inp))\<rparr>"

definition sample_script_tx :: "transaction \<times> transaction_input" where
  "sample_script_tx =
     (let inp = \<lparr>ti_tx_id = hash_fill 1, ti_index = 0\<rparr>
      in (\<lparr>tx_core = \<lparr>tc_kind = Transfer, tc_inputs = [inp],
             tc_outputs = [\<lparr>out_owner_script_hash = hash_fill 2,
               out_assets = [\<lparr>aa_asset_id = AssetId (hash_fill 3), aa_amount = 10\<rparr>], out_metadata_hash = None\<rparr>]\<rparr>,
           tx_witness = default_transaction_witness\<rparr>, inp))"

definition default_engine :: "platform \<Rightarrow> script_engine" where
  "default_engine pf = eval pf default_vm_config"

definition u64_le_bytes :: "u64 \<Rightarrow> bytes" where
  "u64_le_bytes value = to_le_bytes value"

definition script_digest :: "platform \<Rightarrow> script \<Rightarrow> hash256 option" where
  "script_digest pf s = map_option (pf_blake3 pf) (encode_script s)"

text \<open>The host and the context that every test builds: the host knows the one input of the sample transaction.\<close>

definition sample_static_host :: "u64 \<Rightarrow> u64 \<Rightarrow> script_host option" where
  "sample_static_host height created = do {
     let (tx, inp) = sample_script_tx;
     out \<leftarrow> list_get (tc_outputs (tx_core tx)) 0;
     Some (static_script_host (with_input inp \<lparr>ri_output = out, ri_created_height = Some created\<rparr> (static_host_new (Some height))))
   }"

definition sample_script_ctx :: "u64 \<Rightarrow> hash256 \<Rightarrow> script_context" where
  "sample_script_ctx height h = \<lparr>ctx_tx = fst sample_script_tx, ctx_input_index = 0, ctx_current_height = Some height,
     ctx_chain_id = 0, ctx_script_hash = h\<rparr>"

fun is_evaluation_error :: "(script_error, script_result) res \<Rightarrow> bool" where
  "is_evaluation_error (Err (Evaluation _)) = True"
| "is_evaluation_error _ = False"

section \<open>The tests\<close>

definition checks_signature_successfully :: "platform \<Rightarrow> nat \<Rightarrow> nat \<Rightarrow> bool option" where
  "checks_signature_successfully pf seed rnd = do {
     scheme \<leftarrow> registry_get (default_registry pf) Dilithium2;
     (pk, sk) \<leftarrow> passed (ps_keygen scheme seed);
     let (tx, inp) = sample_script_tx;
     pkb \<leftarrow> passed (public_key_to_bytes pf pk);
     h \<leftarrow> script_digest pf (Script [PushBytes pkb, PushBytes [], CheckSig]);
     prev_output \<leftarrow> list_get (tc_outputs (tx_core tx)) 0;
     msg \<leftarrow> sighash pf tx 0 prev_output h 0 default_sighash_flags;
     s \<leftarrow> passed (ps_sign scheme rnd sk (hash_slice msg));
     sb \<leftarrow> passed (signature_to_bytes pf s);
     host \<leftarrow> sample_static_host 10 1;
     Some (is_Ok (default_engine pf (Script [PushBytes pkb, PushBytes sb, CheckSig]) (sample_script_ctx 10 h) host))
   }"

definition rejects_invalid_signature :: "platform \<Rightarrow> nat \<Rightarrow> nat \<Rightarrow> bool option" where
  "rejects_invalid_signature pf seed rnd = do {
     scheme \<leftarrow> registry_get (default_registry pf) Dilithium2;
     (pk, sk) \<leftarrow> passed (ps_keygen scheme seed);
     bad_signature \<leftarrow> passed (ps_sign scheme rnd sk (ascii ''wrong message''));
     pkb \<leftarrow> passed (public_key_to_bytes pf pk);
     sb \<leftarrow> passed (signature_to_bytes pf bad_signature);
     let s = Script [PushBytes pkb, PushBytes sb, CheckSig];
     h \<leftarrow> script_digest pf s;
     host \<leftarrow> sample_static_host 5 0;
     Some (is_evaluation_error (default_engine pf s (sample_script_ctx 5 h) host))
   }"

definition enforces_absolute_timelock :: "platform \<Rightarrow> bool option" where
  "enforces_absolute_timelock pf = do {
     let s = Script [PushBytes (u64_le_bytes 11), CheckTimeLock];
     h \<leftarrow> script_digest pf s;
     host \<leftarrow> sample_static_host 10 0;
     host' \<leftarrow> sample_static_host 12 0;
     Some (is_evaluation_error (default_engine pf s (sample_script_ctx 10 h) host) \<and>
       is_Ok (default_engine pf s (sample_script_ctx 12 h) host'))
   }"

definition enforces_relative_timelock_using_host :: "platform \<Rightarrow> bool option" where
  "enforces_relative_timelock_using_host pf = do {
     let s = Script [PushBytes (u64_le_bytes 3), CheckRelativeTimeLock];
     h \<leftarrow> script_digest pf s;
     host \<leftarrow> sample_static_host 7 5;
     host' \<leftarrow> sample_static_host 9 5;
     Some (is_evaluation_error (default_engine pf s (sample_script_ctx 7 h) host) \<and>
       is_Ok (default_engine pf s (sample_script_ctx 9 h) host'))
   }"

definition validates_hashlock_preimage :: "platform \<Rightarrow> bool option" where
  "validates_hashlock_preimage pf = do {
     let preimage = ascii ''super-secret'';
     let expected_hash = hash_slice (pf_blake3 pf preimage);
     let s = Script [PushBytes expected_hash, PushBytes preimage, CheckHashLock];
     h \<leftarrow> script_digest pf s;
     host \<leftarrow> sample_static_host 1 0;
     let tampered_script = Script [PushBytes expected_hash, PushBytes (ascii ''wrong''), CheckHashLock];
     Some (is_Ok (default_engine pf s (sample_script_ctx 1 h) host) \<and>
       is_evaluation_error (default_engine pf tampered_script (sample_script_ctx 1 h) host))
   }"

definition halts_when_out_of_gas :: "platform \<Rightarrow> bool option" where
  "halts_when_out_of_gas pf = do {
     let s = Script (replicate 10 Nop);
     h \<leftarrow> script_digest pf s;
     host \<leftarrow> sample_static_host 0 0;
     Some (eval pf (default_vm_config\<lparr>vm_max_gas := 5\<rparr>) s (sample_script_ctx 0 h) host = Err OutOfGas)
   }"

section \<open>Their results\<close>

lemma script_digest_total:
  assumes "length ops < 2 ^ 32" and "\<And>d. PushBytes d \<in> set ops \<Longrightarrow> length d < 2 ^ 32"
  obtains h where "script_digest pf (Script ops) = Some h"
proof -
  have "encode_op op \<noteq> None" if "op \<in> set ops" for op
    using assms(2) that by (cases op) (auto simp: encode_len_total)
  then have "encode_script (Script ops) \<noteq> None"
    using assms(1) by (auto simp: encode_script_def encode_vec_eq_None)
  with that show ?thesis by (auto simp: script_digest_def)
qed

text \<open>The host and its one answer.\<close>

definition sample_resolved :: "u64 \<Rightarrow> resolved_input" where
  "sample_resolved created = \<lparr>ri_output = \<lparr>out_owner_script_hash = hash_fill 2,
     out_assets = [\<lparr>aa_asset_id = AssetId (hash_fill 3), aa_amount = 10\<rparr>], out_metadata_hash = None\<rparr>, ri_created_height = Some created\<rparr>"

lemma sample_static_host_works:
  obtains host where "sample_static_host height created = Some host" "sh_current_height host = Some height"
    "sh_input_utxo host \<lparr>ti_tx_id = hash_fill 1, ti_index = 0\<rparr> = Some (sample_resolved created)"
  by (auto simp: sample_static_host_def sample_script_tx_def Let_def list_get_def static_script_host_def with_input_def
      static_host_new_def sample_resolved_def)

lemma sample_script_ctx_simps [simp]:
  "tc_inputs (tx_core (fst sample_script_tx)) = [\<lparr>ti_tx_id = hash_fill 1, ti_index = 0\<rparr>]"
  "tc_inputs (tx_core (ctx_tx (sample_script_ctx height h))) = [\<lparr>ti_tx_id = hash_fill 1, ti_index = 0\<rparr>]"
  "ctx_input_index (sample_script_ctx height h) = 0" "ctx_script_hash (sample_script_ctx height h) = h"
  "ctx_chain_id (sample_script_ctx height h) = 0" "ctx_tx (sample_script_ctx height h) = fst sample_script_tx"
  by (simp_all add: sample_script_ctx_def sample_script_tx_def Let_def)

text \<open>A script that pushes two operands within the limits and then runs a check.\<close>

lemma eval_step_push:
  assumes "length d \<le> 4096" and "length items < 1024" and "10 + length d \<le> unat r"
  obtains r' where "unat r' = unat r - (10 + length d)"
    "eval_step pf default_vm_config ctx host (PushBytes d) (\<lparr>gm_remaining = r, gm_limit = l\<rparr>, \<lparr>st_items = items, st_max_items = 1024\<rparr>)
      = Ok (\<lparr>gm_remaining = r', gm_limit = l\<rparr>, \<lparr>st_items = items @ [d], st_max_items = 1024\<rparr>)"
proof -
  let ?c = "10 + of_nat (length d) :: u64"
  have c: "unat ?c = 10 + length d" using assms(1) by (simp add: unat_add_small unat_of_nat)
  then have le: "?c \<le> r" using assms(3) by (simp add: word_le_nat_alt)
  show ?thesis
  proof (rule that [of "r - ?c"])
    show "unat (r - ?c) = unat r - (10 + length d)" using c le by (simp add: unat_sub)
  qed (use le assms(1,2) in \<open>simp add: eval_step_def default_limits vm_defs not_less\<close>)
qed

lemma eval_two_pushes:
  assumes "length a \<le> 4096" and "length b \<le> 4096" and "op \<in> {CheckSig, CheckHashLock}"
  shows "\<exists>g. eval pf default_vm_config (Script [PushBytes a, PushBytes b, op]) ctx host =
    and_then (exec_op pf default_vm_config ctx host op \<lparr>st_items = [a, b], st_max_items = 1024\<rparr>)
      (\<lambda>_. Ok \<lparr>sr_gas_consumed = g\<rparr>)"
proof -
  obtain r1 where r1: "unat r1 = 50000 - (10 + length a)"
    "eval_step pf default_vm_config ctx host (PushBytes a) (\<lparr>gm_remaining = 50000, gm_limit = 50000\<rparr>, \<lparr>st_items = [], st_max_items = 1024\<rparr>)
      = Ok (\<lparr>gm_remaining = r1, gm_limit = 50000\<rparr>, \<lparr>st_items = [a], st_max_items = 1024\<rparr>)"
    using assms(1) by (rule eval_step_push [of a "[]" 50000 pf ctx host 50000]) (use assms(1) in simp_all)
  obtain r2 where r2: "unat r2 = unat r1 - (10 + length b)"
    "eval_step pf default_vm_config ctx host (PushBytes b) (\<lparr>gm_remaining = r1, gm_limit = 50000\<rparr>, \<lparr>st_items = [a], st_max_items = 1024\<rparr>)
      = Ok (\<lparr>gm_remaining = r2, gm_limit = 50000\<rparr>, \<lparr>st_items = [a, b], st_max_items = 1024\<rparr>)"
    using assms(2) by (rule eval_step_push [of b "[a]" r1 pf ctx host 50000]) (use r1(1) assms(1,2) in simp_all)
  have "5000 \<le> r2" "250 \<le> r2" using r1(1) r2(1) assms(1,2) by (simp_all add: word_le_nat_alt)
  with assms(3) r1(2) r2(2) show ?thesis
    by (cases "exec_op pf default_vm_config ctx host op \<lparr>st_items = [a, b], st_max_items = 1024\<rparr>")
      (auto simp: eval_def gas_new_def stack_new_def eval_step_def [of _ _ _ _ op] default_limits gas_consume_def not_less
        not_le [symmetric])
qed

lemma encoded_length:
  assumes "encode_with_scheme sch f bs shorter e = Ok out" and "f sch = Some n"
  shows "length out \<le> 6 + n"
  using assms by (auto simp: encode_with_scheme_eq_Ok validate_key_size_eq_Ok split: if_splits)

text \<open>Both signature tests: keys and signatures within the push limit.\<close>

definition dilithium_fits_push :: "platform \<Rightarrow> bool" where
  "dilithium_fits_push pf \<longleftrightarrow> pq_lib_correct (pf_dilithium2 pf) \<and> pq_sizes_ok pf \<and>
     6 + pl_public_key_bytes (pf_dilithium2 pf) \<le> 4096 \<and> 6 + pl_signature_bytes (pf_dilithium2 pf) \<le> 4096"

lemma signed_script:
  assumes "dilithium_fits_push pf"
  obtains pk sk s pkb sb where "ps_keygen (dilithium2_scheme pf) seed = Ok (pk, sk)"
    "ps_sign (dilithium2_scheme pf) rnd sk msg = Ok s" "ps_verify (dilithium2_scheme pf) pk msg s = Ok ()"
    "public_key_to_bytes pf pk = Ok pkb" "signature_to_bytes pf s = Ok sb" "length pkb \<le> 4096" "length sb \<le> 4096"
    "parse_public_key pf pkb = Ok pk" "parse_signature pf sb = Ok s" "pk_scheme pk = Dilithium2" "sig_scheme s = Dilithium2"
proof -
  have lib: "pq_lib_correct (pf_dilithium2 pf)" "pq_sizes_ok pf" using assms by (auto simp: dilithium_fits_push_def)
  from dilithium.fresh_keys_sign [OF lib(1), of seed rnd msg] obtain pk sk s where
    k: "ps_keygen (dilithium2_scheme pf) seed = Ok (pk, sk)" "ps_sign (dilithium2_scheme pf) rnd sk msg = Ok s"
    "ps_verify (dilithium2_scheme pf) pk msg s = Ok ()" .
  from made_values_encode [OF _ k(1,2), where i = Dilithium2] obtain pkb sb where
    b: "public_key_to_bytes pf pk = Ok pkb" "signature_to_bytes pf s = Ok sb" by (auto simp: default_registry_get)
  have sch: "pk_scheme pk = Dilithium2" "sig_scheme s = Dilithium2"
    using dilithium.verify_Ok_scheme [OF k(3)] by simp_all
  have "length pkb \<le> 4096" "length sb \<le> 4096"
    using encoded_length [OF b(1) [unfolded public_key_to_bytes_def]]
      encoded_length [OF b(2) [unfolded signature_to_bytes_def]] assms sch by (auto simp: dilithium_fits_push_def)
  moreover have "parse_public_key pf pkb = Ok pk" "parse_signature pf sb = Ok s"
    using b from_bytes_iff_to_bytes [OF lib(2), of pkb pk] from_bytes_iff_to_bytes [OF lib(2), of sb _ _ s]
    by (simp_all add: parse_public_key_def parse_signature_def)
  ultimately show ?thesis using that k b sch by blast
qed

lemma exec_pushed_sig:
  assumes "parse_public_key pf pkb = Ok pk" and "parse_signature pf sb = Ok s" and "pk_scheme pk = Dilithium2"
    and "input_sighash pf ctx host = Ok h"
  shows "exec_op pf cfg ctx host CheckSig \<lparr>st_items = [pkb, sb], st_max_items = m\<rparr> =
    and_then (map_err (\<lambda>err. Evaluation (''signature verification failed: '' @ crypto_error_display err))
      (ps_verify (dilithium2_scheme pf) pk (hash_slice h) s)) (\<lambda>_. Ok \<lparr>st_items = [], st_max_items = m\<rparr>)"
  using assms by (simp add: exec_check_sig_def stack_pop_def verify_input_signature_def default_registry_get)

lemma sample_sighash:
  "\<exists>msg. sighash pf (fst sample_script_tx) 0 (ri_output (sample_resolved created)) h 0 default_sighash_flags = Some msg"
  using sighash_eq_None [of pf "fst sample_script_tx" 0 "ri_output (sample_resolved created)" h 0 default_sighash_flags]
  by (auto simp: sample_script_tx_def Let_def sample_resolved_def core_fits_def output_fits_def)

lemma sample_input_msg:
  assumes "sh_input_utxo host \<lparr>ti_tx_id = hash_fill 1, ti_index = 0\<rparr> = Some (sample_resolved created)"
    and "sighash pf (fst sample_script_tx) 0 (ri_output (sample_resolved created)) h 0 default_sighash_flags = Some msg"
  shows "input_sighash pf (sample_script_ctx height h) host = Ok msg"
  using assms by (simp add: input_sighash_def list_get_def)

lemma test_checks_signature:
  assumes "dilithium_fits_push pf"
  shows "checks_signature_successfully pf seed rnd = Some True"
proof -
  obtain pk sk where keys: "ps_keygen (dilithium2_scheme pf) seed = Ok (pk, sk)"
    using dilithium.keygen_total [of pf seed] assms by (auto simp: dilithium_fits_push_def)
  obtain pkb where pkb: "public_key_to_bytes pf pk = Ok pkb" "length pkb \<le> 4096"
    using signed_script [OF assms, of seed] keys by (metis Pair_inject res.inject(1))
  obtain h where h: "script_digest pf (Script [PushBytes pkb, PushBytes [], CheckSig]) = Some h"
    by (rule script_digest_total [of "[PushBytes pkb, PushBytes [], CheckSig]"]) (use pkb(2) in auto)
  obtain msg where msg: "sighash pf (fst sample_script_tx) 0 (ri_output (sample_resolved 1)) h 0 default_sighash_flags = Some msg"
    using sample_sighash by blast
  from signed_script [OF assms, of seed rnd "hash_slice msg"] obtain s sb where
    s: "ps_sign (dilithium2_scheme pf) rnd sk (hash_slice msg) = Ok s" "ps_verify (dilithium2_scheme pf) pk (hash_slice msg) s = Ok ()"
    "signature_to_bytes pf s = Ok sb" "length sb \<le> 4096" "parse_public_key pf pkb = Ok pk" "parse_signature pf sb = Ok s"
    "pk_scheme pk = Dilithium2" by (metis Pair_inject keys pkb(1) res.inject(1))
  obtain host where host: "sample_static_host 10 1 = Some host"
    "sh_input_utxo host \<lparr>ti_tx_id = hash_fill 1, ti_index = 0\<rparr> = Some (sample_resolved 1)"
    by (rule sample_static_host_works)
  have "is_Ok (default_engine pf (Script [PushBytes pkb, PushBytes sb, CheckSig]) (sample_script_ctx 10 h) host)"
    using eval_two_pushes [OF pkb(2) s(4), of CheckSig pf "sample_script_ctx 10 h" host]
      exec_pushed_sig [OF s(5-7) sample_input_msg [OF host(2) msg]] s(2)
    by (auto simp: default_engine_def)
  moreover have "list_get (tc_outputs (tx_core (fst sample_script_tx))) 0 = Some (ri_output (sample_resolved 1))"
    by (simp add: sample_script_tx_def Let_def list_get_def sample_resolved_def)
  ultimately show ?thesis
    using keys pkb h msg s host
    by (simp add: checks_signature_successfully_def default_registry_get split_beta Let_def)
qed

text \<open>The signature of another message is no signature of the sighash that the script checks.\<close>

definition wrong_message_refused :: "platform \<Rightarrow> nat \<Rightarrow> nat \<Rightarrow> bool" where
  "wrong_message_refused pf seed rnd \<longleftrightarrow>
     (\<forall>pk sk s h. ps_keygen (dilithium2_scheme pf) seed = Ok (pk, sk) \<longrightarrow>
        ps_sign (dilithium2_scheme pf) rnd sk (ascii ''wrong message'') = Ok s \<longrightarrow>
        ps_verify (dilithium2_scheme pf) pk (hash_slice h) s \<noteq> Ok ())"

lemma test_rejects_signature:
  assumes "dilithium_fits_push pf" and "wrong_message_refused pf seed rnd"
  shows "rejects_invalid_signature pf seed rnd = Some True"
proof -
  from signed_script [OF assms(1), of seed rnd "ascii ''wrong message''"] obtain pk sk s pkb sb where
    s: "ps_keygen (dilithium2_scheme pf) seed = Ok (pk, sk)" "ps_sign (dilithium2_scheme pf) rnd sk (ascii ''wrong message'') = Ok s"
    "public_key_to_bytes pf pk = Ok pkb" "signature_to_bytes pf s = Ok sb" "length pkb \<le> 4096" "length sb \<le> 4096"
    "parse_public_key pf pkb = Ok pk" "parse_signature pf sb = Ok s" "pk_scheme pk = Dilithium2" by metis
  let ?s = "Script [PushBytes pkb, PushBytes sb, CheckSig]"
  obtain h where h: "script_digest pf ?s = Some h"
    by (rule script_digest_total [of "[PushBytes pkb, PushBytes sb, CheckSig]"]) (use s(5,6) in auto)
  obtain msg where msg: "sighash pf (fst sample_script_tx) 0 (ri_output (sample_resolved 0)) h 0 default_sighash_flags = Some msg"
    using sample_sighash by blast
  obtain host where host: "sample_static_host 5 0 = Some host"
    "sh_input_utxo host \<lparr>ti_tx_id = hash_fill 1, ti_index = 0\<rparr> = Some (sample_resolved 0)"
    by (rule sample_static_host_works)
  obtain e where "ps_verify (dilithium2_scheme pf) pk (hash_slice msg) s = Err e"
    using assms(2) s(1,2) dilithium.verify_cases by (metis wrong_message_refused_def)
  then have "is_evaluation_error (default_engine pf ?s (sample_script_ctx 5 h) host)"
    using eval_two_pushes [OF s(5,6), of CheckSig pf "sample_script_ctx 5 h" host]
      exec_pushed_sig [OF s(7-9) sample_input_msg [OF host(2) msg]]
    by (auto simp: default_engine_def)
  then show ?thesis
    using s h host by (simp add: rejects_invalid_signature_def default_registry_get)
qed

lemma push_lock_digest:
  assumes "op \<in> {CheckTimeLock, CheckRelativeTimeLock}"
  obtains h where "script_digest pf (Script [PushBytes (u64_le_bytes n), op]) = Some h"
proof (rule script_digest_total [of "[PushBytes (u64_le_bytes n), op]" pf])
  show "length d < 2 ^ 32" if "PushBytes d \<in> set [PushBytes (u64_le_bytes n), op]" for d
    using that assms by (auto simp: u64_le_bytes_def)
qed simp_all

lemma test_absolute_timelock: "enforces_absolute_timelock pf = Some True"
proof -
  obtain h where h: "script_digest pf (Script [PushBytes (u64_le_bytes 11), CheckTimeLock]) = Some h"
    by (rule push_lock_digest [of CheckTimeLock]) simp_all
  obtain host where "sample_static_host 10 0 = Some host" "sh_current_height host = Some 10"
    by (rule sample_static_host_works)
  moreover obtain host' where "sample_static_host 12 0 = Some host'" "sh_current_height host' = Some 12"
    by (rule sample_static_host_works)
  ultimately show ?thesis
    using h by (simp add: enforces_absolute_timelock_def default_engine_def u64_le_bytes_def eval_height_lock
        exec_check_time_lock_def stack_pop_def current_height_of_def)
qed

lemma test_relative_timelock: "enforces_relative_timelock_using_host pf = Some True"
proof -
  obtain h where h: "script_digest pf (Script [PushBytes (u64_le_bytes 3), CheckRelativeTimeLock]) = Some h"
    by (rule push_lock_digest [of CheckRelativeTimeLock]) simp_all
  let ?i = "\<lparr>ti_tx_id = hash_fill 1, ti_index = 0\<rparr>"
  obtain host where "sample_static_host 7 5 = Some host" "sh_current_height host = Some 7"
    "sh_input_utxo host ?i = Some (sample_resolved 5)"
    by (rule sample_static_host_works)
  moreover obtain host' where "sample_static_host 9 5 = Some host'" "sh_current_height host' = Some 9"
    "sh_input_utxo host' ?i = Some (sample_resolved 5)"
    by (rule sample_static_host_works)
  ultimately show ?thesis
    using h by (simp add: enforces_relative_timelock_using_host_def default_engine_def u64_le_bytes_def eval_height_lock
        exec_check_relative_time_lock_def stack_pop_def current_height_of_def list_get_def sample_resolved_def add_chk_def)
qed

lemma test_hashlock:
  assumes "pf_blake3 pf (ascii ''super-secret'') \<noteq> pf_blake3 pf (ascii ''wrong'')"
  shows "validates_hashlock_preimage pf = Some True"
proof -
  let ?e = "hash_slice (pf_blake3 pf (ascii ''super-secret''))"
  obtain h where h: "script_digest pf (Script [PushBytes ?e, PushBytes (ascii ''super-secret''), CheckHashLock]) = Some h"
    by (rule script_digest_total [of "[PushBytes ?e, PushBytes (ascii ''super-secret''), CheckHashLock]"]) auto
  obtain host where host: "sample_static_host 1 0 = Some host"
    by (rule sample_static_host_works)
  have run: "\<exists>g. default_engine pf (Script [PushBytes ?e, PushBytes d, CheckHashLock]) ctx host =
      and_then (exec_check_hash_lock pf \<lparr>st_items = [?e, d], st_max_items = 1024\<rparr>) (\<lambda>_. Ok \<lparr>sr_gas_consumed = g\<rparr>)"
    if "length d \<le> 4096" for d ctx host
    using eval_two_pushes [of ?e d CheckHashLock pf ctx host] that by (simp add: default_engine_def)
  have "is_Ok (default_engine pf (Script [PushBytes ?e, PushBytes (ascii ''super-secret''), CheckHashLock]) (sample_script_ctx 1 h) host)"
    using run [of "ascii ''super-secret''" "sample_script_ctx 1 h" host] by (auto simp: exec_check_hash_lock_def stack_pop_def)
  moreover have "is_evaluation_error
      (default_engine pf (Script [PushBytes ?e, PushBytes (ascii ''wrong''), CheckHashLock]) (sample_script_ctx 1 h) host)"
    using run [of "ascii ''wrong''" "sample_script_ctx 1 h" host] assms by (auto simp: exec_check_hash_lock_def stack_pop_def)
  ultimately show ?thesis using h host by (simp add: validates_hashlock_preimage_def Let_def)
qed

lemma test_out_of_gas: "halts_when_out_of_gas pf = Some True"
proof -
  obtain h where h: "script_digest pf (Script (replicate 10 Nop)) = Some h"
    by (rule script_digest_total [of "replicate 10 Nop"]) auto
  obtain host where host: "sample_static_host 0 0 = Some host"
    by (rule sample_static_host_works)
  have "replicate 10 Nop = [Nop, Nop, Nop, Nop, Nop, Nop, Nop, Nop, Nop, Nop]" by (simp add: numeral_eq_Suc)
  with h host show ?thesis
    by (simp add: halts_when_out_of_gas_def eval_def eval_step_def default_limits vm_defs)
qed

section \<open>The whole module\<close>

text \<open>All tests pass on the platform of \<open>QC_BaseTests\<close>.\<close>

lemma script_tests_pass:
  "checks_signature_successfully tagging_platform 1 0 = Some True"
  "rejects_invalid_signature tagging_platform 1 0 = Some True"
  "enforces_absolute_timelock tagging_platform = Some True"
  "enforces_relative_timelock_using_host tagging_platform = Some True"
  "validates_hashlock_preimage tagging_platform = Some True"
  "halts_when_out_of_gas tagging_platform = Some True"
proof -
  have fits: "dilithium_fits_push tagging_platform"
    by (simp add: dilithium_fits_push_def) (simp add: tagging_lib_def)
  have "wrong_message_refused tagging_platform 1 0"
    by (auto simp: wrong_message_refused_def dilithium2_scheme_def dilithium2_keygen_def dilithium2_sign_def
        dilithium2_verify_def crypto_new_defs res_simps tagging_lib_def split: if_splits)
  with fits show "rejects_invalid_signature tagging_platform 1 0 = Some True"
    by (rule test_rejects_signature)
  show "checks_signature_successfully tagging_platform 1 0 = Some True"
    by (rule test_checks_signature [OF fits])
qed (simp_all add: test_absolute_timelock test_relative_timelock test_hashlock test_out_of_gas)

end
