(* ===== verification/QC_ConsensusTests.thy ===== *)
theory QC_ConsensusTests
  imports QC_Consensus QC_BaseTests
begin

text \<open>
  The test module of \<open>qcoin-consensus/src/lib.rs\<close>, test by test, on the model; tests are values as in \<open>QC_BaseTests\<close>.
  Seeds and the clock are arguments. Tests with two engines need keys that differ, tests that tamper need a
  hash or a signature library that notices; these are the hypotheses of the results.
\<close>

section \<open>The tests\<close>

definition empty_transfer :: transaction where
  "empty_transfer = \<lparr>tx_core = \<lparr>tc_kind = Transfer, tc_inputs = [], tc_outputs = []\<rparr>, tx_witness = default_transaction_witness\<rparr>"

definition validate_block_rejects_mutated_transactions ::
  "platform \<Rightarrow> (bytes \<Rightarrow> input_witness option) \<Rightarrow> (string, u64) res \<Rightarrow> nat \<Rightarrow> nat \<Rightarrow> bool option" where
  "validate_block_rejects_mutated_transactions pf dw now seed rnd = do {
     engine \<leftarrow> passed (engine_default pf seed);
     b \<leftarrow> passed (propose_block pf dw engine default_chain_state [empty_transfer] now rnd);
     valid \<leftarrow> passed (validate_block pf dw engine default_chain_state b);
     Some (validate_block pf dw engine default_chain_state (b\<lparr>b_transactions := b_transactions b @ [empty_transfer]\<rparr>)
       = Err InvalidBlock)
   }"

definition validate_block_rejects_wrong_parent_hash ::
  "platform \<Rightarrow> (bytes \<Rightarrow> input_witness option) \<Rightarrow> (string, u64) res \<Rightarrow> nat \<Rightarrow> nat \<Rightarrow> bool option" where
  "validate_block_rejects_wrong_parent_hash pf dw now seed rnd = do {
     engine \<leftarrow> passed (engine_default pf seed);
     b \<leftarrow> passed (propose_block pf dw engine default_chain_state [] now rnd);
     Some (validate_block pf dw engine (default_chain_state\<lparr>cs_tip_hash := hash_fill 7\<rparr>) b = Err InvalidBlock)
   }"

definition spoil_signature :: "bytes \<Rightarrow> bytes" where
  "spoil_signature bs = (case bs of byte # rest \<Rightarrow> xor byte 0xFF # rest | [] \<Rightarrow> [1])"

definition validate_block_rejects_bad_signature ::
  "platform \<Rightarrow> (bytes \<Rightarrow> input_witness option) \<Rightarrow> (string, u64) res \<Rightarrow> nat \<Rightarrow> nat \<Rightarrow> bool option" where
  "validate_block_rejects_bad_signature pf dw now seed rnd = do {
     engine \<leftarrow> passed (engine_default pf seed);
     b \<leftarrow> passed (propose_block pf dw engine default_chain_state [empty_transfer] now rnd);
     let spoiled = b\<lparr>b_signature := (b_signature b)\<lparr>sig_bytes := spoil_signature (sig_bytes (b_signature b))\<rparr>\<rparr>;
     Some (validate_block pf dw engine default_chain_state spoiled = Err SignatureError)
   }"

definition validate_block_rejects_block_from_unexpected_proposer ::
  "platform \<Rightarrow> (bytes \<Rightarrow> input_witness option) \<Rightarrow> (string, u64) res \<Rightarrow> nat \<Rightarrow> nat \<Rightarrow> nat \<Rightarrow> bool option" where
  "validate_block_rejects_block_from_unexpected_proposer pf dw now seed seed' rnd = do {
     fresh \<leftarrow> passed (engine_with_validators (default_registry pf) Dilithium2 [] seed);
     alternate_engine \<leftarrow> passed (engine_new (default_registry pf) Dilithium2 seed');
     let engine = fresh\<lparr>ce_validators := [ce_public_key fresh, ce_public_key alternate_engine]\<rparr>;
     b \<leftarrow> passed (propose_block pf dw engine default_chain_state [] now rnd);
     scheme \<leftarrow> registry_get (ce_registry alternate_engine) (ce_signing_scheme alternate_engine);
     s \<leftarrow> passed (ps_sign scheme rnd (ce_signing_key alternate_engine) (encode_block_header (b_header b)));
     let wrong_proposer_block = b\<lparr>b_proposer_public_key := ce_public_key alternate_engine, b_signature := s\<rparr>;
     Some (validate_block pf dw engine default_chain_state wrong_proposer_block = Err InvalidBlock)
   }"

definition validate_block_rejects_tampered_state_root ::
  "platform \<Rightarrow> (bytes \<Rightarrow> input_witness option) \<Rightarrow> (string, u64) res \<Rightarrow> nat \<Rightarrow> nat \<Rightarrow> bool option" where
  "validate_block_rejects_tampered_state_root pf dw now seed rnd = do {
     engine \<leftarrow> passed (engine_default pf seed);
     b \<leftarrow> passed (propose_block pf dw engine default_chain_state [] now rnd);
     let h = (b_header b)\<lparr>bh_state_root := hash_fill 9\<rparr>;
     scheme \<leftarrow> registry_get (ce_registry engine) (ce_signing_scheme engine);
     s \<leftarrow> passed (ps_sign scheme rnd (ce_signing_key engine) (encode_block_header h));
     Some (validate_block pf dw engine default_chain_state (b\<lparr>b_header := h, b_signature := s\<rparr>) = Err InvalidBlock)
   }"

definition replay_validation_accepts_self_consistent_history_without_explicit_validator_set ::
  "platform \<Rightarrow> (bytes \<Rightarrow> input_witness option) \<Rightarrow> (string, u64) res \<Rightarrow> nat \<Rightarrow> nat \<Rightarrow> nat \<Rightarrow> bool option" where
  "replay_validation_accepts_self_consistent_history_without_explicit_validator_set pf dw now seed seed' rnd = do {
     original_engine \<leftarrow> passed (engine_default pf seed);
     replacement_engine \<leftarrow> passed (engine_default pf seed');
     b \<leftarrow> passed (propose_block pf dw original_engine default_chain_state [] now rnd);
     let live_validation = validate_block pf dw replacement_engine default_chain_state b;
     replayed \<leftarrow> passed (validate_replayed_block pf dw (default_registry pf) default_chain_state b []);
     Some (case live_validation of Err _ \<Rightarrow> True | _ \<Rightarrow> False)
   }"

definition replay_validation_rejects_history_that_conflicts_with_explicit_validator_set ::
  "platform \<Rightarrow> (bytes \<Rightarrow> input_witness option) \<Rightarrow> (string, u64) res \<Rightarrow> nat \<Rightarrow> nat \<Rightarrow> nat \<Rightarrow> bool option" where
  "replay_validation_rejects_history_that_conflicts_with_explicit_validator_set pf dw now seed seed' rnd = do {
     original_engine \<leftarrow> passed (engine_default pf seed);
     alternate_engine \<leftarrow> passed (engine_default pf seed');
     b \<leftarrow> passed (propose_block pf dw original_engine default_chain_state [] now rnd);
     Some (validate_replayed_block pf dw (default_registry pf) default_chain_state b [ce_public_key alternate_engine]
       = Err InvalidBlock)
   }"

section \<open>A fresh engine and its first block\<close>

definition fresh_of :: "platform \<Rightarrow> nat \<Rightarrow> consensus_engine \<Rightarrow> bool" where
  "fresh_of pf seed e \<longleftrightarrow> ce_registry e = default_registry pf \<and> ce_signing_scheme e = Dilithium2 \<and>
     ps_keygen (dilithium2_scheme pf) seed = Ok (ce_public_key e, ce_signing_key e)"

definition first_of :: "platform \<Rightarrow> (bytes \<Rightarrow> input_witness option) \<Rightarrow> u64 \<Rightarrow> nat \<Rightarrow> transaction list \<Rightarrow> consensus_engine \<Rightarrow> block \<Rightarrow> bool" where
  "first_of pf dw t rnd txs e b \<longleftrightarrow> propose_block pf dw e default_chain_state txs (Ok t) rnd = Ok b \<and>
     bh_height (b_header b) = 1 \<and> bh_parent_hash (b_header b) = hash_fill 0 \<and> bh_timestamp (b_header b) = t \<and>
     compute_tx_root pf txs = Some (bh_tx_root (b_header b)) \<and>
     compute_state_root pf dw default_chain_state txs 1 = Ok (bh_state_root (b_header b)) \<and> b_transactions b = txs \<and>
     b_proposer_public_key b = ce_public_key e \<and> sig_scheme (b_signature b) = Dilithium2 \<and>
     ps_sign (dilithium2_scheme pf) rnd (ce_signing_key e) (encode_block_header (b_header b)) = Ok (b_signature b) \<and>
     ps_verify (dilithium2_scheme pf) (ce_public_key e) (encode_block_header (b_header b)) (b_signature b) = Ok ()"

lemma fresh_engine:
  assumes "pq_lib_correct (pf_dilithium2 pf)"
  obtains e where "engine_default pf seed = Ok e" "engine_new (default_registry pf) Dilithium2 seed = Ok e"
    "fresh_of pf seed e" "ce_validators e = [ce_public_key e]"
proof -
  from dilithium.keygen_total [OF assms, of seed] obtain pk sk where
    "ps_keygen (dilithium2_scheme pf) seed = Ok (pk, sk)" by blast
  then show ?thesis
    by (intro that [of "\<lparr>ce_registry = default_registry pf, ce_signing_scheme = Dilithium2, ce_signing_key = sk,
        ce_public_key = pk, ce_validators = [pk]\<rparr>"])
      (simp_all add: engine_default_def engine_new_def default_registry_get fresh_of_def)
qed

lemma fresh_keys_differ:
  assumes "pq_lib_correct (pf_dilithium2 pf)" and "fresh_of pf seed e" and "fresh_of pf seed' a"
    and "fst (pl_keypair (pf_dilithium2 pf) seed) \<noteq> fst (pl_keypair (pf_dilithium2 pf) seed')"
  shows "ce_public_key e \<noteq> ce_public_key a"
proof -
  have "pk_bytes (ce_public_key e) = fst (pl_keypair (pf_dilithium2 pf) seed)"
    "pk_bytes (ce_public_key a) = fst (pl_keypair (pf_dilithium2 pf) seed')"
    using dilithium_keys(1) [OF assms(1), of seed] dilithium_keys(1) [OF assms(1), of seed'] assms(2,3)
    by (simp_all add: fresh_of_def)
  with assms(4) show ?thesis by auto
qed

lemma empty_transfers_apply:
  assumes "set txs \<subseteq> {empty_transfer}"
  shows "apply_transactions pf dw eng txs height ch default_ledger_state = (default_ledger_state, Ok ())"
proof -
  obtain i where "tx_id pf empty_transfer = Some i"
    using tx_id_eq_None [of pf empty_transfer] by (auto simp: empty_transfer_def core_fits_def)
  then have "apply_transaction pf dw eng default_ledger_state empty_transfer height ch = (default_ledger_state, Ok ())"
    by (simp add: apply_transaction_def check_transaction_def empty_transfer_def default_ledger_state_def announced_asset.simps
        scan_inputs_def initial_scan_def output_totals_def check_mint.simps remove_consumed_def insert_outputs_def register_asset.simps
        conserves_def)
  then show ?thesis using assms by (induction txs) auto
qed

text \<open>The first block of a fresh engine on the empty chain, when it is its turn and the clock is after the epoch.\<close>

lemma first_block:
  assumes lib: "pq_lib_correct (pf_dilithium2 pf)" and e: "fresh_of pf seed e"
    and turn: "ce_validators e \<noteq> []" "hd (ce_validators e) = ce_public_key e" and txs: "set txs \<subseteq> {empty_transfer}"
  obtains b where "first_of pf dw t rnd txs e b"
proof -
  obtain root where root: "state_root pf default_ledger_state = Some root"
    using state_root_eq_None [of pf default_ledger_state] by (auto simp: ledger_fits_def default_ledger_state_def)
  have "map_option_list (tx_id pf) txs \<noteq> None"
    using txs by (auto simp: map_option_list_None tx_id_eq_None empty_transfer_def core_fits_def)
  then obtain tx_root where tx_root: "compute_tx_root pf txs = Some tx_root" by (auto simp: compute_tx_root_def)
  let ?h = "\<lparr>bh_parent_hash = hash_fill 0, bh_state_root = root, bh_tx_root = tx_root, bh_height = 1, bh_timestamp = t\<rparr>"
  obtain s where s: "ps_sign (dilithium2_scheme pf) rnd (ce_signing_key e) (encode_block_header ?h) = Ok s"
    "ps_verify (dilithium2_scheme pf) (ce_public_key e) (encode_block_header ?h) s = Ok ()"
    using dilithium.sign_verifies [OF lib] e unfolding fresh_of_def by blast
  let ?b = "\<lparr>b_header = ?h, b_transactions = txs, b_proposer_public_key = ce_public_key e, b_signature = s\<rparr>"
  have state: "compute_state_root pf dw default_chain_state txs 1 = Ok root"
    using empty_transfers_apply [OF txs] root by (simp add: compute_state_root_eq_Ok default_chain_state_def)
  have "expected_proposer pf e 1 = Ok (ce_public_key e)"
    using turn by (simp add: expected_proposer_def expected_proposer_eq_Ok hd_conv_nth)
  with state have "propose_block pf dw e default_chain_state txs (Ok t) rnd = Ok ?b"
    unfolding propose_block_eq_Ok
    by (intro exI [of _ "dilithium2_scheme pf"])
      (use e tx_root s in \<open>simp add: fresh_of_def default_registry_get default_chain_state_def add_chk_def\<close>)
  then show ?thesis
    using that [of ?b] tx_root state s dilithium.verify_Ok_scheme [OF s(2)] by (simp add: first_of_def)
qed

lemma default_first_block:
  assumes "pq_lib_correct (pf_dilithium2 pf)" and "set txs \<subseteq> {empty_transfer}"
  obtains e b where "engine_default pf seed = Ok e" "fresh_of pf seed e" "ce_validators e = [ce_public_key e]"
    "first_of pf dw t rnd txs e b" "propose_block pf dw e default_chain_state txs (Ok t) rnd = Ok b"
proof -
  obtain e where e: "engine_default pf seed = Ok e" "fresh_of pf seed e" "ce_validators e = [ce_public_key e]"
    by (rule fresh_engine [OF assms(1)])
  obtain b where "first_of pf dw t rnd txs e b" by (rule first_block [OF assms(1) e(2) _ _ assms(2)]) (simp_all add: e(3))
  moreover from this have "propose_block pf dw e default_chain_state txs (Ok t) rnd = Ok b" by (simp add: first_of_def)
  ultimately show ?thesis using e that by blast
qed

section \<open>Their results\<close>

lemmas chain_start = default_chain_state_def add_chk_def

text \<open>Validation of a variant of the first block is a matter of computing.\<close>

lemmas validation = validate_block_def validate_replayed_block_def Let_def chain_start first_of_def fresh_of_def
  expected_proposer_for_validators_def list_get_def sub_chk_def default_registry_get

lemma first_block_valid:
  assumes "first_of pf dw t rnd txs e b" and "0 < t" and "vs = [] \<or> vs = [ce_public_key e]"
  shows "validate_replayed_block pf dw (default_registry pf) default_chain_state b vs = Ok ()"
  using assms(3) by (rule disjE) (use assms(1,2) in \<open>simp_all add: validation\<close>)

lemma test_mutated_transactions:
  assumes "pq_lib_correct (pf_dilithium2 pf)" and "0 < t"
    and "compute_tx_root pf [empty_transfer, empty_transfer] \<noteq> compute_tx_root pf [empty_transfer]"
  shows "validate_block_rejects_mutated_transactions pf dw (Ok t) seed rnd = Some True"
proof -
  have "set [empty_transfer] \<subseteq> {empty_transfer}" by simp
  from default_first_block [OF assms(1) this, of seed dw t rnd] obtain e b where
    e: "engine_default pf seed = Ok e" "fresh_of pf seed e" "ce_validators e = [ce_public_key e]"
      "first_of pf dw t rnd [empty_transfer] e b" "propose_block pf dw e default_chain_state [empty_transfer] (Ok t) rnd = Ok b" .
  have "validate_block pf dw e default_chain_state b = Ok ()"
    using first_block_valid [OF e(4) assms(2)] e(2,3) by (simp add: validate_block_def fresh_of_def)
  moreover obtain r where "compute_tx_root pf [empty_transfer, empty_transfer] = Some r" "r \<noteq> bh_tx_root (b_header b)"
    using assms(3) e(4) by (auto simp: first_of_def compute_tx_root_def bind_eq_Some_conv)
  then have "validate_block pf dw e default_chain_state (b\<lparr>b_transactions := [empty_transfer, empty_transfer]\<rparr>) = Err InvalidBlock"
    using e assms(2) by (simp add: validation)
  moreover have "b_transactions b = [empty_transfer]" using e(4) by (simp add: first_of_def)
  ultimately show ?thesis
    using e(1,5) by (simp add: validate_block_rejects_mutated_transactions_def)
qed

lemma test_wrong_parent_hash:
  assumes "pq_lib_correct (pf_dilithium2 pf)" and "0 < t"
  shows "validate_block_rejects_wrong_parent_hash pf dw (Ok t) seed rnd = Some True"
proof -
  have "set [] \<subseteq> {empty_transfer}" by simp
  from default_first_block [OF assms(1) this, of seed dw t rnd] obtain e b where
    e: "engine_default pf seed = Ok e" "fresh_of pf seed e" "ce_validators e = [ce_public_key e]"
      "first_of pf dw t rnd [] e b" "propose_block pf dw e default_chain_state [] (Ok t) rnd = Ok b" .
  then show ?thesis by (simp add: validate_block_rejects_wrong_parent_hash_def validation)
qed

text \<open>The library does not accept a spoiled signature.\<close>

definition spoiled_signature_refused :: "platform \<Rightarrow> bool" where
  "spoiled_signature_refused pf \<longleftrightarrow>
     (\<forall>seed rnd pk sk msg s. ps_keygen (dilithium2_scheme pf) seed = Ok (pk, sk) \<longrightarrow>
        ps_sign (dilithium2_scheme pf) rnd sk msg = Ok s \<longrightarrow>
        ps_verify (dilithium2_scheme pf) pk msg (s\<lparr>sig_bytes := spoil_signature (sig_bytes s)\<rparr>) \<noteq> Ok ())"

lemma test_bad_signature:
  assumes "pq_lib_correct (pf_dilithium2 pf)" and "0 < t" and "spoiled_signature_refused pf"
  shows "validate_block_rejects_bad_signature pf dw (Ok t) seed rnd = Some True"
proof -
  have "set [empty_transfer] \<subseteq> {empty_transfer}" by simp
  from default_first_block [OF assms(1) this, of seed dw t rnd] obtain e b where
    e: "engine_default pf seed = Ok e" "fresh_of pf seed e" "ce_validators e = [ce_public_key e]"
      "first_of pf dw t rnd [empty_transfer] e b" "propose_block pf dw e default_chain_state [empty_transfer] (Ok t) rnd = Ok b" .
  obtain err where "ps_verify (dilithium2_scheme pf) (ce_public_key e) (encode_block_header (b_header b))
      ((b_signature b)\<lparr>sig_bytes := spoil_signature (sig_bytes (b_signature b))\<rparr>) = Err err"
    using assms(3) e(2,4) dilithium.verify_cases unfolding spoiled_signature_refused_def fresh_of_def first_of_def by metis
  with e assms(2) show ?thesis by (simp add: validate_block_rejects_bad_signature_def validation)
qed

lemma test_unexpected_proposer:
  assumes "pq_lib_correct (pf_dilithium2 pf)" and "0 < t"
    and "fst (pl_keypair (pf_dilithium2 pf) seed) \<noteq> fst (pl_keypair (pf_dilithium2 pf) seed')"
  shows "validate_block_rejects_block_from_unexpected_proposer pf dw (Ok t) seed seed' rnd = Some True"
proof -
  obtain e0 where e0: "engine_new (default_registry pf) Dilithium2 seed = Ok e0" "fresh_of pf seed e0"
    by (rule fresh_engine [OF assms(1)])
  obtain a where a: "engine_new (default_registry pf) Dilithium2 seed' = Ok a" "fresh_of pf seed' a"
    by (rule fresh_engine [OF assms(1)])
  let ?e = "e0\<lparr>ce_validators := [ce_public_key e0, ce_public_key a]\<rparr>"
  have fresh: "fresh_of pf seed ?e" using e0(2) by (simp add: fresh_of_def)
  have none: "set [] \<subseteq> {empty_transfer}" by simp
  obtain b where b: "first_of pf dw t rnd [] ?e b" by (rule first_block [OF assms(1) fresh _ _ none]) simp_all
  obtain s where s: "ps_sign (dilithium2_scheme pf) rnd (ce_signing_key a) (encode_block_header (b_header b)) = Ok s"
    using dilithium.sign_verifies [OF assms(1)] a(2) unfolding fresh_of_def by blast
  have "ce_public_key e0 \<noteq> ce_public_key a"
    by (rule fresh_keys_differ [OF assms(1) e0(2) a(2) assms(3)])
  with e0 a b s assms(2) show ?thesis
    by (simp add: validate_block_rejects_block_from_unexpected_proposer_def engine_with_validators_def validation)
qed

lemma test_tampered_state_root:
  assumes "pq_lib_correct (pf_dilithium2 pf)" and "0 < t" and "state_root pf default_ledger_state \<noteq> Some (hash_fill 9)"
  shows "validate_block_rejects_tampered_state_root pf dw (Ok t) seed rnd = Some True"
proof -
  have "set [] \<subseteq> {empty_transfer}" by simp
  from default_first_block [OF assms(1) this, of seed dw t rnd] obtain e b where
    e: "engine_default pf seed = Ok e" "fresh_of pf seed e" "ce_validators e = [ce_public_key e]"
      "first_of pf dw t rnd [] e b" "propose_block pf dw e default_chain_state [] (Ok t) rnd = Ok b" .
  obtain s where s: "ps_sign (dilithium2_scheme pf) rnd (ce_signing_key e)
      (encode_block_header ((b_header b)\<lparr>bh_state_root := hash_fill 9\<rparr>)) = Ok s"
    using dilithium.sign_verifies [OF assms(1)] e(2) unfolding fresh_of_def by blast
  have "bh_state_root (b_header b) \<noteq> hash_fill 9"
    using e(4) assms(3) by (auto simp: first_of_def compute_state_root_eq_Ok default_chain_state_def)
  with e s assms(2) show ?thesis
    by (simp add: validate_block_rejects_tampered_state_root_def validation)
qed

lemma test_replay:
  assumes "pq_lib_correct (pf_dilithium2 pf)" and "0 < t"
    and "fst (pl_keypair (pf_dilithium2 pf) seed) \<noteq> fst (pl_keypair (pf_dilithium2 pf) seed')"
  shows "replay_validation_accepts_self_consistent_history_without_explicit_validator_set pf dw (Ok t) seed seed' rnd = Some True"
    and "replay_validation_rejects_history_that_conflicts_with_explicit_validator_set pf dw (Ok t) seed seed' rnd = Some True"
proof -
  have "set [] \<subseteq> {empty_transfer}" by simp
  from default_first_block [OF assms(1) this, of seed dw t rnd] obtain e b where
    e: "engine_default pf seed = Ok e" "fresh_of pf seed e" "ce_validators e = [ce_public_key e]"
      "first_of pf dw t rnd [] e b" "propose_block pf dw e default_chain_state [] (Ok t) rnd = Ok b" .
  obtain a where a: "engine_default pf seed' = Ok a" "fresh_of pf seed' a" "ce_validators a = [ce_public_key a]"
    by (rule fresh_engine [OF assms(1)])
  have "ce_public_key e \<noteq> ce_public_key a"
    by (rule fresh_keys_differ [OF assms(1) e(2) a(2) assms(3)])
  with e(4) assms(2) have refused: "validate_replayed_block pf dw (default_registry pf) default_chain_state b [ce_public_key a]
      = Err InvalidBlock"
    by (simp add: validation)
  have live: "validate_block pf dw a default_chain_state b = Err InvalidBlock"
    using refused a(2,3) by (simp add: validate_block_def fresh_of_def)
  have replayed: "validate_replayed_block pf dw (default_registry pf) default_chain_state b [] = Ok ()"
    using first_block_valid [OF e(4) assms(2), of "[]"] by simp
  show "replay_validation_accepts_self_consistent_history_without_explicit_validator_set pf dw (Ok t) seed seed' rnd = Some True"
    by (simp add: replay_validation_accepts_self_consistent_history_without_explicit_validator_set_def e(1,5) a(1) live replayed Let_def)
  show "replay_validation_rejects_history_that_conflicts_with_explicit_validator_set pf dw (Ok t) seed seed' rnd = Some True"
    by (simp add: replay_validation_rejects_history_that_conflicts_with_explicit_validator_set_def e(1,5) a(1) refused)
qed

section \<open>The whole module\<close>

lemma flipped_byte: "xor b 0xFF \<noteq> (b :: u8)"
proof
  assume "xor b 0xFF = b"
  then have "xor b (xor b 0xFF) = xor b b" by simp
  then show False by (simp only: xor.assoc [symmetric] xor_self_eq xor.left_neutral) simp
qed

lemma tagging_spoiled: "spoiled_signature_refused tagging_platform"
  by (auto simp: spoiled_signature_refused_def spoil_signature_def dilithium2_scheme_def dilithium2_keygen_def
      dilithium2_sign_def dilithium2_verify_def crypto_new_defs res_simps flipped_byte split: if_splits)
    (simp_all add: tagging_lib_def flipped_byte)

lemma tagging_empty_root: "state_root tagging_platform default_ledger_state = Some (hash_fill 0)"
  by (simp add: state_root_def state_root_preimage_def default_ledger_state_def sorted_empty)

text \<open>All tests pass on the platform of \<open>QC_BaseTests\<close>, with seeds 1 and 2 and the clock at 7.\<close>

lemma consensus_tests_pass:
  "validate_block_rejects_mutated_transactions tagging_platform dw (Ok 7) 1 0 = Some True"
  "validate_block_rejects_wrong_parent_hash tagging_platform dw (Ok 7) 1 0 = Some True"
  "validate_block_rejects_bad_signature tagging_platform dw (Ok 7) 1 0 = Some True"
  "validate_block_rejects_block_from_unexpected_proposer tagging_platform dw (Ok 7) 1 2 0 = Some True"
  "validate_block_rejects_tampered_state_root tagging_platform dw (Ok 7) 1 0 = Some True"
  "replay_validation_accepts_self_consistent_history_without_explicit_validator_set tagging_platform dw (Ok 7) 1 2 0 = Some True"
  "replay_validation_rejects_history_that_conflicts_with_explicit_validator_set tagging_platform dw (Ok 7) 1 2 0 = Some True"
proof -
  have lib: "pq_lib_correct (pf_dilithium2 tagging_platform)" and now: "0 < (7 :: u64)" by simp_all
  have keys: "fst (pl_keypair (pf_dilithium2 tagging_platform) 1) \<noteq> fst (pl_keypair (pf_dilithium2 tagging_platform) 2)"
    by (simp add: tagging_lib_def)
  obtain i where "tx_id tagging_platform empty_transfer = Some i"
    using tx_id_eq_None [of tagging_platform empty_transfer] by (auto simp: empty_transfer_def core_fits_def)
  then have roots: "compute_tx_root tagging_platform [empty_transfer, empty_transfer] \<noteq> compute_tx_root tagging_platform [empty_transfer]"
    by (simp add: compute_tx_root_def)
  show "validate_block_rejects_mutated_transactions tagging_platform dw (Ok 7) 1 0 = Some True"
    by (rule test_mutated_transactions [OF lib now roots])
  show "validate_block_rejects_wrong_parent_hash tagging_platform dw (Ok 7) 1 0 = Some True"
    by (rule test_wrong_parent_hash [OF lib now])
  show "validate_block_rejects_bad_signature tagging_platform dw (Ok 7) 1 0 = Some True"
    by (rule test_bad_signature [OF lib now tagging_spoiled])
  show "validate_block_rejects_block_from_unexpected_proposer tagging_platform dw (Ok 7) 1 2 0 = Some True"
    by (rule test_unexpected_proposer [OF lib now keys])
  show "validate_block_rejects_tampered_state_root tagging_platform dw (Ok 7) 1 0 = Some True"
    by (rule test_tampered_state_root [OF lib now]) (simp add: tagging_empty_root)
  show "replay_validation_accepts_self_consistent_history_without_explicit_validator_set tagging_platform dw (Ok 7) 1 2 0 = Some True"
    and "replay_validation_rejects_history_that_conflicts_with_explicit_validator_set tagging_platform dw (Ok 7) 1 2 0 = Some True"
    by (rule test_replay [OF lib now keys])+
qed

end
