(* ===== verification/QC_StorageTests.thy ===== *)
theory QC_StorageTests
  imports QC_Startup QC_Mempool QC_ConsensusTests
begin

text \<open>
  The test module of \<open>qcoin-node/src/main.rs\<close>, test by test, on the model; tests are values as in \<open>QC_BaseTests\<close>. The
  temporary directory of a test is an empty file system, in which every system call succeeds; \<open>dir\<close> is its path.
\<close>

section \<open>Code for tests only\<close>

definition genesis_chain_state :: "platform \<Rightarrow> chain_state option" where
  "genesis_chain_state pf = default_chain_state_with_id pf DEFAULT_CHAIN_ID"

definition load_or_initialize_chain_state ::
  "platform \<Rightarrow> json_codec \<Rightarrow> read_outcome \<Rightarrow> file_system \<Rightarrow> path \<Rightarrow> u32 \<Rightarrow> (string, chain_state) res" where
  "load_or_initialize_chain_state pf js rd fs path expected_chain_id =
     and_then (load_chain_state js rd fs path) (\<lambda>loaded.
     case loaded of
       Some chain \<Rightarrow>
         if cs_chain_id chain = expected_chain_id then Ok chain
         else Err (''chain state '' @ path_display path @ '' has chain_id '' @ show_nat (unat (cs_chain_id chain))
           @ '', expected '' @ show_nat (unat expected_chain_id))
     | None \<Rightarrow> expect (default_chain_state_with_id pf expected_chain_id))"

section \<open>Configuration\<close>

definition produce_mode_auto_enables_manifest_validator :: bool where
  "produce_mode_auto_enables_manifest_validator \<longleftrightarrow>
     resolve_produce_mode None True True False \<and> \<not> resolve_produce_mode None True False False"

definition produce_mode_preserves_single_node_dev_default :: bool where
  "produce_mode_preserves_single_node_dev_default \<longleftrightarrow>
     resolve_produce_mode None False False True \<and> \<not> resolve_produce_mode None False False False"

definition merge_unique_hex_strings_normalizes_case :: bool where
  "merge_unique_hex_strings_normalizes_case \<longleftrightarrow>
     merge_unique_hex_strings [''AA'', ''bb''] [''aa'', '' BB '', ''cc''] = [''aa'', ''bb'', ''cc'']"

definition default_multicast_uses_embedded_group :: bool where
  "default_multicast_uses_embedded_group \<longleftrightarrow>
     length default_multicast_v6_configs = 1 \<and>
     map m6_group default_multicast_v6_configs = [0xff02000000000000000051436f69006e] \<and>
     map m6_interface default_multicast_v6_configs = [None]"

text \<open>192.168.1.146, 10.0.0.5, 127.0.0.1 and ::1.\<close>

definition bind_ip_prefers_matching_non_loopback_multicast_interface :: bool where
  "bind_ip_prefers_matching_non_loopback_multicast_interface \<longleftrightarrow>
     select_multicast_interfaces_for_bind_ip (IpV4 0xC0A80192)
       [\<lparr>ic_index = 7, ic_ip = IpV4 0x0A000005, ic_is_loopback = False\<rparr>,
        \<lparr>ic_index = 16, ic_ip = IpV4 0xC0A80192, ic_is_loopback = False\<rparr>,
        \<lparr>ic_index = 20, ic_ip = IpV6 1, ic_is_loopback = False\<rparr>] = [16]"

definition bind_ip_falls_back_to_loopback_only_when_needed :: bool where
  "bind_ip_falls_back_to_loopback_only_when_needed \<longleftrightarrow>
     select_multicast_interfaces_for_bind_ip (IpV4 0x7F000001)
       [\<lparr>ic_index = 1, ic_ip = IpV4 0x7F000001, ic_is_loopback = True\<rparr>,
        \<lparr>ic_index = 7, ic_ip = IpV4 0xC0A80192, ic_is_loopback = False\<rparr>] = [1]"

section \<open>Storage\<close>

text \<open>\<open>op(..).unwrap()\<close> for an operation on files, and the error of one that should fail.\<close>

definition completed :: "file_system \<times> (string, 'a) res \<Rightarrow> (file_system \<times> 'a) option" where
  "completed = (\<lambda>(fs, r). map_option (Pair fs) (passed r))"

definition failed :: "(string, 'a) res \<Rightarrow> string option" where
  "failed r = (case r of Err e \<Rightarrow> Some e | _ \<Rightarrow> None)"

text \<open>\<open>dir.path().join(name)\<close> for a temporary directory, given by its components below the root.\<close>

definition in_dir :: "path \<Rightarrow> string \<Rightarrow> path" where
  "in_dir dir name = [] # dir @ [name]"

definition state_file :: "path \<Rightarrow> path" where
  "state_file dir = in_dir dir ''state.json''"

definition blocks_file :: "path \<Rightarrow> path" where
  "blocks_file dir = in_dir dir ''blocks.json''"

text \<open>\<open>legacy_to\<close> is \<open>serde_json::to_vec\<close> on a chain state.\<close>

definition load_or_initialize_chain_state_rejects_chain_id_mismatch ::
  "platform \<Rightarrow> json_codec \<Rightarrow> (chain_state \<Rightarrow> (string, string) res) \<Rightarrow> path \<Rightarrow> bool option" where
  "load_or_initialize_chain_state_rejects_chain_id_mismatch pf js legacy_to dir = do {
     payload \<leftarrow> passed (legacy_to (default_chain_state\<lparr>cs_chain_id := 7\<rparr>));
     (fs, _) \<leftarrow> completed (write_file_atomically io_ok (state_file dir) payload fmempty);
     err \<leftarrow> failed (load_or_initialize_chain_state pf js no_read_faults fs (state_file dir) 9);
     Some (str_contains err ''chain_id'')
   }"

definition load_or_repair_storage_rebuilds_state_from_block_history ::
  "platform \<Rightarrow> (bytes \<Rightarrow> input_witness option) \<Rightarrow> json_codec \<Rightarrow> path \<Rightarrow> (string, u64) res \<Rightarrow> nat \<Rightarrow> nat \<Rightarrow> bool option" where
  "load_or_repair_storage_rebuilds_state_from_block_history pf dw js dir now seed rnd = do {
     consensus \<leftarrow> passed (engine_default pf seed);
     genesis \<leftarrow> genesis_chain_state pf;
     b \<leftarrow> passed (propose_block pf dw consensus genesis [] now rnd);
     (fs, _) \<leftarrow> completed (save_block_history js io_ok (blocks_file dir) [b] fmempty);
     (fs, chain, blocks) \<leftarrow> completed
       (load_or_repair_storage pf dw js no_read_faults io_ok (state_file dir) (blocks_file dir) 0 [] fs);
     loaded \<leftarrow> passed (load_chain_state js no_read_faults fs (state_file dir));
     repaired \<leftarrow> loaded;
     Some (length blocks = 1 \<and> cs_height chain = 1 \<and> cs_height repaired = 1)
   }"

definition load_or_repair_storage_truncates_state_ahead_of_block_history ::
  "platform \<Rightarrow> (bytes \<Rightarrow> input_witness option) \<Rightarrow> json_codec \<Rightarrow> path \<Rightarrow> (string, u64) res \<Rightarrow> nat \<Rightarrow> nat \<Rightarrow> bool option" where
  "load_or_repair_storage_truncates_state_ahead_of_block_history pf dw js dir now seed rnd = do {
     consensus \<leftarrow> passed (engine_default pf seed);
     genesis \<leftarrow> genesis_chain_state pf;
     b \<leftarrow> passed (propose_block pf dw consensus genesis [] now rnd);
     chain \<leftarrow> (case chain_apply_block pf dw (default_script_engine pf) genesis b of (C, Ok _) \<Rightarrow> Some C | _ \<Rightarrow> None);
     (fs, _) \<leftarrow> completed (save_chain_state js io_ok (state_file dir) chain fmempty);
     (fs, _) \<leftarrow> completed (save_block_history js io_ok (blocks_file dir) [] fs);
     (fs, repaired_chain, repaired_blocks) \<leftarrow> completed
       (load_or_repair_storage pf dw js no_read_faults io_ok (state_file dir) (blocks_file dir) 0 [] fs);
     loaded \<leftarrow> passed (load_chain_state js no_read_faults fs (state_file dir));
     repaired \<leftarrow> loaded;
     Some (repaired_blocks = [] \<and> cs_height repaired_chain = 0 \<and> cs_height repaired = 0 \<and> cs_tip_hash repaired = hash_fill 0)
   }"

definition save_chain_state_round_trips_non_empty_ledger_maps :: "platform \<Rightarrow> json_codec \<Rightarrow> path \<Rightarrow> bool option" where
  "save_chain_state_round_trips_non_empty_ledger_maps pf js dir = do {
     genesis \<leftarrow> genesis_chain_state pf;
     let utxos = fmupd (UtxoKey (hash_fill 3) 1)
       \<lparr>tr_output = \<lparr>out_owner_script_hash = hash_fill 4, out_assets = [\<lparr>aa_asset_id = AssetId (hash_fill 5), aa_amount = 10\<rparr>],
          out_metadata_hash = None\<rparr>, tr_created_height = 2\<rparr> fmempty;
     let assets = fmupd (AssetId (hash_fill 5))
       \<lparr>ad_issuer_script_hash = hash_fill 6, ad_metadata_root = hash_fill 8, ad_max_supply = Some 99, ad_decimals = 2,
          ad_kind = Fungible\<rparr> fmempty;
     let chain = genesis\<lparr>cs_height := 2, cs_tip_hash := hash_fill 9, cs_state_root := hash_fill 7, cs_last_timestamp := 42,
       cs_ledger := \<lparr>ls_utxos = utxos, ls_assets = assets\<rparr>\<rparr>;
     (fs, _) \<leftarrow> completed (save_chain_state js io_ok (state_file dir) chain fmempty);
     loaded \<leftarrow> passed (load_chain_state js no_read_faults fs (state_file dir));
     reloaded \<leftarrow> loaded;
     Some (cs_height reloaded = cs_height chain \<and> cs_tip_hash reloaded = cs_tip_hash chain \<and>
       cs_state_root reloaded = cs_state_root chain \<and> cs_last_timestamp reloaded = cs_last_timestamp chain \<and>
       cs_chain_id reloaded = cs_chain_id chain \<and> ls_utxos (cs_ledger reloaded) = ls_utxos (cs_ledger chain) \<and>
       ls_assets (cs_ledger reloaded) = ls_assets (cs_ledger chain))
   }"

text \<open>The texts \<open>{"not":"valid block history"}\<close> and \<open>{"not":"valid chain state"}\<close>.\<close>

definition load_or_repair_storage_rejects_corrupted_block_history ::
  "platform \<Rightarrow> (bytes \<Rightarrow> input_witness option) \<Rightarrow> json_codec \<Rightarrow> path \<Rightarrow> bool option" where
  "load_or_repair_storage_rejects_corrupted_block_history pf dw js dir = do {
     (fs, _) \<leftarrow> completed (write_file_atomically io_ok (blocks_file dir) ''{\"not\":\"valid block history\"}'' fmempty);
     err \<leftarrow> failed (snd (load_or_repair_storage pf dw js no_read_faults io_ok (state_file dir) (blocks_file dir) 0 [] fs));
     Some (str_contains err ''failed to parse block history'')
   }"

definition load_or_repair_storage_rejects_corrupted_chain_state ::
  "platform \<Rightarrow> (bytes \<Rightarrow> input_witness option) \<Rightarrow> json_codec \<Rightarrow> path \<Rightarrow> bool option" where
  "load_or_repair_storage_rejects_corrupted_chain_state pf dw js dir = do {
     (fs, _) \<leftarrow> completed (write_file_atomically io_ok (state_file dir) ''{\"not\":\"valid chain state\"}'' fmempty);
     err \<leftarrow> failed (snd (load_or_repair_storage pf dw js no_read_faults io_ok (state_file dir) (blocks_file dir) 0 [] fs));
     Some (str_contains err ''failed to parse chain state'')
   }"

definition load_or_repair_storage_rebuilds_history_with_different_local_signer_when_no_validator_set ::
  "platform \<Rightarrow> (bytes \<Rightarrow> input_witness option) \<Rightarrow> json_codec \<Rightarrow> path \<Rightarrow> (string, u64) res \<Rightarrow> nat \<Rightarrow> nat \<Rightarrow> nat \<Rightarrow> bool option" where
  "load_or_repair_storage_rebuilds_history_with_different_local_signer_when_no_validator_set pf dw js dir now seed seed' rnd = do {
     original_consensus \<leftarrow> passed (engine_default pf seed);
     genesis \<leftarrow> genesis_chain_state pf;
     b \<leftarrow> passed (propose_block pf dw original_consensus genesis [] now rnd);
     replacement_scheme \<leftarrow> registry_get (default_registry pf) Dilithium2;
     (pk, sk) \<leftarrow> passed (ps_keygen replacement_scheme seed');
     replacement_consensus \<leftarrow> passed (engine_from_keys (default_registry pf) pk sk []);
     chain_with_id \<leftarrow> default_chain_state_with_id pf DEFAULT_CHAIN_ID;
     let live = validate_block pf dw replacement_consensus chain_with_id b;
     (fs, _) \<leftarrow> completed (save_block_history js io_ok (blocks_file dir) [b] fmempty);
     (fs, chain, blocks) \<leftarrow> completed
       (load_or_repair_storage pf dw js no_read_faults io_ok (state_file dir) (blocks_file dir) 0 [] fs);
     Some ((case live of Err _ \<Rightarrow> True | _ \<Rightarrow> False) \<and> length blocks = 1 \<and> cs_height chain = 1)
   }"

definition load_or_repair_storage_still_enforces_explicit_validator_set ::
  "platform \<Rightarrow> (bytes \<Rightarrow> input_witness option) \<Rightarrow> json_codec \<Rightarrow> path \<Rightarrow> (string, u64) res \<Rightarrow> nat \<Rightarrow> nat \<Rightarrow> nat \<Rightarrow> bool option" where
  "load_or_repair_storage_still_enforces_explicit_validator_set pf dw js dir now seed seed' rnd = do {
     original_consensus \<leftarrow> passed (engine_default pf seed);
     genesis \<leftarrow> genesis_chain_state pf;
     b \<leftarrow> passed (propose_block pf dw original_consensus genesis [] now rnd);
     wrong_scheme \<leftarrow> registry_get (default_registry pf) Dilithium2;
     (wrong_public_key, _) \<leftarrow> passed (ps_keygen wrong_scheme seed');
     (fs, _) \<leftarrow> completed (save_block_history js io_ok (blocks_file dir) [b] fmempty);
     err \<leftarrow> failed (snd (load_or_repair_storage pf dw js no_read_faults io_ok (state_file dir) (blocks_file dir) 0
       [wrong_public_key] fs));
     Some (str_contains err ''failed validation while rebuilding state'')
   }"

section \<open>Results: configuration\<close>

lemma configuration_tests:
  produce_mode_auto_enables_manifest_validator produce_mode_preserves_single_node_dev_default
  default_multicast_uses_embedded_group bind_ip_prefers_matching_non_loopback_multicast_interface
  bind_ip_falls_back_to_loopback_only_when_needed
  by (simp_all add: produce_mode_auto_enables_manifest_validator_def produce_mode_preserves_single_node_dev_default_def
      default_multicast_uses_embedded_group_def default_multicast_v6_configs_def DEFAULT_IPV6_MULTICAST_GROUP_def
      bind_ip_prefers_matching_non_loopback_multicast_interface_def bind_ip_falls_back_to_loopback_only_when_needed_def
      select_multicast_interfaces_for_bind_ip_def sort_candidate_def push_index_def)

lemma test_merge_hex: merge_unique_hex_strings_normalizes_case
  by code_simp

section \<open>Results: storage\<close>

text \<open>The genesis state differs from \<open>ChainState::default()\<close> in its root only, which proposals and validation do not read.\<close>

lemma genesis:
  obtains g root where "genesis_chain_state pf = Some g" "g = default_chain_state\<lparr>cs_state_root := root\<rparr>"
    "default_chain_state_with_id pf 0 = Some g"
proof -
  obtain root where "state_root pf default_ledger_state = Some root"
    using state_root_eq_None [of pf default_ledger_state] by (auto simp: ledger_fits_def default_ledger_state_def)
  then show ?thesis
    using that [of "default_chain_state\<lparr>cs_state_root := root\<rparr>" root]
    by (simp add: genesis_chain_state_def default_chain_state_with_id_def DEFAULT_CHAIN_ID_def default_chain_state_def)
qed

lemma stored_root_unread:
  "compute_state_root pf dw (C\<lparr>cs_state_root := root\<rparr>) txs h = compute_state_root pf dw C txs h"
  "propose_block pf dw e (C\<lparr>cs_state_root := root\<rparr>) txs now rnd = propose_block pf dw e C txs now rnd"
  "validate_replayed_block pf dw registry (C\<lparr>cs_state_root := root\<rparr>) b vs = validate_replayed_block pf dw registry C b vs"
  "validate_block pf dw e (C\<lparr>cs_state_root := root\<rparr>) b = validate_block pf dw e C b"
  by (simp_all add: compute_state_root_def propose_block_def validate_replayed_block_def validate_block_def)

text \<open>The file system of a test.\<close>

lemma test_paths:
  "storage_paths (state_file dir) (blocks_file dir)" "savable (state_file dir)" "savable (blocks_file dir)"
  by (auto simp: storage_paths_def state_file_def blocks_file_def in_dir_def path_file_name_def temp_path_def)

lemma blocks_saved:
  assumes "json_codec_ok js" and "json_writes js"
  obtains fs' where "save_block_history js io_ok (blocks_file dir) bs fs = (fs', Ok ())"
    "load_block_history js no_read_faults fs' (blocks_file dir) = Ok (Some bs)"
    "load_chain_state js no_read_faults fs' (state_file dir) = load_chain_state js no_read_faults fs (state_file dir)"
proof -
  obtain t where t: "js_blocks_to js bs = Ok t" using assms(2) by (auto simp: json_writes_def is_Ok_iff)
  obtain fs' where s: "save_block_history js io_ok (blocks_file dir) bs fs = (fs', Ok ())"
    using write_ok [OF test_paths(3), of dir t fs] by (auto simp: save_block_history_def t)
  with save_blocks_cases [OF s assms(1) test_paths(1)] that show ?thesis by blast
qed

lemma chain_saved:
  assumes "json_codec_ok js" and "json_writes js"
  obtains fs' where "save_chain_state js io_ok (state_file dir) C fs = (fs', Ok ())"
    "load_chain_state js no_read_faults fs' (state_file dir) = Ok (Some C)"
    "load_block_history js no_read_faults fs' (blocks_file dir) = load_block_history js no_read_faults fs (blocks_file dir)"
proof -
  obtain t where t: "js_state_to js (persisted_from_chain C) = Ok t" using assms(2) by (auto simp: json_writes_def is_Ok_iff)
  obtain fs' where s: "save_chain_state js io_ok (state_file dir) C fs = (fs', Ok ())"
    using write_ok [OF test_paths(2), of dir t fs] by (auto simp: save_chain_state_def t)
  with save_chain_cases [OF s assms(1) test_paths(1)] that show ?thesis by blast
qed

lemma no_files:
  "load_chain_state js rd fmempty p = (case rd p of Some (OpenFails e) \<Rightarrow> Err (''failed to open chain state '' @ path_display p @ '': '' @ e) | _ \<Rightarrow> Ok None)"
  "load_block_history js rd fmempty p = Ok None"
  by (simp_all add: load_chain_state_def load_block_history_def split: option.splits read_fault.splits)

text \<open>The first block on the genesis state, and the state it leads to.\<close>

lemma genesis_block:
  assumes "pq_lib_correct (pf_dilithium2 pf)" and "0 < t"
  obtains e g b C where "engine_default pf seed = Ok e" "fresh_of pf seed e" "genesis_chain_state pf = Some g"
    "default_chain_state_with_id pf 0 = Some g" "first_of pf dw t rnd [] e b" "propose_block pf dw e g [] (Ok t) rnd = Ok b"
    "chain_apply_block pf dw (default_script_engine pf) g b = (C, Ok ())" "cs_height C = 1" "cs_height g = 0" "cs_tip_hash g = hash_fill 0"
    "cs_chain_id C = 0" "rebuild_chain_state_from_blocks pf dw [b] 0 [] = Ok C" "rebuild_chain_state_from_blocks pf dw [] 0 [] = Ok g"
    "\<And>vs. validate_replayed_block pf dw (default_registry pf) g b vs = validate_replayed_block pf dw (default_registry pf) default_chain_state b vs"
proof -
  obtain g root where g: "genesis_chain_state pf = Some g" "g = default_chain_state\<lparr>cs_state_root := root\<rparr>"
    "default_chain_state_with_id pf 0 = Some g" by (rule genesis)
  have "set [] \<subseteq> {empty_transfer}" by simp
  from default_first_block [OF assms(1) this, of seed dw t rnd] obtain e b where
    e: "engine_default pf seed = Ok e" "fresh_of pf seed e" "ce_validators e = [ce_public_key e]"
      "first_of pf dw t rnd [] e b" "propose_block pf dw e default_chain_state [] (Ok t) rnd = Ok b" .
  have valid: "validate_replayed_block pf dw (default_registry pf) g b [] = Ok ()"
    using first_block_valid [OF e(4) assms(2), of "[]"] by (simp add: g(2) stored_root_unread)
  then obtain C where C: "chain_apply_block pf dw (default_script_engine pf) g b = (C, Ok ())"
    "cs_height C = cs_height g + 1" "cs_chain_id C = cs_chain_id g"
    by (rule validated_block_applies) auto
  have start: "cs_height g = 0" "cs_tip_hash g = hash_fill 0" "cs_chain_id g = 0" by (simp_all add: g(2) default_chain_state_def)
  have "rebuild_chain_state_from_blocks pf dw [] 0 [] = Ok g" "rebuild_chain_state_from_blocks pf dw [b] 0 [] = Ok C"
    by (simp_all add: rebuild_chain_state_from_blocks_def g(3) replay_block_def valid C(1))
  with e g C start show ?thesis by (intro that [of e g b C]) (simp_all add: stored_root_unread)
qed

text \<open>What repair makes of a block history without a state, and of a state without a history.\<close>

lemma repaired:
  assumes "json_codec_ok js" and "json_writes js" and "load_chain_state js no_read_faults fs (state_file dir) = Ok c"
    and "load_block_history js no_read_faults fs (blocks_file dir) = Ok (Some bs)"
    and "rebuild_chain_state_from_blocks pf dw bs 0 vs = Ok C" and "\<forall>S. c = Some S \<longrightarrow> cs_chain_id S = 0"
    and "case c of Some S \<Rightarrow> chain_states_differ S C | None \<Rightarrow> bs \<noteq> []"
  obtains fs' where "load_or_repair_storage pf dw js no_read_faults io_ok (state_file dir) (blocks_file dir) 0 vs fs = (fs', Ok (C, bs))"
    "load_chain_state js no_read_faults fs' (state_file dir) = Ok (Some C)"
proof -
  obtain fs' where "save_chain_state js io_ok (state_file dir) C fs = (fs', Ok ())"
    "load_chain_state js no_read_faults fs' (state_file dir) = Ok (Some C)"
    by (rule chain_saved [OF assms(1,2)])
  moreover from this(1) assms(3-7)
  have "load_or_repair_storage pf dw js no_read_faults io_ok (state_file dir) (blocks_file dir) 0 vs fs = (fs', Ok (C, bs))"
    unfolding load_or_repair_eq_Ok by (intro exI [of _ c] exI [of _ "Some bs"]) (auto simp: blocks_or_none_def)
  ultimately show ?thesis using that by blast
qed

lemma test_rebuilds:
  assumes "pq_lib_correct (pf_dilithium2 pf)" and "0 < t" and "json_codec_ok js" and "json_writes js"
  shows "load_or_repair_storage_rebuilds_state_from_block_history pf dw js dir (Ok t) seed rnd = Some True"
proof -
  from genesis_block [OF assms(1,2), of seed dw rnd] obtain e g b C where
    g: "engine_default pf seed = Ok e" "genesis_chain_state pf = Some g" "propose_block pf dw e g [] (Ok t) rnd = Ok b"
      "cs_height C = 1" "rebuild_chain_state_from_blocks pf dw [b] 0 [] = Ok C" by metis
  obtain fs1 where s1: "save_block_history js io_ok (blocks_file dir) [b] fmempty = (fs1, Ok ())"
    "load_block_history js no_read_faults fs1 (blocks_file dir) = Ok (Some [b])"
    "load_chain_state js no_read_faults fs1 (state_file dir) = Ok None"
    by (rule blocks_saved [OF assms(3,4), where dir = dir and bs = "[b]" and fs = fmempty]) (simp add: no_files no_read_faults_def)
  obtain fs2 where "load_or_repair_storage pf dw js no_read_faults io_ok (state_file dir) (blocks_file dir) 0 [] fs1 = (fs2, Ok (C, [b]))"
    "load_chain_state js no_read_faults fs2 (state_file dir) = Ok (Some C)"
    by (rule repaired [OF assms(3,4) s1(3,2) g(5)]) simp_all
  with g s1 show ?thesis
    by (simp add: load_or_repair_storage_rebuilds_state_from_block_history_def completed_def)
qed

lemma test_truncates:
  assumes "pq_lib_correct (pf_dilithium2 pf)" and "0 < t" and "json_codec_ok js" and "json_writes js"
  shows "load_or_repair_storage_truncates_state_ahead_of_block_history pf dw js dir (Ok t) seed rnd = Some True"
proof -
  from genesis_block [OF assms(1,2), of seed dw rnd] obtain e g b C where
    g: "engine_default pf seed = Ok e" "genesis_chain_state pf = Some g" "propose_block pf dw e g [] (Ok t) rnd = Ok b"
      "chain_apply_block pf dw (default_script_engine pf) g b = (C, Ok ())" "cs_height C = 1" "cs_height g = 0"
      "cs_tip_hash g = hash_fill 0" "cs_chain_id C = 0" "rebuild_chain_state_from_blocks pf dw [] 0 [] = Ok g" by metis
  obtain fs1 where s1: "save_chain_state js io_ok (state_file dir) C fmempty = (fs1, Ok ())"
    "load_chain_state js no_read_faults fs1 (state_file dir) = Ok (Some C)"
    by (rule chain_saved [OF assms(3,4)])
  obtain fs2 where s2: "save_block_history js io_ok (blocks_file dir) [] fs1 = (fs2, Ok ())"
    "load_block_history js no_read_faults fs2 (blocks_file dir) = Ok (Some [])"
    "load_chain_state js no_read_faults fs2 (state_file dir) = Ok (Some C)"
    by (rule blocks_saved [OF assms(3,4), where dir = dir and bs = "[]" and fs = fs1]) (simp add: s1(2))
  obtain fs3 where "load_or_repair_storage pf dw js no_read_faults io_ok (state_file dir) (blocks_file dir) 0 [] fs2 = (fs3, Ok (g, []))"
    "load_chain_state js no_read_faults fs3 (state_file dir) = Ok (Some g)"
    by (rule repaired [OF assms(3,4) s2(3,2) g(9)]) (simp_all add: g chain_states_differ_def)
  with g s1 s2 show ?thesis
    by (simp add: load_or_repair_storage_truncates_state_ahead_of_block_history_def completed_def)
qed

lemma test_round_trip:
  assumes "json_codec_ok js" and "json_writes js"
  shows "save_chain_state_round_trips_non_empty_ledger_maps pf js dir = Some True"
proof -
  obtain g root where g: "genesis_chain_state pf = Some g" by (rule genesis)
  have "\<exists>fs'. completed (save_chain_state js io_ok (state_file dir) C fmempty) = Some (fs', ()) \<and>
      load_chain_state js no_read_faults fs' (state_file dir) = Ok (Some C)" for C
    by (rule chain_saved [OF assms, where dir = dir and C = C and fs = fmempty]) (simp add: completed_def)
  then obtain fs where "completed (save_chain_state js io_ok (state_file dir) C fmempty) = Some (fs C, ())"
    "load_chain_state js no_read_faults (fs C) (state_file dir) = Ok (Some C)" for C
    by metis
  then show ?thesis by (simp add: save_chain_state_round_trips_non_empty_ledger_maps_def g Let_def)
qed

text \<open>Errors that mention the file and what went wrong.\<close>

lemma contains_middle: "str_contains (before @ needle @ after) needle"
  by (auto simp: str_contains_def list_ex_iff suffix_def intro!: bexI [of _ "needle @ after"])

lemma written:
  assumes "savable p"
  obtains fs' where "write_file_atomically io_ok p contents fs = (fs', Ok ())" "fmlookup fs' p = Some contents"
    "\<And>q. q \<noteq> p \<Longrightarrow> q \<noteq> temp_path p \<Longrightarrow> fmlookup fs' q = fmlookup fs q"
proof -
  obtain fs' where w: "write_file_atomically io_ok p contents fs = (fs', Ok ())"
    using write_ok [OF assms] by blast
  from write_cases [OF w] show ?thesis by (intro that [OF w]) auto
qed

lemma test_chain_id_mismatch:
  assumes "legacy_to (default_chain_state\<lparr>cs_chain_id := 7\<rparr>) = Ok payload" and "js_state_from js payload = Err e"
    and "js_legacy_from js payload = Ok (default_chain_state\<lparr>cs_chain_id := 7\<rparr>)"
  shows "load_or_initialize_chain_state_rejects_chain_id_mismatch pf js legacy_to dir = Some True"
proof -
  obtain fs where w: "write_file_atomically io_ok (state_file dir) payload fmempty = (fs, Ok ())"
    "fmlookup fs (state_file dir) = Some payload"
    by (rule written [OF test_paths(2)])
  have "str_contains (''chain state '' @ path_display (state_file dir) @ '' has chain_id '' @ rest) ''chain_id''" for rest
    using contains_middle [of "''chain state '' @ path_display (state_file dir) @ '' has ''" "''chain_id''" "'' '' @ rest"] by simp
  with w assms show ?thesis
    by (simp add: load_or_initialize_chain_state_rejects_chain_id_mismatch_def completed_def failed_def
        load_or_initialize_chain_state_def load_chain_state_def no_read_faults_def default_chain_state_def)
qed

lemma test_corrupted_blocks:
  assumes "js_blocks_from js ''{\"not\":\"valid block history\"}'' = Err e"
  shows "load_or_repair_storage_rejects_corrupted_block_history pf dw js dir = Some True"
proof -
  let ?text = "''{\"not\":\"valid block history\"}''"
  obtain fs where w: "write_file_atomically io_ok (blocks_file dir) ?text fmempty = (fs, Ok ())"
    "fmlookup fs (blocks_file dir) = Some ?text" "fmlookup fs (state_file dir) = None"
    by (rule written [OF test_paths(3) [of dir], where contents = ?text and fs = fmempty])
      (use test_paths(1) [of dir] in \<open>auto simp: storage_paths_def\<close>)
  have "str_contains (''failed to parse block history '' @ rest) ''failed to parse block history''" for rest
    using contains_middle [of "[]" "''failed to parse block history''" "'' '' @ rest"] by simp
  with w assms show ?thesis
    by (simp add: load_or_repair_storage_rejects_corrupted_block_history_def completed_def failed_def load_or_repair_storage_def
        load_chain_state_def load_block_history_def no_read_faults_def)
qed

lemma test_corrupted_chain:
  assumes "js_state_from js ''{\"not\":\"valid chain state\"}'' = Err e" and "js_legacy_from js ''{\"not\":\"valid chain state\"}'' = Err e'"
  shows "load_or_repair_storage_rejects_corrupted_chain_state pf dw js dir = Some True"
proof -
  let ?text = "''{\"not\":\"valid chain state\"}''"
  obtain fs where w: "write_file_atomically io_ok (state_file dir) ?text fmempty = (fs, Ok ())"
    "fmlookup fs (state_file dir) = Some ?text"
    by (rule written [OF test_paths(2)])
  have "str_contains (''failed to parse chain state '' @ rest) ''failed to parse chain state''" for rest
    using contains_middle [of "[]" "''failed to parse chain state''" "'' '' @ rest"] by simp
  with w assms show ?thesis
    by (simp add: load_or_repair_storage_rejects_corrupted_chain_state_def completed_def failed_def load_or_repair_storage_def
        load_chain_state_def no_read_faults_def)
qed

text \<open>A block of a signer other than the one that is expected.\<close>

lemma foreign_first_block:
  assumes "first_of pf dw t rnd [] e b" and "0 < t" and "pk \<noteq> ce_public_key e"
  shows "validate_replayed_block pf dw (default_registry pf) default_chain_state b [pk] = Err InvalidBlock"
  using assms by (simp add: validation)

lemma test_different_signer:
  assumes "pq_lib_correct (pf_dilithium2 pf)" and "0 < t" and "json_codec_ok js" and "json_writes js"
    and "fst (pl_keypair (pf_dilithium2 pf) seed) \<noteq> fst (pl_keypair (pf_dilithium2 pf) seed')"
  shows "load_or_repair_storage_rebuilds_history_with_different_local_signer_when_no_validator_set pf dw js dir (Ok t) seed seed' rnd
    = Some True"
    and "load_or_repair_storage_still_enforces_explicit_validator_set pf dw js dir (Ok t) seed seed' rnd = Some True"
proof -
  obtain e g b C where
    g: "engine_default pf seed = Ok e" "fresh_of pf seed e" "genesis_chain_state pf = Some g" "default_chain_state_with_id pf 0 = Some g"
      "first_of pf dw t rnd [] e b" "propose_block pf dw e g [] (Ok t) rnd = Ok b"
      "cs_height C = 1" "rebuild_chain_state_from_blocks pf dw [b] 0 [] = Ok C"
    and unread: "validate_replayed_block pf dw (default_registry pf) g b vs = validate_replayed_block pf dw (default_registry pf) default_chain_state b vs"
      for vs
    using genesis_block [OF assms(1,2), of seed dw rnd] by metis
  obtain pk sk where keys: "ps_keygen (dilithium2_scheme pf) seed' = Ok (pk, sk)"
    using dilithium.keygen_total [OF assms(1), of seed'] by blast
  have sch: "pk_scheme pk = sk_scheme sk" using dilithium.keygen_scheme [OF keys] by simp
  have "pk_bytes pk = fst (pl_keypair (pf_dilithium2 pf) seed')" "pk_bytes (ce_public_key e) = fst (pl_keypair (pf_dilithium2 pf) seed)"
    using dilithium_keys(1) [OF assms(1) keys] dilithium_keys(1) [OF assms(1), of seed] g(2) by (simp_all add: fresh_of_def)
  with assms(5) have "pk \<noteq> ce_public_key e" by auto
  from foreign_first_block [OF g(5) assms(2) this]
  have refused: "validate_replayed_block pf dw (default_registry pf) g b [pk] = Err InvalidBlock" by (simp add: unread)
  obtain fs1 where s1: "save_block_history js io_ok (blocks_file dir) [b] fmempty = (fs1, Ok ())"
    "load_block_history js no_read_faults fs1 (blocks_file dir) = Ok (Some [b])"
    "load_chain_state js no_read_faults fs1 (state_file dir) = Ok None"
    by (rule blocks_saved [OF assms(3,4), where dir = dir and bs = "[b]" and fs = fmempty]) (simp add: no_files no_read_faults_def)
  obtain fs2 where "load_or_repair_storage pf dw js no_read_faults io_ok (state_file dir) (blocks_file dir) 0 [] fs1 = (fs2, Ok (C, [b]))"
    by (rule repaired [OF assms(3,4) s1(3,2) g(8)]) simp_all
  with g s1 keys sch refused
  show "load_or_repair_storage_rebuilds_history_with_different_local_signer_when_no_validator_set pf dw js dir (Ok t) seed seed' rnd
      = Some True"
    by (simp add: load_or_repair_storage_rebuilds_history_with_different_local_signer_when_no_validator_set_def completed_def
        default_registry_get engine_from_keys_def validate_block_def DEFAULT_CHAIN_ID_def Let_def)
  have "str_contains (''block history entry '' @ show_nat 1 @ '' failed validation while rebuilding state: '' @ rest)
      ''failed validation while rebuilding state''" for rest
    using contains_middle [of "''block history entry '' @ show_nat 1 @ '' ''" "''failed validation while rebuilding state''" "'': '' @ rest"]
    by simp
  with g s1 keys refused
  show "load_or_repair_storage_still_enforces_explicit_validator_set pf dw js dir (Ok t) seed seed' rnd = Some True"
    by (simp add: load_or_repair_storage_still_enforces_explicit_validator_set_def completed_def failed_def default_registry_get
        load_or_repair_storage_def Let_def rebuild_chain_state_from_blocks_def replay_block_def)
qed

end
