(* ===== verification/QC_NodeTests.thy ===== *)
theory QC_NodeTests
  imports QC_Sync QC_StorageTests "HOL-Library.Countable"
begin

text \<open>
  The test modules of \<open>qcoin-node/src/wire.rs\<close> and \<open>qcoin-node/src/node.rs\<close>, test by test, on the model; tests are
  values as in \<open>QC_BaseTests\<close>.
\<close>

section \<open>Tests of the wire format\<close>

definition wire_round_trips_tip_request :: "bincode \<Rightarrow> bool option" where
  "wire_round_trips_tip_request bc = do {
     encoded \<leftarrow> passed (encode_wire bc TipRequest);
     decoded \<leftarrow> passed (decode_wire bc encoded);
     Some (decoded = TipRequest)
   }"

definition wire_rejects_wrong_magic :: "bincode \<Rightarrow> bool option" where
  "wire_rejects_wrong_magic bc = do {
     err \<leftarrow> failed (decode_wire bc (ascii ''nope''));
     Some (str_contains err ''magic'' \<or> str_contains err ''shorter'')
   }"

definition wire_round_trips_node_info :: "bincode \<Rightarrow> bool option" where
  "wire_round_trips_node_info bc = do {
     let info = local_node_info 7 True ''abcd'' True True;
     encoded \<leftarrow> passed (encode_wire bc (NodeInfo info));
     decoded \<leftarrow> passed (decode_wire bc encoded);
     Some (decoded = NodeInfo info)
   }"

definition wire_round_trips_submit_transaction :: "bincode \<Rightarrow> bool option" where
  "wire_round_trips_submit_transaction bc = do {
     let transaction = \<lparr>tx_core = \<lparr>tc_kind = Transfer, tc_inputs = [], tc_outputs = []\<rparr>, tx_witness = default_transaction_witness\<rparr>;
     encoded \<leftarrow> passed (encode_wire bc (SubmitTransaction transaction));
     decoded \<leftarrow> passed (decode_wire bc encoded);
     Some (decoded = SubmitTransaction transaction)
   }"

definition version_compatibility_rejects_newer_minimum :: "bool option" where
  "version_compatibility_rejects_newer_minimum = do {
     let remote = \<lparr>ni_wire_version = WIRE_VERSION + 1, ni_min_compatible_wire_version = WIRE_VERSION + 1,
       ni_software_version = ''9.9.9'', ni_chain_id = 0, ni_node_public_key_hex = ''abcd'', ni_capabilities = []\<rparr>;
     err \<leftarrow> failed (ensure_version_compatible remote);
     Some (str_contains err ''minimum wire version'')
   }"

definition node_info_compatibility_rejects_chain_id_mismatch :: "bool option" where
  "node_info_compatibility_rejects_chain_id_mismatch = do {
     let remote = local_node_info 9 False ''abcd'' False False;
     err \<leftarrow> failed (ensure_node_info_compatible 3 remote);
     Some (str_contains err ''chain id'')
   }"

section \<open>Tests of addresses and broadcasts\<close>

definition localhost :: "u16 \<Rightarrow> socket_addr" where
  "localhost port = SocketV4 0x7F000001 port"

definition resolve_peer_addrs_accepts_http_and_udp_endpoints :: "(string \<Rightarrow> (string, socket_addr list) res) \<Rightarrow> bool option" where
  "resolve_peer_addrs_accepts_http_and_udp_endpoints lookup = do {
     resolved \<leftarrow> passed (resolve_peer_addrs lookup
       [''http://127.0.0.1:9800/'', ''udp://127.0.0.1:9900'', ''127.0.0.1:9700''] (localhost 9700));
     Some (length resolved = 2 \<and> localhost 9800 \<in> set resolved \<and> localhost 9900 \<in> set resolved)
   }"

text \<open>The closures of the two tests record each attempt; here the list of sent datagrams is that record.\<close>

definition attempt :: "(socket_addr \<Rightarrow> (string, unit) res) \<Rightarrow> socket_addr \<Rightarrow> unit node_op" where
  "attempt outcome peer = (\<lambda>s. (s\<lparr>nd_sent := nd_sent s @ [(peer, PresenceAnnounce)]\<rparr>, outcome peer))"

definition broadcast_best_effort_continues_after_failure :: "node_state \<Rightarrow> bool option" where
  "broadcast_best_effort_continues_after_failure s = do {
     let peers = [localhost 9800, localhost 9801];
     let (s', result) = broadcast_best_effort peers
       (attempt (\<lambda>peer. if peer = peers ! 0 then Err ''stale peer'' else Ok ())) (s\<lparr>nd_sent := []\<rparr>);
     Some (is_Ok result \<and> map fst (nd_sent s') = peers)
   }"

definition broadcast_best_effort_reports_when_all_peers_fail :: "node_state \<Rightarrow> bool option" where
  "broadcast_best_effort_reports_when_all_peers_fail s = do {
     let peers = [localhost 9800, localhost 9801];
     let (s', result) = broadcast_best_effort peers
       (attempt (\<lambda>peer. Err (''send failure for '' @ addr_display peer))) (s\<lparr>nd_sent := []\<rparr>);
     err \<leftarrow> failed result;
     Some (map fst (nd_sent s') = peers \<and> str_contains err ''failed to send to all 2 peer(s)'' \<and>
       str_contains err ''127.0.0.1:9800'' \<and> str_contains err ''127.0.0.1:9801'')
   }"

definition discovery_targets_include_ipv6_multicast_group :: bool where
  "discovery_targets_include_ipv6_multicast_group \<longleftrightarrow>
     (let bind_addr = localhost 9700; peer = localhost 9800;
          multicast = [MulticastV6 0xff02000000000000000051436f69006e 7];
          targets = discovery_targets_for bind_addr [peer] multicast
      in peer \<in> set targets \<and> SocketV6 0xff02000000000000000051436f69006e 9700 0 7 \<in> set targets)"

section \<open>Tests of running nodes\<close>

text \<open>
  The threads of a test run in this order: both nodes start, with a proactor each, and run the jobs that are due at
  once; each datagram is handled before the test goes on. \<open>init\<close> brings up a network, and \<open>local_addr\<close> is the first
  address it is bound to. \<open>chain_to\<close> and \<open>blocks_to\<close> are \<open>serde_json::to_string\<close>. Files live in an empty file system in
  which every call succeeds, the creation of the directory included.
\<close>

definition build_network ::
  "(udp_config \<Rightarrow> (string, network) res) \<Rightarrow> socket_addr list \<Rightarrow> socket_addr \<Rightarrow> socket_addr list \<Rightarrow> (string, network) res" where
  "build_network init default_extra bind_addr peers = build_network_with_multicast init default_extra bind_addr peers []"

definition shared_signer :: "platform \<Rightarrow> nat \<Rightarrow> (string, public_key \<times> private_key) res" where
  "shared_signer pf seed =
     and_then (ok_or ''dilithium2 not registered'' (registry_get (default_registry pf) Dilithium2)) (\<lambda>scheme.
     map_err crypto_error_display (ps_keygen scheme seed))"

record test_codecs =
  te_json :: json_codec
  te_chain_to :: "chain_state \<Rightarrow> (string, string) res"
  te_blocks_to :: "block list \<Rightarrow> (string, string) res"

definition producing_runtime ::
  "platform \<Rightarrow> test_codecs \<Rightarrow> path \<Rightarrow> public_key \<times> private_key \<Rightarrow> public_key list \<Rightarrow> bool \<Rightarrow> file_system
     \<Rightarrow> (file_system \<times> node_runtime) option" where
  "producing_runtime pf te base_dir signer validators produce_empty_blocks fs = do {
     let state_path = in_dir base_dir ''state.json'';
     let blocks_path = blocks_path_from_state_path state_path;
     loaded \<leftarrow> passed (load_chain_state (te_json te) no_read_faults fs state_path);
     chain \<leftarrow> (case loaded of Some C \<Rightarrow> Some C | None \<Rightarrow> genesis_chain_state pf);
     loaded \<leftarrow> passed (load_block_history (te_json te) no_read_faults fs blocks_path);
     let blocks = (case loaded of Some bs \<Rightarrow> bs | None \<Rightarrow> []);
     consensus \<leftarrow> passed (engine_from_keys (default_registry pf) (fst signer) (snd signer) validators);
     text \<leftarrow> passed (te_chain_to te chain);
     (fs, _) \<leftarrow> completed (write_file_atomically io_ok state_path text fs);
     text \<leftarrow> passed (te_blocks_to te blocks);
     (fs, _) \<leftarrow> completed (write_file_atomically io_ok blocks_path text fs);
     Some (fs, \<lparr>nr_chain = chain, nr_blocks = blocks, nr_pending = [], nr_consensus = consensus, nr_state_path = state_path,
       nr_blocks_path = blocks_path, nr_node_public_key_hex = to_hex (pk_bytes (fst signer)), nr_node_is_validator = True,
       nr_produce_empty_blocks = produce_empty_blocks\<rparr>)
   }"

definition validating_runtime ::
  "platform \<Rightarrow> test_codecs \<Rightarrow> path \<Rightarrow> public_key list \<Rightarrow> nat \<Rightarrow> file_system \<Rightarrow> (file_system \<times> node_runtime) option" where
  "validating_runtime pf te base_dir validators seed fs = do {
     let state_path = in_dir base_dir ''state.json'';
     let blocks_path = blocks_path_from_state_path state_path;
     loaded \<leftarrow> passed (load_chain_state (te_json te) no_read_faults fs state_path);
     chain \<leftarrow> (case loaded of Some C \<Rightarrow> Some C | None \<Rightarrow> genesis_chain_state pf);
     loaded \<leftarrow> passed (load_block_history (te_json te) no_read_faults fs blocks_path);
     let blocks = (case loaded of Some bs \<Rightarrow> bs | None \<Rightarrow> []);
     scheme \<leftarrow> registry_get (default_registry pf) Dilithium2;
     (public_key, private_key) \<leftarrow> passed (ps_keygen scheme seed);
     consensus \<leftarrow> passed (engine_from_keys (default_registry pf) public_key private_key validators);
     text \<leftarrow> passed (te_chain_to te chain);
     (fs, _) \<leftarrow> completed (write_file_atomically io_ok state_path text fs);
     text \<leftarrow> passed (te_blocks_to te blocks);
     (fs, _) \<leftarrow> completed (write_file_atomically io_ok blocks_path text fs);
     Some (fs, \<lparr>nr_chain = chain, nr_blocks = blocks, nr_pending = [], nr_consensus = consensus, nr_state_path = state_path,
       nr_blocks_path = blocks_path, nr_node_public_key_hex = to_hex (pk_bytes public_key), nr_node_is_validator = False,
       nr_produce_empty_blocks = False\<rparr>)
   }"

definition test_transaction :: transaction where
  "test_transaction = \<lparr>tx_core = \<lparr>tc_kind = Transfer, tc_inputs = [], tc_outputs = []\<rparr>, tx_witness = default_transaction_witness\<rparr>"

text \<open>\<open>NodeService::start_polling\<close> in these tests, and the jobs that are due at once; \<open>PumpFrames\<close> finds nothing yet.\<close>

definition polling_service ::
  "platform \<Rightarrow> (bytes \<Rightarrow> input_witness option) \<Rightarrow> json_codec \<Rightarrow> bincode \<Rightarrow> network \<Rightarrow> socket_addr \<Rightarrow> socket_addr list \<Rightarrow> service option" where
  "polling_service pf dw js bc network addr peers =
     passed (snd (start_polling pf dw js bc
       \<lparr>cc_bind_addr = addr, cc_peers = peers, cc_multicast = [], cc_sync_interval = 30, cc_produce_interval = 30, cc_produce = False,
          cc_reliable_node_public_key_hex = []\<rparr>
       (nw_local_addrs network) (\<lambda>job. None) (proactor_new 0)))"

definition first_jobs :: "service \<Rightarrow> call \<Rightarrow> node_state \<Rightarrow> node_state option" where
  "first_jobs sv cl s = do {
     (s, _) \<leftarrow> run_job sv cl [] AnnouncePresence s;
     (s, _) \<leftarrow> run_job sv cl [] RequestTips s;
     (s, _) \<leftarrow> run_job sv cl [] PumpFrames s;
     Some s
   }"

definition new_node :: "node_runtime \<Rightarrow> file_system \<Rightarrow> node_state" where
  "new_node rt fs = \<lparr>nd_runtime = rt, nd_files = fs, nd_sync = sync_state_new, nd_sent = [], nd_others = []\<rparr>"

definition qcoin_node_service_does_not_produce_empty_blocks_by_default ::
  "platform \<Rightarrow> (bytes \<Rightarrow> input_witness option) \<Rightarrow> test_codecs \<Rightarrow> bincode \<Rightarrow> (udp_config \<Rightarrow> (string, network) res) \<Rightarrow>
     (network \<Rightarrow> (string, socket_addr) res) \<Rightarrow> call \<Rightarrow> path \<Rightarrow> nat \<Rightarrow> bool option" where
  "qcoin_node_service_does_not_produce_empty_blocks_by_default pf dw te bc init local_addr cl dir seed = do {
     signer \<leftarrow> passed (shared_signer pf seed);
     (fs, rt) \<leftarrow> producing_runtime pf te dir signer [fst signer] False fmempty;
     network \<leftarrow> passed (build_network init [] (localhost 0) []);
     addr \<leftarrow> passed (local_addr network);
     sv \<leftarrow> polling_service pf dw (te_json te) bc network addr [];
     s \<leftarrow> first_jobs sv cl (new_node rt fs);
     let (s', produced) = produce_now sv cl s;
     height \<leftarrow> passed produced;
     Some (height = None \<and> cs_height (nr_chain (nd_runtime s')) = 0)
   }"

text \<open>The setting of the two tests with two nodes, up to the handshake that both wait for.\<close>

definition two_nodes ::
  "platform \<Rightarrow> (bytes \<Rightarrow> input_witness option) \<Rightarrow> test_codecs \<Rightarrow> bincode \<Rightarrow> (udp_config \<Rightarrow> (string, network) res) \<Rightarrow>
     (udp_config \<Rightarrow> (string, network) res) \<Rightarrow> (network \<Rightarrow> (string, socket_addr) res) \<Rightarrow> call \<Rightarrow> path \<Rightarrow> path \<Rightarrow> bool \<Rightarrow> nat \<Rightarrow> nat
     \<Rightarrow> ((service \<times> socket_addr \<times> node_state) \<times> (service \<times> socket_addr \<times> node_state)) option" where
  "two_nodes pf dw te bc init_a init_b local_addr cl dir_a dir_b produce_empty_blocks seed_a seed_b = do {
     signer \<leftarrow> passed (shared_signer pf seed_a);
     (fs_a, rt_a) \<leftarrow> producing_runtime pf te dir_a signer [fst signer] produce_empty_blocks fmempty;
     (fs_b, rt_b) \<leftarrow> validating_runtime pf te dir_b [fst signer] seed_b fmempty;
     network_a \<leftarrow> passed (build_network init_a [] (localhost 0) []);
     addr_a \<leftarrow> passed (local_addr network_a);
     network_b \<leftarrow> passed (build_network init_b [] (localhost 0) [addr_a]);
     addr_b \<leftarrow> passed (local_addr network_b);
     sv_a \<leftarrow> polling_service pf dw (te_json te) bc network_a addr_a [addr_b];
     sv_b \<leftarrow> polling_service pf dw (te_json te) bc network_b addr_b [addr_a];
     a \<leftarrow> first_jobs sv_a cl (new_node rt_a fs_a);
     b \<leftarrow> first_jobs sv_b cl (new_node rt_b fs_b);
     let to_b = outbox addr_b (new_node rt_a fs_a) a;
     let to_a = outbox addr_a (new_node rt_b fs_b) b;
     let (b, a) = dialogue sv_b cl addr_b sv_a cl addr_a 1 to_b (b, a);
     let (a, b) = dialogue sv_a cl addr_a sv_b cl addr_b 1 to_a (a, b);
     if addr_b \<in> set (known_peers sv_a cl (nd_sync a)) \<and> addr_a \<in> set (known_peers sv_b cl (nd_sync b))
     then Some ((sv_a, addr_a, a), (sv_b, addr_b, b)) else None
   }"

definition qcoin_node_service_broadcasts_blocks_over_loadngo_network ::
  "platform \<Rightarrow> (bytes \<Rightarrow> input_witness option) \<Rightarrow> test_codecs \<Rightarrow> bincode \<Rightarrow> (udp_config \<Rightarrow> (string, network) res) \<Rightarrow>
     (udp_config \<Rightarrow> (string, network) res) \<Rightarrow> (network \<Rightarrow> (string, socket_addr) res) \<Rightarrow> call \<Rightarrow> path \<Rightarrow> path \<Rightarrow> nat \<Rightarrow> nat \<Rightarrow> bool option" where
  "qcoin_node_service_broadcasts_blocks_over_loadngo_network pf dw te bc init_a init_b local_addr cl dir_a dir_b seed_a seed_b = do {
     ((sv_a, addr_a, a), (sv_b, addr_b, b)) \<leftarrow> two_nodes pf dw te bc init_a init_b local_addr cl dir_a dir_b True seed_a seed_b;
     let (a', produced) = produce_now sv_a cl a;
     _ \<leftarrow> passed produced;
     let (b, _) = receive sv_b cl addr_a (outbox addr_b a a') b;
     Some (cs_height (nr_chain (nd_runtime b)) = 1)
   }"

definition qcoin_node_service_multicasts_transaction_announce_and_fetches_unicast ::
  "platform \<Rightarrow> (bytes \<Rightarrow> input_witness option) \<Rightarrow> test_codecs \<Rightarrow> bincode \<Rightarrow> (udp_config \<Rightarrow> (string, network) res) \<Rightarrow>
     (udp_config \<Rightarrow> (string, network) res) \<Rightarrow> (network \<Rightarrow> (string, socket_addr) res) \<Rightarrow> call \<Rightarrow> path \<Rightarrow> path \<Rightarrow> nat \<Rightarrow> nat \<Rightarrow> bool option" where
  "qcoin_node_service_multicasts_transaction_announce_and_fetches_unicast pf dw te bc init_a init_b local_addr cl dir_a dir_b seed_a seed_b = do {
     ((sv_a, addr_a, a), (sv_b, addr_b, b)) \<leftarrow> two_nodes pf dw te bc init_a init_b local_addr cl dir_a dir_b False seed_a seed_b;
     let (a', submitted) = handle_submitted_transaction sv_a cl (localhost 9999) test_transaction a;
     _ \<leftarrow> passed submitted;
     let (b, a) = dialogue sv_b cl addr_b sv_a cl addr_a 2 (outbox addr_b a a') (b, a');
     first_a \<leftarrow> list_get (nr_pending (nd_runtime a)) 0;
     tx_id_a \<leftarrow> tx_id pf first_a;
     first_b \<leftarrow> list_get (nr_pending (nd_runtime b)) 0;
     tx_id_b \<leftarrow> tx_id pf first_b;
     let fetched = length (nr_pending (nd_runtime b)) = 1 \<and> tx_id_b = tx_id_a;
     let (a', produced) = produce_now sv_a cl a;
     height \<leftarrow> passed produced;
     let (b, _) = receive sv_b cl addr_a (outbox addr_b a a') b;
     Some (fetched \<and> height = Some 1 \<and> cs_height (nr_chain (nd_runtime b)) = 1 \<and>
       length (nr_pending (nd_runtime a')) = 0 \<and> length (nr_pending (nd_runtime b)) = 0)
   }"

section \<open>Results: wire, addresses, broadcasts\<close>

lemma frame_back:
  assumes "bincode_ok bc" and "is_Ok (bc_message_to bc msg)"
  obtains f where "encode_wire bc msg = Ok f" "decode_wire bc f = Ok msg"
proof -
  obtain p where "bc_message_to bc msg = Ok p" using assms(2) by (auto simp: is_Ok_iff)
  with assms(1) that [of "QCOIN_WIRE_MAGIC @ p"] show ?thesis by (auto simp: encode_wire_def bincode_ok_def)
qed

lemma wire_round_trips:
  assumes "bincode_ok bc" and "is_Ok (bc_message_to bc msg)"
  shows "Option.bind (passed (encode_wire bc msg)) (\<lambda>encoded. Option.bind (passed (decode_wire bc encoded))
    (\<lambda>decoded. Some (decoded = msg))) = Some True"
  by (rule frame_back [OF assms]) simp

lemma test_wire_round_trips:
  assumes "bincode_ok bc"
  shows "is_Ok (bc_message_to bc TipRequest) \<Longrightarrow> wire_round_trips_tip_request bc = Some True"
    and "is_Ok (bc_message_to bc (NodeInfo (local_node_info 7 True ''abcd'' True True))) \<Longrightarrow> wire_round_trips_node_info bc = Some True"
    and "is_Ok (bc_message_to bc (SubmitTransaction empty_transfer)) \<Longrightarrow> wire_round_trips_submit_transaction bc = Some True"
  unfolding wire_round_trips_tip_request_def wire_round_trips_node_info_def wire_round_trips_submit_transaction_def Let_def
    empty_transfer_def
  by (rule wire_round_trips [OF assms]; assumption)+

lemma test_wrong_magic: "wire_rejects_wrong_magic bc = Some True"
  by (simp add: wire_rejects_wrong_magic_def decode_wire_def QCOIN_WIRE_MAGIC_def failed_def, code_simp)

lemma test_compatibility:
  "version_compatibility_rejects_newer_minimum = Some True" "node_info_compatibility_rejects_chain_id_mismatch = Some True"
  by code_simp+

lemma localhost_text:
  "addr_display (localhost 9700) = ''127.0.0.1:9700''" "addr_display (localhost 9800) = ''127.0.0.1:9800''"
  "addr_display (localhost 9801) = ''127.0.0.1:9801''" "addr_display (localhost 9900) = ''127.0.0.1:9900''"
  by (simp_all add: localhost_def ipv4_display_def show_nat.simps char_of_eq_iff)

text \<open>Trimming leaves a text alone that begins and ends with a visible character.\<close>

lemma trim_visible:
  assumes "s \<noteq> []" and "\<forall>c \<in> {hd s, last s}. 32 < (of_char c :: nat) \<and> (of_char c :: nat) < 128"
  shows "str_trim s = s"
proof -
  let ?visible = "\<lambda>c :: char. 32 < (of_char c :: nat) \<and> (of_char c :: nat) < 128"
  have blank: "\<not> ?visible (char_of k)" if "k \<le> 32 \<or> 128 \<le> k \<and> k < 256" for k :: nat
    using that by auto
  have front: "\<not> ?visible (hd w)" "\<not> ?visible (last w)" "w \<noteq> []" if w: "w \<in> set white_space_codes" for w
  proof -
    obtain ns where ns: "ns \<in> set white_space_numbers" "w = map char_of ns" using w unfolding white_space_codes_def by fastforce
    from white_space_ends [OF ns(1)] have "ns \<noteq> []" "hd ns \<le> 32 \<or> 128 \<le> hd ns \<and> hd ns < 256" "last ns \<le> 32 \<or> 128 \<le> last ns \<and> last ns < 256"
      by blast+
    with blank [of "hd ns"] blank [of "last ns"] show "\<not> ?visible (hd w)" "\<not> ?visible (last w)" "w \<noteq> []"
      by (simp_all only: ns(2) hd_map last_map list.map_disc_iff not_False_eq_True)
  qed
  have rear: "\<not> ?visible (hd w)" if w: "w \<in> set (map rev white_space_codes)" for w
  proof -
    obtain v where "v \<in> set white_space_codes" "w = rev v" using w by auto
    with front [of v] show ?thesis by (simp add: hd_rev)
  qed
  have "strip_front white_space_codes s = s"
    by (rule strip_front_id) (use front assms in \<open>metis insertI1\<close>)
  moreover have "strip_front (map rev white_space_codes) (rev s) = rev s"
    by (rule strip_front_id) (use rear assms in \<open>metis hd_rev insertCI\<close>)
  ultimately show ?thesis by (simp add: str_trim_def)
qed

lemma test_resolve:
  assumes "\<forall>p \<in> {9700, 9800, 9900}. lookup (addr_display (localhost p)) = Ok [localhost p]"
  shows "resolve_peer_addrs_accepts_http_and_udp_endpoints lookup = Some True"
proof -
  have "normalize_peer_endpoint ''http://127.0.0.1:9800/'' = ''127.0.0.1:9800''"
    "normalize_peer_endpoint ''udp://127.0.0.1:9900'' = ''127.0.0.1:9900''"
    "normalize_peer_endpoint ''127.0.0.1:9700'' = ''127.0.0.1:9700''"
    by (simp_all add: normalize_peer_endpoint_def trim_visible trim_end_slashes_def strip_prefix_def Let_def)
  with assms have "resolve_endpoint_addr lookup ''http://127.0.0.1:9800/'' = Ok (localhost 9800)"
    "resolve_endpoint_addr lookup ''udp://127.0.0.1:9900'' = Ok (localhost 9900)"
    "resolve_endpoint_addr lookup ''127.0.0.1:9700'' = Ok (localhost 9700)"
    by (simp_all add: resolve_endpoint_addr_def localhost_text list_get_def)
  then show ?thesis
    by (simp add: resolve_peer_addrs_accepts_http_and_udp_endpoints_def resolve_peer_addrs_def push_target_def localhost_def)
qed

lemma test_broadcast_continues: "broadcast_best_effort_continues_after_failure s = Some True"
  by (simp add: broadcast_best_effort_continues_after_failure_def broadcast_best_effort_def op_then_def op_try_def attempt_def
      op_return_def localhost_def)

lemma test_broadcast_reports: "broadcast_best_effort_reports_when_all_peers_fail s = Some True"
proof -
  let ?failure = "\<lambda>p. addr_display p @ '': '' @ ''send failure for '' @ addr_display p"
  let ?err = "''failed to send to all '' @ show_nat 2 @ '' peer(s): '' @ str_join ''; '' (map ?failure [localhost 9800, localhost 9801])"
  have two: "show_nat 2 = ''2''" by (simp add: show_nat.simps char_of_eq_iff)
  have "str_contains ?err ''failed to send to all 2 peer(s)''" "str_contains ?err ''127.0.0.1:9800''"
    "str_contains ?err ''127.0.0.1:9801''"
    unfolding two localhost_text list.map
    using contains_middle [of "[]" "''failed to send to all 2 peer(s)''" "'': '' @ str_join ''; ''
        [''127.0.0.1:9800: send failure for 127.0.0.1:9800'', ''127.0.0.1:9801: send failure for 127.0.0.1:9801'']"]
      contains_middle [of "''failed to send to all 2 peer(s): ''" "''127.0.0.1:9800''"
        "'': send failure for 127.0.0.1:9800; 127.0.0.1:9801: send failure for 127.0.0.1:9801''"]
      contains_middle [of "''failed to send to all 2 peer(s): 127.0.0.1:9800: send failure for 127.0.0.1:9800; ''" "''127.0.0.1:9801''"
        "'': send failure for 127.0.0.1:9801''"]
    by simp_all
  moreover have "broadcast_best_effort [localhost 9800, localhost 9801] (attempt (\<lambda>peer. Err (''send failure for '' @ addr_display peer))) (s\<lparr>nd_sent := []\<rparr>)
      = (s\<lparr>nd_sent := [(localhost 9800, PresenceAnnounce), (localhost 9801, PresenceAnnounce)]\<rparr>, Err ?err)"
    by (simp only: broadcast_best_effort_def) (simp add: op_then_def op_try_def attempt_def op_return_def numeral_2_eq_2)
  ultimately show ?thesis
    by (simp only: broadcast_best_effort_reports_when_all_peers_fail_def Let_def prod.case failed_def res.case) simp
qed

lemma test_discovery: discovery_targets_include_ipv6_multicast_group
  by (simp add: discovery_targets_include_ipv6_multicast_group_def discovery_targets_for_def multicast_targets_def push_target_def localhost_def)

section \<open>Results: running nodes\<close>

definition network_at :: "(udp_config \<Rightarrow> (string, network) res) \<Rightarrow> (network \<Rightarrow> (string, socket_addr) res) \<Rightarrow> socket_addr \<Rightarrow> bool" where
  "network_at init local_addr addr \<longleftrightarrow>
     (\<forall>config. \<exists>network. init config = Ok network \<and> is_Ok (nw_binds network) \<and> nw_local_addrs network = Ok [addr] \<and>
       local_addr network = Ok addr)"

text \<open>Both runtimes start at the genesis state, with empty history and mempool.\<close>

definition starts_at_genesis :: "platform \<Rightarrow> (bytes \<Rightarrow> input_witness option) \<Rightarrow> public_key \<Rightarrow> node_runtime \<Rightarrow> bool" where
  "starts_at_genesis pf dw pk rt \<longleftrightarrow>
     runtime_ok pf dw 0 [pk] rt \<and> genesis_chain_state pf = Some (nr_chain rt) \<and> nr_blocks rt = [] \<and> nr_pending rt = [] \<and>
     ce_validators (nr_consensus rt) = [pk] \<and>
     savable (nr_state_path rt) \<and> savable (nr_blocks_path rt)"

lemma runtime_starts:
  assumes "genesis_chain_state pf = Some C" and "engine_from_keys (default_registry pf) pk sk [v] = Ok e"
  shows "starts_at_genesis pf dw v \<lparr>nr_chain = C, nr_blocks = [], nr_pending = [], nr_consensus = e, nr_state_path = in_dir dir ''state.json'',
    nr_blocks_path = blocks_path_from_state_path (in_dir dir ''state.json''), nr_node_public_key_hex = hex, nr_node_is_validator = iv,
    nr_produce_empty_blocks = pe\<rparr>"
proof -
  obtain g root where "genesis_chain_state pf = Some g" "default_chain_state_with_id pf 0 = Some g" by (rule genesis)
  then have "rebuild_chain_state_from_blocks pf dw [] 0 [v] = Ok C" using assms(1) by (simp add: rebuild_chain_state_from_blocks_def)
  with assms show ?thesis
    by (auto simp: starts_at_genesis_def runtime_ok_def pending_applies_def distinct_ids_def ids_of_def engine_from_keys_def
        savable_blocks_path in_dir_def split: if_splits)
qed

lemma test_signer:
  assumes "pq_lib_correct (pf_dilithium2 pf)"
  obtains pk sk where "shared_signer pf seed = Ok (pk, sk)" "ps_keygen (dilithium2_scheme pf) seed = Ok (pk, sk)"
    "pk_scheme pk = Dilithium2" "sk_scheme sk = Dilithium2"
proof -
  from dilithium.keygen_total [OF assms, of seed] obtain pk sk where k: "ps_keygen (dilithium2_scheme pf) seed = Ok (pk, sk)" by blast
  then have "pk_scheme pk = Dilithium2" "sk_scheme sk = Dilithium2"
    by (auto simp: dilithium2_scheme_def dilithium2_keygen_def crypto_new_defs res_simps split: prod.splits)
  with that k show ?thesis by (simp add: shared_signer_def default_registry_get)
qed

lemma producing_starts:
  assumes "pk_scheme pk = Dilithium2" and "sk_scheme sk = Dilithium2" and "\<And>C. is_Ok (te_chain_to te C)" and "is_Ok (te_blocks_to te [])"
  obtains fs rt where "producing_runtime pf te dir (pk, sk) [pk] pe fmempty = Some (fs, rt)" "starts_at_genesis pf dw pk rt"
    "nr_consensus rt = \<lparr>ce_registry = default_registry pf, ce_signing_scheme = Dilithium2, ce_signing_key = sk, ce_public_key = pk, ce_validators = [pk]\<rparr>"
    "nr_produce_empty_blocks rt = pe"
proof -
  obtain C root where C: "genesis_chain_state pf = Some C" by (rule genesis)
  obtain t u where t: "te_chain_to te C = Ok t" "te_blocks_to te [] = Ok u" using assms(3) [of C] assms(4) by (auto simp: is_Ok_iff)
  let ?sp = "in_dir dir ''state.json''"
  have names: "savable ?sp" "savable (blocks_path_from_state_path ?sp)"
    by (simp_all add: in_dir_def savable_blocks_path)
  obtain fs1 where w1: "write_file_atomically io_ok ?sp t fmempty = (fs1, Ok ())" using write_ok [OF names(1)] by blast
  obtain fs2 where w2: "write_file_atomically io_ok (blocks_path_from_state_path ?sp) u fs1 = (fs2, Ok ())" using write_ok [OF names(2)] by blast
  have e: "engine_from_keys (default_registry pf) pk sk [pk] = Ok \<lparr>ce_registry = default_registry pf, ce_signing_scheme = Dilithium2,
      ce_signing_key = sk, ce_public_key = pk, ce_validators = [pk]\<rparr>"
    using assms(1,2) by (simp add: engine_from_keys_def)
  show ?thesis
    by (rule that [OF _ runtime_starts [OF C e, of dw dir "to_hex (pk_bytes pk)" True pe]])
      (simp_all add: producing_runtime_def no_files no_read_faults_def C e t w1 w2 completed_def Let_def)
qed

lemma validating_starts:
  assumes "pq_lib_correct (pf_dilithium2 pf)" and "\<And>C. is_Ok (te_chain_to te C)" and "is_Ok (te_blocks_to te [])"
  obtains fs rt where "validating_runtime pf te dir [pk] seed fmempty = Some (fs, rt)" "starts_at_genesis pf dw pk rt"
proof -
  obtain C root where C: "genesis_chain_state pf = Some C" by (rule genesis)
  obtain pk' sk where k: "ps_keygen (dilithium2_scheme pf) seed = Ok (pk', sk)" "pk_scheme pk' = Dilithium2" "sk_scheme sk = Dilithium2"
    by (rule test_signer [OF assms(1)])
  obtain t u where t: "te_chain_to te C = Ok t" "te_blocks_to te [] = Ok u" using assms(2) [of C] assms(3) by (auto simp: is_Ok_iff)
  let ?sp = "in_dir dir ''state.json''"
  have names: "savable ?sp" "savable (blocks_path_from_state_path ?sp)"
    by (simp_all add: in_dir_def savable_blocks_path)
  obtain fs1 where w1: "write_file_atomically io_ok ?sp t fmempty = (fs1, Ok ())" using write_ok [OF names(1)] by blast
  obtain fs2 where w2: "write_file_atomically io_ok (blocks_path_from_state_path ?sp) u fs1 = (fs2, Ok ())" using write_ok [OF names(2)] by blast
  have e: "engine_from_keys (default_registry pf) pk' sk [pk] = Ok \<lparr>ce_registry = default_registry pf, ce_signing_scheme = Dilithium2,
      ce_signing_key = sk, ce_public_key = pk', ce_validators = [pk]\<rparr>"
    using k(2,3) by (simp add: engine_from_keys_def)
  show ?thesis
    by (rule that [OF _ runtime_starts [OF C e, of dw dir "to_hex (pk_bytes pk')" False False]])
      (simp add: validating_runtime_def no_files no_read_faults_def C k e t w1 w2 completed_def Let_def default_registry_get)
qed

text \<open>The service of a polling node with one peer, and its first jobs.\<close>

definition test_service ::
  "platform \<Rightarrow> (bytes \<Rightarrow> input_witness option) \<Rightarrow> json_codec \<Rightarrow> bincode \<Rightarrow> socket_addr \<Rightarrow> socket_addr list \<Rightarrow> service" where
  "test_service pf dw js bc addr peers =
     \<lparr>sv_platform = pf, sv_decode_witness = dw, sv_json = js, sv_bincode = bc, sv_bootstrap_targets = fold push_target peers [],
       sv_local_addrs = {|addr|}, sv_multicast_enabled = False, sv_produce_enabled = False, sv_reliable_node_public_key_hex = {||}\<rparr>"

lemma polling_service_starts:
  assumes "network_at init local_addr addr"
  obtains network where "build_network init [] at_addr peers = Ok network" "local_addr network = Ok addr"
    "\<And>ps. polling_service pf dw js bc network addr ps = Some (test_service pf dw js bc addr ps)"
proof -
  obtain network where n: "init (build_network_config [] at_addr peers []) = Ok network" "is_Ok (nw_binds network)"
    "nw_local_addrs network = Ok [addr]" "local_addr network = Ok addr"
    using assms unfolding network_at_def by blast
  have "polling_service pf dw js bc network addr ps = Some (test_service pf dw js bc addr ps)" for ps
    by (simp add: polling_service_def start_polling_def start_service_def n(3) start_jobs_def schedule_defs pr_then_def pr_err_def
        proactor_new_def test_service_def discovery_targets_for_def multicast_targets_def)
  with n that show ?thesis by (auto simp: build_network_def build_network_with_multicast_def is_Ok_iff)
qed

lemma first_jobs_announce:
  assumes "working cl" and "cl_peer_order cl {||} = []" and "is_Ok (bc_message_to bc PresenceAnnounce)"
  shows "first_jobs (test_service pf dw js bc addr peers) cl (new_node rt fs) =
    Some ((new_node rt fs)\<lparr>nd_sent := map (\<lambda>t. (t, PresenceAnnounce)) (fold push_target peers [])\<rparr>)"
proof -
  let ?sv = "test_service pf dw js bc addr peers"
  obtain f where f: "encode_wire (sv_bincode ?sv) PresenceAnnounce = Ok f"
    using assms(3) by (auto simp: test_service_def is_Ok_iff encode_wire_def)
  have "\<forall>t \<in> set (sv_bootstrap_targets ?sv). cl_link cl t f = None" using assms(1) by (simp add: working_def)
  from bootstrap_sends [OF f this] have "broadcast_presence_announces ?sv cl (new_node rt fs) =
      ((new_node rt fs)\<lparr>nd_sent := map (\<lambda>t. (t, PresenceAnnounce)) (fold push_target peers [])\<rparr>, Ok ())"
    by (simp add: broadcast_presence_announces_def test_service_def new_node_def)
  then show ?thesis
    using assms(2)
    by (simp add: first_jobs_def report_def broadcast_tip_requests_def op_then_def get_sync_def known_peers_def new_node_def sync_state_new_def
        broadcast_best_effort_def op_return_def drain_and_report_def)
qed

text \<open>What the tests rely on: networks at two addresses, clocks and links that work, codecs that write everything.\<close>

definition test_setting ::
  "platform \<Rightarrow> test_codecs \<Rightarrow> bincode \<Rightarrow> (udp_config \<Rightarrow> (string, network) res) \<Rightarrow> (udp_config \<Rightarrow> (string, network) res) \<Rightarrow>
     (network \<Rightarrow> (string, socket_addr) res) \<Rightarrow> call \<Rightarrow> socket_addr \<Rightarrow> socket_addr \<Rightarrow> bool" where
  "test_setting pf te bc init_a init_b local_addr cl addr_a addr_b \<longleftrightarrow>
     pq_lib_correct (pf_dilithium2 pf) \<and> pq_lib_correct (pf_falcon512 pf) \<and>
     json_writes (te_json te) \<and> (\<forall>C. is_Ok (te_chain_to te C)) \<and> is_Ok (te_blocks_to te []) \<and>
     bincode_ok bc \<and> (\<forall>msg. is_Ok (bc_message_to bc msg)) \<and>
     network_at init_a local_addr addr_a \<and> network_at init_b local_addr addr_b \<and> addr_a \<noteq> addr_b \<and>
     working cl \<and> cl_peer_order cl {||} = [] \<and> (\<forall>p. cl_peer_order cl {|p|} = [p]) \<and> (\<exists>t. cl_unix_time cl = Ok t \<and> 0 < t)"

lemma test_services_talk:
  assumes "test_setting pf te bc init_a init_b local_addr cl addr_a addr_b"
  shows "can_talk (test_service pf dw (te_json te) bc addr_a ps) cl addr_a (test_service pf dw (te_json te) bc addr_b qs) cl addr_b"
    and "can_talk (test_service pf dw (te_json te) bc addr_b qs) cl addr_b (test_service pf dw (te_json te) bc addr_a ps) cl addr_a"
  using assms by (auto simp: test_setting_def can_talk_def test_service_def)

lemma two_nodes_meet:
  assumes "test_setting pf te bc init_a init_b local_addr cl addr_a addr_b"
  obtains a b pk sk where
    "two_nodes pf dw te bc init_a init_b local_addr cl dir_a dir_b pe seed_a seed_b =
       Some ((test_service pf dw (te_json te) bc addr_a [addr_b], addr_a, a), (test_service pf dw (te_json te) bc addr_b [addr_a], addr_b, b))"
    "ps_keygen (dilithium2_scheme pf) seed_a = Ok (pk, sk)" "starts_at_genesis pf dw pk (nd_runtime a)" "starts_at_genesis pf dw pk (nd_runtime b)"
    "nr_consensus (nd_runtime a) = \<lparr>ce_registry = default_registry pf, ce_signing_scheme = Dilithium2, ce_signing_key = sk, ce_public_key = pk,
       ce_validators = [pk]\<rparr>" "nr_produce_empty_blocks (nd_runtime a) = pe"
    "ss_known_peers (nd_sync a) = {|addr_b|}" "ss_known_peers (nd_sync b) = {|addr_a|}" "nd_others a = []" "nd_others b = []"
proof -
  note set = assms [unfolded test_setting_def]
  have writes: "\<And>C. is_Ok (te_chain_to te C)" "is_Ok (te_blocks_to te [])" "\<And>msg. is_Ok (bc_message_to bc msg)" using set by blast+
  obtain pk sk where k: "shared_signer pf seed_a = Ok (pk, sk)" "ps_keygen (dilithium2_scheme pf) seed_a = Ok (pk, sk)"
    "pk_scheme pk = Dilithium2" "sk_scheme sk = Dilithium2" using test_signer set by blast
  obtain fa ra where ra: "producing_runtime pf te dir_a (pk, sk) [pk] pe fmempty = Some (fa, ra)" "starts_at_genesis pf dw pk ra"
    "nr_consensus ra = \<lparr>ce_registry = default_registry pf, ce_signing_scheme = Dilithium2, ce_signing_key = sk, ce_public_key = pk, ce_validators = [pk]\<rparr>"
    "nr_produce_empty_blocks ra = pe" by (rule producing_starts [OF k(3,4) writes(1,2)])
  obtain fb rb where rb: "validating_runtime pf te dir_b [pk] seed_b fmempty = Some (fb, rb)" "starts_at_genesis pf dw pk rb"
    using validating_starts [of pf te dir_b pk seed_b dw] writes set by metis
  let ?sa = "test_service pf dw (te_json te) bc addr_a [addr_b]" and ?sb = "test_service pf dw (te_json te) bc addr_b [addr_a]"
  obtain na where na: "build_network init_a [] (localhost 0) [] = Ok na" "local_addr na = Ok addr_a"
    "polling_service pf dw (te_json te) bc na addr_a [addr_b] = Some ?sa" using polling_service_starts set by metis
  obtain nb where nb: "build_network init_b [] (localhost 0) [addr_a] = Ok nb" "local_addr nb = Ok addr_b"
    "polling_service pf dw (te_json te) bc nb addr_b [addr_a] = Some ?sb" using polling_service_starts set by metis
  let ?a = "(new_node ra fa)\<lparr>nd_sent := [(addr_b, PresenceAnnounce)]\<rparr>" and ?b = "(new_node rb fb)\<lparr>nd_sent := [(addr_a, PresenceAnnounce)]\<rparr>"
  have jobs: "first_jobs ?sa cl (new_node ra fa) = Some ?a" "first_jobs ?sb cl (new_node rb fb) = Some ?b"
    using first_jobs_announce [of cl bc] set writes by (simp_all add: push_target_def)
  have out: "outbox addr_b (new_node ra fa) ?a = [PresenceAnnounce]" "outbox addr_a (new_node rb fb) ?b = [PresenceAnnounce]"
    by (simp_all add: outbox_def new_node_def)
  have chains: "cs_chain_id (nr_chain rb) = cs_chain_id (nr_chain ra)" using ra(2) rb(2) by (simp add: starts_at_genesis_def)
  define ia where "ia = local_node_info (cs_chain_id (nr_chain ra)) False (nr_node_public_key_hex ra) (nr_node_is_validator ra) False"
  define ib where "ib = local_node_info (cs_chain_id (nr_chain rb)) False (nr_node_public_key_hex rb) (nr_node_is_validator rb) False"
  note talk = test_services_talk [OF assms, of dw]
  have flags: "sv_multicast_enabled (test_service pf dw js bc addr ps) = False" "sv_produce_enabled (test_service pf dw js bc addr ps) = False"
    "sv_bincode (test_service pf dw js bc addr ps) = bc" for js addr ps by (simp_all add: test_service_def)
  obtain b1 where b1: "receive ?sb cl addr_a [PresenceAnnounce] ?b = (b1, [NodeInfo ib])" "ss_known_peers (nd_sync b1) = {||}"
      "nd_runtime b1 = rb" "nd_others b1 = []" "ss_pending_transaction_announcements (nd_sync b1) = fmempty"
    and a1: "receive ?sa cl addr_b [NodeInfo ib] ?a = (?a\<lparr>nd_sync := admit_peer (cl_now cl) addr_b ib (nd_sync ?a)\<rparr>, [])"
    using announcement_admits [OF talk(2), of ?b ?a ib] writes(3) chains
    by (simp add: new_node_def sync_state_new_def flags ib_def)
  let ?a1 = "?a\<lparr>nd_sync := admit_peer (cl_now cl) addr_b ib (nd_sync ?a)\<rparr>"
  obtain a2 where a2: "receive ?sa cl addr_b [PresenceAnnounce] ?a1 = (a2, [NodeInfo ia])" "ss_known_peers (nd_sync a2) = {|addr_b|}"
      "nd_runtime a2 = ra" "nd_others a2 = []"
    and b2: "receive ?sb cl addr_a [NodeInfo ia] b1 = (b1\<lparr>nd_sync := admit_peer (cl_now cl) addr_a ia (nd_sync b1)\<rparr>, [])"
    using announcement_admits [OF talk(1), of ?a1 b1 ia] writes(3) chains b1
    by (simp add: new_node_def sync_state_new_def flags ia_def admit_peer_def elapsed_def)
  let ?b2 = "b1\<lparr>nd_sync := admit_peer (cl_now cl) addr_a ia (nd_sync b1)\<rparr>"
  have d: "dialogue ?sb cl addr_b ?sa cl addr_a 1 [PresenceAnnounce] (?b, ?a) = (b1, ?a1)"
    "dialogue ?sa cl addr_a ?sb cl addr_b 1 [PresenceAnnounce] (?a1, b1) = (a2, ?b2)"
    using b1(1) a1 a2(1) b2 by simp_all
  have known: "ss_known_peers (nd_sync ?b2) = {|addr_a|}" using b1(2) by (simp add: admit_peer_def)
  have meet: "addr_b \<in> set (known_peers ?sa cl (nd_sync a2))" "addr_a \<in> set (known_peers ?sb cl (nd_sync ?b2))"
    using set a2(2) known by (auto simp: known_peers_def test_service_def)
  have "two_nodes pf dw te bc init_a init_b local_addr cl dir_a dir_b pe seed_a seed_b = Some ((?sa, addr_a, a2), (?sb, addr_b, ?b2))"
    unfolding two_nodes_def
    by (simp only: k(1) ra(1) rb(1) na nb jobs passed_simps Option.bind.bind_lunit fst_conv prod.case Let_def out d meet simp_thms if_True)
  with k(2) ra(2-4) rb(2) a2(2-4) b1(3,4) known show ?thesis by (intro that [of a2 ?b2 pk sk]) simp_all
qed

text \<open>The first node produces; a runtime without transactions does so only if it may produce empty blocks.\<close>

lemma test_turn:
  assumes "genesis_chain_state pf = Some C" and "ce_validators e = [pk]" and "ce_public_key e = pk"
  shows "can_propose_next_block pf e C = Ok True" and "cs_height C = 0" and "cs_last_timestamp C = 0"
proof -
  obtain g root where g: "genesis_chain_state pf = Some g" "g = default_chain_state\<lparr>cs_state_root := root\<rparr>" by (rule genesis)
  then have C: "cs_height C = 0" "cs_last_timestamp C = 0" using assms(1) by (simp_all add: default_chain_state_def)
  then show "cs_height C = 0" "cs_last_timestamp C = 0" by blast+
  show "can_propose_next_block pf e C = Ok True"
    using assms(2,3) C by (simp add: can_propose_next_block_def add_chk_def expected_proposer_def expected_proposer_for_validators_def
        sub_chk_def list_get_def)
qed

lemma test_produces:
  assumes "test_setting pf te bc init_a init_b local_addr cl addr_a addr_b" and "runtime_ok pf dw 0 [pk] (nd_runtime a)"
    and "genesis_chain_state pf = Some (nr_chain (nd_runtime a))" and "ps_keygen (dilithium2_scheme pf) seed = Ok (pk, sk)"
    and "nr_consensus (nd_runtime a) = \<lparr>ce_registry = default_registry pf, ce_signing_scheme = Dilithium2, ce_signing_key = sk,
      ce_public_key = pk, ce_validators = [pk]\<rparr>"
    and "nr_pending (nd_runtime a) \<noteq> [] \<or> nr_produce_empty_blocks (nd_runtime a)"
    and "savable (nr_state_path (nd_runtime a))" and "savable (nr_blocks_path (nd_runtime a))"
    and "ss_known_peers (nd_sync a) = {|addr_b|}" and "nd_others a = []" and "nr_blocks (nd_runtime a) = []"
  obtains a' blk where "produce_now (test_service pf dw (te_json te) bc addr_a ps) cl a = (a', Ok (Some 1))"
    "nd_sent a' = nd_sent a @ [(addr_b, SubmitBlock blk)]" "nr_pending (nd_runtime a') = []"
    "cs_height (nr_chain (nd_runtime a')) = 1"
proof -
  note set = assms(1) [unfolded test_setting_def]
  obtain t where t: "cl_unix_time cl = Ok t" "0 < t" using set by blast
  have turn: "can_propose_next_block pf (nr_consensus (nd_runtime a)) (nr_chain (nd_runtime a)) = Ok True"
    "cs_height (nr_chain (nd_runtime a)) = 0" "cs_last_timestamp (nr_chain (nd_runtime a)) = 0"
    using test_turn [OF assms(3), of "nr_consensus (nd_runtime a)" pk] by (simp_all add: assms(5))
  have "\<exists>rt' fs' b. produce_one_block pf dw (te_json te) io_ok io_ok None (Ok t) (cl_rnd cl) (nd_runtime a, nd_files a)
      = ((rt', fs'), Ok (Some (cs_height (nr_chain (nd_runtime a)) + 1, b))) \<and>
    b_transactions b = nr_pending (nd_runtime a) \<and> bh_timestamp (b_header b) = t \<and> nr_pending rt' = [] \<and> nr_blocks rt' = nr_blocks (nd_runtime a) @ [b]"
    by (rule production_succeeds [OF assms(2) turn(1) assms(6), where sch = "dilithium2_scheme pf" and seed = seed])
      (use set t turn assms(4,5,7,8) in \<open>simp_all add: default_registry_get\<close>)
  then obtain rt fs b where p: "produce_one_block pf dw (te_json te) io_ok io_ok None (Ok t) (cl_rnd cl) (nd_runtime a, nd_files a)
      = ((rt, fs), Ok (Some (1, b)))" "nr_pending rt = []" "nr_blocks rt = [b]" by (auto simp: turn(2) assms(11))
  have "runtime_ok pf dw 0 [pk] rt" by (rule runtime_ok_produce [OF assms(2) p(1)]) simp
  then have height: "cs_height (nr_chain rt) = 1" using rebuild_facts p(3) by (fastforce simp: runtime_ok_def chain_tops_def)
  let ?sv = "test_service pf dw (te_json te) bc addr_a ps" and ?u = "a\<lparr>nd_runtime := rt, nd_files := fs\<rparr>"
  have "is_Ok (bc_message_to bc (SubmitBlock b))" using set by blast
  then obtain f where f: "encode_wire bc (SubmitBlock b) = Ok f" by (auto simp: is_Ok_iff encode_wire_eq_Ok)
  have u: "node_produce_one_block ?sv cl a = (?u, Ok (Some (1, b)))"
    using p(1) set t(1) assms(10) by (simp add: node_produce_one_block_def test_service_def working_def)
  have "addr_b \<noteq> addr_a" using set by blast
  then have "known_peers ?sv cl (nd_sync ?u) = [addr_b]" using set assms(9) by (simp add: known_peers_def test_service_def)
  moreover have "cl_link cl addr_b f = None" using set by (simp add: working_def)
  moreover have "sv_bincode ?sv = bc" by (simp add: test_service_def)
  ultimately have "broadcast_block ?sv cl b ?u = (?u\<lparr>nd_sent := nd_sent a @ [(addr_b, SubmitBlock b)]\<rparr>, Ok ())"
    by (simp add: broadcast_block_def op_then_def get_sync_def f send_block_def op_return_def)
  with u p(2) height show ?thesis
    by (intro that [of "?u\<lparr>nd_sent := nd_sent a @ [(addr_b, SubmitBlock b)]\<rparr>" b]) (simp_all add: produce_now_def op_then_def op_return_def)
qed

lemma test_produced_reaches:
  assumes "test_setting pf te bc init_a init_b local_addr cl addr_a addr_b" and "runtime_ok pf dw 0 [pk] (nd_runtime a)"
    and "genesis_chain_state pf = Some (nr_chain (nd_runtime a))" and "ps_keygen (dilithium2_scheme pf) seed = Ok (pk, sk)"
    and "nr_consensus (nd_runtime a) = \<lparr>ce_registry = default_registry pf, ce_signing_scheme = Dilithium2, ce_signing_key = sk,
      ce_public_key = pk, ce_validators = [pk]\<rparr>"
    and "nr_pending (nd_runtime a) \<noteq> [] \<or> nr_produce_empty_blocks (nd_runtime a)"
    and "savable (nr_state_path (nd_runtime a))" and "savable (nr_blocks_path (nd_runtime a))"
    and "ss_known_peers (nd_sync a) = {|addr_b|}" and "nd_others a = []" and "nr_blocks (nd_runtime a) = []"
    and "runtime_ok pf dw 0 [pk] (nd_runtime b)" and "savable (nr_state_path (nd_runtime b))"
    and "savable (nr_blocks_path (nd_runtime b))" and "nr_blocks (nd_runtime b) = []"
    and "nr_pending (nd_runtime b) = nr_pending (nd_runtime a)" and "ss_known_peers (nd_sync b) = {|addr_a|}" and "nd_others b = []"
  obtains a' b' out where "produce_now (test_service pf dw (te_json te) bc addr_a ps) cl a = (a', Ok (Some 1))"
    "nr_pending (nd_runtime a') = []" "receive (test_service pf dw (te_json te) bc addr_b qs) cl addr_a (outbox addr_b a a') b = (b', out)"
    "cs_height (nr_chain (nd_runtime b')) = 1" "nr_pending (nd_runtime b') = []"
proof -
  let ?sa = "test_service pf dw (te_json te) bc addr_a ps" and ?sb = "test_service pf dw (te_json te) bc addr_b qs"
  note set = assms(1) [unfolded test_setting_def]
  obtain a' blk where p: "produce_now ?sa cl a = (a', Ok (Some 1))" "nd_sent a' = nd_sent a @ [(addr_b, SubmitBlock blk)]"
    "nr_pending (nd_runtime a') = []" "cs_height (nr_chain (nd_runtime a')) = 1" by (rule test_produces [OF assms(1-11)])
  have sel: "sv_platform ?sa = pf" "sv_decode_witness ?sa = dw" by (simp_all add: test_service_def)
  note talk = test_services_talk(1) [OF assms(1), of dw ps qs]
  have oks: "runtime_ok (sv_platform ?sa) (sv_decode_witness ?sa) 0 [pk] (nd_runtime a)" "runtime_ok (sv_platform ?sa) (sv_decode_witness ?sa) 0 [pk] (nd_runtime b)"
    using assms(2,12) by (simp_all only: sel)
  have same: "addr_a |\<in>| ss_known_peers (nd_sync b)" "addr_b \<in> set (cl_peer_order cl (ss_known_peers (nd_sync a)))" "history b = history a"
    using set by (simp_all add: assms(9,11,15-17) history_def)
  obtain blk' where r: "history a' = history a @ [blk']" "(addr_b, SubmitBlock blk') \<in> set (drop (length (nd_sent a)) (nd_sent a'))"
    "\<And>b' r. deliver ?sb cl addr_a (SubmitBlock blk') b = (b', r) \<Longrightarrow>
       history b' = history a' \<and> nr_chain (nd_runtime b') = nr_chain (nd_runtime a') \<and>
       (ids_of (sv_platform ?sa) (nr_pending (nd_runtime b)) \<subseteq> ids_of (sv_platform ?sa) (nr_pending (nd_runtime a)) \<longrightarrow>
         nr_pending (nd_runtime b') = [])"
    by (rule produced_block_reaches [OF oks _ talk same assms(13,14) p(1) assms(10,18)]) (simp, rule that)
  obtain b' out where b': "receive ?sb cl addr_a [SubmitBlock blk] b = (b', out)" by fastforce
  then have "b' = fst (deliver ?sb cl addr_a (SubmitBlock blk) b)" by (simp add: receive_def Let_def)
  then obtain rr where "deliver ?sb cl addr_a (SubmitBlock blk) b = (b', rr)" by (cases "deliver ?sb cl addr_a (SubmitBlock blk) b") simp
  then have "history b' = history a' \<and> nr_chain (nd_runtime b') = nr_chain (nd_runtime a') \<and> nr_pending (nd_runtime b') = []"
    using r(2) r(3) [of b' rr] p(2) by (simp add: assms(16))
  moreover have "outbox addr_b a a' = [SubmitBlock blk]" using p(2) by (simp add: outbox_def)
  ultimately show ?thesis using p(1,3,4) b' by (intro that [of a' b' out]) simp_all
qed

lemma test_no_empty_blocks:
  assumes "test_setting pf te bc init_a init_b local_addr cl addr_a addr_b"
  shows "qcoin_node_service_does_not_produce_empty_blocks_by_default pf dw te bc init_a local_addr cl dir seed = Some True"
proof -
  note set = assms [unfolded test_setting_def]
  have writes: "\<And>C. is_Ok (te_chain_to te C)" "is_Ok (te_blocks_to te [])" using set by blast+
  have lib: "pq_lib_correct (pf_dilithium2 pf)" using set by blast
  obtain pk sk where k: "shared_signer pf seed = Ok (pk, sk)" "pk_scheme pk = Dilithium2" "sk_scheme sk = Dilithium2"
    by (rule test_signer [OF lib])
  obtain fs rt where rt: "producing_runtime pf te dir (pk, sk) [pk] False fmempty = Some (fs, rt)" "starts_at_genesis pf dw pk rt"
    "nr_consensus rt = \<lparr>ce_registry = default_registry pf, ce_signing_scheme = Dilithium2, ce_signing_key = sk, ce_public_key = pk, ce_validators = [pk]\<rparr>"
    "nr_produce_empty_blocks rt = False" by (rule producing_starts [OF k(2,3) writes])
  let ?sv = "test_service pf dw (te_json te) bc addr_a []"
  obtain network where n: "build_network init_a [] (localhost 0) [] = Ok network" "local_addr network = Ok addr_a"
    "polling_service pf dw (te_json te) bc network addr_a [] = Some ?sv" using polling_service_starts set by metis
  have jobs: "first_jobs ?sv cl (new_node rt fs) = Some (new_node rt fs)"
    using first_jobs_announce [of cl bc pf dw "te_json te" addr_a "[]" rt fs] set by (simp add: new_node_def)
  have g: "genesis_chain_state pf = Some (nr_chain rt)" "nr_pending rt = []" using rt(2) by (simp_all add: starts_at_genesis_def)
  have "can_propose_next_block pf (nr_consensus rt) (nr_chain rt) = Ok True" "cs_height (nr_chain rt) = 0"
    using test_turn [OF g(1), of "nr_consensus rt" pk] by (simp_all add: rt(3))
  then have "produce_now ?sv cl (new_node rt fs) = (new_node rt fs, Ok None)"
    using set g(2) rt(4)
    by (simp add: produce_now_def op_then_def node_produce_one_block_def produce_one_block_def new_node_def test_service_def working_def
        op_return_def)
  with \<open>cs_height (nr_chain rt) = 0\<close> show ?thesis
    by (simp add: qcoin_node_service_does_not_produce_empty_blocks_by_default_def k(1) rt(1) n jobs) (simp add: new_node_def)
qed

lemma test_broadcasts_blocks:
  assumes "test_setting pf te bc init_a init_b local_addr cl addr_a addr_b"
  shows "qcoin_node_service_broadcasts_blocks_over_loadngo_network pf dw te bc init_a init_b local_addr cl dir_a dir_b seed_a seed_b = Some True"
proof -
  obtain a b pk sk where n:
    "two_nodes pf dw te bc init_a init_b local_addr cl dir_a dir_b True seed_a seed_b =
       Some ((test_service pf dw (te_json te) bc addr_a [addr_b], addr_a, a), (test_service pf dw (te_json te) bc addr_b [addr_a], addr_b, b))"
    "ps_keygen (dilithium2_scheme pf) seed_a = Ok (pk, sk)" "starts_at_genesis pf dw pk (nd_runtime a)" "starts_at_genesis pf dw pk (nd_runtime b)"
    "nr_consensus (nd_runtime a) = \<lparr>ce_registry = default_registry pf, ce_signing_scheme = Dilithium2, ce_signing_key = sk, ce_public_key = pk,
       ce_validators = [pk]\<rparr>" "nr_produce_empty_blocks (nd_runtime a) = True"
    "ss_known_peers (nd_sync a) = {|addr_b|}" "ss_known_peers (nd_sync b) = {|addr_a|}" "nd_others a = []" "nd_others b = []"
    by (rule two_nodes_meet [OF assms])
  note g = n(3,4) [unfolded starts_at_genesis_def]
  obtain a' b' out where "produce_now (test_service pf dw (te_json te) bc addr_a [addr_b]) cl a = (a', Ok (Some 1))"
    "receive (test_service pf dw (te_json te) bc addr_b [addr_a]) cl addr_a (outbox addr_b a a') b = (b', out)"
    "cs_height (nr_chain (nd_runtime b')) = 1"
    by (rule test_produced_reaches [OF assms _ _ n(2,5), where dw = dw and b = b]) (use g n in simp_all)
  then show ?thesis by (simp add: qcoin_node_service_broadcasts_blocks_over_loadngo_network_def n(1))
qed

text \<open>The transaction of the last test.\<close>

lemma test_accepts:
  assumes "starts_at_genesis pf dw pk rt"
  obtains i where "tx_id pf test_transaction = Some i"
    "accept_transaction pf dw test_transaction rt = (rt\<lparr>nr_pending := [test_transaction]\<rparr>, Ok (AcceptedNew i))"
    "runtime_ok pf dw 0 [pk] (rt\<lparr>nr_pending := [test_transaction]\<rparr>)"
proof -
  note g = assms [unfolded starts_at_genesis_def]
  obtain i where i: "tx_id pf test_transaction = Some i"
    using tx_id_eq_None [of pf test_transaction] by (auto simp: test_transaction_def core_fits_def)
  obtain C root where "genesis_chain_state pf = Some C" "C = default_chain_state\<lparr>cs_state_root := root\<rparr>" by (rule genesis)
  then have ledger: "cs_ledger (nr_chain rt) = default_ledger_state" using g by (simp add: default_chain_state_def)
  have "test_transaction = empty_transfer" by (simp add: test_transaction_def empty_transfer_def)
  then have batch: "apply_transactions pf dw eng [test_transaction] h ch default_ledger_state = (default_ledger_state, Ok ())" for eng h ch
    by (simp only: empty_transfers_apply list.set subset_refl)
  have "apply_transaction pf dw eng default_ledger_state test_transaction h ch = (default_ledger_state, Ok ())" for eng h ch
    using batch [of eng h ch] by (auto split: prod.splits res.splits)
  then have "admit_transaction pf dw test_transaction rt = Ok (AcceptedNew i)"
    using g i by (simp add: admit_transaction_new ledger transaction_is_committed_def)
  then have a: "accept_transaction pf dw test_transaction rt = (rt\<lparr>nr_pending := [test_transaction]\<rparr>, Ok (AcceptedNew i))"
    using g by (simp add: accept_transaction_def)
  from runtime_ok_accept [OF _ a] g that [OF i a] show ?thesis by simp
qed

lemma test_fetches_transaction:
  assumes "test_setting pf te bc init_a init_b local_addr cl addr_a addr_b" and "addr_b \<noteq> localhost 9999"
  shows "qcoin_node_service_multicasts_transaction_announce_and_fetches_unicast pf dw te bc init_a init_b local_addr cl dir_a dir_b seed_a seed_b = Some True"
proof -
  note set = assms(1) [unfolded test_setting_def]
  let ?sa = "test_service pf dw (te_json te) bc addr_a [addr_b]" and ?sb = "test_service pf dw (te_json te) bc addr_b [addr_a]"
  obtain a b pk sk where n:
    "two_nodes pf dw te bc init_a init_b local_addr cl dir_a dir_b False seed_a seed_b = Some ((?sa, addr_a, a), (?sb, addr_b, b))"
    "ps_keygen (dilithium2_scheme pf) seed_a = Ok (pk, sk)" "starts_at_genesis pf dw pk (nd_runtime a)" "starts_at_genesis pf dw pk (nd_runtime b)"
    "nr_consensus (nd_runtime a) = \<lparr>ce_registry = default_registry pf, ce_signing_scheme = Dilithium2, ce_signing_key = sk, ce_public_key = pk,
       ce_validators = [pk]\<rparr>" "nr_produce_empty_blocks (nd_runtime a) = False"
    "ss_known_peers (nd_sync a) = {|addr_b|}" "ss_known_peers (nd_sync b) = {|addr_a|}" "nd_others a = []" "nd_others b = []"
    by (rule two_nodes_meet [OF assms(1)])
  note g = n(3,4) [unfolded starts_at_genesis_def]
  obtain i where i: "tx_id pf test_transaction = Some i"
    "accept_transaction pf dw test_transaction (nd_runtime a) = ((nd_runtime a)\<lparr>nr_pending := [test_transaction]\<rparr>, Ok (AcceptedNew i))"
    "runtime_ok pf dw 0 [pk] ((nd_runtime a)\<lparr>nr_pending := [test_transaction]\<rparr>)" by (rule test_accepts [OF n(3)])
  have j: "accept_transaction pf dw test_transaction (nd_runtime b) = ((nd_runtime b)\<lparr>nr_pending := [test_transaction]\<rparr>, Ok (AcceptedNew i))"
    "runtime_ok pf dw 0 [pk] ((nd_runtime b)\<lparr>nr_pending := [test_transaction]\<rparr>)" using test_accepts [OF n(4)] i(1) by (metis option.inject)+
  have sel: "sv_platform ?sa = pf" "sv_decode_witness ?sa = dw" "sv_bincode ?sa = bc" "sv_bootstrap_targets ?sa = [addr_b]" "sv_local_addrs ?sa = {|addr_a|}"
    "sv_platform ?sb = pf" "sv_decode_witness ?sb = dw" "sv_bincode ?sb = bc" "sv_bootstrap_targets ?sb = [addr_a]" "sv_local_addrs ?sb = {|addr_b|}"
    by (simp_all add: test_service_def push_target_def)
  have w: "cl_poisoned cl = None" "working cl" and bc: "bincode_ok bc" and writes: "\<And>msg. is_Ok (bc_message_to bc msg)"
    using set by (auto simp: working_def)
  have send: "send_wire sv cl target msg s = (s\<lparr>nd_sent := nd_sent s @ [(target, msg)]\<rparr>, Ok ())" if "sv_bincode sv = bc" for sv target msg s
    by (rule sends) (simp_all add: that writes w(2))
  have announce: "broadcast_transaction_announce sv cl h s = (s\<lparr>nd_sent := nd_sent s @ [(t, TransactionAnnounce h)]\<rparr>, Ok ())"
    if "sv_bincode sv = bc" "sv_bootstrap_targets sv = [t]" for sv h s t
    by (simp add: broadcast_transaction_announce_def that(2) op_then_def bootstrap_send_def op_try_def send [OF that(1)] op_return_def)
  let ?ra = "(nd_runtime a)\<lparr>nr_pending := [test_transaction]\<rparr>" and ?rb = "(nd_runtime b)\<lparr>nr_pending := [test_transaction]\<rparr>"
  define resp where "resp = \<lparr>st_accepted = True, st_tx_id_hex = to_hex (hash_slice i), st_message = ''transaction accepted into mempool''\<rparr>"
  let ?a1 = "a\<lparr>nd_runtime := ?ra, nd_sent := nd_sent a @ [(localhost 9999, SubmitTransactionResponse resp), (addr_b, TransactionAnnounce i)]\<rparr>"
  have submitted: "handle_submitted_transaction ?sa cl (localhost 9999) test_transaction a = (?a1, Ok ())"
    by (simp add: handle_submitted_transaction_def op_then_def sel i op_try_def node_accept_transaction_def with_runtime_mut_def Let_def w
        lock_runtime_idle [OF n(9)] send [OF sel(3)] announce [OF sel(3,4)] resp_def op_return_def)
  have out: "outbox addr_b a ?a1 = [TransactionAnnounce i]" using assms(2) by (simp add: outbox_def)
  have handles: "deliver sv cl source msg s = handle_message sv cl source msg s" if "sv_bincode sv = bc" "source |\<notin>| sv_local_addrs sv" for sv source msg s
    by (rule deliver_handles) (simp_all add: that bc writes)
  have ne: "addr_b \<noteq> addr_a" using set by blast
  let ?b1 = "b\<lparr>nd_sent := nd_sent b @ [(addr_a, TransactionRequest i)]\<rparr>"
  have r1: "receive ?sb cl addr_a [TransactionAnnounce i] b = (?b1, [TransactionRequest i])"
    using g n(8,10) ne
    by (intro receive_one [where r = "Ok ()"])
      (simp_all add: handles sel handle_transaction_announce_def op_then_def has_transaction_def with_runtime_ok w transaction_is_committed_def
        get_sync_def send)
  let ?a2 = "?a1\<lparr>nd_sent := nd_sent ?a1 @ [(addr_b, TransactionResponse i (Some test_transaction))]\<rparr>"
  have r2: "receive ?sa cl addr_b [TransactionRequest i] ?a1 = (?a2, [TransactionResponse i (Some test_transaction)])"
    using n(7,9) ne i(1)
    by (intro receive_one [where r = "Ok ()"])
      (simp_all add: handles sel handle_transaction_request_def known_if_compatible op_then_def transaction_by_id_def with_runtime_ok w send)
  let ?b2 = "?b1\<lparr>nd_runtime := ?rb, nd_sent := nd_sent ?b1 @ [(addr_a, TransactionAnnounce i)]\<rparr>"
  have r3: "receive ?sb cl addr_a [TransactionResponse i (Some test_transaction)] ?b1 = (?b2, [TransactionAnnounce i])"
    using n(8,10) ne i(1) j(1)
    by (intro receive_one [where r = "Ok ()"])
      (simp_all add: handles sel handle_transaction_response_def known_if_compatible op_then_def node_accept_transaction_def
        with_runtime_mut_def w announce)
  have r4: "receive ?sa cl addr_b [TransactionAnnounce i] ?a2 = (?a2, [])"
    using n(7,9) ne i(1)
    by (intro receive_one [where r = "Ok ()"])
      (simp_all add: handles sel handle_transaction_announce_def op_then_def has_transaction_def with_runtime_ok w op_return_def)
  have d: "dialogue ?sb cl addr_b ?sa cl addr_a 2 [TransactionAnnounce i] (b, ?a1) = (?b2, ?a2)"
    by (simp only: numeral_2_eq_2 dialogue.simps r1 r2 r3 r4 prod.case)
  obtain a' b' out where p: "produce_now ?sa cl ?a2 = (a', Ok (Some 1))" "nr_pending (nd_runtime a') = []"
    "receive ?sb cl addr_a (outbox addr_b ?a2 a') ?b2 = (b', out)" "cs_height (nr_chain (nd_runtime b')) = 1" "nr_pending (nd_runtime b') = []"
    by (rule test_produced_reaches [OF assms(1) _ _ n(2), where a = ?a2 and b = ?b2 and dw = dw]) (use g n i(3) j(2) in simp_all)
  then show ?thesis
    by (simp add: qcoin_node_service_multicasts_transaction_announce_and_fetches_unicast_def n(1) submitted out d list_get_def i(1))
qed

section \<open>A codec for every message\<close>

text \<open>There are countably many messages, so there is a codec that writes each of them.\<close>

instance word :: (len) countable
  by (rule countable_classI [of unat]) (simp add: word_unat_eq_iff)

instance hash256 :: countable
  by (rule countable_classI [of "\<lambda>h. to_nat (hash_slice h)"]) (simp add: hash_slice_inject)

instance signature_scheme_id :: countable
  by countable_datatype

instance public_key_ext :: (countable) countable
  by (rule countable_classI [of "\<lambda>r. to_nat (pk_scheme r, pk_bytes r, public_key.more r)"]) simp

instance signature_ext :: (countable) countable
  by (rule countable_classI [of "\<lambda>r. to_nat (sig_scheme r, sig_bytes r, signature.more r)"]) simp

instance block_header_ext :: (countable) countable
  by (rule countable_classI [of "\<lambda>r. to_nat (bh_parent_hash r, bh_state_root r, bh_tx_root r, bh_height r, bh_timestamp r, block_header.more r)"]) simp

instance asset_kind :: countable
  by countable_datatype

instance asset_id :: countable
  by countable_datatype

instance asset_definition_ext :: (countable) countable
  by (rule countable_classI [of "\<lambda>r. to_nat (ad_issuer_script_hash r, ad_metadata_root r, ad_max_supply r, ad_decimals r, ad_kind r, asset_definition.more r)"]) simp

instance asset_amount_ext :: (countable) countable
  by (rule countable_classI [of "\<lambda>r. to_nat (aa_asset_id r, aa_amount r, asset_amount.more r)"]) simp

instance tx_output_ext :: (countable) countable
  by (rule countable_classI [of "\<lambda>r. to_nat (out_owner_script_hash r, out_assets r, out_metadata_hash r, tx_output.more r)"]) simp

instance transaction_input_ext :: (countable) countable
  by (rule countable_classI [of "\<lambda>r. to_nat (ti_tx_id r, ti_index r, transaction_input.more r)"]) simp

instance transaction_kind :: countable
  by countable_datatype

instance transaction_core_ext :: (countable) countable
  by (rule countable_classI [of "\<lambda>r. to_nat (tc_kind r, tc_inputs r, tc_outputs r, transaction_core.more r)"]) simp

instance transaction_witness_ext :: (countable) countable
  by (rule countable_classI [of "\<lambda>r. to_nat (tw_inputs r, transaction_witness.more r)"]) simp

instance transaction_ext :: (countable) countable
  by (rule countable_classI [of "\<lambda>r. to_nat (tx_core r, tx_witness r, transaction.more r)"]) simp

instance block_ext :: (countable) countable
  by (rule countable_classI [of "\<lambda>r. to_nat (b_header r, b_transactions r, b_proposer_public_key r, b_signature r, block.more r)"]) simp

instance tip_response_ext :: (countable) countable
  by (rule countable_classI [of "\<lambda>r. to_nat (tp_height r, tp_tip_hash_hex r, tp_state_root_hex r, tp_last_timestamp r, tip_response.more r)"]) simp

instance submit_block_response_ext :: (countable) countable
  by (rule countable_classI [of "\<lambda>r. to_nat (sb_accepted r, sb_height r, sb_message r, submit_block_response.more r)"]) simp

instance submit_transaction_response_ext :: (countable) countable
  by (rule countable_classI [of "\<lambda>r. to_nat (st_accepted r, st_tx_id_hex r, st_message r, submit_transaction_response.more r)"]) simp

instance node_info_ext :: (countable) countable
  by (rule countable_classI [of "\<lambda>r. to_nat (ni_wire_version r, ni_min_compatible_wire_version r, ni_software_version r, ni_chain_id r, ni_node_public_key_hex r, ni_capabilities r, node_info.more r)"]) simp

instance wire_message :: countable
  by countable_datatype

definition total_bincode :: bincode where
  "total_bincode = \<lparr>bc_message_to = (\<lambda>msg. Ok (replicate (to_nat msg) 0)),
     bc_message_from = (\<lambda>p. Ok (from_nat (length p))), bc_block_to = (\<lambda>b. Err ''no''), bc_block_from = (\<lambda>p. Err ''no'')\<rparr>"

lemma total_bincode_ok: "bincode_ok total_bincode" "is_Ok (bc_message_to total_bincode msg)"
  by (simp_all add: bincode_ok_def total_bincode_def is_Ok_iff)

text \<open>So there is a setting in which every test passes.\<close>

definition test_call :: call where
  "test_call = sample_call\<lparr>cl_peer_order := (\<lambda>S. if S = {||} then [] else [the_elem (fset S)])\<rparr>"

definition test_network :: "socket_addr \<Rightarrow> network" where
  "test_network addr = \<lparr>nw_binds = Ok [addr], nw_local_addrs = Ok [addr], nw_socket_fds = Ok []\<rparr>"

lemma node_tests_pass:
  "test_setting (sample_platform oc) \<lparr>te_json = sample_write_js, te_chain_to = (\<lambda>C. Ok []), te_blocks_to = (\<lambda>bs. Ok [])\<rparr> total_bincode
     (\<lambda>config. Ok (test_network (localhost 1))) (\<lambda>config. Ok (test_network (localhost 2))) (\<lambda>network. map_ok hd (nw_local_addrs network))
     test_call (localhost 1) (localhost 2)"
  using sample_lib_correct
  by (simp add: test_setting_def sample_write_json total_bincode_ok is_Ok_iff network_at_def test_network_def localhost_def test_call_def)
    (simp add: working_def sample_call_def total_bincode_def)

end
