(* ===== verification/Spec2Isabelle.thy ===== *)
theory Spec2Isabelle
  imports QC_Cluster QC_Sync QC_Cli QC_LedgerTests QC_ScriptTests QC_NodeTests
begin

text \<open>
  A verification development of qcoin, a post-quantum UTXO ledger with scripts and a round-robin block
  producer. Its sources are the crates below \<open>src/\<close>: \<open>qcoin-crypto\<close>, \<open>qcoin-types\<close>, \<open>qcoin-script\<close>,
  \<open>qcoin-ledger\<close>, \<open>qcoin-consensus\<close> and the program \<open>qcoin-node\<close> (\<open>main.rs\<close>, \<open>wire.rs\<close>, \<open>node.rs\<close>).

  The parts and how they interact. A transaction has a core (kind, inputs, outputs) and a witness; the hash
  of the encoded core is its id. The ledger applies a transaction by decoding the witness of each input,
  checking that the script hashes to the owner of the spent output, running the script, which verifies
  signatures through the registry of schemes, and comparing the totals of the assets. The consensus
  engine applies blocks of transactions to a chain state and compares the roots in the header. The runtime
  of a node holds chain, block history and mempool; it takes transactions and blocks, produces blocks, and
  writes both files before it changes its memory. The network core exchanges messages with peers and
  drives the runtime; the HTTP interface does so too; start-up builds all of this from files and arguments.

  Theories and what they model, in the order of their imports.
  \<^item> \<open>QC_Prelude\<close>: results (\<open>Ok\<close>, \<open>Err\<close>, \<open>Panic\<close>), loops with early return, checked and saturating
    arithmetic, finite maps, sums. \<open>Panic\<close> is a branch of every result, so every \<open>expect\<close> and every overflow in a
    build with overflow checks is visible.
  \<^item> \<open>QC_Bytes\<close>: byte strings, little-endian encodings, 32-byte hashes. \<open>QC_Text\<close>: the text helpers of
    \<open>main.rs\<close> (hexadecimal, trimming, lists of keys). \<open>QC_Addr\<close>: socket addresses and their text.
  \<^item> \<open>QC_Crypto\<close> (\<open>qcoin-crypto/src/lib.rs\<close>): keys and signatures, their byte form and serde
    implementations, the two schemes, the registry. The contract of a scheme is a locale with both schemes as
    interpretations.
  \<^item> \<open>QC_Types\<close> (\<open>qcoin-types/src/lib.rs\<close>): transactions, blocks, consensus encoders, ids, signature hash.
  \<^item> \<open>QC_Script\<close> (\<open>qcoin-script/src/lib.rs\<close>): opcodes, gas meter, bounded stack, \<open>eval\<close>.
  \<^item> \<open>QC_Ledger\<close> (\<open>qcoin-ledger/src/lib.rs\<close>): UTXO set, asset registry, \<open>apply_transaction\<close>, state root,
    \<open>ChainState::apply_block\<close>.
  \<^item> \<open>QC_Consensus\<close> (\<open>qcoin-consensus/src/lib.rs\<close>): \<open>propose_block\<close>, \<open>validate_block\<close>, proposers.
  \<^item> \<open>QC_Storage\<close>, \<open>QC_Runtime\<close>, \<open>QC_Recovery\<close>, \<open>QC_Mempool\<close> (\<open>qcoin-node/src/main.rs\<close>): the two files and
    their atomic replacement over a file system with failing calls, repair at start, \<open>apply_block\<close>,
    \<open>accept_transaction\<close>, \<open>reconcile_pending_transactions\<close>, \<open>produce_one_block\<close>; the runtime as a machine
    (\<open>runtime_step\<close>, \<open>runtime_reachable\<close>).
  \<^item> \<open>QC_Wire\<close> (\<open>qcoin-node/src/wire.rs\<close>): messages, frames, compatibility.
  \<^item> \<open>QC_Startup\<close> (\<open>main.rs\<close>): keypair file, configuration, interface and multicast selection, \<open>run_node\<close> up to
    the runtime. \<open>QC_Http\<close> (\<open>main.rs\<close>): \<open>handle_request\<close> and the HTTP synchronisation.
  \<^item> \<open>QC_Node\<close> (\<open>qcoin-node/src/node.rs\<close>): \<open>SyncState\<close>, every message handler, broadcasting and the timed
    jobs, as operations on \<open>node_state\<close>; each query or change of the runtime locks it anew, and before the lock
    is granted the HTTP thread may have served requests (\<open>lock_runtime\<close>, \<open>nd_others\<close>). \<open>QC_NodeFacts\<close>: the
    locales \<open>state_preorder\<close>, \<open>lock_preorder\<close>, \<open>http_preorder\<close> and \<open>network_moves\<close>, for relations between states
    that composed operations keep, also beside the HTTP thread, and their interpretations. \<open>QC_Network\<close>: the node as a machine (\<open>node_step\<close>,
    \<open>node_reachable\<close>). \<open>QC_Service\<close>: peer resolution, discovery targets, the UDP configuration, the parts
    of \<open>run_node\<close> around it, the client \<open>submit-tx\<close>.
  \<^item> \<open>QC_History\<close>: the block history of a node over time. \<open>QC_Cluster\<close>: nodes of one chain as one machine
    (\<open>cluster_step\<close>), with crashes and restarts, arbitrary messages and unforgeable signatures: it records what
    each node has published, and a block with the key of another node has a header that this node has
    published.
  \<^item> \<open>QC_Schedule\<close> (\<open>node.rs\<close>, \<open>main.rs\<close>): the timers and socket registrations in the proactor, the callbacks with
    their rescheduling, start and end of the network core, and the whole running program over time
    (\<open>core_step\<close>), which refines the node machine. \<open>QC_Sync\<close>: two nodes that exchange datagrams (\<open>receive\<close>,
    \<open>dialogue\<close>): handshake, block synchronisation, a new block. \<open>QC_Cli\<close> (\<open>main.rs\<close>): the three commands, \<open>run_node\<close> as a
    whole, \<open>keygen\<close>, \<open>main\<close>.
  \<^item> \<open>QC_BaseTests\<close>, \<open>QC_ScriptTests\<close>, \<open>QC_LedgerTests\<close>, \<open>QC_ConsensusTests\<close>, \<open>QC_StorageTests\<close>, \<open>QC_NodeTests\<close>:
    the unit tests of all crates as values of the model, with the proof that each passes on every platform that
    behaves as the test relies on (a hash that tells its data apart, a signature library that refuses what was
    changed, networks and codecs that work), and concrete instances in which that holds. Of a test with threads
    the model has one order of their steps.

  What the properties show.
  \<^item> Ledger: no transaction creates units of an asset except by announcing it, with overflow checks or while
    the sums fit 128 bits (in a release build a transfer can mint 2^128 units); spends are authorised; the
    exact effect on the UTXO set, and the effect of a refused transaction.
  \<^item> Scripts: evaluation returns, stays within gas and stack limits, and a signature check that passes
    means a verified signature on this input.
  \<^item> Consensus: what a validated block says about the chain after it, one proposer per height, when a
    proposal is valid.
  \<^item> Runtime and storage: an invariant of every reachable state, durability of accepted blocks, recovery
    after any failing system calls of a node that could read the metadata of its history when it started (and
    the loss of the history when a start cannot), a conflict-free mempool, block production.
  \<^item> Network: the network core refines the runtime machine, so the properties above hold of every node
    whatever frames, requests and timers it meets, in every interleaving of the two threads; the peer table
    is consistent; no service without a handshake; how far broadcasts and presence replies go; synchronisation from an honest peer over HTTP
    converges, and a transaction spreads; over UDP, block synchronisation converges between two nodes on a
    network that loses nothing, and a produced block reaches the peers if every link works, but a lost block request stalls
    synchronisation with its peer.
  \<^item> Agreement: a node never sends two blocks for one height; nodes of one validator set agree on every
    height whose turn is that of one of them, and never fork if they hold all validator keys. Starts and
    restarts are taken to be able to read the metadata of the history; that nobody sends two blocks for one
    height is proved, not assumed.
  \<^item> The running program: every state it reaches is one of the node machine; jobs keep their intervals;
    production from the timer succeeds; a job whose rescheduling fails is lost; what \<open>keygen\<close> prints can be
    loaded.
  \<^item> Encodings: injectivity of the consensus encoders, what ids, roots and signature hashes commit to (up to
    a collision of the hash, stated as such), round trips of keys, frames and key files.

  Parameters. \<open>platform\<close> holds the two pqcrypto libraries (\<open>pq_lib\<close>, with their documented
  correctness as the hypothesis \<open>pq_lib_correct\<close>), \<open>blake3\<close>, and whether the build checks overflow. The bincode
  decoder of witnesses, the JSON codecs and the bincode codec of messages are functions with their documented
  laws as hypotheses: what was written is read back (\<open>json_codec_ok\<close>, \<open>bincode_ok\<close>, \<open>keypair_codec_ok\<close>), and
  decoding does not make its input longer (\<open>decoder_bounded\<close>). System calls, name resolution,
  \<open>getifaddrs\<close>, clocks, links to peers and HTTP peers are outcomes given to the operation (\<open>io_outcome\<close>,
  \<open>read_outcome\<close>, \<open>start_env\<close>, \<open>call\<close>, \<open>http_peer\<close>, \<open>core_env\<close>,
  \<open>run_env\<close>), over which the theorems quantify. Each hypothesis has a
  witness with a concrete instance.

  Termination and bounds. No definition uses fuel: loops are structural, or have a measure (the HTTP
  synchronisation loop: the distance to the peer's tip, which an accepted block shortens). Machine
  integers are words of their width; \<open>usize\<close> is the 64-bit one.

  Not modelled, and why.
  \<^item> Parsing of the command line (\<open>clap\<close>), and lines on the error stream about single HTTP synchronisations.
  \<^item> The transports (\<open>tiny_http\<close>, \<open>ureq\<close>, the UDP library) and the proactor: libraries. Of the proactor the
    model has the timers and registrations it was given, under the contract stated in \<open>QC_Schedule\<close>: a deferred
    callback runs at most once and not before its delay is over, and a call that fails queues nothing. When it
    runs a callback that is due is arbitrary.
  \<^item> Threads: HTTP requests run between any two lockings of the runtime in a callback, as in the program; the
    code between two lockings touches only what its thread owns, so its finer interleavings are not
    distinguished. A panic ends the run in the model.
  \<^item> Reading the C structures of \<open>getifaddrs\<close>: the model starts from decoded entries.
  \<^item> Loss of unsynced data at a power failure: a system call either fails or takes effect.
  \<^item> Zeroizing of secret memory, \<open>Debug\<close> output, derived serde implementations.
\<close>

end
